(* ===== verification/Go_Prelude.thy ===== *)
theory Go_Prelude
  imports Complex_Main "HOL-Library.Word" "HOL-Library.List_Lexorder" "HOL-Library.Char_ord"
    "HOL-Library.Multiset" "HOL-Library.Sublist" "HOL-Library.AList"
begin

text \<open>
  The part of the Go language and of its standard library that the modelled sources use, and the
  generic lemmas the component theories share.

  \<^item> A Go \<open>string\<close> is a sequence of bytes: an Isabelle \<^typ>\<open>string\<close> (a list of 8-bit characters).
    Its order \<open><\<close> is the bytewise lexicographic one (\<open>List_Lexorder\<close>, \<open>Char_ord\<close>).
  \<^item> \<open>strings.TrimSpace\<close>, \<open>strings.SplitN\<close>, \<open>strings.HasPrefix\<close>, \<open>strings.Contains\<close> and
    \<open>strings.ToLower\<close> are executable functions on byte strings.
  \<^item> A \<open>time.Time\<close> is an integer, the nanoseconds since Go's zero time (0001-01-01 UTC), so that
    \<open>IsZero\<close> is \<open>t = 0\<close>; \<open>time.Duration\<close> arithmetic is wrapped to 64 bits by \<open>int64\<close>.
  \<^item> A value of the dynamic type \<open>any\<close> (decoded JSON or YAML) is a \<open>goany\<close>.
  \<^item> \<open>sort.SliceStable\<close> and \<open>sort.Slice\<close> are \<open>stable_sort\<close>. \<open>sort.Slice\<close> may order elements
    that compare equal in any way; the stable order is the one chosen here, and no lemma about a
    \<open>sort.Slice\<close> call depends on the order of ties.
\<close>

section \<open>Collections of rewrite rules\<close>

named_theorems go_simps \<open>defining equations of small Go helpers\<close>

section \<open>Byte strings\<close>

definition hasPrefix :: "string \<Rightarrow> string \<Rightarrow> bool" where
  "hasPrefix s p = (take (length p) s = p)"

definition hasSuffix :: "string \<Rightarrow> string \<Rightarrow> bool" where
  "hasSuffix s p = (length p \<le> length s \<and> drop (length s - length p) s = p)"

text \<open>\<open>strings.SplitN(s, sep, n)\<close> for a one-byte separator and \<open>n > 0\<close>.\<close>

fun splitN :: "char \<Rightarrow> nat \<Rightarrow> string \<Rightarrow> string list" where
  "splitN c 0 s = []"
| "splitN c (Suc 0) s = [s]"
| "splitN c (Suc (Suc n)) s =
     (case dropWhile (\<lambda>x. x \<noteq> c) s of
        [] \<Rightarrow> [s]
      | _ # rest \<Rightarrow> takeWhile (\<lambda>x. x \<noteq> c) s # splitN c (Suc n) rest)"

text \<open>
  The UTF-8 encodings of the code points for which \<open>unicode.IsSpace\<close> holds: six ASCII controls and
  blanks, U+0085, U+00A0, U+1680, U+2000 to U+200A, U+2028, U+2029, U+202F, U+205F and U+3000.
\<close>

definition spaceRunes :: "string list" where
  "spaceRunes =
     [[CHR 0x09], [CHR 0x0A], [CHR 0x0B], [CHR 0x0C], [CHR 0x0D], [CHR 0x20],
      [CHR 0xC2, CHR 0x85], [CHR 0xC2, CHR 0xA0], [CHR 0xE1, CHR 0x9A, CHR 0x80],
      [CHR 0xE2, CHR 0x80, CHR 0x80], [CHR 0xE2, CHR 0x80, CHR 0x81], [CHR 0xE2, CHR 0x80, CHR 0x82],
      [CHR 0xE2, CHR 0x80, CHR 0x83], [CHR 0xE2, CHR 0x80, CHR 0x84], [CHR 0xE2, CHR 0x80, CHR 0x85],
      [CHR 0xE2, CHR 0x80, CHR 0x86], [CHR 0xE2, CHR 0x80, CHR 0x87], [CHR 0xE2, CHR 0x80, CHR 0x88],
      [CHR 0xE2, CHR 0x80, CHR 0x89], [CHR 0xE2, CHR 0x80, CHR 0x8A], [CHR 0xE2, CHR 0x80, CHR 0xA8],
      [CHR 0xE2, CHR 0x80, CHR 0xA9], [CHR 0xE2, CHR 0x80, CHR 0xAF], [CHR 0xE2, CHR 0x81, CHR 0x9F],
      [CHR 0xE3, CHR 0x80, CHR 0x80]]"

lemma spaceRunes_nonempty: "w \<in> set spaceRunes \<Longrightarrow> w \<noteq> []"
  by (auto simp: spaceRunes_def)

text \<open>Strip from the front every prefix that is one of \<open>ws\<close>; the guard on the length only
  matters for an empty \<open>w\<close>, which the lists used here do not contain.\<close>

function stripFront :: "string list \<Rightarrow> string \<Rightarrow> string" where
  "stripFront ws s =
     (case find (\<lambda>w. w \<noteq> [] \<and> hasPrefix s w) ws of
        None \<Rightarrow> s
      | Some w \<Rightarrow> stripFront ws (drop (length w) s))"
  by pat_completeness auto
termination
proof (relation "measure (\<lambda>(ws, s). length s)")
  fix ws and s w :: string
  assume "find (\<lambda>w. w \<noteq> [] \<and> hasPrefix s w) ws = Some w"
  then have "w \<noteq> []" "take (length w) s = w"
    by (auto simp: find_Some_iff hasPrefix_def)
  then have "0 < length w" "0 < length s" by auto
  then show "((ws, drop (length w) s), ws, s) \<in> measure (\<lambda>(ws, s). length s)" by auto
qed simp

declare stripFront.simps [simp del]

definition trimSpace :: "string \<Rightarrow> string" where
  "trimSpace s =
     rev (stripFront (map rev spaceRunes) (rev (stripFront spaceRunes s)))"

definition toLowerByte :: "char \<Rightarrow> char" where
  "toLowerByte c = (if CHR ''A'' \<le> c \<and> c \<le> CHR ''Z'' then char_of (of_char c + (32::nat)) else c)"

text \<open>\<open>strings.ToLower\<close> and \<open>strings.ToUpper\<close> on ASCII text, byte by byte.\<close>

definition toUpperByte :: "char \<Rightarrow> char" where
  "toUpperByte c = (if CHR ''a'' \<le> c \<and> c \<le> CHR ''z'' then char_of (of_char c - (32::nat)) else c)"

definition toLower :: "string \<Rightarrow> string" where
  "toLower s = map toLowerByte s"

definition toUpper :: "string \<Rightarrow> string" where
  "toUpper s = map toUpperByte s"

text \<open>\<open>strings.Join\<close>\<close>

fun joinStrings :: "string \<Rightarrow> string list \<Rightarrow> string" where
  "joinStrings sep [] = []"
| "joinStrings sep [x] = x"
| "joinStrings sep (x # y # zs) = x @ sep @ joinStrings sep (y # zs)"

text \<open>Decimal rendering, \<open>fmt.Sprintf("%d", n)\<close>.\<close>

definition digitChar :: "int \<Rightarrow> char" where
  "digitChar d = char_of (48 + d)"

function showPos :: "int \<Rightarrow> string" where
  "showPos n = (if n < 10 then [digitChar n] else showPos (n div 10) @ [digitChar (n mod 10)])"
  by pat_completeness auto
termination
  by (relation "measure nat") auto

declare showPos.simps [simp del]

definition showInt :: "int \<Rightarrow> string" where
  "showInt i = (if i < 0 then ''-'' @ showPos (- i) else showPos i)"

text \<open>\<open>strconv.ParseBool\<close>.\<close>

definition parseBool :: "string \<Rightarrow> bool option" where
  "parseBool s =
     (if List.member [''1'', ''t'', ''T'', ''TRUE'', ''true'', ''True''] s then Some True
      else if List.member [''0'', ''f'', ''F'', ''FALSE'', ''false'', ''False''] s then Some False
      else None)"

section \<open>64-bit integers, durations and times\<close>

definition int64 :: "int \<Rightarrow> int" where
  "int64 x = (x + 2 ^ 63) mod 2 ^ 64 - 2 ^ 63"

type_synonym gotime = int
type_synonym duration = int

abbreviation Second :: duration where "Second \<equiv> 1000000000"
abbreviation Minute :: duration where "Minute \<equiv> 60000000000"
abbreviation Hour :: duration where "Hour \<equiv> 3600000000000"

definition isZeroTime :: "gotime \<Rightarrow> bool" where
  "isZeroTime t = (t = 0)"

text \<open>\<open>t.UTC().Format(time.RFC3339)\<close> for years 1 to 9999: the proleptic Gregorian date of the
  day number, then the time of day, then \<open>Z\<close>.\<close>

definition civil_of_days :: "int \<Rightarrow> int \<times> int \<times> int" where
  "civil_of_days n =
     (let z = n + 306;
          era = z div 146097;
          doe = z mod 146097;
          yoe = (doe - doe div 1460 + doe div 36524 - doe div 146096) div 365;
          doy = doe - (365 * yoe + yoe div 4 - yoe div 100);
          mp = (5 * doy + 2) div 153;
          d = doy - (153 * mp + 2) div 5 + 1;
          m = (if mp < 10 then mp + 3 else mp - 9);
          y = yoe + era * 400 + (if m \<le> 2 then 1 else 0)
      in (y, m, d))"

definition padNat :: "nat \<Rightarrow> int \<Rightarrow> string" where
  "padNat w n = (let s = showInt n in replicate (w - length s) (CHR ''0'') @ s)"

definition formatRFC3339 :: "gotime \<Rightarrow> string" where
  "formatRFC3339 t =
     (let secs = t div Second; (y, m, d) = civil_of_days (secs div 86400); r = secs mod 86400
      in padNat 4 y @ ''-'' @ padNat 2 m @ ''-'' @ padNat 2 d @ ''T'' @
         padNat 2 (r div 3600) @ '':'' @ padNat 2 (r div 60 mod 60) @ '':'' @
         padNat 2 (r mod 60) @ ''Z'')"

text \<open>\<open>time.Parse(time.RFC3339, s)\<close> on texts without fractional seconds, which is what \<open>Format\<close> prints.\<close>

definition days_of_civil :: "int \<Rightarrow> int \<Rightarrow> int \<Rightarrow> int" where
  "days_of_civil y m d =
     (let y' = (if m \<le> 2 then y - 1 else y);
          era = y' div 400;
          yoe = y' mod 400;
          doy = (153 * (if m > 2 then m - 3 else m + 9) + 2) div 5 + d - 1;
          doe = yoe * 365 + yoe div 4 - yoe div 100 + doy
      in era * 146097 + doe - 306)"

definition daysIn :: "int \<Rightarrow> int \<Rightarrow> int" where
  "daysIn m y =
     (if m = 2 then (if y mod 4 = 0 \<and> (y mod 100 \<noteq> 0 \<or> y mod 400 = 0) then 29 else 28)
      else if m = 4 \<or> m = 6 \<or> m = 9 \<or> m = 11 then 30 else 31)"

definition isDigit :: "char \<Rightarrow> bool" where
  "isDigit c = (CHR ''0'' \<le> c \<and> c \<le> CHR ''9'')"

definition parseUint :: "string \<Rightarrow> int \<Rightarrow> int \<Rightarrow> int option" where
  "parseUint s lo hi =
     (if list_all isDigit s then
        let x = foldl (\<lambda>n c. n * 10 + (of_char c - 48)) 0 s
        in if lo \<le> x \<and> x \<le> hi then Some x else None
      else None)"

definition slice :: "string \<Rightarrow> nat \<Rightarrow> nat \<Rightarrow> string" where
  "slice s i j = take (j - i) (drop i s)"

definition parseZone :: "string \<Rightarrow> int option" where
  "parseZone s =
     (if s = ''Z'' then Some 0
      else if length s \<noteq> 6 then None
      else
        (case (parseUint (slice s 1 3) 0 23, parseUint (slice s 4 6) 0 59) of
           (Some hr, Some mm) \<Rightarrow>
             if (s ! 0 = CHR ''-'' \<or> s ! 0 = CHR ''+'') \<and> s ! 3 = CHR '':''
             then Some ((if s ! 0 = CHR ''-'' then -1 else 1) * (hr * 60 + mm) * 60) else None
         | _ \<Rightarrow> None))"

definition parseRFC3339 :: "string \<Rightarrow> gotime option" where
  "parseRFC3339 s =
     (if length s < 19 then None
      else
        (case (parseUint (slice s 0 4) 0 9999, parseUint (slice s 5 7) 1 12) of
           (Some year, Some month) \<Rightarrow>
             (case (parseUint (slice s 8 10) 1 (daysIn month year), parseUint (slice s 11 13) 0 23,
                    parseUint (slice s 14 16) 0 59, parseUint (slice s 17 19) 0 59,
                    parseZone (drop 19 s)) of
                (Some day, Some hour, Some mn, Some sec, Some off) \<Rightarrow>
                  if s ! 4 = CHR ''-'' \<and> s ! 7 = CHR ''-'' \<and> s ! 10 = CHR ''T'' \<and> s ! 13 = CHR '':'' \<and>
                     s ! 16 = CHR '':''
                  then Some ((days_of_civil year month day * 86400 + hour * 3600 + mn * 60 + sec - off) * Second)
                  else None
              | _ \<Rightarrow> None)
         | _ \<Rightarrow> None))"

text \<open>\<open>strings.Compare\<close> and \<open>time.Time.Compare\<close>.\<close>

definition compare :: "'a::linorder \<Rightarrow> 'a \<Rightarrow> int" where
  "compare a b = (if a < b then -1 else if a > b then 1 else 0)"

text \<open>\<open>time.Duration.String\<close>: hours, minutes and seconds with the fraction stripped of trailing zeros,
  or one smaller unit below a second.\<close>

fun fracDigits :: "nat \<Rightarrow> int \<Rightarrow> string" where
  "fracDigits 0 v = []"
| "fracDigits (Suc p) v = fracDigits p (v div 10) @ [digitChar (v mod 10)]"

definition stripZeros :: "string \<Rightarrow> string" where
  "stripZeros s = rev (dropWhile (\<lambda>c. c = CHR ''0'') (rev s))"

definition fmtFrac :: "int \<Rightarrow> nat \<Rightarrow> string" where
  "fmtFrac v prec =
     (let f = stripZeros (fracDigits prec (v mod 10 ^ prec)) in if f = [] then [] else ''.'' @ f)"

definition durationString :: "duration \<Rightarrow> string" where
  "durationString d =
     (let u = \<bar>d\<bar>; neg = (if d < 0 then ''-'' else [])
      in if u = 0 then ''0s''
         else if u < 1000 then neg @ showInt u @ ''ns''
         else if u < 1000000 then neg @ showInt (u div 1000) @ fmtFrac u 3 @ [CHR 0xC2, CHR 0xB5] @ ''s''
         else if u < 1000000000 then neg @ showInt (u div 1000000) @ fmtFrac u 6 @ ''ms''
         else
           let secs = u div 1000000000; mins = secs div 60; hours = mins div 60;
               spart = showInt (secs mod 60) @ fmtFrac u 9 @ ''s'';
               mpart = (if mins > 0 then showInt (mins mod 60) @ ''m'' else []);
               hpart = (if hours > 0 then showInt hours @ ''h'' else [])
           in neg @ hpart @ mpart @ spart)"

section \<open>Dynamic values\<close>

datatype goany =
    GNil
  | GBool bool
  | GInt int
  | GFloat rat
  | GStr string
  | GSlice "goany list"
  | GMap "(string \<times> goany) list"

type_synonym gomap = "(string \<times> goany) list"

text \<open>Indexing a \<open>map[string]any\<close>: a missing key reads as the nil interface. The functions
  \<open>as_string\<close> and so on are the type assertions \<open>v.(T)\<close> in their two-result form.\<close>

definition mapIndex :: "gomap \<Rightarrow> string \<Rightarrow> goany" where
  "mapIndex m k = (case map_of m k of None \<Rightarrow> GNil | Some v \<Rightarrow> v)"

fun as_string :: "goany \<Rightarrow> string option" where
  "as_string (GStr s) = Some s"
| "as_string _ = None"

fun as_bool :: "goany \<Rightarrow> bool option" where
  "as_bool (GBool b) = Some b"
| "as_bool _ = None"

fun as_int64 :: "goany \<Rightarrow> int option" where
  "as_int64 (GInt i) = Some i"
| "as_int64 _ = None"

fun as_map :: "goany \<Rightarrow> gomap option" where
  "as_map (GMap m) = Some m"
| "as_map _ = None"

text \<open>\<open>m[k].(string)\<close> with the zero value when the assertion fails.\<close>

definition strField :: "gomap \<Rightarrow> string \<Rightarrow> string" where
  "strField m k = (case as_string (mapIndex m k) of None \<Rightarrow> [] | Some s \<Rightarrow> s)"

text \<open>Reading a \<open>map[string]string\<close>: the zero value when the key is missing.\<close>

definition strMapIndex :: "(string \<times> string) list \<Rightarrow> string \<Rightarrow> string" where
  "strMapIndex m k = (case map_of m k of None \<Rightarrow> [] | Some v \<Rightarrow> v)"

section \<open>Sorting with a comparison function\<close>

fun insert_by :: "('a \<Rightarrow> 'a \<Rightarrow> bool) \<Rightarrow> 'a \<Rightarrow> 'a list \<Rightarrow> 'a list" where
  "insert_by lt x [] = [x]"
| "insert_by lt x (y # ys) = (if lt y x then y # insert_by lt x ys else x # y # ys)"

definition stable_sort :: "('a \<Rightarrow> 'a \<Rightarrow> bool) \<Rightarrow> 'a list \<Rightarrow> 'a list" where
  "stable_sort lt xs = foldr (insert_by lt) xs []"

lemma stable_sort_Nil [simp]: "stable_sort lt [] = []"
  by (simp add: stable_sort_def)

lemma stable_sort_single [simp]: "stable_sort lt [x] = [x]"
  by (simp add: stable_sort_def)

lemma mset_insert_by: "mset (insert_by lt x xs) = add_mset x (mset xs)"
  by (induction xs) auto

lemma mset_stable_sort [simp]: "mset (stable_sort lt xs) = mset xs"
  by (induction xs) (auto simp: stable_sort_def mset_insert_by)

lemma set_stable_sort [simp]: "set (stable_sort lt xs) = set xs"
  by (rule mset_eq_setD [OF mset_stable_sort])

lemma length_stable_sort [simp]: "length (stable_sort lt xs) = length xs"
  by (rule mset_eq_length [OF mset_stable_sort])

lemma stable_sort_Nil_iff [simp]: "stable_sort lt xs = [] \<longleftrightarrow> xs = []"
  using length_stable_sort [of lt xs] by (metis length_0_conv)

lemma distinct_stable_sort [simp]: "distinct (stable_sort lt xs) = distinct xs"
  by (rule mset_eq_imp_distinct_iff [OF mset_stable_sort])

text \<open>A comparison function that is a strict weak order sorts: no later element is smaller than an
  earlier one, and elements that compare equal keep their order.\<close>

locale weak_order =
  fixes lt :: "'a \<Rightarrow> 'a \<Rightarrow> bool"
  assumes asym: "lt x y \<Longrightarrow> \<not> lt y x"
    and negtrans: "lt x z \<Longrightarrow> lt x y \<or> lt y z"
begin

lemma le_trans: "\<not> lt y x \<Longrightarrow> \<not> lt z y \<Longrightarrow> \<not> lt z x"
  using negtrans by blast

lemma sorted_insert_by:
  "sorted_wrt (\<lambda>a b. \<not> lt b a) xs \<Longrightarrow> sorted_wrt (\<lambda>a b. \<not> lt b a) (insert_by lt x xs)"
proof (induction xs)
  case Nil
  then show ?case by simp
next
  case (Cons y ys)
  have set: "set (insert_by lt x ys) = insert x (set ys)"
    using mset_insert_by [of lt x ys] by (metis set_mset_add_mset_insert set_mset_mset)
  show ?case
  proof (cases "lt y x")
    case True
    with Cons set asym show ?thesis by auto
  next
    case False
    with Cons.prems show ?thesis by (auto dest: le_trans)
  qed
qed

lemma sorted_stable_sort: "sorted_wrt (\<lambda>a b. \<not> lt b a) (stable_sort lt xs)"
  by (induction xs) (auto simp: stable_sort_def intro: sorted_insert_by)

lemma hd_stable_sort_minimal:
  assumes "xs \<noteq> []" "y \<in> set xs"
  shows "\<not> lt y (hd (stable_sort lt xs))"
proof (cases "stable_sort lt xs")
  case Nil
  with assms show ?thesis by simp
next
  case (Cons z zs)
  then have "y = z \<or> y \<in> set zs" using assms(2) set_stable_sort [of lt xs] by auto
  then show ?thesis using sorted_stable_sort [of xs] Cons asym by auto
qed

lemma filter_insert_by:
  "filter P (insert_by lt x xs) =
     (if P x then insert_by lt x (filter P xs) else filter P xs)"
  if "sorted_wrt (\<lambda>a b. \<not> lt b a) xs"
  using that
proof (induction xs)
  case Nil
  then show ?case by simp
next
  case (Cons y ys)
  have "insert_by lt x (filter P ys) = x # filter P ys" if "\<not> lt y x"
  proof -
    have "\<forall>z \<in> set (filter P ys). \<not> lt z x"
      using Cons.prems that le_trans by auto
    then show ?thesis by (cases "filter P ys") auto
  qed
  with Cons show ?case by auto
qed

text \<open>Filtering commutes with the stable sort.\<close>

lemma filter_stable_sort: "filter P (stable_sort lt xs) = stable_sort lt (filter P xs)"
proof (induction xs)
  case Nil
  then show ?case by (simp add: stable_sort_def)
next
  case (Cons x xs)
  have "filter P (stable_sort lt (x # xs)) = filter P (insert_by lt x (stable_sort lt xs))"
    by (simp add: stable_sort_def)
  also have "\<dots> = (if P x then insert_by lt x (stable_sort lt (filter P xs))
                   else stable_sort lt (filter P xs))"
    by (simp add: filter_insert_by [OF sorted_stable_sort] Cons.IH)
  also have "\<dots> = stable_sort lt (filter P (x # xs))"
    by (simp add: stable_sort_def)
  finally show ?case .
qed

end

section \<open>Lemmas on the string functions\<close>

lemma hasPrefix_append [simp]: "hasPrefix (p @ s) p"
  by (simp add: hasPrefix_def)

lemma hasPrefixD: "hasPrefix s p \<Longrightarrow> s = p @ drop (length p) s"
  by (metis append_take_drop_id hasPrefix_def)

lemma splitN_2:
  "splitN c 2 s = (if c \<in> set s then [takeWhile (\<lambda>x. x \<noteq> c) s, tl (dropWhile (\<lambda>x. x \<noteq> c) s)] else [s])"
proof (cases "c \<in> set s")
  case True
  then have "dropWhile (\<lambda>x. x \<noteq> c) s \<noteq> []" by (simp add: dropWhile_eq_Nil_conv)
  with True show ?thesis
    by (cases "dropWhile (\<lambda>x. x \<noteq> c) s") (auto simp: numeral_2_eq_2)
next
  case False
  then have "dropWhile (\<lambda>x. x \<noteq> c) s = []" by (auto simp: dropWhile_eq_Nil_conv)
  with False show ?thesis by (auto simp: numeral_2_eq_2 simp del: dropWhile_eq_Nil_conv)
qed

lemma splitN_2_append:
  assumes "c \<notin> set a"
  shows "splitN c 2 (a @ c # b) = [a, b]"
proof -
  have "takeWhile (\<lambda>x. x \<noteq> c) (a @ c # b) = a" "dropWhile (\<lambda>x. x \<noteq> c) (a @ c # b) = c # b"
    using assms by (induction a) auto
  then show ?thesis by (simp add: splitN_2)
qed

lemma splitN_2_length2:
  assumes "splitN c 2 s = [a, b]"
  shows "s = a @ c # b \<and> c \<notin> set a"
proof -
  have mem: "c \<in> set s" using assms by (auto simp: splitN_2 split: if_splits)
  then obtain d where d: "dropWhile (\<lambda>x. x \<noteq> c) s = c # d"
    by (cases "dropWhile (\<lambda>x. x \<noteq> c) s")
      (auto simp: dropWhile_eq_Nil_conv dropWhile_eq_Cons_conv)
  with assms mem have "a = takeWhile (\<lambda>x. x \<noteq> c) s" "b = d"
    by (auto simp: splitN_2)
  with d show ?thesis
    by (metis (mono_tags, lifting) set_takeWhileD takeWhile_dropWhile_id)
qed

lemma append_sep_inject:
  fixes c :: char
  assumes "c \<notin> set a" "c \<notin> set a'"
  shows "a @ c # b = a' @ c # b' \<longleftrightarrow> a = a' \<and> b = b'"
  using assms by (metis list.inject splitN_2_append)

lemma int64_id [simp]: "- (2 ^ 63) \<le> x \<Longrightarrow> x < 2 ^ 63 \<Longrightarrow> int64 x = x"
  unfolding int64_def by (subst mod_pos_pos_trivial) auto

lemma int64_range: "- (2 ^ 63) \<le> int64 x \<and> int64 x < 2 ^ 63"
  unfolding int64_def using pos_mod_bound [of "2 ^ 64" "x + 2 ^ 63"] by auto

lemma stripFront_no_space:
  assumes "\<And>w. w \<in> set ws \<Longrightarrow> w \<noteq> [] \<Longrightarrow> \<not> hasPrefix s w"
  shows "stripFront ws s = s"
proof -
  have "find (\<lambda>w. w \<noteq> [] \<and> hasPrefix s w) ws = None"
    using assms by (auto simp: find_None_iff)
  then show ?thesis by (subst stripFront.simps) simp
qed

lemma trimSpace_Nil [simp]: "trimSpace [] = []"
  by (simp add: trimSpace_def stripFront_no_space hasPrefix_def)


lemma map_sum_InrE:
  assumes "map_sum f g r = Inr y"
  obtains x where "r = Inr x" "g x = y"
  using assms by (cases r) auto

lemma list_012:
  obtains (0) "xs = []" | (1) x where "xs = [x]" | (2) x y zs where "xs = x # y # zs"
  by (metis list.exhaust)

section \<open>Association lists with distinct keys\<close>

lemma map_of_filter_value:
  assumes "distinct (map fst al)"
  shows "map_of (filter (\<lambda>(_, k). P k) al) i =
    (case map_of al i of None \<Rightarrow> None | Some k \<Rightarrow> if P k then Some k else None)"
  using assms
proof (induction al)
  case Nil
  then show ?case by simp
next
  case (Cons a al)
  moreover have "map_of al (fst a) = None" using Cons.prems by (simp add: map_of_eq_None_iff)
  ultimately show ?case by (cases a) (auto split: option.splits)
qed

lemma length_filter_value:
  assumes "distinct (map fst al)"
  shows "length (filter (\<lambda>(_, k). P k) al) = card {i. \<exists>k. map_of al i = Some k \<and> P k}"
proof -
  let ?f = "filter (\<lambda>(_, k). P k) al"
  have d: "distinct (map fst ?f)" using assms by (rule distinct_map_filter)
  have "{i. \<exists>k. map_of al i = Some k \<and> P k} = set (map fst ?f)"
    using assms by (force simp: map_of_eq_Some_iff)
  moreover have "card (set (map fst ?f)) = length ?f"
    using d by (metis distinct_card length_map)
  ultimately show ?thesis by simp
qed

lemma map_of_map_value: "map_of (map (\<lambda>(i, k). (i, f k)) al) i = map_option f (map_of al i)"
  by (simp add: map_of_map)

lemma find_valueD:
  assumes "find (\<lambda>(_, k). P k) al = Some (i, k)" "distinct (map fst al)"
  shows "map_of al i = Some k \<and> P k"
proof -
  have "(i, k) \<in> set al \<and> P k" using assms(1) by (auto simp: find_Some_iff in_set_conv_nth)
  with assms(2) show ?thesis by (simp add: map_of_eq_Some_iff)
qed

lemma find_value_None: "find (\<lambda>(_, k). P k) al = None \<Longrightarrow> map_of al i = Some k \<Longrightarrow> \<not> P k"
  by (auto simp: find_None_iff dest: map_of_SomeD)

lemma set_map_filterD: "y \<in> set (List.map_filter f xs) \<Longrightarrow> \<exists>x \<in> set xs. f x = Some y"
  by (auto simp: List.map_filter_def)

end
