(* ===== verification/Go_Crypto.thy ===== *)
theory Go_Crypto
  imports Go_Prelude
begin

text \<open>
  The standard-library cryptography the key generator calls: \<open>crypto/sha256.Sum256\<close> (FIPS 180-4) on
  byte strings, and \<open>encoding/hex.EncodeToString\<close>. Both compute, so that a concrete key can be hashed
  by the simplifier. No lemma assumes that SHA-256 has no collisions: the properties that need two
  hashes to differ name the two hashes.
\<close>

unbundle bit_operations_syntax

type_synonym w32 = "32 word"

definition sha_K :: "w32 list" where
  "sha_K =
     [1116352408, 1899447441, 3049323471, 3921009573, 961987163, 1508970993, 2453635748, 2870763221,
      3624381080, 310598401, 607225278, 1426881987, 1925078388, 2162078206, 2614888103, 3248222580,
      3835390401, 4022224774, 264347078, 604807628, 770255983, 1249150122, 1555081692, 1996064986,
      2554220882, 2821834349, 2952996808, 3210313671, 3336571891, 3584528711, 113926993, 338241895,
      666307205, 773529912, 1294757372, 1396182291, 1695183700, 1986661051, 2177026350, 2456956037,
      2730485921, 2820302411, 3259730800, 3345764771, 3516065817, 3600352804, 4094571909, 275423344,
      430227734, 506948616, 659060556, 883997877, 958139571, 1322822218, 1537002063, 1747873779,
      1955562222, 2024104815, 2227730452, 2361852424, 2428436474, 2756734187, 3204031479, 3329325298]"

definition sha_H0 :: "w32 list" where
  "sha_H0 = [0x6a09e667, 0xbb67ae85, 0x3c6ef372, 0xa54ff53a, 0x510e527f, 0x9b05688c, 0x1f83d9ab, 0x5be0cd19]"

definition rotr :: "nat \<Rightarrow> w32 \<Rightarrow> w32" where
  "rotr n x = drop_bit n x OR push_bit (32 - n) x"

definition sha_s0 :: "w32 \<Rightarrow> w32" where
  "sha_s0 x = rotr 7 x XOR rotr 18 x XOR drop_bit 3 x"

definition sha_s1 :: "w32 \<Rightarrow> w32" where
  "sha_s1 x = rotr 17 x XOR rotr 19 x XOR drop_bit 10 x"

definition sha_S0 :: "w32 \<Rightarrow> w32" where
  "sha_S0 x = rotr 2 x XOR rotr 13 x XOR rotr 22 x"

definition sha_S1 :: "w32 \<Rightarrow> w32" where
  "sha_S1 x = rotr 6 x XOR rotr 11 x XOR rotr 25 x"

definition sha_Ch :: "w32 \<Rightarrow> w32 \<Rightarrow> w32 \<Rightarrow> w32" where
  "sha_Ch x y z = (x AND y) XOR (NOT x AND z)"

definition sha_Maj :: "w32 \<Rightarrow> w32 \<Rightarrow> w32 \<Rightarrow> w32" where
  "sha_Maj x y z = (x AND y) XOR (x AND z) XOR (y AND z)"

text \<open>The message schedule, newest word first: \<open>ws\<close> always holds at least sixteen words.\<close>

fun sha_schedule :: "nat \<Rightarrow> w32 list \<Rightarrow> w32 list" where
  "sha_schedule 0 ws = ws"
| "sha_schedule (Suc n) ws =
     sha_schedule n ((sha_s1 (ws ! 1) + ws ! 6 + sha_s0 (ws ! 14) + ws ! 15) # ws)"

fun sha_rounds :: "w32 list \<Rightarrow> w32 list \<Rightarrow> w32 list \<Rightarrow> w32 list" where
  "sha_rounds (k # ks) (w # ws) [a, b, c, d, e, f, g, h] =
     (let t1 = h + sha_S1 e + sha_Ch e f g + k + w;
          t2 = sha_S0 a + sha_Maj a b c
      in sha_rounds ks ws [t1 + t2, a, b, c, d + t1, e, f, g])"
| "sha_rounds _ _ st = st"

definition sha_compress :: "w32 list \<Rightarrow> w32 list \<Rightarrow> w32 list" where
  "sha_compress H block =
     map2 (+) H (sha_rounds sha_K (rev (sha_schedule 48 (rev block))) H)"

text \<open>A byte is a word below 256; four bytes make a big-endian word.\<close>

fun sha_words :: "w32 list \<Rightarrow> w32 list" where
  "sha_words (a # b # c # d # bs) =
     (push_bit 24 a OR push_bit 16 b OR push_bit 8 c OR d) # sha_words bs"
| "sha_words _ = []"

definition sha_word_bytes :: "w32 \<Rightarrow> w32 list" where
  "sha_word_bytes w =
     [drop_bit 24 w, drop_bit 16 w AND 255, drop_bit 8 w AND 255, w AND 255]"

text \<open>The length in bits as a big-endian 64-bit integer.\<close>

definition sha_length_bytes :: "int \<Rightarrow> w32 list" where
  "sha_length_bytes n = map (\<lambda>k. word_of_int (n div k mod 256))
     [72057594037927936, 281474976710656, 1099511627776, 4294967296, 16777216, 65536, 256, 1]"

definition sha_pad :: "w32 list \<Rightarrow> w32 list" where
  "sha_pad m =
     m @ [128] @ replicate ((119 - length m mod 64) mod 64) 0 @ sha_length_bytes (8 * int (length m))"

fun sha_blocks :: "nat \<Rightarrow> w32 list \<Rightarrow> w32 list \<Rightarrow> w32 list" where
  "sha_blocks 0 ws H = H"
| "sha_blocks (Suc n) ws H = sha_blocks n (drop 16 ws) (sha_compress H (take 16 ws))"

definition Sum256 :: "string \<Rightarrow> w32 list" where
  "Sum256 s =
     (let m = sha_pad (map of_char s)
      in concat (map sha_word_bytes (sha_blocks (length m div 64) (sha_words m) sha_H0)))"

definition hexDigit :: "w32 \<Rightarrow> char" where
  "hexDigit d = ''0123456789abcdef'' ! unat (d AND 15)"

definition hexEncodeToString :: "w32 list \<Rightarrow> string" where
  "hexEncodeToString bs = concat (map (\<lambda>b. [hexDigit (drop_bit 4 b), hexDigit b]) bs)"

section \<open>Shape of a digest\<close>

lemma length_sha_rounds [simp]: "length (sha_rounds ks ws st) = length st"
  by (induction ks ws st rule: sha_rounds.induct) (auto simp: Let_def)

lemma length_sha_blocks: "length H = 8 \<Longrightarrow> length (sha_blocks n ws H) = 8"
  by (induction n ws H rule: sha_blocks.induct) (auto simp: sha_compress_def)

lemma length_concat_const: "(\<And>x. length (f x) = k) \<Longrightarrow> length (concat (map f xs)) = k * length xs"
  by (induction xs) auto

lemma length_Sum256: "length (Sum256 s) = 32"
  by (simp add: Sum256_def Let_def length_concat_const [where k = 4] sha_word_bytes_def
      length_sha_blocks sha_H0_def)

lemma length_hexEncodeToString [simp]: "length (hexEncodeToString bs) = 2 * length bs"
  by (simp add: hexEncodeToString_def length_concat_const [where k = 2])

end
