(* ===== verification/Api_Key_Gen.thy ===== *)
theory Api_Key_Gen
  imports Go_Crypto
begin

text \<open>
  \<open>maas-api/internal/api_keys/keygen.go\<close>: generation, parsing, hashing and format validation of API
  keys \<open>sk-oai-{key_id}_{secret}\<close>. The random source is an argument (\<open>rand.Read\<close> either fills the
  buffer or fails), arbitrary-precision integers are \<^typ>\<open>int\<close>. The lemmas show that base62 encoding is
  injective and reversible, that every generated key passes the validator and parses back into the
  parts it was built from, and that the hash preimage \<open>key_id \<cdot> 0 \<cdot> secret\<close> determines both parts.
\<close>

section \<open>Constants\<close>

definition KeyPrefix :: string where "KeyPrefix = ''sk-oai-''"

definition KeyIDSeparator :: char where "KeyIDSeparator = CHR ''_''"

definition keyIDBytes :: nat where "keyIDBytes = 12"

definition entropyBytes :: nat where "entropyBytes = 32"

definition displayPrefixLength :: nat where "displayPrefixLength = 12"

definition alphabet :: string where
  "alphabet = ''0123456789ABCDEFGHIJKLMNOPQRSTUVWXYZabcdefghijklmnopqrstuvwxyz''"

section \<open>Base62\<close>

text \<open>\<open>new(big.Int).SetBytes(data)\<close>: a big-endian unsigned integer.\<close>

definition setBytes :: "8 word list \<Rightarrow> int" where
  "setBytes data = foldl (\<lambda>n b. n * 256 + uint b) 0 data"

function base62_loop :: "int \<Rightarrow> string \<Rightarrow> string" where
  "base62_loop n result =
     (if n > 0 then base62_loop (n div 62) (alphabet ! nat (n mod 62) # result) else result)"
  by pat_completeness auto
termination
  by (relation "measure (\<lambda>(n, _). nat n)") auto

declare base62_loop.simps [simp del]

definition encodeBase62 :: "8 word list \<Rightarrow> string" where
  "encodeBase62 data =
     (let result = base62_loop (setBytes data) []
      in if result = [] then [alphabet ! 0] else result)"

definition isBase62Char :: "char \<Rightarrow> bool" where
  "isBase62Char c =
     (\<not> ((c < CHR ''0'' \<or> c > CHR ''9'') \<and> (c < CHR ''A'' \<or> c > CHR ''Z'') \<and>
         (c < CHR ''a'' \<or> c > CHR ''z'')))"

text \<open>The loop ranges over the runes of the string; a byte of 128 or more only occurs in runes
  outside the three ranges, so checking bytes is checking runes.\<close>

definition isBase62 :: "string \<Rightarrow> bool" where
  "isBase62 s = list_all isBase62Char s"

section \<open>Keys\<close>

definition hashWithSalt :: "string \<Rightarrow> string \<Rightarrow> string" where
  "hashWithSalt keyID secret = hexEncodeToString (Sum256 (keyID @ [CHR 0x00] @ secret))"

record GeneratedKey =
  gk_plaintext :: string
  gk_hash :: string
  gk_prefix :: string

text \<open>The two arguments are the outcomes of the two \<open>rand.Read\<close> calls, \<^const>\<open>None\<close> for an error.\<close>

definition GenerateAPIKey ::
  "8 word list option \<Rightarrow> 8 word list option \<Rightarrow> string + GeneratedKey" where
  "GenerateAPIKey keyIDEntropy secretEntropy =
     (case keyIDEntropy of
        None \<Rightarrow> Inl ''failed to generate key_id entropy''
      | Some kb \<Rightarrow>
          let keyID = encodeBase62 kb in
          (case secretEntropy of
             None \<Rightarrow> Inl ''failed to generate secret entropy''
           | Some sb \<Rightarrow>
               let secret = encodeBase62 sb;
                   plaintext = KeyPrefix @ keyID @ [KeyIDSeparator] @ secret;
                   hash = hashWithSalt keyID secret;
                   prefix = (if length keyID \<ge> displayPrefixLength
                             then KeyPrefix @ take displayPrefixLength keyID @ ''...''
                             else KeyPrefix @ keyID @ ''...'')
               in Inr \<lparr>gk_plaintext = plaintext, gk_hash = hash, gk_prefix = prefix\<rparr>))"

definition ParseAPIKey :: "string \<Rightarrow> string + string \<times> string" where
  "ParseAPIKey key =
     (if \<not> hasPrefix key KeyPrefix then Inl ''invalid key prefix''
      else
        let body = drop (length KeyPrefix) key;
            parts = splitN KeyIDSeparator 2 body
        in if length parts \<noteq> 2 then Inl ''invalid key format: missing separator''
           else
             let keyID = parts ! 0; secret = parts ! 1
             in if keyID = [] \<or> secret = []
                then Inl ''invalid key format: empty key_id or secret''
                else Inr (keyID, secret))"

definition ValidateAPIKeyHash :: "string \<Rightarrow> string \<Rightarrow> bool" where
  "ValidateAPIKeyHash key storedHash =
     (case ParseAPIKey key of
        Inl _ \<Rightarrow> False
      | Inr (keyID, secret) \<Rightarrow> hashWithSalt keyID secret = storedHash)"

definition HashAPIKey :: "string \<Rightarrow> string" where
  "HashAPIKey key =
     (case ParseAPIKey key of Inl _ \<Rightarrow> [] | Inr (keyID, secret) \<Rightarrow> hashWithSalt keyID secret)"

definition IsValidKeyFormat :: "string \<Rightarrow> bool" where
  "IsValidKeyFormat key =
     (if \<not> hasPrefix key KeyPrefix then False
      else
        let body = drop (length KeyPrefix) key;
            parts = splitN KeyIDSeparator 2 body
        in if length parts \<noteq> 2 then False
           else
             let keyID = parts ! 0; secret = parts ! 1
             in if keyID = [] \<or> secret = [] then False
                else if \<not> isBase62 keyID then False
                else if \<not> isBase62 secret then False
                else True)"

section \<open>Base62 is a positional numeral system\<close>

text \<open>Reference definition: the value of a digit and of a numeral.\<close>

definition digitVal :: "char \<Rightarrow> int" where
  "digitVal c = (let k = (of_char c :: int) in
     if k < 58 then k - 48 else if k < 91 then k - 55 else k - 61)"

definition decodeBase62 :: "string \<Rightarrow> int" where
  "decodeBase62 s = foldl (\<lambda>n c. n * 62 + digitVal c) 0 s"

lemma length_alphabet [simp]: "length alphabet = 62"
  by (simp add: alphabet_def)

lemma all_alphabet:
  "\<forall>i < 62. digitVal (alphabet ! i) = int i \<and> isBase62Char (alphabet ! i)"
  by code_simp

lemma digitVal_alphabet: "0 \<le> d \<Longrightarrow> d < 62 \<Longrightarrow> digitVal (alphabet ! nat d) = d"
  using all_alphabet [rule_format, of "nat d"] by simp

lemma isBase62Char_alphabet: "0 \<le> d \<Longrightarrow> d < 62 \<Longrightarrow> isBase62Char (alphabet ! nat d)"
  using all_alphabet [rule_format, of "nat d"] by simp

lemma foldl_base: "foldl (\<lambda>n c. n * 62 + f c) (a::int) s = a * 62 ^ length s + foldl (\<lambda>n c. n * 62 + f c) 0 s"
proof (induction s arbitrary: a)
  case Nil
  then show ?case by simp
next
  case (Cons c s)
  show ?case
    using Cons.IH [of "a * 62 + f c"] Cons.IH [of "f c"] by (simp add: algebra_simps)
qed

lemma decodeBase62_Cons: "decodeBase62 (c # s) = digitVal c * 62 ^ length s + decodeBase62 s"
  unfolding decodeBase62_def using foldl_base [of digitVal "digitVal c" s] by simp

lemma decode_base62_loop:
  "0 \<le> n \<Longrightarrow> decodeBase62 (base62_loop n s) = n * 62 ^ length s + decodeBase62 s"
proof (induction n s rule: base62_loop.induct)
  case (1 n s)
  show ?case
  proof (cases "n > 0")
    case True
    let ?s = "alphabet ! nat (n mod 62) # s"
    have "decodeBase62 (base62_loop n s) = decodeBase62 (base62_loop (n div 62) ?s)"
      using True by (simp add: base62_loop.simps [of n s])
    also have "\<dots> = n div 62 * 62 ^ length ?s + decodeBase62 ?s"
      using 1 True by simp
    also have "\<dots> = n div 62 * (62 * 62 ^ length s) + n mod 62 * 62 ^ length s + decodeBase62 s"
      by (simp add: decodeBase62_Cons digitVal_alphabet)
    also have "n div 62 * (62 * 62 ^ length s) + n mod 62 * 62 ^ length s
        = (n div 62 * 62 + n mod 62) * 62 ^ length s"
      by (simp only: distrib_right mult.assoc)
    also have "n div 62 * 62 + n mod 62 = n" by (rule div_mult_mod_eq)
    finally show ?thesis .
  next
    case False
    with 1 have "n = 0" by simp
    then show ?thesis by (simp add: base62_loop.simps [of 0 s])
  qed
qed

lemma setBytes_nonneg: "0 \<le> setBytes data"
proof -
  have "0 \<le> a \<Longrightarrow> 0 \<le> foldl (\<lambda>n b. n * 256 + uint b) a data" for a :: int
    by (induction data arbitrary: a) auto
  then show ?thesis by (simp add: setBytes_def)
qed

lemma base62_loop_set:
  "set (base62_loop n s) \<subseteq> {c. isBase62Char c} \<union> set s"
proof (induction n s rule: base62_loop.induct)
  case (1 n s)
  show ?case
  proof (cases "n > 0")
    case True
    with 1 show ?thesis
      by (auto simp: base62_loop.simps [of n s] isBase62Char_alphabet)
  next
    case False
    then show ?thesis by (simp add: base62_loop.simps [of n s])
  qed
qed

lemma base62_loop_length:
  "0 \<le> n \<Longrightarrow> n < 62 ^ k \<Longrightarrow> length (base62_loop n s) \<le> k + length s"
proof (induction k arbitrary: n s)
  case 0
  then show ?case by (simp add: base62_loop.simps [of n s])
next
  case (Suc k)
  show ?case
  proof (cases "n > 0")
    case True
    have "62 * (n div 62) \<le> n" by arith
    with Suc.prems have "n div 62 < 62 ^ k" by simp
    with Suc.IH [of "n div 62" "alphabet ! nat (n mod 62) # s"] Suc.prems True show ?thesis
      by (simp add: base62_loop.simps [of n s])
  next
    case False
    then show ?thesis by (simp add: base62_loop.simps [of n s])
  qed
qed

lemma encodeBase62_isBase62: "isBase62 (encodeBase62 data) \<and> encodeBase62 data \<noteq> []"
  using base62_loop_set [of "setBytes data" "[]"] isBase62Char_alphabet [of 0]
  by (auto simp: encodeBase62_def isBase62_def list_all_iff Let_def)

lemma decode_encodeBase62: "decodeBase62 (encodeBase62 data) = setBytes data"
proof (cases "base62_loop (setBytes data) [] = []")
  case True
  then have "setBytes data = 0"
    using decode_base62_loop [OF setBytes_nonneg, of data "[]"] by (simp add: decodeBase62_def)
  with True show ?thesis
    using digitVal_alphabet [of 0] by (simp add: encodeBase62_def decodeBase62_def)
next
  case False
  then show ?thesis
    using decode_base62_loop [OF setBytes_nonneg, of data "[]"]
    by (simp add: encodeBase62_def decodeBase62_def)
qed

lemma setBytes_Cons: "setBytes (b # bs) = uint b * 256 ^ length bs + setBytes bs"
proof -
  have "foldl (\<lambda>n b. n * 256 + uint b) a bs = a * 256 ^ length bs + foldl (\<lambda>n b. n * 256 + uint b) 0 bs"
    for a :: int and bs :: "8 word list"
  proof (induction bs arbitrary: a)
    case Nil
    then show ?case by simp
  next
    case (Cons c bs)
    show ?case
      using Cons.IH [of "a * 256 + uint c"] Cons.IH [of "uint c"] by (simp add: algebra_simps)
  qed
  from this [of "uint b" bs] show ?thesis by (simp add: setBytes_def)
qed

lemma setBytes_bound: "setBytes data < 256 ^ length data"
proof (induction data)
  case Nil
  then show ?case by (simp add: setBytes_def)
next
  case (Cons b bs)
  have "uint b \<le> 255" using uint_lt2p [of b] by simp
  then have "uint b * 256 ^ length bs \<le> 255 * 256 ^ length bs" by simp
  with Cons have "uint b * 256 ^ length bs + setBytes bs < 256 * 256 ^ length bs" by linarith
  then show ?case by (simp add: setBytes_Cons)
qed

lemma setBytes_inject:
  "length a = length b \<Longrightarrow> setBytes a = setBytes b \<Longrightarrow> a = b"
proof (induction a b rule: list_induct2)
  case Nil
  then show ?case by simp
next
  case (Cons x xs y ys)
  let ?B = "256 ^ length xs :: int"
  have bounds: "setBytes xs < ?B" "setBytes ys < ?B" "0 \<le> setBytes xs" "0 \<le> setBytes ys"
    using setBytes_bound [of xs] setBytes_bound [of ys] Cons.hyps setBytes_nonneg by auto
  have eq: "uint x * ?B + setBytes xs = uint y * ?B + setBytes ys"
    using Cons.prems Cons.hyps by (simp add: setBytes_Cons)
  have "uint x = (uint x * ?B + setBytes xs) div ?B" "uint y = (uint y * ?B + setBytes ys) div ?B"
    using bounds by simp_all
  with eq have "uint x = uint y" by simp
  moreover from this eq Cons.IH have "xs = ys" by simp
  ultimately show ?case by (simp add: word_uint_eqI)
qed

lemma encodeBase62_inject:
  "length a = length b \<Longrightarrow> encodeBase62 a = encodeBase62 b \<Longrightarrow> a = b"
  by (metis decode_encodeBase62 setBytes_inject)

lemma encodeBase62_length:
  assumes "256 ^ length data \<le> (62::int) ^ k" "0 < k"
  shows "length (encodeBase62 data) \<le> k"
proof -
  have "setBytes data < 62 ^ k" using setBytes_bound [of data] assms(1) by linarith
  then have "length (base62_loop (setBytes data) []) \<le> k"
    using base62_loop_length [OF setBytes_nonneg, of data k "[]"] by simp
  with assms(2) show ?thesis by (auto simp: encodeBase62_def Let_def)
qed

section \<open>Parsing inverts construction\<close>

lemma not_base62_sep: "\<not> isBase62Char KeyIDSeparator"
  by (simp add: isBase62Char_def KeyIDSeparator_def)

lemma not_base62_nul: "\<not> isBase62Char (CHR 0x00)"
  by (simp add: isBase62Char_def)

lemma isBase62_no_sep: "isBase62 s \<Longrightarrow> KeyIDSeparator \<notin> set s"
  using not_base62_sep by (auto simp: isBase62_def list_all_iff)

lemma isBase62_no_nul: "isBase62 s \<Longrightarrow> CHR 0x00 \<notin> set s"
  using not_base62_nul by (auto simp: isBase62_def list_all_iff)

lemma ParseAPIKey_build:
  assumes "KeyIDSeparator \<notin> set kid" "kid \<noteq> []" "sec \<noteq> []"
  shows "ParseAPIKey (KeyPrefix @ kid @ [KeyIDSeparator] @ sec) = Inr (kid, sec)"
  using assms by (simp add: ParseAPIKey_def splitN_2_append)

lemma splitN_2_cases:
  assumes "length (splitN c 2 s) = 2"
  obtains a b where "splitN c 2 s = [a, b]" "s = a @ c # b" "c \<notin> set a"
proof -
  obtain a b where "splitN c 2 s = [a, b]"
    using assms by (auto simp: numeral_2_eq_2 length_Suc_conv simp del: splitN.simps)
  with that splitN_2_length2 show ?thesis by blast
qed

lemma ParseAPIKey_Inr:
  assumes "ParseAPIKey key = Inr (kid, sec)"
  shows "key = KeyPrefix @ kid @ [KeyIDSeparator] @ sec \<and> KeyIDSeparator \<notin> set kid \<and>
    kid \<noteq> [] \<and> sec \<noteq> []"
proof -
  let ?body = "drop (length KeyPrefix) key"
  have pre: "hasPrefix key KeyPrefix" and len: "length (splitN KeyIDSeparator 2 ?body) = 2"
    using assms by (auto simp: ParseAPIKey_def Let_def split: if_splits)
  from len obtain a b where ab: "splitN KeyIDSeparator 2 ?body = [a, b]"
    "?body = a @ KeyIDSeparator # b" "KeyIDSeparator \<notin> set a"
    by (rule splitN_2_cases)
  with assms pre have "kid = a" "sec = b" "a \<noteq> []" "b \<noteq> []"
    by (auto simp: ParseAPIKey_def Let_def split: if_splits)
  moreover have "key = KeyPrefix @ ?body" using pre by (rule hasPrefixD)
  ultimately show ?thesis using ab by simp
qed

text \<open>The validator accepts exactly the parseable keys whose two parts are base62.\<close>

lemma IsValidKeyFormat_parse:
  "IsValidKeyFormat key \<longleftrightarrow>
     (\<exists>kid sec. ParseAPIKey key = Inr (kid, sec) \<and> isBase62 kid \<and> isBase62 sec)"
  by (auto simp: IsValidKeyFormat_def ParseAPIKey_def Let_def)

lemma hashWithSalt_nonempty: "hashWithSalt kid sec \<noteq> []"
proof -
  have "length (hashWithSalt kid sec) = 64"
    by (simp add: hashWithSalt_def length_Sum256)
  then show ?thesis by auto
qed

lemma HashAPIKey_valid: "IsValidKeyFormat key \<Longrightarrow> HashAPIKey key \<noteq> []"
  by (auto simp: IsValidKeyFormat_parse HashAPIKey_def hashWithSalt_nonempty)

lemma GenerateAPIKey_Some:
  "GenerateAPIKey (Some kb) (Some sb) =
     Inr \<lparr>gk_plaintext = KeyPrefix @ encodeBase62 kb @ [KeyIDSeparator] @ encodeBase62 sb,
          gk_hash = hashWithSalt (encodeBase62 kb) (encodeBase62 sb),
          gk_prefix = KeyPrefix @ take displayPrefixLength (encodeBase62 kb) @ ''...''\<rparr>"
  by (simp add: GenerateAPIKey_def Let_def)

lemma GenerateAPIKey_Inr:
  assumes "GenerateAPIKey k s = Inr g"
  obtains kb sb where "k = Some kb" "s = Some sb"
    "gk_plaintext g = KeyPrefix @ encodeBase62 kb @ [KeyIDSeparator] @ encodeBase62 sb"
    "gk_hash g = hashWithSalt (encodeBase62 kb) (encodeBase62 sb)"
    "gk_prefix g = KeyPrefix @ take displayPrefixLength (encodeBase62 kb) @ ''...''"
proof -
  obtain kb sb where eq: "k = Some kb" "s = Some sb"
    using assms by (auto simp: GenerateAPIKey_def Let_def split: option.splits)
  have "Inr g = GenerateAPIKey (Some kb) (Some sb)" using assms eq by simp
  then show ?thesis unfolding GenerateAPIKey_Some sum.inject
    using that [OF eq] by simp
qed

lemma ParseAPIKey_generated:
  "ParseAPIKey (KeyPrefix @ encodeBase62 kb @ [KeyIDSeparator] @ encodeBase62 sb) =
     Inr (encodeBase62 kb, encodeBase62 sb)"
  using encodeBase62_isBase62 isBase62_no_sep by (intro ParseAPIKey_build) blast+

section \<open>Properties of the key generator\<close>

text \<open>Every key that \<open>GenerateAPIKey\<close> produces passes \<open>IsValidKeyFormat\<close>, hashes under
  \<open>HashAPIKey\<close> to the hash returned for storage, and is accepted by \<open>ValidateAPIKeyHash\<close> against
  that hash.\<close>

theorem generated_key_validates:
  assumes "GenerateAPIKey k s = Inr g"
  shows "IsValidKeyFormat (gk_plaintext g) \<and>
    HashAPIKey (gk_plaintext g) = gk_hash g \<and>
    ValidateAPIKeyHash (gk_plaintext g) (gk_hash g)"
proof -
  from assms obtain kb sb where
    plain: "gk_plaintext g = KeyPrefix @ encodeBase62 kb @ [KeyIDSeparator] @ encodeBase62 sb"
    and hash: "gk_hash g = hashWithSalt (encodeBase62 kb) (encodeBase62 sb)"
    by (rule GenerateAPIKey_Inr)
  have parse: "ParseAPIKey (gk_plaintext g) = Inr (encodeBase62 kb, encodeBase62 sb)"
    unfolding plain by (rule ParseAPIKey_generated)
  show ?thesis
    using parse hash encodeBase62_isBase62
    by (simp add: IsValidKeyFormat_parse HashAPIKey_def ValidateAPIKeyHash_def)
qed

theorem generated_key_validates_witness:
  "\<exists>g. GenerateAPIKey (Some [0x12, 0x34]) (Some [0xFF]) = Inr g \<and>
     IsValidKeyFormat (gk_plaintext g) \<and>
     HashAPIKey (gk_plaintext g) = gk_hash g \<and>
     ValidateAPIKeyHash (gk_plaintext g) (gk_hash g)"
  using generated_key_validates [OF GenerateAPIKey_Some [of "[0x12, 0x34]" "[0xFF]"]]
    GenerateAPIKey_Some [of "[0x12, 0x34]" "[0xFF]"]
  by blast

text \<open>C35: \<open>encodeBase62\<close> writes the big-endian value of the bytes as a base-62 numeral: reading the
  numeral back gives the value, only alphabet characters occur, the text is never empty, and byte
  strings of one length have the same text only if they are equal.\<close>

theorem encodeBase62_correct:
  "decodeBase62 (encodeBase62 data) = setBytes data \<and>
   isBase62 (encodeBase62 data) \<and> encodeBase62 data \<noteq> [] \<and>
   inj_on encodeBase62 {d. length d = length data}"
  using decode_encodeBase62 encodeBase62_isBase62 encodeBase62_inject
  by (auto intro!: inj_onI)

text \<open>\<open>ParseAPIKey\<close> accepts exactly the strings \<open>sk-oai-<key_id>_<secret>\<close> with a non-empty
  key id free of the separator and a non-empty secret, and returns these two parts; the split is
  therefore unique.\<close>

theorem ParseAPIKey_iff:
  "ParseAPIKey key = Inr (kid, sec) \<longleftrightarrow>
     key = KeyPrefix @ kid @ [KeyIDSeparator] @ sec \<and> KeyIDSeparator \<notin> set kid \<and>
     kid \<noteq> [] \<and> sec \<noteq> []"
  using ParseAPIKey_Inr ParseAPIKey_build by blast

text \<open>Freshness. Two generation runs that draw random bytes of the fixed sizes (12 for the
  key id, 32 for the secret) yield the same plaintext key only if both draws were equal, and the
  salted hash inputs (key id, NUL, secret) of two different keys are different.\<close>

theorem generated_keys_distinct:
  assumes "length kb = keyIDBytes" "length kb' = keyIDBytes"
    and "length sb = entropyBytes" "length sb' = entropyBytes"
    and "GenerateAPIKey (Some kb) (Some sb) = Inr g"
    and "GenerateAPIKey (Some kb') (Some sb') = Inr g'"
    and "(kb, sb) \<noteq> (kb', sb')"
  shows "gk_plaintext g \<noteq> gk_plaintext g' \<and>
    encodeBase62 kb @ [CHR 0x00] @ encodeBase62 sb \<noteq>
    encodeBase62 kb' @ [CHR 0x00] @ encodeBase62 sb'"
proof -
  have ne: "(encodeBase62 kb, encodeBase62 sb) \<noteq> (encodeBase62 kb', encodeBase62 sb')"
    using assms encodeBase62_inject by auto
  have "gk_plaintext g = KeyPrefix @ encodeBase62 kb @ [KeyIDSeparator] @ encodeBase62 sb"
    using assms(5) by (rule GenerateAPIKey_Inr) simp
  moreover have "gk_plaintext g' = KeyPrefix @ encodeBase62 kb' @ [KeyIDSeparator] @ encodeBase62 sb'"
    using assms(6) by (rule GenerateAPIKey_Inr) simp
  ultimately have "gk_plaintext g \<noteq> gk_plaintext g'"
    using ne by (metis ParseAPIKey_generated sum.inject(2))
  moreover have "encodeBase62 kb @ [CHR 0x00] @ encodeBase62 sb \<noteq>
    encodeBase62 kb' @ [CHR 0x00] @ encodeBase62 sb'"
    using ne append_sep_inject [of "CHR 0x00" "encodeBase62 kb" "encodeBase62 kb'"]
      isBase62_no_nul encodeBase62_isBase62 by fastforce
  ultimately show ?thesis by simp
qed

theorem generated_keys_distinct_witness:
  "\<exists>g g'. GenerateAPIKey (Some (replicate 12 0)) (Some (replicate 32 1)) = Inr g \<and>
     GenerateAPIKey (Some (replicate 12 0)) (Some (replicate 32 2)) = Inr g' \<and>
     gk_plaintext g \<noteq> gk_plaintext g'"
  using generated_keys_distinct [OF _ _ _ _
      GenerateAPIKey_Some [of "replicate 12 0" "replicate 32 1"]
      GenerateAPIKey_Some [of "replicate 12 0" "replicate 32 2"]]
    GenerateAPIKey_Some [of "replicate 12 0" "replicate 32 1"]
    GenerateAPIKey_Some [of "replicate 12 0" "replicate 32 2"]
  by (simp add: keyIDBytes_def entropyBytes_def)

text \<open>Sizes. With 12 and 32 random bytes the key id has at most 17 and the secret at most 43
  characters, the stored hash is 64 hexadecimal characters long, and the display prefix reveals
  at most 12 characters of the key id.\<close>

theorem generated_key_sizes:
  assumes "length kb = keyIDBytes" "length sb = entropyBytes"
    and "GenerateAPIKey (Some kb) (Some sb) = Inr g"
  shows "length (encodeBase62 kb) \<le> 17 \<and> length (encodeBase62 sb) \<le> 43 \<and>
    length (gk_hash g) = 64 \<and>
    length (gk_prefix g) \<le> length KeyPrefix + displayPrefixLength + 3"
proof -
  have "length (encodeBase62 kb) \<le> 17"
    using assms(1) by (intro encodeBase62_length) (simp_all add: keyIDBytes_def)
  moreover have "length (encodeBase62 sb) \<le> 43"
    using assms(2) by (intro encodeBase62_length) (simp_all add: entropyBytes_def)
  moreover have "length (gk_hash g) = 64"
    using assms(3) by (rule GenerateAPIKey_Inr) (simp add: hashWithSalt_def length_Sum256)
  moreover have "length (gk_prefix g) \<le> length KeyPrefix + displayPrefixLength + 3"
    using assms(3) by (rule GenerateAPIKey_Inr) simp
  ultimately show ?thesis by simp
qed

theorem generated_key_sizes_witness:
  "length (encodeBase62 (replicate 12 255)) \<le> 17 \<and> length (encodeBase62 (replicate 32 255)) \<le> 43"
  using generated_key_sizes [OF _ _ GenerateAPIKey_Some [of "replicate 12 255" "replicate 32 255"]]
  by (simp add: keyIDBytes_def entropyBytes_def)

end
