(* ===== verification/K8s_Unstructured.thy ===== *)
theory K8s_Unstructured
  imports Go_Prelude
begin

text \<open>
  The interface to \<open>k8s.io/apimachinery/pkg/apis/meta/v1/unstructured\<close>, a third-party package. An
  object is its \<open>Object\<close> field, a \<open>map[string]any\<close>. The accessors the sources call are the fields of
  a record \<open>nested_api\<close>, an argument of every definition that uses them. The predicate
  \<open>nested_documented\<close> states what the package documents of them for a path of one field (the only
  paths the modelled code uses): a value of the right type is returned and found, a missing field is
  not found without an error, a field of another type is an error and not found. \<open>std_nested\<close> is
  one implementation that satisfies it, used to evaluate concrete inputs.
\<close>

type_synonym 'a nested_result = "'a \<times> bool \<times> string option"

record nested_api =
  nestedMap :: "gomap \<Rightarrow> string list \<Rightarrow> gomap nested_result"
  nestedSlice :: "gomap \<Rightarrow> string list \<Rightarrow> goany list nested_result"
  nestedString :: "gomap \<Rightarrow> string list \<Rightarrow> string nested_result"
  nestedStringSlice :: "gomap \<Rightarrow> string list \<Rightarrow> string list nested_result"
  nestedInt64 :: "gomap \<Rightarrow> string list \<Rightarrow> int nested_result"
  getName :: "gomap \<Rightarrow> string"
  getNamespace :: "gomap \<Rightarrow> string"
  getAnnotations :: "gomap \<Rightarrow> (string \<times> string) list option"

text \<open>The value of a result when it was found: the pattern \<open>if v, found, _ := f(...); found\<close>.\<close>

definition ifFound :: "'a nested_result \<Rightarrow> 'a option" where
  "ifFound r = (case r of (v, found, _) \<Rightarrow> if found then Some v else None)"

section \<open>Documented behaviour\<close>

fun as_slice :: "goany \<Rightarrow> goany list option" where
  "as_slice (GSlice xs) = Some xs"
| "as_slice _ = None"

fun all_strings :: "goany list \<Rightarrow> string list option" where
  "all_strings [] = Some []"
| "all_strings (GStr s # xs) = map_option ((#) s) (all_strings xs)"
| "all_strings (_ # xs) = None"

definition as_string_slice :: "goany \<Rightarrow> string list option" where
  "as_string_slice v = Option.bind (as_slice v) all_strings"

text \<open>One field of a map read at a type, given by its type assertion.\<close>

definition field_of :: "(goany \<Rightarrow> 'a option) \<Rightarrow> gomap \<Rightarrow> string \<Rightarrow> 'a option" where
  "field_of conv m k = Option.bind (map_of m k) conv"

text \<open>\<open>GetName\<close>, \<open>GetNamespace\<close> and \<open>GetAnnotations\<close> read \<open>metadata\<close>.\<close>

definition std_meta :: "string \<Rightarrow> gomap \<Rightarrow> string" where
  "std_meta k m = (case as_map (mapIndex m ''metadata'') of None \<Rightarrow> [] | Some md \<Rightarrow> strField md k)"

definition std_annotations :: "gomap \<Rightarrow> (string \<times> string) list option" where
  "std_annotations m =
     Option.bind (as_map (mapIndex m ''metadata''))
       (\<lambda>md. Option.bind (as_map (mapIndex md ''annotations''))
         (\<lambda>as. Some (List.map_filter (\<lambda>(k, v). map_option (Pair k) (as_string v)) as)))"

definition nested_documented :: "nested_api \<Rightarrow> bool" where
  "nested_documented api \<longleftrightarrow>
     (\<forall>m k. ifFound (nestedMap api m [k]) = field_of as_map m k) \<and>
     (\<forall>m k. ifFound (nestedSlice api m [k]) = field_of as_slice m k) \<and>
     (\<forall>m k. ifFound (nestedString api m [k]) = field_of as_string m k) \<and>
     (\<forall>m k. ifFound (nestedStringSlice api m [k]) = field_of as_string_slice m k) \<and>
     (\<forall>m k. ifFound (nestedInt64 api m [k]) = field_of as_int64 m k) \<and>
     (\<forall>m k. fst (snd (nestedMap api m [k])) \<longrightarrow> snd (snd (nestedMap api m [k])) = None) \<and>
     getName api = std_meta ''name'' \<and> getNamespace api = std_meta ''namespace'' \<and>
     getAnnotations api = std_annotations"

section \<open>An implementation\<close>

fun nested_lookup :: "gomap \<Rightarrow> string list \<Rightarrow> goany option" where
  "nested_lookup m [] = Some (GMap m)"
| "nested_lookup m [k] = map_of m k"
| "nested_lookup m (k # ks) = (case map_of m k of Some (GMap m') \<Rightarrow> nested_lookup m' ks | _ \<Rightarrow> None)"

definition std_get :: "'a \<Rightarrow> (goany \<Rightarrow> 'a option) \<Rightarrow> gomap \<Rightarrow> string list \<Rightarrow> 'a nested_result" where
  "std_get zero conv m ks =
     (case nested_lookup m ks of
        None \<Rightarrow> (zero, False, None)
      | Some v \<Rightarrow> (case conv v of None \<Rightarrow> (zero, False, Some ''wrong type'') | Some x \<Rightarrow> (x, True, None)))"

definition std_nested :: nested_api where
  "std_nested =
     \<lparr>nestedMap = std_get [] as_map, nestedSlice = std_get [] as_slice,
      nestedString = std_get [] as_string, nestedStringSlice = std_get [] as_string_slice,
      nestedInt64 = std_get 0 as_int64, getName = std_meta ''name'',
      getNamespace = std_meta ''namespace'', getAnnotations = std_annotations\<rparr>"

section \<open>Lemmas\<close>

lemma ifFound_std_get: "ifFound (std_get z conv m [k]) = field_of conv m k"
  by (simp add: ifFound_def std_get_def field_of_def split: option.splits)

lemma std_nested_documented: "nested_documented std_nested"
  by (simp add: nested_documented_def std_nested_def ifFound_std_get)
    (simp add: std_get_def split: option.splits)

lemma nested_documentedD:
  assumes "nested_documented api"
  shows "ifFound (nestedMap api m [k]) = field_of as_map m k"
    and "ifFound (nestedSlice api m [k]) = field_of as_slice m k"
    and "ifFound (nestedString api m [k]) = field_of as_string m k"
    and "ifFound (nestedStringSlice api m [k]) = field_of as_string_slice m k"
    and "ifFound (nestedInt64 api m [k]) = field_of as_int64 m k"
    and "getName api = std_meta ''name''" and "getNamespace api = std_meta ''namespace''"
    and "getAnnotations api = std_annotations"
  using assms by (simp_all add: nested_documented_def)

text \<open>The three results of \<open>NestedMap\<close> on a field that holds a map.\<close>

lemma nestedMap_present:
  assumes "nested_documented api" "map_of m k = Some (GMap x)"
  shows "nestedMap api m [k] = (x, True, None)"
proof -
  have "ifFound (nestedMap api m [k]) = Some x"
    using assms by (simp add: nested_documentedD field_of_def)
  moreover have "fst (snd (nestedMap api m [k])) \<longrightarrow> snd (snd (nestedMap api m [k])) = None"
    using assms(1) unfolding nested_documented_def by blast
  ultimately show ?thesis
    by (cases "nestedMap api m [k]") (auto simp: ifFound_def split: if_splits)
qed

end
