(* ===== verification/Subscription_Selector.thy ===== *)
theory Subscription_Selector
  imports K8s_Unstructured
begin

text \<open>
  \<open>maas-api/internal/subscription/selector.go\<close> and \<open>types.go\<close>: parsing of MaaSSubscription objects
  from the informer cache and the selection of the subscription under which a request is accounted.
  A \<open>Selector\<close> holds the accessors of the unstructured package and the outcome of \<open>lister.List()\<close>;
  logging has no effect on the result and is left out. A slice or map that may be nil is a list, or
  an option of a list where the code tells nil and empty apart.
\<close>

section \<open>Data\<close>

definition PhasePending :: string where "PhasePending = ''Pending''"
definition PhaseActive :: string where "PhaseActive = ''Active''"
definition PhaseDegraded :: string where "PhaseDegraded = ''Degraded''"
definition PhaseFailed :: string where "PhaseFailed = ''Failed''"

definition AnnotationDescription :: string where
  "AnnotationDescription = ''openshift.io/description''"
definition AnnotationDisplayName :: string where
  "AnnotationDisplayName = ''openshift.io/display-name''"

record TokenRateLimit =
  trl_limit :: int
  trl_window :: string

record BillingRate =
  br_perToken :: string

record ModelRefInfo =
  mr_name :: string
  mr_namespace :: string
  mr_tokenRateLimits :: "TokenRateLimit list"
  mr_billingRate :: "BillingRate option"

record TokenRateLimitStatus =
  ts_model :: string
  ts_name :: string
  ts_namespace :: string
  ts_ready :: bool
  ts_reason :: string
  ts_message :: string

record subscription =
  sub_name :: string
  sub_namespace :: string
  sub_displayName :: string
  sub_description :: string
  sub_groups :: "string list"
  sub_users :: "string list"
  sub_priority :: int
  sub_maxLimit :: int
  sub_organizationID :: string
  sub_costCenter :: string
  sub_labels :: "(string \<times> string) list option"
  sub_modelRefs :: "ModelRefInfo list"
  sub_phase :: string
  sub_ready :: bool
  sub_deletionTimestamp :: "string option"
  sub_trlpStatuses :: "TokenRateLimitStatus list"

record SelectResponse =
  resp_name :: string
  resp_namespace :: string
  resp_displayName :: string
  resp_description :: string
  resp_priority :: int
  resp_modelRefs :: "ModelRefInfo list"
  resp_organizationID :: string
  resp_costCenter :: string
  resp_labels :: "(string \<times> string) list option"
  resp_phase :: string
  resp_ready :: bool
  resp_deletionTimestamp :: string
  resp_error :: string
  resp_message :: string

record SubscriptionInfo =
  si_subscriptionIDHeader :: string
  si_subscriptionDescription :: string
  si_displayName :: string
  si_priority :: int
  si_modelRefs :: "ModelRefInfo list"
  si_organizationID :: string
  si_costCenter :: string
  si_labels :: "(string \<times> string) list option"

text \<open>The error values \<open>Select\<close> returns; \<open>OtherError\<close> is an error made by \<open>errors.New\<close> or
  \<open>fmt.Errorf\<close>.\<close>

datatype SelectError =
    NoSubscriptionError
  | SubscriptionNotFoundError string
  | AccessDeniedError string
  | MultipleSubscriptionsError "string list"
  | ModelNotInSubscriptionError string string
  | ModelUnhealthyError (mue_subscription: string) (mue_phase: string) (mue_reason: string)
      (mue_message: string)
  | OtherError string

fun errorString :: "SelectError \<Rightarrow> string" where
  "errorString NoSubscriptionError = ''no matching subscription found for user''"
| "errorString (SubscriptionNotFoundError _) = ''requested subscription not found''"
| "errorString (AccessDeniedError _) = ''access denied to requested subscription''"
| "errorString (MultipleSubscriptionsError _) =
     ''user has access to multiple subscriptions, must specify subscription using X-MaaS-Subscription header''"
| "errorString (ModelNotInSubscriptionError s m) =
     ''subscription '' @ s @ '' does not include model '' @ m"
| "errorString (ModelUnhealthyError _ _ _ _) = ''requested model is unhealthy in subscription''"
| "errorString (OtherError s) = s"

record Selector =
  sel_api :: nested_api
  sel_list :: "string + gomap list"

section \<open>Parsing\<close>

definition parseLimit :: "gomap \<Rightarrow> TokenRateLimit" where
  "parseLimit limitMap =
     \<lparr>trl_limit = (case as_int64 (mapIndex limitMap ''limit'') of None \<Rightarrow> 0 | Some l \<Rightarrow> l),
      trl_window = strField limitMap ''window''\<rparr>"

definition parseModelRef :: "nested_api \<Rightarrow> gomap \<Rightarrow> ModelRefInfo" where
  "parseModelRef api modelMap =
     \<lparr>mr_name = strField modelMap ''name'',
      mr_namespace = strField modelMap ''namespace'',
      mr_tokenRateLimits =
        (case ifFound (nestedSlice api modelMap [''tokenRateLimits'']) of
           None \<Rightarrow> []
         | Some limits \<Rightarrow> map parseLimit (List.map_filter as_map limits)),
      mr_billingRate =
        map_option (\<lambda>billingRate. \<lparr>br_perToken = strField billingRate ''perToken''\<rparr>)
          (ifFound (nestedMap api modelMap [''billingRate'']))\<rparr>"

definition parseTokenMetadata :: "nested_api \<Rightarrow> gomap \<Rightarrow> subscription \<Rightarrow> subscription" where
  "parseTokenMetadata api spec sub =
     (case ifFound (nestedMap api spec [''tokenMetadata'']) of
        None \<Rightarrow> sub
      | Some metadata \<Rightarrow>
          let sub1 = (case as_string (mapIndex metadata ''organizationId'') of
                        None \<Rightarrow> sub | Some orgID \<Rightarrow> sub\<lparr>sub_organizationID := orgID\<rparr>);
              sub2 = (case as_string (mapIndex metadata ''costCenter'') of
                        None \<Rightarrow> sub1 | Some costCenter \<Rightarrow> sub1\<lparr>sub_costCenter := costCenter\<rparr>)
          in (case as_map (mapIndex metadata ''labels'') of
                None \<Rightarrow> sub2
              | Some labelsRaw \<Rightarrow>
                  sub2\<lparr>sub_labels :=
                    Some (List.map_filter (\<lambda>(k, v). map_option (Pair k) (as_string v)) labelsRaw)\<rparr>))"

definition parseGroups :: "goany list \<Rightarrow> string list" where
  "parseGroups groupsRaw =
     List.map_filter (\<lambda>g. Option.bind (as_map g) (\<lambda>groupMap. as_string (mapIndex groupMap ''name'')))
       groupsRaw"

text \<open>The running maximum over the token rate limits of the model references.\<close>

definition maxTokenLimit :: "ModelRefInfo list \<Rightarrow> int" where
  "maxTokenLimit refs =
     foldl (\<lambda>acc ref. foldl (\<lambda>acc trl. if trl_limit trl > acc then trl_limit trl else acc) acc
                       (mr_tokenRateLimits ref)) 0 refs"

definition parseTrlpStatus :: "gomap \<Rightarrow> TokenRateLimitStatus" where
  "parseTrlpStatus statusMap =
     \<lparr>ts_model = strField statusMap ''model'',
      ts_name = strField statusMap ''name'',
      ts_namespace = strField statusMap ''namespace'',
      ts_ready = (case as_bool (mapIndex statusMap ''ready'') of None \<Rightarrow> False | Some b \<Rightarrow> b),
      ts_reason = strField statusMap ''reason'',
      ts_message = strField statusMap ''message''\<rparr>"

text \<open>The loop over \<open>status.conditions\<close> stops at the first condition of type Ready.\<close>

fun readyCondition :: "goany list \<Rightarrow> bool" where
  "readyCondition [] = False"
| "readyCondition (condRaw # rest) =
     (case as_map condRaw of
        None \<Rightarrow> readyCondition rest
      | Some condMap \<Rightarrow>
          if strField condMap ''type'' = ''Ready'' then strField condMap ''status'' = ''True''
          else readyCondition rest)"

definition emptySubscription :: subscription where
  "emptySubscription =
     \<lparr>sub_name = [], sub_namespace = [], sub_displayName = [], sub_description = [],
      sub_groups = [], sub_users = [], sub_priority = 0, sub_maxLimit = 0, sub_organizationID = [],
      sub_costCenter = [], sub_labels = None, sub_modelRefs = [], sub_phase = [], sub_ready = False,
      sub_deletionTimestamp = None, sub_trlpStatuses = []\<rparr>"

definition parseOwner :: "nested_api \<Rightarrow> gomap \<Rightarrow> subscription \<Rightarrow> subscription" where
  "parseOwner api spec sub =
     (case ifFound (nestedMap api spec [''owner'']) of
        None \<Rightarrow> sub
      | Some owner \<Rightarrow>
          let sub1 = (case ifFound (nestedSlice api owner [''groups'']) of
                        None \<Rightarrow> sub
                      | Some groupsRaw \<Rightarrow> sub\<lparr>sub_groups := sub_groups sub @ parseGroups groupsRaw\<rparr>)
          in (case ifFound (nestedStringSlice api owner [''users'']) of
                None \<Rightarrow> sub1
              | Some users \<Rightarrow> sub1\<lparr>sub_users := users\<rparr>))"

definition parsePriority :: "nested_api \<Rightarrow> gomap \<Rightarrow> subscription \<Rightarrow> subscription" where
  "parsePriority api spec sub =
     (case ifFound (nestedInt64 api spec [''priority'']) of
        None \<Rightarrow> sub
      | Some priority \<Rightarrow>
          if priority \<ge> 0 \<and> priority \<le> 2147483647 then sub\<lparr>sub_priority := priority\<rparr> else sub)"

definition parseModelRefs :: "nested_api \<Rightarrow> gomap \<Rightarrow> subscription \<Rightarrow> subscription" where
  "parseModelRefs api spec sub =
     (case ifFound (nestedSlice api spec [''modelRefs'']) of
        None \<Rightarrow> sub
      | Some modelRefs \<Rightarrow>
          let refs = map (parseModelRef api) (List.map_filter as_map modelRefs)
          in sub\<lparr>sub_maxLimit := maxTokenLimit refs, sub_modelRefs := refs\<rparr>)"

definition parseStatus :: "nested_api \<Rightarrow> gomap \<Rightarrow> subscription \<Rightarrow> subscription" where
  "parseStatus api obj sub =
     (case ifFound (nestedMap api obj [''status'']) of
        None \<Rightarrow> sub
      | Some status \<Rightarrow>
          let sub1 = (case as_string (mapIndex status ''phase'') of
                        None \<Rightarrow> sub | Some phase \<Rightarrow> sub\<lparr>sub_phase := trimSpace phase\<rparr>);
              sub2 = (case ifFound (nestedSlice api status [''conditions'']) of
                        None \<Rightarrow> sub1
                      | Some conditions \<Rightarrow> sub1\<lparr>sub_ready := readyCondition conditions\<rparr>)
          in (case ifFound (nestedSlice api status [''tokenRateLimitStatuses'']) of
                None \<Rightarrow> sub2
              | Some trlps \<Rightarrow>
                  sub2\<lparr>sub_trlpStatuses := map parseTrlpStatus (List.map_filter as_map trlps)\<rparr>))"

definition parseDeletionTimestamp :: "gomap \<Rightarrow> string option" where
  "parseDeletionTimestamp obj =
     (case as_map (mapIndex obj ''metadata'') of
        None \<Rightarrow> None
      | Some metadataMap \<Rightarrow>
          (case as_string (mapIndex metadataMap ''deletionTimestamp'') of
             None \<Rightarrow> None
           | Some ts \<Rightarrow> if ts \<noteq> [] then Some ts else None))"

definition parseSubscription :: "nested_api \<Rightarrow> gomap \<Rightarrow> string + subscription" where
  "parseSubscription api obj =
     (case nestedMap api obj [''spec''] of
        (spec, found, err) \<Rightarrow>
          if err \<noteq> None \<or> \<not> found then Inl ''spec not found''
          else
            let sub0 = emptySubscription\<lparr>sub_name := getName api obj, sub_namespace := getNamespace api obj\<rparr>;
                sub1 = (case getAnnotations api obj of
                          None \<Rightarrow> sub0
                        | Some annotations \<Rightarrow>
                            sub0\<lparr>sub_displayName := strMapIndex annotations AnnotationDisplayName,
                                 sub_description := strMapIndex annotations AnnotationDescription\<rparr>);
                sub2 = parseOwner api spec sub1;
                sub3 = parsePriority api spec sub2;
                sub4 = parseModelRefs api spec sub3;
                sub5 = parseTokenMetadata api spec sub4;
                sub6 = parseStatus api obj sub5
            in Inr (sub6\<lparr>sub_deletionTimestamp := parseDeletionTimestamp obj\<rparr>))"

text \<open>Objects that do not parse are skipped.\<close>

fun rights :: "('a + 'b) list \<Rightarrow> 'b list" where
  "rights [] = []"
| "rights (Inl _ # xs) = rights xs"
| "rights (Inr y # xs) = y # rights xs"

definition loadSubscriptions :: "Selector \<Rightarrow> string + subscription list" where
  "loadSubscriptions s =
     (case sel_list s of
        Inl err \<Rightarrow> Inl err
      | Inr objects \<Rightarrow> Inr (rights (map (parseSubscription (sel_api s)) objects)))"

section \<open>Access, model membership and health\<close>

definition userHasAccess :: "subscription \<Rightarrow> string \<Rightarrow> string list \<Rightarrow> bool" where
  "userHasAccess sub username groups =
     (if List.member (sub_users sub) username then True
      else list_ex (\<lambda>subGroup. list_ex (\<lambda>userGroup. trimSpace userGroup = subGroup) groups)
             (sub_groups sub))"

definition subscriptionIncludesModel :: "subscription \<Rightarrow> string \<Rightarrow> bool" where
  "subscriptionIncludesModel sub requestedModel =
     (if requestedModel = [] then True
      else
        let parts = splitN (CHR ''/'') 2 requestedModel
        in if length parts \<noteq> 2 then False
           else list_ex (\<lambda>ref. mr_namespace ref = parts ! 0 \<and> mr_name ref = parts ! 1)
                  (sub_modelRefs sub))"

text \<open>The loop that looks for the first model reference of the requested model.\<close>

fun hasRateLimitsFor :: "string \<Rightarrow> string \<Rightarrow> ModelRefInfo list \<Rightarrow> bool" where
  "hasRateLimitsFor ns name [] = False"
| "hasRateLimitsFor ns name (ref # refs) =
     (if mr_namespace ref = ns \<and> mr_name ref = name then length (mr_tokenRateLimits ref) > 0
      else hasRateLimitsFor ns name refs)"

fun trlpReady :: "string \<Rightarrow> TokenRateLimitStatus list \<Rightarrow> bool" where
  "trlpReady name [] = False"
| "trlpReady name (trlp # rest) = (if ts_model trlp = name then ts_ready trlp else trlpReady name rest)"

definition rateLimitNotEnforced :: "subscription \<Rightarrow> SelectError" where
  "rateLimitNotEnforced sub =
     ModelUnhealthyError (sub_name sub) (sub_phase sub) ''RateLimitNotEnforced''
       ''subscription rate limiting policies are not ready''"

definition checkModelHealth :: "subscription \<Rightarrow> string \<Rightarrow> SelectError option" where
  "checkModelHealth sub requestedModel =
     (if requestedModel = [] then
        if sub_phase sub = [] then
          Some (ModelUnhealthyError (sub_name sub) (sub_phase sub) ''SubscriptionNotReady''
                  ''subscription is unreconciled (no status.phase set)'')
        else if sub_phase sub = PhaseFailed then
          Some (ModelUnhealthyError (sub_name sub) (sub_phase sub) ''SubscriptionNotReady''
                  ''subscription is in Failed phase (cannot create API keys)'')
        else None
      else if sub_phase sub \<noteq> PhaseActive \<and> sub_phase sub \<noteq> PhaseDegraded then
        let phaseDisplay = (if sub_phase sub = [] then ''unreconciled'' else sub_phase sub)
        in Some (ModelUnhealthyError (sub_name sub) (sub_phase sub) ''SubscriptionNotReady''
                   (''subscription is in '' @ phaseDisplay @ '' phase (allowed: Active, Degraded)''))
      else if sub_phase sub \<noteq> PhaseDegraded then None
      else
        let parts = splitN (CHR ''/'') 2 requestedModel
        in if length parts \<noteq> 2 then
             Some (ModelUnhealthyError (sub_name sub) (sub_phase sub) ''InvalidModelFormat''
                     ''invalid model format: must be namespace/name'')
           else if \<not> hasRateLimitsFor (parts ! 0) (parts ! 1) (sub_modelRefs sub) then None
           else if trlpReady (parts ! 1) (sub_trlpStatuses sub) then None
           else Some (rateLimitNotEnforced sub))"

definition hasModel :: "subscription \<Rightarrow> string \<Rightarrow> bool" where
  "hasModel sub modelID = list_ex (\<lambda>ref. mr_name ref = modelID) (sub_modelRefs sub)"

definition priorityLess :: "subscription \<Rightarrow> subscription \<Rightarrow> bool" where
  "priorityLess a b =
     (if sub_priority a \<noteq> sub_priority b then sub_priority a > sub_priority b
      else if sub_maxLimit a \<noteq> sub_maxLimit b then sub_maxLimit a > sub_maxLimit b
      else sub_name a < sub_name b)"

definition sortSubscriptionsByPriority :: "subscription list \<Rightarrow> subscription list" where
  "sortSubscriptionsByPriority subs = stable_sort priorityLess subs"

section \<open>Responses\<close>

definition toSubscriptionInfo :: "subscription \<Rightarrow> SubscriptionInfo" where
  "toSubscriptionInfo sub =
     (let desc = sub_description sub;
          desc = (if desc = [] then sub_displayName sub else desc);
          desc = (if desc = [] then sub_name sub else desc)
      in \<lparr>si_subscriptionIDHeader = sub_name sub, si_subscriptionDescription = desc,
          si_displayName = sub_displayName sub, si_priority = sub_priority sub,
          si_modelRefs = sub_modelRefs sub, si_organizationID = sub_organizationID sub,
          si_costCenter = sub_costCenter sub, si_labels = sub_labels sub\<rparr>)"

definition ResponseToSubscriptionInfo :: "SelectResponse \<Rightarrow> SubscriptionInfo" where
  "ResponseToSubscriptionInfo sub =
     (let desc = resp_description sub;
          desc = (if desc = [] then resp_displayName sub else desc);
          desc = (if desc = [] then resp_name sub else desc)
      in \<lparr>si_subscriptionIDHeader = resp_name sub, si_subscriptionDescription = desc,
          si_displayName = resp_displayName sub, si_priority = resp_priority sub,
          si_modelRefs = resp_modelRefs sub, si_organizationID = resp_organizationID sub,
          si_costCenter = resp_costCenter sub, si_labels = resp_labels sub\<rparr>)"

definition toResponse :: "subscription \<Rightarrow> SelectResponse" where
  "toResponse sub =
     \<lparr>resp_name = sub_name sub, resp_namespace = sub_namespace sub,
      resp_displayName = sub_displayName sub, resp_description = sub_description sub,
      resp_priority = sub_priority sub, resp_modelRefs = sub_modelRefs sub,
      resp_organizationID = sub_organizationID sub, resp_costCenter = sub_costCenter sub,
      resp_labels = sub_labels sub, resp_phase = sub_phase sub, resp_ready = sub_ready sub,
      resp_deletionTimestamp = (case sub_deletionTimestamp sub of None \<Rightarrow> [] | Some ts \<Rightarrow> ts),
      resp_error = [], resp_message = []\<rparr>"

section \<open>Selection\<close>

definition noIdentity :: SelectError where
  "noIdentity = OtherError ''either groups or username must be provided''"

definition loadError :: "string \<Rightarrow> SelectError" where
  "loadError err = OtherError (''failed to load subscriptions: '' @ err)"

definition respNameLess :: "SelectResponse \<Rightarrow> SelectResponse \<Rightarrow> bool" where
  "respNameLess a b = (resp_name a < resp_name b)"

definition infoNameLess :: "SubscriptionInfo \<Rightarrow> SubscriptionInfo \<Rightarrow> bool" where
  "infoNameLess a b = (si_subscriptionIDHeader a < si_subscriptionIDHeader b)"

text \<open>The condition under which the loop of \<open>GetAllAccessible\<close> keeps a subscription.\<close>

definition listedForUser :: "string \<Rightarrow> string list \<Rightarrow> subscription \<Rightarrow> bool" where
  "listedForUser username groups sub =
     (if \<not> userHasAccess sub username groups then False
      else if sub_phase sub \<noteq> PhaseActive \<and> sub_phase sub \<noteq> PhaseDegraded then False
      else if sub_deletionTimestamp sub \<noteq> None then False
      else True)"

definition GetAllAccessible ::
  "Selector \<Rightarrow> string list \<Rightarrow> string \<Rightarrow> SelectError + SelectResponse list" where
  "GetAllAccessible s groups username =
     (if length groups = 0 \<and> username = [] then Inl noIdentity
      else
        (case loadSubscriptions s of
           Inl err \<Rightarrow> Inl (loadError err)
         | Inr subscriptions \<Rightarrow>
             Inr (stable_sort respNameLess
                    (map toResponse (filter (listedForUser username groups) subscriptions)))))"

text \<open>The body of both loops of the explicit branch once a subscription matches.\<close>

definition selectMatched ::
  "string list \<Rightarrow> string \<Rightarrow> string \<Rightarrow> string \<Rightarrow> subscription \<Rightarrow> SelectError + SelectResponse" where
  "selectMatched groups username requestedSubscription requestedModel sub =
     (if \<not> userHasAccess sub username groups then Inl (AccessDeniedError requestedSubscription)
      else if requestedModel \<noteq> [] \<and> \<not> subscriptionIncludesModel sub requestedModel
           then Inl (ModelNotInSubscriptionError requestedSubscription requestedModel)
      else
        (case checkModelHealth sub requestedModel of
           Some err \<Rightarrow> Inl err
         | None \<Rightarrow> Inr (toResponse sub)))"

definition qualifiedName :: "subscription \<Rightarrow> string" where
  "qualifiedName sub = sub_namespace sub @ ''/'' @ sub_name sub"

definition selectExplicit ::
  "string list \<Rightarrow> string \<Rightarrow> string \<Rightarrow> string \<Rightarrow> subscription list \<Rightarrow> SelectError + SelectResponse" where
  "selectExplicit groups username requestedSubscription requestedModel subscriptions =
     (case find (\<lambda>sub. qualifiedName sub = requestedSubscription) subscriptions of
        Some sub \<Rightarrow> selectMatched groups username requestedSubscription requestedModel sub
      | None \<Rightarrow>
          let notFound = Inl (SubscriptionNotFoundError requestedSubscription)
          in if \<not> List.member requestedSubscription (CHR ''/'') then
               (case find (\<lambda>sub. sub_name sub = requestedSubscription) subscriptions of
                  Some sub \<Rightarrow> selectMatched groups username requestedSubscription requestedModel sub
                | None \<Rightarrow> notFound)
             else notFound)"

text \<open>The condition under which the auto-selection loop keeps a subscription.\<close>

definition autoCandidate :: "string list \<Rightarrow> string \<Rightarrow> string \<Rightarrow> subscription \<Rightarrow> bool" where
  "autoCandidate groups username requestedModel sub =
     (userHasAccess sub username groups \<and>
      \<not> (requestedModel \<noteq> [] \<and> \<not> subscriptionIncludesModel sub requestedModel))"

definition selectAuto ::
  "string list \<Rightarrow> string \<Rightarrow> string \<Rightarrow> subscription list \<Rightarrow> SelectError + SelectResponse" where
  "selectAuto groups username requestedModel subscriptions =
     (case filter (autoCandidate groups username requestedModel) subscriptions of
        [] \<Rightarrow> Inl NoSubscriptionError
      | [sub] \<Rightarrow>
          (case checkModelHealth sub requestedModel of
             Some err \<Rightarrow> Inl err
           | None \<Rightarrow> Inr (toResponse sub))
      | accessibleSubs \<Rightarrow> Inl (MultipleSubscriptionsError (map sub_name accessibleSubs)))"

definition Select ::
  "Selector \<Rightarrow> string list \<Rightarrow> string \<Rightarrow> string \<Rightarrow> string \<Rightarrow> SelectError + SelectResponse" where
  "Select s groups username requestedSubscription requestedModel =
     (if length groups = 0 \<and> username = [] then Inl noIdentity
      else
        (case loadSubscriptions s of
           Inl err \<Rightarrow> Inl (loadError err)
         | Inr subscriptions \<Rightarrow>
             if length subscriptions = 0 then Inl NoSubscriptionError
             else
               let sorted = sortSubscriptionsByPriority subscriptions
               in if requestedSubscription \<noteq> []
                  then selectExplicit groups username requestedSubscription requestedModel sorted
                  else selectAuto groups username requestedModel sorted))"

definition SelectHighestPriority ::
  "Selector \<Rightarrow> string list \<Rightarrow> string \<Rightarrow> SelectError + SelectResponse" where
  "SelectHighestPriority s groups username =
     (if length groups = 0 \<and> username = [] then Inl noIdentity
      else
        (case loadSubscriptions s of
           Inl err \<Rightarrow> Inl (loadError err)
         | Inr subscriptions \<Rightarrow>
             if length subscriptions = 0 then Inl NoSubscriptionError
             else
               let accessible = filter (\<lambda>sub. userHasAccess sub username groups) subscriptions
               in if length accessible = 0 then Inl NoSubscriptionError
                  else Inr (toResponse (sortSubscriptionsByPriority accessible ! 0))))"

definition ListAccessibleForModel ::
  "Selector \<Rightarrow> string \<Rightarrow> string list \<Rightarrow> string \<Rightarrow> SelectError + SubscriptionInfo list" where
  "ListAccessibleForModel s username groups modelID =
     (case loadSubscriptions s of
        Inl err \<Rightarrow> Inl (loadError err)
      | Inr subscriptions \<Rightarrow>
          Inr (stable_sort infoNameLess
                 (map toSubscriptionInfo
                    (filter (\<lambda>sub. userHasAccess sub username groups \<and> hasModel sub modelID)
                       subscriptions))))"

section \<open>The comparison functions are strict weak orders\<close>

interpretation by_priority: weak_order priorityLess
  by unfold_locales (auto simp: priorityLess_def split: if_splits)

interpretation by_resp_name: weak_order respNameLess
  by unfold_locales (auto simp: respNameLess_def)

interpretation by_info_name: weak_order infoNameLess
  by unfold_locales (auto simp: infoNameLess_def)

section \<open>Lemmas on access and health\<close>

lemma userHasAccess_iff:
  "userHasAccess sub username groups \<longleftrightarrow>
     username \<in> set (sub_users sub) \<or> (\<exists>g \<in> set groups. trimSpace g \<in> set (sub_groups sub))"
  by (auto simp: userHasAccess_def list_ex_iff)

lemma subscriptionIncludesModel_iff:
  assumes "rm \<noteq> []"
  shows "subscriptionIncludesModel sub rm \<longleftrightarrow>
    (\<exists>ref \<in> set (sub_modelRefs sub). rm = mr_namespace ref @ ''/'' @ mr_name ref \<and>
       CHR ''/'' \<notin> set (mr_namespace ref))"
proof -
  have "subscriptionIncludesModel sub rm \<longleftrightarrow>
    (\<exists>ns n. splitN (CHR ''/'') 2 rm = [ns, n] \<and>
       (\<exists>ref \<in> set (sub_modelRefs sub). mr_namespace ref = ns \<and> mr_name ref = n))"
    using assms
    by (auto simp: subscriptionIncludesModel_def Let_def list_ex_iff length_Suc_conv numeral_2_eq_2
        simp del: splitN.simps)
  also have "\<dots> \<longleftrightarrow> (\<exists>ref \<in> set (sub_modelRefs sub). rm = mr_namespace ref @ ''/'' @ mr_name ref \<and>
       CHR ''/'' \<notin> set (mr_namespace ref))"
    using splitN_2_length2 splitN_2_append by fastforce
  finally show ?thesis .
qed

text \<open>What a nil result of \<open>checkModelHealth\<close> guarantees, for each of its two callers.\<close>

definition rateLimitsEnforced :: "subscription \<Rightarrow> string \<Rightarrow> bool" where
  "rateLimitsEnforced sub rm =
     (\<exists>ns n. rm = ns @ ''/'' @ n \<and> CHR ''/'' \<notin> set ns \<and>
        (hasRateLimitsFor ns n (sub_modelRefs sub) \<longrightarrow> trlpReady n (sub_trlpStatuses sub)))"

lemma split2_iff:
  "(\<exists>ns n. splitN c 2 rm = [ns, n] \<and> P ns n) \<longleftrightarrow> (\<exists>ns n. rm = ns @ c # n \<and> c \<notin> set ns \<and> P ns n)"
  using splitN_2_length2 [of c rm] splitN_2_append [of c] by blast

lemma checkModelHealth_inference:
  assumes "rm \<noteq> []"
  shows "checkModelHealth sub rm = None \<longleftrightarrow>
    sub_phase sub = PhaseActive \<or> sub_phase sub = PhaseDegraded \<and> rateLimitsEnforced sub rm"
proof -
  let ?parts = "splitN (CHR ''/'') 2 rm"
  have two: "length ?parts = 2 \<longleftrightarrow> (\<exists>ns n. ?parts = [ns, n])"
    by (auto simp: length_Suc_conv numeral_2_eq_2 simp del: splitN.simps)
  have "rateLimitsEnforced sub rm \<longleftrightarrow> (\<exists>ns n. ?parts = [ns, n] \<and>
     (hasRateLimitsFor ns n (sub_modelRefs sub) \<longrightarrow> trlpReady n (sub_trlpStatuses sub)))"
    by (simp add: rateLimitsEnforced_def split2_iff)
  with assms two show ?thesis
    by (auto simp: checkModelHealth_def Let_def PhaseActive_def PhaseDegraded_def)
qed

lemma checkModelHealth_keyCreation:
  "checkModelHealth sub [] = None \<longleftrightarrow> sub_phase sub \<noteq> [] \<and> sub_phase sub \<noteq> PhaseFailed"
  by (simp add: checkModelHealth_def)

lemma checkModelHealth_unhealthy:
  "checkModelHealth sub rm = Some e \<Longrightarrow> \<exists>r m. e = ModelUnhealthyError (sub_name sub) (sub_phase sub) r m"
  by (auto simp: checkModelHealth_def Let_def rateLimitNotEnforced_def split: if_splits)

lemma set_sortSubscriptionsByPriority [simp]: "set (sortSubscriptionsByPriority xs) = set xs"
  by (simp add: sortSubscriptionsByPriority_def)

text \<open>The subscriptions a selector sees, and the candidates of a request.\<close>

definition loaded :: "Selector \<Rightarrow> subscription list" where
  "loaded s = (case loadSubscriptions s of Inl _ \<Rightarrow> [] | Inr subs \<Rightarrow> subs)"

definition candidates :: "string list \<Rightarrow> string \<Rightarrow> string \<Rightarrow> subscription list \<Rightarrow> subscription list" where
  "candidates groups username rm subs =
     filter (\<lambda>sub. userHasAccess sub username groups \<and> subscriptionIncludesModel sub rm) subs"

definition names :: "string \<Rightarrow> subscription \<Rightarrow> bool" where
  "names rs sub \<longleftrightarrow> qualifiedName sub = rs \<or> sub_name sub = rs \<and> CHR ''/'' \<notin> set rs"

lemma selectMatched_Inr:
  "selectMatched g u rs rm sub = Inr r \<longleftrightarrow>
     r = toResponse sub \<and> userHasAccess sub u g \<and> subscriptionIncludesModel sub rm \<and>
     checkModelHealth sub rm = None"
  by (auto simp: selectMatched_def subscriptionIncludesModel_def split: option.splits if_splits)

lemma selectExplicit_Inr:
  assumes "selectExplicit g u rs rm subs = Inr r"
  shows "\<exists>sub \<in> set subs. selectMatched g u rs rm sub = Inr r \<and> names rs sub"
  using assms
  by (auto simp: selectExplicit_def Let_def names_def find_Some_iff split: option.splits if_splits)

lemma autoCandidate_iff:
  "autoCandidate g u rm = (\<lambda>sub. userHasAccess sub u g \<and> subscriptionIncludesModel sub rm)"
  by (rule ext) (auto simp: autoCandidate_def subscriptionIncludesModel_def)

lemma listedForUser_iff:
  "listedForUser username groups = (\<lambda>sub. userHasAccess sub username groups \<and>
     (sub_phase sub = PhaseActive \<or> sub_phase sub = PhaseDegraded) \<and>
     sub_deletionTimestamp sub = None)"
  by (rule ext) (auto simp: listedForUser_def)

lemma selectAuto_Inr:
  "selectAuto g u rm subs = Inr r \<longleftrightarrow>
     (\<exists>sub. filter (autoCandidate g u rm) subs = [sub] \<and> r = toResponse sub \<and>
        checkModelHealth sub rm = None)"
  by (auto simp: selectAuto_def split: list.splits option.splits)

lemma Select_Inr:
  assumes "Select s g u rs rm = Inr r"
  obtains sub where "sub \<in> set (loaded s)" "r = toResponse sub" "userHasAccess sub u g"
    "subscriptionIncludesModel sub rm" "checkModelHealth sub rm = None" "rs \<noteq> [] \<Longrightarrow> names rs sub"
proof -
  from assms obtain subs where subs: "loadSubscriptions s = Inr subs"
    by (auto simp: Select_def split: sum.splits if_splits)
  let ?sorted = "sortSubscriptionsByPriority subs"
  show ?thesis
  proof (cases "rs = []")
    case True
    with assms subs have "selectAuto g u rm ?sorted = Inr r"
      by (auto simp: Select_def Let_def split: if_splits)
    then obtain sub where sub: "filter (autoCandidate g u rm) ?sorted = [sub]" "r = toResponse sub"
      "checkModelHealth sub rm = None"
      by (auto simp: selectAuto_Inr)
    have "sub \<in> set (filter (autoCandidate g u rm) ?sorted)" unfolding sub(1) by simp
    then have "sub \<in> set subs" "autoCandidate g u rm sub" by simp_all
    with sub subs True show ?thesis by (intro that) (auto simp: loaded_def autoCandidate_iff)
  next
    case False
    with assms subs have "selectExplicit g u rs rm ?sorted = Inr r"
      by (auto simp: Select_def Let_def split: if_splits)
    with subs that show ?thesis
      by (auto simp: selectMatched_Inr loaded_def dest!: selectExplicit_Inr)
  qed
qed

section \<open>Parsing inverts the serialized form\<close>

text \<open>The object a subscription is stored as in the cluster, field by field as the MaaSSubscription
  resource has them.\<close>

definition encodeLimit :: "TokenRateLimit \<Rightarrow> goany" where
  "encodeLimit l = GMap [(''limit'', GInt (trl_limit l)), (''window'', GStr (trl_window l))]"

definition encodeModelRef :: "ModelRefInfo \<Rightarrow> goany" where
  "encodeModelRef r = GMap
     ([(''name'', GStr (mr_name r)), (''namespace'', GStr (mr_namespace r)),
       (''tokenRateLimits'', GSlice (map encodeLimit (mr_tokenRateLimits r)))] @
      (case mr_billingRate r of
         None \<Rightarrow> [] | Some b \<Rightarrow> [(''billingRate'', GMap [(''perToken'', GStr (br_perToken b))])]))"

definition encodeTrlpStatus :: "TokenRateLimitStatus \<Rightarrow> goany" where
  "encodeTrlpStatus t = GMap
     [(''model'', GStr (ts_model t)), (''name'', GStr (ts_name t)),
      (''namespace'', GStr (ts_namespace t)), (''ready'', GBool (ts_ready t)),
      (''reason'', GStr (ts_reason t)), (''message'', GStr (ts_message t))]"

definition encodeTokenMetadata :: "subscription \<Rightarrow> goany" where
  "encodeTokenMetadata sub = GMap
     ([(''organizationId'', GStr (sub_organizationID sub)), (''costCenter'', GStr (sub_costCenter sub))] @
      (case sub_labels sub of
         None \<Rightarrow> [] | Some ls \<Rightarrow> [(''labels'', GMap (map (\<lambda>(k, v). (k, GStr v)) ls))]))"

definition encodeSpec :: "subscription \<Rightarrow> gomap" where
  "encodeSpec sub =
     [(''owner'', GMap [(''groups'', GSlice (map (\<lambda>g. GMap [(''name'', GStr g)]) (sub_groups sub))),
                        (''users'', GSlice (map GStr (sub_users sub)))]),
      (''priority'', GInt (sub_priority sub)),
      (''modelRefs'', GSlice (map encodeModelRef (sub_modelRefs sub))),
      (''tokenMetadata'', encodeTokenMetadata sub)]"

definition encodeStatus :: "subscription \<Rightarrow> gomap" where
  "encodeStatus sub =
     [(''phase'', GStr (sub_phase sub)),
      (''conditions'', GSlice [GMap [(''type'', GStr ''Ready''),
         (''status'', GStr (if sub_ready sub then ''True'' else ''False''))]]),
      (''tokenRateLimitStatuses'', GSlice (map encodeTrlpStatus (sub_trlpStatuses sub)))]"

definition encodeSubscription :: "subscription \<Rightarrow> gomap" where
  "encodeSubscription sub =
     [(''metadata'', GMap
         ([(''name'', GStr (sub_name sub)), (''namespace'', GStr (sub_namespace sub)),
           (''annotations'', GMap [(AnnotationDisplayName, GStr (sub_displayName sub)),
                                   (AnnotationDescription, GStr (sub_description sub))])] @
          (case sub_deletionTimestamp sub of None \<Rightarrow> [] | Some ts \<Rightarrow> [(''deletionTimestamp'', GStr ts)]))),
      (''spec'', GMap (encodeSpec sub)),
      (''status'', GMap (encodeStatus sub))]"

text \<open>The values a stored subscription can have.\<close>

definition wf_subscription :: "subscription \<Rightarrow> bool" where
  "wf_subscription sub \<longleftrightarrow>
     0 \<le> sub_priority sub \<and> sub_priority sub \<le> 2147483647 \<and>
     sub_maxLimit sub = maxTokenLimit (sub_modelRefs sub) \<and>
     trimSpace (sub_phase sub) = sub_phase sub \<and> sub_deletionTimestamp sub \<noteq> Some []"

lemma map_filter_map_Some: "(\<And>x. f (g x) = Some (h x)) \<Longrightarrow> List.map_filter f (map g xs) = map h xs"
  by (induction xs) (simp_all add: map_filter_simps)

lemma all_strings_map [simp]: "all_strings (map GStr xs) = Some xs"
  by (induction xs) simp_all

lemma parse_encodeModelRef:
  assumes "nested_documented api"
  shows "Option.bind (as_map (encodeModelRef r)) (\<lambda>m. Some (parseModelRef api m)) = Some r"
proof -
  have "map parseLimit (List.map_filter as_map (map encodeLimit ls)) = ls" for ls
    by (induction ls) (simp_all add: map_filter_simps encodeLimit_def parseLimit_def mapIndex_def strField_def)
  then show ?thesis
    using assms
    by (cases r)
      (auto simp: encodeModelRef_def parseModelRef_def nested_documentedD field_of_def mapIndex_def
        strField_def split: option.splits)
qed

lemma parse_encodeModelRefs:
  assumes "nested_documented api"
  shows "map (parseModelRef api) (List.map_filter as_map (map encodeModelRef rs)) = rs"
proof (induction rs)
  case Nil
  then show ?case by (simp add: map_filter_simps)
next
  case (Cons r rs)
  from parse_encodeModelRef [OF assms, of r] obtain m where
    "as_map (encodeModelRef r) = Some m" "parseModelRef api m = r"
    by (auto split: bind_splits)
  with Cons show ?case by (simp add: map_filter_simps)
qed

lemma parse_encodeTrlpStatuses:
  "map parseTrlpStatus (List.map_filter as_map (map encodeTrlpStatus ts)) = ts"
  by (induction ts)
    (simp_all add: map_filter_simps encodeTrlpStatus_def parseTrlpStatus_def mapIndex_def strField_def)

lemma parseGroups_encode: "parseGroups (map (\<lambda>g. GMap [(''name'', GStr g)]) gs) = gs"
  by (induction gs) (simp_all add: parseGroups_def map_filter_simps mapIndex_def)

lemma parseLabels_encode:
  "List.map_filter (\<lambda>(k, v). map_option (Pair k) (as_string v)) (map (\<lambda>(k, v). (k, GStr v)) ls) = ls"
  by (induction ls) (auto simp: map_filter_simps)

lemmas parse_encode_parts =
  parse_encodeModelRefs parse_encodeTrlpStatuses parseGroups_encode parseLabels_encode

section \<open>A concrete cluster\<close>

text \<open>Three subscriptions: \<open>gold\<close> (Active) and \<open>silver\<close> (Degraded, rate limits enforced for one of
  its two models) of group \<open>team\<close>, and \<open>solo\<close> (Failed) of user \<open>bob\<close>. Used by the concrete
  instances of the properties.\<close>

definition exModel :: "string \<Rightarrow> int \<Rightarrow> goany" where
  "exModel n l = GMap [(''name'', GStr n), (''namespace'', GStr ''llm''),
     (''tokenRateLimits'', GSlice [GMap [(''limit'', GInt l), (''window'', GStr ''1h'')]])]"

definition exObject :: "string \<Rightarrow> string list \<Rightarrow> string list \<Rightarrow> int \<Rightarrow> goany list \<Rightarrow> string \<Rightarrow> goany list \<Rightarrow> gomap"
  where
  "exObject n groups users prio models phase trlps =
     [(''metadata'', GMap [(''name'', GStr n), (''namespace'', GStr ''maas'')]),
      (''spec'', GMap [(''owner'', GMap [(''groups'', GSlice (map (\<lambda>g. GMap [(''name'', GStr g)]) groups)),
                                        (''users'', GSlice (map GStr users))]),
                       (''priority'', GInt prio), (''modelRefs'', GSlice models)]),
      (''status'', GMap [(''phase'', GStr phase), (''tokenRateLimitStatuses'', GSlice trlps)])]"

definition exSelector :: Selector where
  "exSelector =
     \<lparr>sel_api = std_nested,
      sel_list = Inr
        [exObject ''silver'' [''team''] [] 5 [exModel ''m1'' 100, exModel ''m2'' 200] ''Degraded''
           [GMap [(''model'', GStr ''m1''), (''ready'', GBool True)]],
         exObject ''gold'' [''team''] [] 10 [exModel ''m3'' 1000] '' Active '' [],
         exObject ''solo'' [] [''bob''] 1 [exModel ''m1'' 1] ''Failed'' []]\<rparr>"

section \<open>Properties of the selector\<close>

text \<open>Round trip of the parser. Reading back the object a well-formed subscription is stored as
  gives that subscription: owner, priority, model references with limits and billing rates, token
  metadata, phase, readiness, rate limit statuses and deletion timestamp. It holds for every
  implementation of the unstructured accessors that behaves as documented.\<close>

theorem parse_roundtrip:
  assumes api: "nested_documented api" and wf: "wf_subscription sub"
  shows "parseSubscription api (encodeSubscription sub) = Inr sub"
proof -
  have spec: "nestedMap api (encodeSubscription sub) [''spec''] = (encodeSpec sub, True, None)"
    by (rule nestedMap_present [OF api]) (simp add: encodeSubscription_def)
  have owner: "parseOwner api (encodeSpec sub) x = x\<lparr>sub_groups := sub_groups x @ sub_groups sub, sub_users := sub_users sub\<rparr>" for x
    using api by (simp add: parseOwner_def encodeSpec_def nested_documentedD field_of_def
        as_string_slice_def parseGroups_encode)
  have prio: "parsePriority api (encodeSpec sub) x = x\<lparr>sub_priority := sub_priority sub\<rparr>" for x
    using api wf by (simp add: parsePriority_def encodeSpec_def nested_documentedD field_of_def
        wf_subscription_def)
  have refs: "parseModelRefs api (encodeSpec sub) x =
      x\<lparr>sub_maxLimit := sub_maxLimit sub, sub_modelRefs := sub_modelRefs sub\<rparr>" for x
    using api wf by (simp add: parseModelRefs_def encodeSpec_def nested_documentedD field_of_def
        wf_subscription_def parse_encodeModelRefs Let_def)
  have meta: "parseTokenMetadata api (encodeSpec sub) x = x\<lparr>sub_organizationID := sub_organizationID sub,
      sub_costCenter := sub_costCenter sub,
      sub_labels := (if sub_labels sub = None then sub_labels x else sub_labels sub)\<rparr>" for x
    using api by (auto simp: parseTokenMetadata_def encodeSpec_def encodeTokenMetadata_def
        nested_documentedD field_of_def mapIndex_def parseLabels_encode Let_def split: option.splits)
  have status: "parseStatus api (encodeSubscription sub) x = x\<lparr>sub_phase := sub_phase sub,
      sub_ready := sub_ready sub, sub_trlpStatuses := sub_trlpStatuses sub\<rparr>" for x
    using api wf by (simp add: parseStatus_def encodeSubscription_def encodeStatus_def
        nested_documentedD field_of_def mapIndex_def strField_def parse_encodeTrlpStatuses
        wf_subscription_def Let_def)
  have del: "parseDeletionTimestamp (encodeSubscription sub) = sub_deletionTimestamp sub"
    using wf by (auto simp: parseDeletionTimestamp_def encodeSubscription_def mapIndex_def
        wf_subscription_def split: option.splits)
  have names: "getName api (encodeSubscription sub) = sub_name sub"
    "getNamespace api (encodeSubscription sub) = sub_namespace sub"
    "getAnnotations api (encodeSubscription sub) =
       Some [(AnnotationDisplayName, sub_displayName sub), (AnnotationDescription, sub_description sub)]"
    using api by (simp_all add: nested_documentedD std_meta_def std_annotations_def
        encodeSubscription_def mapIndex_def strField_def map_filter_simps)
  show ?thesis
    by (simp add: parseSubscription_def spec owner prio refs meta status del names
        emptySubscription_def strMapIndex_def AnnotationDisplayName_def AnnotationDescription_def Let_def)
qed

theorem parse_roundtrip_witness:
  "parseSubscription std_nested (encodeSubscription (emptySubscription\<lparr>sub_name := ''gold'',
     sub_groups := [''a'', ''b''], sub_priority := 7, sub_phase := ''Active''\<rparr>)) =
   Inr (emptySubscription\<lparr>sub_name := ''gold'',
     sub_groups := [''a'', ''b''], sub_priority := 7, sub_phase := ''Active''\<rparr>)"
proof -
  have "wf_subscription (emptySubscription\<lparr>sub_name := ''gold'',
     sub_groups := [''a'', ''b''], sub_priority := 7, sub_phase := ''Active''\<rparr>)"
    by code_simp
  with std_nested_documented show ?thesis by (rule parse_roundtrip)
qed

text \<open>C6: access safety of selection. A successful \<open>Select\<close> returns a subscription of the cluster
  that lists the user or one of the user's trimmed groups as owner; if a subscription was asked for,
  it is the one named, by namespace and name or by bare name; if a model was asked for, it includes
  that model, its phase is Active or Degraded, and when Degraded the model's declared rate limits
  are enforced; without a model it is reconciled and not Failed.\<close>

theorem Select_safe:
  assumes "Select s groups username rs rm = Inr r"
  shows "\<exists>sub \<in> set (loaded s). r = toResponse sub \<and>
    (username \<in> set (sub_users sub) \<or> (\<exists>g \<in> set groups. trimSpace g \<in> set (sub_groups sub))) \<and>
    (rs \<noteq> [] \<longrightarrow> names rs sub) \<and>
    (if rm = [] then sub_phase sub \<noteq> [] \<and> sub_phase sub \<noteq> PhaseFailed
     else (\<exists>ref \<in> set (sub_modelRefs sub). rm = mr_namespace ref @ ''/'' @ mr_name ref) \<and>
          (sub_phase sub = PhaseActive \<or>
           sub_phase sub = PhaseDegraded \<and> rateLimitsEnforced sub rm))"
proof -
  from assms obtain sub where sub: "sub \<in> set (loaded s)" "r = toResponse sub"
    "userHasAccess sub username groups" "subscriptionIncludesModel sub rm"
    "checkModelHealth sub rm = None" "rs \<noteq> [] \<Longrightarrow> names rs sub"
    by (rule Select_Inr) blast
  then show ?thesis
    by (intro bexI [of _ sub])
      (auto simp: userHasAccess_iff checkModelHealth_keyCreation checkModelHealth_inference
        subscriptionIncludesModel_iff)
qed

theorem Select_safe_witness:
  "\<exists>r. Select exSelector ['' team''] ''alice'' ''silver'' ''llm/m1'' = Inr r \<and> resp_name r = ''silver'' \<and>
     (\<exists>sub \<in> set (loaded exSelector). r = toResponse sub \<and> names ''silver'' sub)"
proof -
  have "map_sum id resp_name (Select exSelector ['' team''] ''alice'' ''silver'' ''llm/m1'') = Inr ''silver''"
    by code_simp
  then obtain r where r: "Select exSelector ['' team''] ''alice'' ''silver'' ''llm/m1'' = Inr r"
    "resp_name r = ''silver''"
    by (rule map_sum_InrE)
  from Select_safe [OF r(1)] r show ?thesis by blast
qed

text \<open>Auto-selection is unambiguous. Without a requested subscription, selection succeeds
  exactly when one subscription alone is accessible to the user and includes the requested model,
  and that one is healthy, and then returns it; with no such subscription the answer is
  \<open>NoSubscriptionError\<close>, with several it is \<open>MultipleSubscriptionsError\<close>.\<close>

theorem Select_auto:
  assumes "groups \<noteq> [] \<or> username \<noteq> []" and "loadSubscriptions s = Inr subs"
  shows "(Select s groups username [] rm = Inr r \<longleftrightarrow>
           (\<exists>sub. candidates groups username rm subs = [sub] \<and> checkModelHealth sub rm = None \<and> r = toResponse sub)) \<and>
         (Select s groups username [] rm = Inl NoSubscriptionError \<longleftrightarrow> candidates groups username rm subs = []) \<and>
         ((\<exists>ns. Select s groups username [] rm = Inl (MultipleSubscriptionsError ns)) \<longleftrightarrow> length (candidates groups username rm subs) \<ge> 2)"
proof -
  let ?c = "stable_sort priorityLess (candidates groups username rm subs)"
  have "filter (autoCandidate groups username rm) (sortSubscriptionsByPriority subs) = ?c"
    by (simp add: candidates_def sortSubscriptionsByPriority_def by_priority.filter_stable_sort autoCandidate_iff)
  then have sel: "Select s groups username [] rm =
    (case ?c of [] \<Rightarrow> Inl NoSubscriptionError
     | [sub] \<Rightarrow> (case checkModelHealth sub rm of Some err \<Rightarrow> Inl err | None \<Rightarrow> Inr (toResponse sub))
     | xs \<Rightarrow> Inl (MultipleSubscriptionsError (map sub_name xs)))"
    using assms(1,2)
    by (cases subs)
      (auto simp: Select_def selectAuto_def Let_def candidates_def sortSubscriptionsByPriority_def)
  show ?thesis
  proof (cases "candidates groups username rm subs" rule: list_012)
    case 0
    then have "?c = []" by simp
    with sel 0 show ?thesis by simp
  next
    case (1 sub)
    then have "?c = [sub]" by (simp add: stable_sort_def)
    with sel 1 show ?thesis
      by (auto split: option.splits dest: checkModelHealth_unhealthy)
  next
    case (2 x y zs)
    then have "length ?c \<ge> 2" by simp
    then obtain x' y' zs' where "?c = x' # y' # zs'" by (cases ?c rule: list_012) auto
    with sel 2 show ?thesis by simp
  qed
qed

theorem Select_auto_witness:
  "\<exists>subs. loadSubscriptions exSelector = Inr subs \<and>
     Select exSelector [] ''carol'' [] [] = Inl NoSubscriptionError \<and>
     candidates [] ''carol'' [] subs = []"
proof -
  have "map_sum id length (loadSubscriptions exSelector) = Inr 3" by code_simp
  then obtain subs where subs: "loadSubscriptions exSelector = Inr subs" by (rule map_sum_InrE)
  have "map_sum (\<lambda>e. e = NoSubscriptionError) resp_name (Select exSelector [] ''carol'' [] []) = Inl True"
    by code_simp
  then have "Select exSelector [] ''carol'' [] [] = Inl NoSubscriptionError"
    by (cases "Select exSelector [] ''carol'' [] []") auto
  with Select_auto [of "[]" "''carol''" exSelector subs "[]", OF _ subs] subs show ?thesis by simp
qed

text \<open>\<open>SelectHighestPriority\<close> returns an accessible subscription that no accessible
  subscription precedes in the order priority descending, token limit descending, name ascending;
  it finds one whenever an accessible subscription exists.\<close>

theorem SelectHighestPriority_max:
  assumes "groups \<noteq> [] \<or> username \<noteq> []" and "loadSubscriptions s = Inr subs"
    and "b \<in> set subs" "userHasAccess b username groups"
  shows "\<exists>sub \<in> set subs. SelectHighestPriority s groups username = Inr (toResponse sub) \<and>
    userHasAccess sub username groups \<and>
    (\<forall>x \<in> set subs. userHasAccess x username groups \<longrightarrow> \<not> priorityLess x sub)"
proof -
  let ?acc = "filter (\<lambda>sub. userHasAccess sub username groups) subs"
  let ?top = "hd (stable_sort priorityLess ?acc)"
  have ne: "?acc \<noteq> []" "stable_sort priorityLess ?acc \<noteq> []" "subs \<noteq> []"
    using assms(3,4) by (auto simp: filter_empty_conv simp del: stable_sort_Nil_iff)
      (auto simp: filter_empty_conv)
  have "?top \<in> set ?acc" using hd_in_set [OF ne(2)] by simp
  moreover have "SelectHighestPriority s groups username = Inr (toResponse ?top)"
    using assms(1,2) ne
    by (simp add: SelectHighestPriority_def Let_def sortSubscriptionsByPriority_def hd_conv_nth)
  ultimately show ?thesis
    using by_priority.hd_stable_sort_minimal [OF ne(1)] by auto
qed

theorem SelectHighestPriority_max_witness:
  "\<exists>subs. loadSubscriptions exSelector = Inr subs \<and>
     (\<exists>sub \<in> set subs. SelectHighestPriority exSelector [''team''] [] = Inr (toResponse sub) \<and>
        (\<forall>x \<in> set subs. userHasAccess x [] [''team''] \<longrightarrow> \<not> priorityLess x sub))"
proof -
  have "map_sum id (\<lambda>l. userHasAccess (l ! 0) [] [''team''] \<and> length l = 3) (loadSubscriptions exSelector) = Inr True"
    by code_simp
  then obtain subs where subs: "loadSubscriptions exSelector = Inr subs"
    "(userHasAccess (subs ! 0) [] [''team''] \<and> length subs = 3) = True" by (rule map_sum_InrE)
  then have "subs ! 0 \<in> set subs" by simp
  from SelectHighestPriority_max [OF _ subs(1) this] subs show ?thesis by blast
qed

text \<open>The listing endpoint's \<open>GetAllAccessible\<close> returns exactly one entry for every
  subscription that the user may use, is Active or Degraded and is not being deleted, ordered by
  name.\<close>

theorem GetAllAccessible_exact:
  assumes "GetAllAccessible s groups username = Inr rs"
  shows "mset rs = image_mset toResponse (filter_mset (\<lambda>sub. userHasAccess sub username groups \<and>
            (sub_phase sub = PhaseActive \<or> sub_phase sub = PhaseDegraded) \<and>
            sub_deletionTimestamp sub = None) (mset (loaded s))) \<and>
    sorted (map resp_name rs)"
proof -
  from assms have rs: "rs = stable_sort respNameLess (map toResponse (filter (listedForUser username groups) (loaded s)))"
    by (auto simp: GetAllAccessible_def loaded_def split: if_splits sum.splits)
  have "sorted (map resp_name rs)"
    using by_resp_name.sorted_stable_sort unfolding rs sorted_map
    by (rule sorted_wrt_mono_rel [rotated]) (auto simp: respNameLess_def)
  then show ?thesis unfolding rs by (simp add: listedForUser_iff)
qed

theorem GetAllAccessible_exact_witness:
  "\<exists>rs. GetAllAccessible exSelector [''team''] ''bob'' = Inr rs \<and> map resp_name rs = [''gold'', ''silver''] \<and>
     sorted (map resp_name rs)"
proof -
  have "map_sum id (map resp_name) (GetAllAccessible exSelector [''team''] ''bob'') = Inr [''gold'', ''silver'']"
    by code_simp
  then obtain rs where rs: "GetAllAccessible exSelector [''team''] ''bob'' = Inr rs"
    "map resp_name rs = [''gold'', ''silver'']" by (rule map_sum_InrE)
  from GetAllAccessible_exact [OF rs(1)] have "sorted (map resp_name rs)" by (rule conjunct2)
  with rs show ?thesis by (intro exI [of _ rs] conjI)
qed

end
