(* ===== verification/Api_Key_Store.thy ===== *)
theory Api_Key_Store
  imports Go_Prelude
begin

text \<open>
  \<open>maas-api/internal/api_keys/types.go\<close> and \<open>store_interface.go\<close>: the metadata of API keys and the
  \<open>MetadataStore\<close> interface. A store is a record of functions over a state type; each call also takes
  a \<open>store_env\<close>, what the outside world contributes to it: the reading of \<open>time.Now()\<close>, the database's
  \<open>NOW()\<close>, and the failures of the database calls. The locale \<open>metadata_store\<close> states what an
  implementation promises, over an abstract view of its contents; the two implementations,
  \<open>MockStore\<close> and \<open>PostgresStore\<close>, are interpretations of it.
\<close>

section \<open>Types\<close>

definition StatusActive :: string where "StatusActive = ''active''"
definition StatusRevoked :: string where "StatusRevoked = ''revoked''"
definition StatusExpired :: string where "StatusExpired = ''expired''"

record ApiKey =
  ak_id :: string
  ak_name :: string
  ak_description :: string
  ak_username :: string
  ak_subscription :: string
  ak_groups :: "string list"
  ak_creationDate :: string
  ak_expirationDate :: string
  ak_status :: string
  ak_lastUsedAt :: string
  ak_ephemeral :: bool

record ValidationResult =
  vr_valid :: bool
  vr_userID :: string
  vr_username :: string
  vr_keyID :: string
  vr_groups :: "string list"
  vr_subscription :: string
  vr_reason :: string

record PaginationParams =
  pp_limit :: int
  pp_offset :: int

record PaginatedResult =
  pr_keys :: "ApiKey list"
  pr_hasMore :: bool

record SearchFilters =
  sf_username :: string
  sf_status :: "string list"
  sf_createdAfter :: "string option"
  sf_createdBefore :: "string option"
  sf_expiresAfter :: "string option"
  sf_expiresBefore :: "string option"
  sf_lastUsedAfter :: "string option"
  sf_nameContains :: "string option"
  sf_descriptionContains :: "string option"
  sf_hasExpiration :: "bool option"
  sf_hasBeenUsed :: "bool option"
  sf_includeEphemeral :: "bool option"

record SortParams =
  sp_by :: string
  sp_order :: string

definition DefaultSortBy :: string where "DefaultSortBy = ''created_at''"
definition DefaultSortOrder :: string where "DefaultSortOrder = ''desc''"
definition SortOrderAsc :: string where "SortOrderAsc = ''asc''"
definition SortOrderDesc :: string where "SortOrderDesc = ''desc''"
definition DefaultLimit :: int where "DefaultLimit = 50"
definition MaxLimit :: int where "MaxLimit = 100"

definition ValidSortFields :: "string list" where
  "ValidSortFields = [''created_at'', ''expires_at'', ''last_used_at'', ''name'']"

definition ValidSortOrders :: "string list" where
  "ValidSortOrders = [''asc'', ''desc'']"

definition ValidStatuses :: "string list" where
  "ValidStatuses = [''active'', ''revoked'', ''expired'']"

text \<open>The sentinel errors of the interface; \<open>StoreErr\<close> is any other error, with its message.\<close>

datatype StoreError =
    ErrKeyNotFound
  | ErrInvalidKey
  | ErrEmptyJTI
  | ErrEmptyName
  | StoreErr string

text \<open>The outside world during one store call. A database call that reports an error may have been
  executed or not: the flag of \<open>env_queryErr\<close> and \<open>env_updateErr\<close>. \<open>env_updateErr\<close> is the second
  call of \<open>GetByHash\<close>, \<open>env_rowsErr\<close> the outcome of \<open>RowsAffected\<close>.\<close>

record store_env =
  env_now :: gotime
  env_dbnow :: gotime
  env_queryErr :: "(string \<times> bool) option"
  env_updateErr :: "(string \<times> bool) option"
  env_rowsErr :: "string option"

definition fault_free :: "store_env \<Rightarrow> bool" where
  "fault_free e \<longleftrightarrow> env_queryErr e = None \<and> env_updateErr e = None \<and> env_rowsErr e = None"

record 's MetadataStore =
  st_AddKey :: "store_env \<Rightarrow> string \<Rightarrow> string \<Rightarrow> string \<Rightarrow> string \<Rightarrow> string \<Rightarrow> string list \<Rightarrow> string \<Rightarrow>
                gotime option \<Rightarrow> bool \<Rightarrow> 's \<Rightarrow> 's \<times> StoreError option"
  st_Search :: "store_env \<Rightarrow> string \<Rightarrow> SearchFilters \<Rightarrow> SortParams \<Rightarrow> PaginationParams \<Rightarrow> 's \<Rightarrow>
                StoreError + PaginatedResult"
  st_Get :: "store_env \<Rightarrow> string \<Rightarrow> 's \<Rightarrow> StoreError + ApiKey"
  st_GetByHash :: "store_env \<Rightarrow> string \<Rightarrow> 's \<Rightarrow> 's \<times> (StoreError + ApiKey)"
  st_InvalidateAll :: "store_env \<Rightarrow> string \<Rightarrow> 's \<Rightarrow> 's \<times> (StoreError + int)"
  st_Revoke :: "store_env \<Rightarrow> string \<Rightarrow> 's \<Rightarrow> 's \<times> StoreError option"
  st_UpdateLastUsed :: "store_env \<Rightarrow> string \<Rightarrow> 's \<Rightarrow> 's \<times> StoreError option"
  st_DeleteExpiredEphemeral :: "store_env \<Rightarrow> 's \<Rightarrow> 's \<times> (StoreError + int)"

section \<open>The abstract view\<close>

text \<open>What a key is, apart from display data: the owner, hash, bound groups and subscription and
  the expiry are fixed at creation; only the status changes.\<close>

record akey =
  k_hash :: string
  k_user :: string
  k_groups :: "string list"
  k_sub :: string
  k_expires :: "gotime option"
  k_ephemeral :: bool
  k_status :: string

type_synonym kview = "string \<Rightarrow> akey option"

definition expiredAt :: "gotime \<Rightarrow> akey \<Rightarrow> bool" where
  "expiredAt now k = (case k_expires k of None \<Rightarrow> False | Some t \<Rightarrow> t < now)"

definition liveAt :: "gotime \<Rightarrow> akey \<Rightarrow> bool" where
  "liveAt now k \<longleftrightarrow> k_status k = StatusActive \<and> \<not> expiredAt now k"

text \<open>One-way status transitions, with everything else fixed.\<close>

definition evolves :: "akey \<Rightarrow> akey \<Rightarrow> bool" where
  "evolves k k' \<longleftrightarrow>
     k'\<lparr>k_status := k_status k\<rparr> = k \<and>
     (k_status k' = k_status k \<or> k_status k = StatusActive \<and> k_status k' \<in> {StatusRevoked, StatusExpired})"

text \<open>The later view holds no new key, and its keys evolved from the earlier ones.\<close>

definition view_evolves :: "kview \<Rightarrow> kview \<Rightarrow> bool" where
  "view_evolves v v' \<longleftrightarrow> (\<forall>i k'. v' i = Some k' \<longrightarrow> (\<exists>k. v i = Some k \<and> evolves k k'))"

definition revokeAllOf :: "string \<Rightarrow> kview \<Rightarrow> kview" where
  "revokeAllOf u v = (\<lambda>i. map_option (\<lambda>k. if k_user k = u \<and> k_status k = StatusActive
                                           then k\<lparr>k_status := StatusRevoked\<rparr> else k) (v i))"

text \<open>The lazy expiry of a lookup by hash: an active key with this hash whose expiry has passed is
  marked expired.\<close>

definition expireHash :: "gotime \<Rightarrow> string \<Rightarrow> kview \<Rightarrow> kview" where
  "expireHash now h v = (\<lambda>i. map_option (\<lambda>k. if k_hash k = h \<and> k_status k = StatusActive \<and> expiredAt now k
                                              then k\<lparr>k_status := StatusExpired\<rparr> else k) (v i))"

text \<open>The keys the cleanup job removes at time \<open>now\<close>: ephemeral and expired for more than half an hour.\<close>

definition cleanable :: "gotime \<Rightarrow> akey \<Rightarrow> bool" where
  "cleanable now k = (k_ephemeral k \<and> (case k_expires k of None \<Rightarrow> False | Some t \<Rightarrow> t < now - 30 * Minute))"

definition hash_unique :: "kview \<Rightarrow> bool" where
  "hash_unique v \<longleftrightarrow> (\<forall>i j k l. v i = Some k \<longrightarrow> v j = Some l \<longrightarrow> k_hash k = k_hash l \<longrightarrow> i = j)"

text \<open>The metadata a lookup returns for a key of the view.\<close>

definition describes :: "ApiKey \<Rightarrow> string \<Rightarrow> akey \<Rightarrow> bool" where
  "describes m i k \<longleftrightarrow> ak_id m = i \<and> ak_username m = k_user k \<and> ak_subscription m = k_sub k \<and>
     ak_ephemeral m = k_ephemeral k"

lemma status_distinct [simp]:
  "StatusActive \<noteq> StatusRevoked" "StatusActive \<noteq> StatusExpired" "StatusRevoked \<noteq> StatusExpired"
  "StatusRevoked \<noteq> StatusActive" "StatusExpired \<noteq> StatusActive" "StatusExpired \<noteq> StatusRevoked"
  by (simp_all add: StatusActive_def StatusRevoked_def StatusExpired_def)

lemma evolves_refl [simp]: "evolves k k"
  by (simp add: evolves_def)

lemma evolves_trans: "evolves a b \<Longrightarrow> evolves b c \<Longrightarrow> evolves a c"
proof -
  assume *: "evolves a b" "evolves b c"
  then have "c\<lparr>k_status := k_status a\<rparr> = (c\<lparr>k_status := k_status b\<rparr>)\<lparr>k_status := k_status a\<rparr>"
    by simp
  with * show ?thesis by (auto simp: evolves_def StatusActive_def StatusRevoked_def StatusExpired_def)
qed

lemma view_evolves_refl [simp]: "view_evolves v v"
  by (auto simp: view_evolves_def)

lemma view_evolves_trans: "view_evolves u v \<Longrightarrow> view_evolves v w \<Longrightarrow> view_evolves u w"
  unfolding view_evolves_def by (meson evolves_trans)

lemma evolves_fields:
  assumes "evolves k k'"
  shows "k_hash k' = k_hash k" "k_user k' = k_user k" "k_groups k' = k_groups k"
    "k_sub k' = k_sub k" "k_expires k' = k_expires k" "k_ephemeral k' = k_ephemeral k"
  using assms by (auto simp: evolves_def dest: arg_cong [where f = k_hash] arg_cong [where f = k_user]
      arg_cong [where f = k_groups] arg_cong [where f = k_sub] arg_cong [where f = k_expires]
      arg_cong [where f = k_ephemeral])

lemma evolves_dead: "evolves k k' \<Longrightarrow> k_status k \<noteq> StatusActive \<Longrightarrow> k' = k"
  by (cases k; cases k') (auto simp: evolves_def)

lemma evolves_status: "st \<in> {StatusRevoked, StatusExpired} \<Longrightarrow> k_status k = StatusActive \<Longrightarrow>
    evolves k (k\<lparr>k_status := st\<rparr>)"
  by (auto simp: evolves_def)

lemma view_evolves_revokeAllOf: "view_evolves v (revokeAllOf u v)"
  by (auto simp: view_evolves_def revokeAllOf_def intro: evolves_status)

lemma expireHash_cases:
  assumes "v' i = v i \<or> v' i = expireHash now h v i"
  shows "v' i = v i \<or> (\<exists>k. v i = Some k \<and> k_status k = StatusActive \<and> expiredAt now k \<and>
    v' i = Some (k\<lparr>k_status := StatusExpired\<rparr>))"
  using assms by (cases "v i") (auto simp: expireHash_def split: if_splits)

lemma expireHash_evolves:
  assumes "\<And>i. v' i = v i \<or> v' i = expireHash now h v i"
  shows "view_evolves v v' \<and> dom v' = dom v"
proof -
  note c = expireHash_cases [of v' _ v now h, OF assms]
  have "\<exists>k. v i = Some k \<and> evolves k k'" if "v' i = Some k'" for i k'
    using c [of i] that by (elim disjE exE conjE) (auto intro: evolves_status)
  moreover have "v' i = None \<longleftrightarrow> v i = None" for i using c [of i] by auto
  ultimately show ?thesis by (auto simp: view_evolves_def dom_def)
qed

lemma expireHash_missing: "(\<And>j k. v j = Some k \<Longrightarrow> k_hash k \<noteq> h) \<Longrightarrow> expireHash now h v = v"
  by (auto simp: expireHash_def fun_eq_iff map_option_case split: option.splits)

text \<open>With unique hashes the expiry touches at most the one key.\<close>

lemma expireHash_only:
  assumes "hash_unique v" "v i = Some k" "k_hash k = h"
  shows "expireHash now h v =
    (if k_status k = StatusActive \<and> expiredAt now k then v(i \<mapsto> k\<lparr>k_status := StatusExpired\<rparr>) else v)"
proof
  fix j
  have "j = i" if "v j = Some l" "k_hash l = h" for l
    using assms that unfolding hash_unique_def by blast
  then show "expireHash now h v j =
    (if k_status k = StatusActive \<and> expiredAt now k then v(i \<mapsto> k\<lparr>k_status := StatusExpired\<rparr>) else v) j"
    using assms(2,3) by (cases "v j") (auto simp: expireHash_def)
qed

lemma revokeAllOf_active: "revokeAllOf u v i = Some k \<Longrightarrow> k_status k = StatusActive \<Longrightarrow> k_user k \<noteq> u"
  by (cases "v i") (auto simp: revokeAllOf_def split: if_splits)

lemma view_evolves_None: "view_evolves v v' \<Longrightarrow> v i = None \<Longrightarrow> v' i = None"
  unfolding view_evolves_def by (metis not_Some_eq option.distinct(1))

lemma view_evolves_dead:
  assumes "view_evolves v v'" "v i = Some k" "k_status k \<noteq> StatusActive"
  shows "v' i = None \<or> v' i = Some k"
proof (cases "v' i")
  case (Some k')
  with assms(1,2) have "evolves k k'" unfolding view_evolves_def by fastforce
  with Some assms(3) show ?thesis by (simp add: evolves_dead)
qed simp

section \<open>The contract of a store\<close>

definition newKey ::
  "string \<Rightarrow> string \<Rightarrow> string list \<Rightarrow> string \<Rightarrow> gotime option \<Rightarrow> bool \<Rightarrow> akey" where
  "newKey h u g sub e eph =
     \<lparr>k_hash = h, k_user = u, k_groups = g, k_sub = sub, k_expires = e, k_ephemeral = eph,
      k_status = StatusActive\<rparr>"

text \<open>
  \<open>ops\<close> is an implementation, \<open>view\<close> the contents of a state, \<open>inv\<close> its invariant. \<open>expiry\<close> is what the
  store keeps of a given expiry (a database may round a timestamp), \<open>clock\<close> the clock its cleanup
  reads. Every law of a mutating operation also covers the case that it reports an error. The
  contract is built in three layers: lookups, the life cycle of keys, and search.
\<close>

locale key_lookup =
  fixes ops :: "'s MetadataStore"
    and view :: "'s \<Rightarrow> kview"
    and inv :: "'s \<Rightarrow> bool"
  assumes inv_GetByHash: "inv s \<Longrightarrow> inv (fst (st_GetByHash ops e h s))"
    and GetByHash_effect: "inv s \<Longrightarrow> view (fst (st_GetByHash ops e h s)) i = view s i \<or>
      view (fst (st_GetByHash ops e h s)) i = expireHash (env_now e) h (view s) i"
    and GetByHash_sound: "inv s \<Longrightarrow> snd (st_GetByHash ops e h s) = Inr m \<Longrightarrow>
      \<exists>k. view s (ak_id m) = Some k \<and> k_hash k = h \<and> liveAt (env_now e) k \<and>
          describes m (ak_id m) k \<and> ak_groups m = k_groups k"
    and GetByHash_complete: "inv s \<Longrightarrow> fault_free e \<Longrightarrow> hash_unique (view s) \<Longrightarrow> view s i = Some k \<Longrightarrow>
      liveAt (env_now e) k \<Longrightarrow> \<exists>m. snd (st_GetByHash ops e (k_hash k) s) = Inr m \<and> ak_id m = i"
    and GetByHash_dead: "inv s \<Longrightarrow> fault_free e \<Longrightarrow> hash_unique (view s) \<Longrightarrow> view s i = Some k \<Longrightarrow>
      \<not> liveAt (env_now e) k \<Longrightarrow> snd (st_GetByHash ops e (k_hash k) s) = Inl ErrInvalidKey"
    and GetByHash_missing: "inv s \<Longrightarrow> fault_free e \<Longrightarrow> (\<forall>j k. view s j = Some k \<longrightarrow> k_hash k \<noteq> h) \<Longrightarrow>
      st_GetByHash ops e h s = (s, Inl ErrKeyNotFound)"
    and Get_sound: "inv s \<Longrightarrow> st_Get ops e i s = Inr m \<Longrightarrow> \<exists>k. view s i = Some k \<and> describes m i k"
    and Get_complete: "inv s \<Longrightarrow> fault_free e \<Longrightarrow> view s i = Some k \<Longrightarrow> \<exists>m. st_Get ops e i s = Inr m"
    and Get_missing: "inv s \<Longrightarrow> fault_free e \<Longrightarrow> view s i = None \<Longrightarrow> st_Get ops e i s = Inl ErrKeyNotFound"
    and GetByHash_exact: "inv s \<Longrightarrow> fault_free e \<Longrightarrow> hash_unique (view s) \<Longrightarrow>
      view (fst (st_GetByHash ops e h s)) = expireHash (env_now e) h (view s)"
begin

lemma GetByHash_view:
  "inv s \<Longrightarrow> view_evolves (view s) (view (fst (st_GetByHash ops e h s))) \<and>
     dom (view (fst (st_GetByHash ops e h s))) = dom (view s)"
  by (rule expireHash_evolves [where now = "env_now e" and h = h]) (rule GetByHash_effect)

end

locale key_lifecycle = key_lookup ops view inv
  for ops :: "'s MetadataStore" and view :: "'s \<Rightarrow> kview" and inv :: "'s \<Rightarrow> bool" +
  fixes expiry :: "'s \<Rightarrow> gotime option \<Rightarrow> gotime option"
    and clock :: "store_env \<Rightarrow> gotime"
  assumes inv_AddKey: "inv s \<Longrightarrow> inv (fst (st_AddKey ops e u i h n d g sub x eph s))"
    and AddKey_view: "inv s \<Longrightarrow> st_AddKey ops e u i h n d g sub x eph s = (s', r) \<Longrightarrow>
      view s' = (view s)(i \<mapsto> newKey h u g sub (expiry s x) eph) \<and> sub \<noteq> [] \<and> i \<noteq> [] \<or>
      view s' = view s \<and> r \<noteq> None"
    and AddKey_ok: "inv s \<Longrightarrow> fault_free e \<Longrightarrow> i \<noteq> [] \<Longrightarrow> n \<noteq> [] \<Longrightarrow> h \<noteq> [] \<Longrightarrow> sub \<noteq> [] \<Longrightarrow>
      x \<noteq> None \<Longrightarrow> view s i = None \<Longrightarrow> (\<forall>j k. view s j = Some k \<longrightarrow> k_hash k \<noteq> h) \<Longrightarrow>
      snd (st_AddKey ops e u i h n d g sub x eph s) = None"
    and inv_Revoke: "inv s \<Longrightarrow> inv (fst (st_Revoke ops e i s))"
    and Revoke_view: "inv s \<Longrightarrow> st_Revoke ops e i s = (s', r) \<Longrightarrow>
      (\<exists>k. view s i = Some k \<and> k_status k = StatusActive \<and> view s' = (view s)(i \<mapsto> k\<lparr>k_status := StatusRevoked\<rparr>)) \<or>
      view s' = view s \<and> r \<noteq> None"
    and Revoke_ok: "inv s \<Longrightarrow> fault_free e \<Longrightarrow> view s i = Some k \<Longrightarrow> k_status k = StatusActive \<Longrightarrow>
      snd (st_Revoke ops e i s) = None"
    and Revoke_missing: "inv s \<Longrightarrow> fault_free e \<Longrightarrow> (\<forall>k. view s i = Some k \<longrightarrow> k_status k \<noteq> StatusActive) \<Longrightarrow>
      snd (st_Revoke ops e i s) = Some ErrKeyNotFound"
    and inv_InvalidateAll: "inv s \<Longrightarrow> inv (fst (st_InvalidateAll ops e u s))"
    and InvalidateAll_view: "inv s \<Longrightarrow> st_InvalidateAll ops e u s = (s', q) \<Longrightarrow>
      view s' = revokeAllOf u (view s) \<and>
        (\<forall>n. q = Inr n \<longrightarrow> n = int (card {i. \<exists>k. view s i = Some k \<and> k_user k = u \<and> k_status k = StatusActive})) \<or>
      view s' = view s \<and> (\<exists>err. q = Inl err)"
    and InvalidateAll_ok: "inv s \<Longrightarrow> fault_free e \<Longrightarrow> \<exists>c. snd (st_InvalidateAll ops e u s) = Inr c"
    and inv_UpdateLastUsed: "inv s \<Longrightarrow> inv (fst (st_UpdateLastUsed ops e i s))"
    and UpdateLastUsed_view: "inv s \<Longrightarrow> view (fst (st_UpdateLastUsed ops e i s)) = view s"
    and inv_Delete: "inv s \<Longrightarrow> inv (fst (st_DeleteExpiredEphemeral ops e s))"
    and Delete_view: "inv s \<Longrightarrow> st_DeleteExpiredEphemeral ops e s = (s', q) \<Longrightarrow>
      view s' = (\<lambda>i. case view s i of None \<Rightarrow> None | Some k \<Rightarrow> if cleanable (clock e) k then None else Some k) \<and>
        (\<forall>n. q = Inr n \<longrightarrow> n = int (card {i. \<exists>k. view s i = Some k \<and> cleanable (clock e) k})) \<or>
      view s' = view s \<and> (\<exists>err. q = Inl err)"
    and Delete_ok: "inv s \<Longrightarrow> fault_free e \<Longrightarrow> \<exists>c. snd (st_DeleteExpiredEphemeral ops e s) = Inr c"

locale metadata_store = key_lifecycle ops view inv expiry clock
  for ops :: "'s MetadataStore" and view :: "'s \<Rightarrow> kview" and inv :: "'s \<Rightarrow> bool"
    and expiry :: "'s \<Rightarrow> gotime option \<Rightarrow> gotime option" and clock :: "store_env \<Rightarrow> gotime" +
  assumes Search_sound: "inv s \<Longrightarrow> st_Search ops e u f so p s = Inr pr \<Longrightarrow>
      int (length (pr_keys pr)) \<le> pp_limit p \<and>
      (\<forall>m \<in> set (pr_keys pr). \<exists>k. view s (ak_id m) = Some k \<and> describes m (ak_id m) k \<and>
         (u \<noteq> [] \<longrightarrow> k_user k = u) \<and> (k_ephemeral k \<longrightarrow> sf_includeEphemeral f = Some True))"

end
