(* ===== verification/Store_Mock.thy ===== *)
theory Store_Mock
  imports Api_Key_Store "HOL-Library.AList"
begin

text \<open>
  \<open>maas-api/internal/api_keys/store_mock.go\<close>: the in-memory store. Its map from key ids to records is
  an association list with distinct keys; a loop over the map visits the list in order (Go leaves
  the order open, and no lemma depends on it; \<open>sort.Slice\<close> is taken to keep the order of equal keys). The mutex makes each operation atomic, so an operation
  is a function of the state. It needs no database, and ignores the faults of the environment. The
  theory ends with the interpretation of the store contract.
\<close>

section \<open>State\<close>

record storedKey =
  sk_metadata :: ApiKey
  sk_username :: string
  sk_keyHash :: string
  sk_expiresAt :: gotime
  sk_lastUsedAt :: "gotime option"
  sk_ephemeral :: bool

record MockStore =
  ms_keys :: "(string \<times> storedKey) list"

definition NewMockStore :: MockStore where
  "NewMockStore = \<lparr>ms_keys = []\<rparr>"

section \<open>Operations\<close>

definition Mock_AddKey ::
  "store_env \<Rightarrow> string \<Rightarrow> string \<Rightarrow> string \<Rightarrow> string \<Rightarrow> string \<Rightarrow> string list \<Rightarrow> string \<Rightarrow> gotime option \<Rightarrow>
   bool \<Rightarrow> MockStore \<Rightarrow> MockStore \<times> StoreError option" where
  "Mock_AddKey e username keyID keyHash name description userGroups sub expiresAt ephemeral m =
     (if keyID = [] then (m, Some ErrEmptyJTI)
      else if name = [] then (m, Some ErrEmptyName)
      else if sub = [] then (m, Some (StoreErr ''subscription is required''))
      else
        let expiresAtTime = (case expiresAt of None \<Rightarrow> 0 | Some t \<Rightarrow> t);
            k = \<lparr>sk_metadata =
                   \<lparr>ak_id = keyID, ak_name = name, ak_description = description, ak_username = [],
                    ak_subscription = sub, ak_groups = userGroups,
                    ak_creationDate = formatRFC3339 (env_now e), ak_expirationDate = [],
                    ak_status = StatusActive, ak_lastUsedAt = [], ak_ephemeral = ephemeral\<rparr>,
                 sk_username = username, sk_keyHash = keyHash, sk_expiresAt = expiresAtTime,
                 sk_lastUsedAt = None, sk_ephemeral = ephemeral\<rparr>
        in (m\<lparr>ms_keys := AList.update keyID k (ms_keys m)\<rparr>, None))"

text \<open>The metadata returned for a stored key: owner, status with automatic expiry, timestamps.
  The code of \<open>List\<close>, \<open>filterKeys\<close> and \<open>Get\<close> computes it in the same way.\<close>

definition autoExpire :: "gotime \<Rightarrow> storedKey \<Rightarrow> ApiKey \<Rightarrow> ApiKey" where
  "autoExpire now k meta =
     (if ak_status meta = StatusActive \<and> \<not> isZeroTime (sk_expiresAt k) \<and> sk_expiresAt k < now
      then meta\<lparr>ak_status := StatusExpired\<rparr> else meta)"

definition setTimestamps :: "storedKey \<Rightarrow> ApiKey \<Rightarrow> ApiKey" where
  "setTimestamps k meta =
     (let meta1 = (if \<not> isZeroTime (sk_expiresAt k)
                   then meta\<lparr>ak_expirationDate := formatRFC3339 (sk_expiresAt k)\<rparr> else meta)
      in (case sk_lastUsedAt k of
            None \<Rightarrow> meta1 | Some t \<Rightarrow> meta1\<lparr>ak_lastUsedAt := formatRFC3339 t\<rparr>))"

definition ownedMeta :: "storedKey \<Rightarrow> ApiKey" where
  "ownedMeta k = (sk_metadata k)\<lparr>ak_username := sk_username k\<rparr>"

definition Mock_List_keep :: "string \<Rightarrow> string list \<Rightarrow> gotime \<Rightarrow> storedKey \<Rightarrow> ApiKey option" where
  "Mock_List_keep username statuses now k =
     (if sk_ephemeral k then None
      else if username \<noteq> [] \<and> sk_username k \<noteq> username then None
      else
        let meta = autoExpire now k (ownedMeta k)
        in if length statuses > 0 \<and> \<not> List.member statuses (ak_status meta) then None
           else Some (setTimestamps k meta))"

definition Mock_List ::
  "store_env \<Rightarrow> string \<Rightarrow> PaginationParams \<Rightarrow> string list \<Rightarrow> MockStore \<Rightarrow> StoreError + PaginatedResult" where
  "Mock_List e username params statuses m =
     (if pp_limit params < 1 \<or> pp_limit params > 100
      then Inl (StoreErr ''limit must be between 1 and 100'')
      else if pp_offset params < 0 then Inl (StoreErr ''offset must be non-negative'')
      else
        let allKeys = List.map_filter (\<lambda>(_, k). Mock_List_keep username statuses (env_now e) k) (ms_keys m);
            start = pp_offset params;
            end0 = start + pp_limit params + 1
        in if start \<ge> int (length allKeys) then Inr \<lparr>pr_keys = [], pr_hasMore = False\<rparr>
           else
             let end1 = (if end0 > int (length allKeys) then int (length allKeys) else end0);
                 pagedKeys = take (nat (end1 - start)) (drop (nat start) allKeys);
                 hasMore = (int (length pagedKeys) > pp_limit params)
             in Inr \<lparr>pr_keys = (if hasMore then take (nat (pp_limit params)) pagedKeys else pagedKeys),
                     pr_hasMore = hasMore\<rparr>)"

definition filterKey :: "string \<Rightarrow> string list \<Rightarrow> bool \<Rightarrow> gotime \<Rightarrow> storedKey \<Rightarrow> ApiKey option" where
  "filterKey username statusFilters includeEphemeral now k =
     (if \<not> includeEphemeral \<and> sk_ephemeral k then None
      else if username \<noteq> [] \<and> sk_username k \<noteq> username then None
      else
        let meta = autoExpire now k (ownedMeta k)
        in if length statusFilters > 0 \<and>
              \<not> list_ex (\<lambda>status. trimSpace status = ak_status meta) statusFilters then None
           else Some (setTimestamps k meta))"

definition filterKeys ::
  "MockStore \<Rightarrow> string \<Rightarrow> string list \<Rightarrow> bool \<Rightarrow> gotime \<Rightarrow> ApiKey list" where
  "filterKeys m username statusFilters includeEphemeral now =
     List.map_filter (\<lambda>(_, k). filterKey username statusFilters includeEphemeral now k) (ms_keys m)"

definition compareTimestampFields :: "string \<Rightarrow> string \<Rightarrow> int \<times> bool" where
  "compareTimestampFields val1 val2 =
     (if val1 = [] \<and> val2 = [] then (0, False)
      else if val1 = [] then (0, True)
      else if val2 = [] then (0, True)
      else
        (case (parseRFC3339 val1, parseRFC3339 val2) of
           (Some t1, Some t2) \<Rightarrow> (compare t1 t2, False)
         | _ \<Rightarrow> (compare val1 val2, False)))"

definition compareDates :: "string \<Rightarrow> string \<Rightarrow> int" where
  "compareDates d1 d2 =
     (case (parseRFC3339 d1, parseRFC3339 d2) of
        (Some t1, Some t2) \<Rightarrow> compare t1 t2
      | _ \<Rightarrow> compare d1 d2)"

definition orderCmp :: "string \<Rightarrow> int \<Rightarrow> bool" where
  "orderCmp order cmp = (if order = SortOrderDesc then cmp > 0 else cmp < 0)"

text \<open>The branches of the switch for the two nullable timestamps.\<close>

definition compareNullable :: "string \<Rightarrow> string \<Rightarrow> string \<Rightarrow> bool" where
  "compareNullable order v1 v2 =
     (case compareTimestampFields v1 v2 of
        (cmp, handleNull) \<Rightarrow>
          if handleNull then (if v1 = [] then order = SortOrderDesc else order = SortOrderAsc)
          else orderCmp order cmp)"

definition compareKeys :: "ApiKey \<Rightarrow> ApiKey \<Rightarrow> string \<Rightarrow> string \<Rightarrow> bool" where
  "compareKeys key1 key2 sortBy order =
     (if sortBy = ''created_at'' then
        orderCmp order (compareDates (ak_creationDate key1) (ak_creationDate key2))
      else if sortBy = ''expires_at'' then
        compareNullable order (ak_expirationDate key1) (ak_expirationDate key2)
      else if sortBy = ''last_used_at'' then
        compareNullable order (ak_lastUsedAt key1) (ak_lastUsedAt key2)
      else if sortBy = ''name'' then orderCmp order (compare (ak_name key1) (ak_name key2))
      else orderCmp order 0)"

definition applyPagination :: "ApiKey list \<Rightarrow> int \<Rightarrow> int \<Rightarrow> ApiKey list \<times> bool" where
  "applyPagination keys offset limit =
     (if offset \<ge> int (length keys) then ([], False)
      else
        let keys' = drop (nat offset) keys;
            hasMore = (int (length keys') > limit)
        in (if hasMore then take (nat limit) keys' else keys', hasMore))"

definition Mock_Search ::
  "store_env \<Rightarrow> string \<Rightarrow> SearchFilters \<Rightarrow> SortParams \<Rightarrow> PaginationParams \<Rightarrow> MockStore \<Rightarrow>
   StoreError + PaginatedResult" where
  "Mock_Search e username filters sortParams pagination m =
     (if pp_limit pagination < 1 \<or> pp_limit pagination > MaxLimit
      then Inl (StoreErr ''limit must be between 1 and 100'')
      else if pp_offset pagination < 0 then Inl (StoreErr ''offset must be non-negative'')
      else
        let includeEphemeral = (sf_includeEphemeral filters = Some True);
            allKeys = filterKeys m username (sf_status filters) includeEphemeral (env_now e);
            sorted = stable_sort (\<lambda>a b. compareKeys a b (sp_by sortParams) (sp_order sortParams)) allKeys;
            (keys, hasMore) = applyPagination sorted (pp_offset pagination) (pp_limit pagination)
        in Inr \<lparr>pr_keys = keys, pr_hasMore = hasMore\<rparr>)"

definition Mock_Get :: "store_env \<Rightarrow> string \<Rightarrow> MockStore \<Rightarrow> StoreError + ApiKey" where
  "Mock_Get e keyID m =
     (case map_of (ms_keys m) keyID of
        None \<Rightarrow> Inl ErrKeyNotFound
      | Some k \<Rightarrow> Inr (setTimestamps k (autoExpire (env_now e) k (ownedMeta k))))"

text \<open>The loop over the map stops at the first record with the hash.\<close>

definition Mock_GetByHash :: "store_env \<Rightarrow> string \<Rightarrow> MockStore \<Rightarrow> MockStore \<times> (StoreError + ApiKey)" where
  "Mock_GetByHash e keyHash m =
     (case find (\<lambda>(_, k). sk_keyHash k = keyHash) (ms_keys m) of
        None \<Rightarrow> (m, Inl ErrKeyNotFound)
      | Some (i, k) \<Rightarrow>
          let k' = (if \<not> isZeroTime (sk_expiresAt k) \<and> sk_expiresAt k < env_now e
                    then (if ak_status (sk_metadata k) = StatusActive
                          then k\<lparr>sk_metadata := (sk_metadata k)\<lparr>ak_status := StatusExpired\<rparr>\<rparr> else k)
                    else k);
              m' = m\<lparr>ms_keys := AList.update i k' (ms_keys m)\<rparr>
          in if ak_status (sk_metadata k') = StatusRevoked \<or> ak_status (sk_metadata k') = StatusExpired
             then (m', Inl ErrInvalidKey)
             else (m', Inr (case sk_lastUsedAt k' of
                              None \<Rightarrow> ownedMeta k'
                            | Some t \<Rightarrow> (ownedMeta k')\<lparr>ak_lastUsedAt := formatRFC3339 t\<rparr>)))"

definition revokeStored :: "storedKey \<Rightarrow> storedKey" where
  "revokeStored k = k\<lparr>sk_metadata := (sk_metadata k)\<lparr>ak_status := StatusRevoked\<rparr>\<rparr>"

definition Mock_InvalidateAll :: "store_env \<Rightarrow> string \<Rightarrow> MockStore \<Rightarrow> MockStore \<times> (StoreError + int)" where
  "Mock_InvalidateAll e username m =
     (let hit = (\<lambda>k. sk_username k = username \<and> ak_status (sk_metadata k) = StatusActive)
      in (m\<lparr>ms_keys := map (\<lambda>(i, k). (i, if hit k then revokeStored k else k)) (ms_keys m)\<rparr>,
          Inr (int (length (filter (\<lambda>(_, k). hit k) (ms_keys m))))))"

definition Mock_Revoke :: "store_env \<Rightarrow> string \<Rightarrow> MockStore \<Rightarrow> MockStore \<times> StoreError option" where
  "Mock_Revoke e keyID m =
     (case map_of (ms_keys m) keyID of
        None \<Rightarrow> (m, Some ErrKeyNotFound)
      | Some k \<Rightarrow>
          if ak_status (sk_metadata k) \<noteq> StatusActive then (m, Some ErrKeyNotFound)
          else (m\<lparr>ms_keys := AList.update keyID (revokeStored k) (ms_keys m)\<rparr>, None))"

definition Mock_UpdateLastUsed :: "store_env \<Rightarrow> string \<Rightarrow> MockStore \<Rightarrow> MockStore \<times> StoreError option" where
  "Mock_UpdateLastUsed e keyID m =
     (case map_of (ms_keys m) keyID of
        None \<Rightarrow> (m, Some ErrKeyNotFound)
      | Some k \<Rightarrow>
          (m\<lparr>ms_keys := AList.update keyID (k\<lparr>sk_lastUsedAt := Some (env_now e)\<rparr>) (ms_keys m)\<rparr>, None))"

definition Mock_doomed :: "gotime \<Rightarrow> storedKey \<Rightarrow> bool" where
  "Mock_doomed now k =
     (let graceThreshold = now - 30 * Minute
      in if \<not> sk_ephemeral k then False
         else if isZeroTime (sk_expiresAt k) then False
         else (ak_status (sk_metadata k) = StatusExpired \<or> sk_expiresAt k < now) \<and>
              sk_expiresAt k < graceThreshold)"

definition Mock_DeleteExpiredEphemeral :: "store_env \<Rightarrow> MockStore \<Rightarrow> MockStore \<times> (StoreError + int)" where
  "Mock_DeleteExpiredEphemeral e m =
     (m\<lparr>ms_keys := filter (\<lambda>(_, k). \<not> Mock_doomed (env_now e) k) (ms_keys m)\<rparr>,
      Inr (int (length (filter (\<lambda>(_, k). Mock_doomed (env_now e) k) (ms_keys m)))))"

definition Mock_ops :: "MockStore MetadataStore" where
  "Mock_ops =
     \<lparr>st_AddKey = Mock_AddKey, st_Search = Mock_Search, st_Get = Mock_Get,
      st_GetByHash = Mock_GetByHash, st_InvalidateAll = Mock_InvalidateAll, st_Revoke = Mock_Revoke,
      st_UpdateLastUsed = Mock_UpdateLastUsed, st_DeleteExpiredEphemeral = Mock_DeleteExpiredEphemeral\<rparr>"

section \<open>View and invariant\<close>

definition mock_akey :: "storedKey \<Rightarrow> akey" where
  "mock_akey k =
     \<lparr>k_hash = sk_keyHash k, k_user = sk_username k, k_groups = ak_groups (sk_metadata k),
      k_sub = ak_subscription (sk_metadata k),
      k_expires = (if isZeroTime (sk_expiresAt k) then None else Some (sk_expiresAt k)),
      k_ephemeral = sk_ephemeral k, k_status = ak_status (sk_metadata k)\<rparr>"

definition mock_view :: "MockStore \<Rightarrow> kview" where
  "mock_view m i = map_option mock_akey (map_of (ms_keys m) i)"

definition mock_wf :: "string \<Rightarrow> storedKey \<Rightarrow> bool" where
  "mock_wf i k \<longleftrightarrow> ak_id (sk_metadata k) = i \<and> ak_ephemeral (sk_metadata k) = sk_ephemeral k \<and>
     ak_status (sk_metadata k) \<in> {StatusActive, StatusRevoked, StatusExpired}"

definition mock_inv :: "MockStore \<Rightarrow> bool" where
  "mock_inv m \<longleftrightarrow> distinct (map fst (ms_keys m)) \<and>
     (\<forall>i k. map_of (ms_keys m) i = Some k \<longrightarrow> mock_wf i k)"

definition mock_expiry :: "MockStore \<Rightarrow> gotime option \<Rightarrow> gotime option" where
  "mock_expiry m x = (case x of None \<Rightarrow> None | Some t \<Rightarrow> if isZeroTime t then None else Some t)"

lemma mock_view_update:
  "mock_view (m\<lparr>ms_keys := AList.update i k (ms_keys m)\<rparr>) = (mock_view m)(i \<mapsto> mock_akey k)"
  by (auto simp: mock_view_def update_conv)

lemma mock_inv_update:
  "mock_inv m \<Longrightarrow> mock_wf i k \<Longrightarrow> mock_inv (m\<lparr>ms_keys := AList.update i k (ms_keys m)\<rparr>)"
  by (auto simp: mock_inv_def update_conv distinct_update)

lemma mock_akey_fields [simp]:
  "k_hash (mock_akey k) = sk_keyHash k" "k_user (mock_akey k) = sk_username k"
  "k_groups (mock_akey k) = ak_groups (sk_metadata k)"
  "k_sub (mock_akey k) = ak_subscription (sk_metadata k)"
  "k_ephemeral (mock_akey k) = sk_ephemeral k" "k_status (mock_akey k) = ak_status (sk_metadata k)"
  by (simp_all add: mock_akey_def)

lemma mock_liveAt:
  "liveAt now (mock_akey k) \<longleftrightarrow> ak_status (sk_metadata k) = StatusActive \<and>
     (isZeroTime (sk_expiresAt k) \<or> \<not> sk_expiresAt k < now)"
  by (auto simp: liveAt_def expiredAt_def mock_akey_def)

lemma mock_cleanable: "Mock_doomed now k = cleanable now (mock_akey k)"
  by (auto simp: Mock_doomed_def cleanable_def mock_akey_def Let_def)

lemma mock_view_Some: "mock_view m i = Some a \<longleftrightarrow> (\<exists>k. map_of (ms_keys m) i = Some k \<and> a = mock_akey k)"
  by (auto simp: mock_view_def)

text \<open>The status change of \<open>GetByHash\<close>.\<close>

definition mock_checked :: "gotime \<Rightarrow> storedKey \<Rightarrow> storedKey" where
  "mock_checked now k =
     (if \<not> isZeroTime (sk_expiresAt k) \<and> sk_expiresAt k < now \<and> ak_status (sk_metadata k) = StatusActive
      then k\<lparr>sk_metadata := (sk_metadata k)\<lparr>ak_status := StatusExpired\<rparr>\<rparr> else k)"

lemma mock_checked_wf: "mock_wf i k \<Longrightarrow> mock_wf i (mock_checked now k)"
  by (simp add: mock_wf_def mock_checked_def)

lemma mock_checked_akey:
  "mock_akey (mock_checked now k) =
     (if k_status (mock_akey k) = StatusActive \<and> expiredAt now (mock_akey k)
      then (mock_akey k)\<lparr>k_status := StatusExpired\<rparr> else mock_akey k)"
  by (simp add: mock_checked_def expiredAt_def mock_akey_def)

lemma mock_checked_live:
  "mock_wf i k \<Longrightarrow> liveAt now (mock_akey k) \<longleftrightarrow>
     \<not> (ak_status (sk_metadata (mock_checked now k)) = StatusRevoked \<or>
        ak_status (sk_metadata (mock_checked now k)) = StatusExpired)"
  by (auto simp: mock_liveAt mock_checked_def mock_wf_def)

lemma Mock_GetByHash_alt:
  "Mock_GetByHash e h m =
     (case find (\<lambda>(_, k). sk_keyHash k = h) (ms_keys m) of
        None \<Rightarrow> (m, Inl ErrKeyNotFound)
      | Some (i, k) \<Rightarrow>
          let k' = mock_checked (env_now e) k; m' = m\<lparr>ms_keys := AList.update i k' (ms_keys m)\<rparr>
          in if ak_status (sk_metadata k') = StatusRevoked \<or> ak_status (sk_metadata k') = StatusExpired
             then (m', Inl ErrInvalidKey)
             else (m', Inr (case sk_lastUsedAt k' of
                              None \<Rightarrow> ownedMeta k'
                            | Some t \<Rightarrow> (ownedMeta k')\<lparr>ak_lastUsedAt := formatRFC3339 t\<rparr>)))"
  by (auto simp: Mock_GetByHash_def mock_checked_def Let_def split: option.splits)

section \<open>The laws of the contract\<close>

lemma mock_inv_distinct: "mock_inv m \<Longrightarrow> distinct (map fst (ms_keys m))"
  by (simp add: mock_inv_def)

lemma mock_inv_wf: "mock_inv m \<Longrightarrow> map_of (ms_keys m) i = Some k \<Longrightarrow> mock_wf i k"
  by (simp add: mock_inv_def)

text \<open>\<open>GetByHash\<close> either finds no record, or works on the record of one key with the hash.\<close>

lemma Mock_GetByHash_cases:
  assumes "mock_inv m"
  obtains (missing) "\<And>i k. map_of (ms_keys m) i = Some k \<Longrightarrow> sk_keyHash k \<noteq> h"
      "Mock_GetByHash e h m = (m, Inl ErrKeyNotFound)"
  | (found) i k r where "map_of (ms_keys m) i = Some k" "sk_keyHash k = h" "mock_wf i k"
      "Mock_GetByHash e h m =
         (m\<lparr>ms_keys := AList.update i (mock_checked (env_now e) k) (ms_keys m)\<rparr>, r)"
      "r = (if liveAt (env_now e) (mock_akey k)
            then Inr (case sk_lastUsedAt k of None \<Rightarrow> ownedMeta k
                      | Some t \<Rightarrow> (ownedMeta k)\<lparr>ak_lastUsedAt := formatRFC3339 t\<rparr>)
            else Inl ErrInvalidKey)"
proof (cases "find (\<lambda>(_, k). sk_keyHash k = h) (ms_keys m)")
  case None
  then show ?thesis
    by (intro missing) (auto simp: Mock_GetByHash_def dest: find_value_None)
next
  case (Some a)
  then obtain i k where a: "find (\<lambda>(_, k). sk_keyHash k = h) (ms_keys m) = Some (i, k)"
    by (cases a) auto
  from find_valueD [OF a mock_inv_distinct [OF assms]]
  have k: "map_of (ms_keys m) i = Some k" "sk_keyHash k = h" by auto
  then have wf: "mock_wf i k" using assms by (simp add: mock_inv_wf)
  have res: "Mock_GetByHash e h m =
      (m\<lparr>ms_keys := AList.update i (mock_checked (env_now e) k) (ms_keys m)\<rparr>,
       if liveAt (env_now e) (mock_akey k)
       then Inr (case sk_lastUsedAt k of None \<Rightarrow> ownedMeta k
                 | Some t \<Rightarrow> (ownedMeta k)\<lparr>ak_lastUsedAt := formatRFC3339 t\<rparr>)
       else Inl ErrInvalidKey)"
  proof (cases "liveAt (env_now e) (mock_akey k)")
    case True
    then have "mock_checked (env_now e) k = k" by (auto simp: mock_liveAt mock_checked_def)
    with True mock_checked_live [OF wf, of "env_now e"] show ?thesis
      unfolding Mock_GetByHash_alt a by (simp add: Let_def split: option.splits)
  next
    case False
    with mock_checked_live [OF wf, of "env_now e"] show ?thesis
      unfolding Mock_GetByHash_alt a by (simp add: Let_def)
  qed
  show ?thesis by (rule found [OF k wf res refl])
qed

lemma Mock_GetByHash_keeps:
  assumes "mock_inv m"
  shows "mock_inv (fst (Mock_GetByHash e h m)) \<and>
    (mock_view (fst (Mock_GetByHash e h m)) i = mock_view m i \<or>
     mock_view (fst (Mock_GetByHash e h m)) i = expireHash (env_now e) h (mock_view m) i) \<and>
    (hash_unique (mock_view m) \<longrightarrow>
     mock_view (fst (Mock_GetByHash e h m)) = expireHash (env_now e) h (mock_view m))"
  using assms
proof (cases rule: Mock_GetByHash_cases [where e = e and h = h])
  case missing
  then have "expireHash (env_now e) h (mock_view m) = mock_view m"
    by (intro expireHash_missing) (metis mock_view_Some mock_akey_fields(1))
  with missing(2) assms show ?thesis by simp
next
  case (found j k r)
  let ?m = "m\<lparr>ms_keys := AList.update j (mock_checked (env_now e) k) (ms_keys m)\<rparr>"
  have j: "mock_view m j = Some (mock_akey k)" using found by (simp add: mock_view_def)
  have "mock_inv ?m"
    using assms found mock_checked_wf by (simp add: mock_inv_update)
  moreover have "mock_view ?m i = mock_view m i \<or> mock_view ?m i = expireHash (env_now e) h (mock_view m) i"
    using j found(2) by (simp add: mock_view_update mock_checked_akey expireHash_def)
  moreover have "mock_view ?m = expireHash (env_now e) h (mock_view m)" if "hash_unique (mock_view m)"
    using j unfolding expireHash_only [OF that j mock_akey_fields(1) [of k, unfolded found(2)]]
    by (auto simp: mock_view_update mock_checked_akey)
  ultimately show ?thesis using found(4) by simp
qed

lemma Mock_GetByHash_result:
  assumes "mock_inv m" "snd (Mock_GetByHash e h m) = Inr md"
  shows "\<exists>k. mock_view m (ak_id md) = Some k \<and> k_hash k = h \<and> liveAt (env_now e) k \<and>
    describes md (ak_id md) k \<and> ak_groups md = k_groups k"
  using assms(1)
proof (cases rule: Mock_GetByHash_cases [where e = e and h = h])
  case missing
  with assms(2) show ?thesis by simp
next
  case (found i k r)
  then have "mock_view m i = Some (mock_akey k)" by (simp add: mock_view_def)
  with found assms(2) show ?thesis
    by (auto simp: describes_def ownedMeta_def mock_wf_def split: option.splits if_splits)
qed

lemma Mock_GetByHash_unique:
  assumes "mock_inv m" "hash_unique (mock_view m)" "mock_view m i = Some a"
  shows "(liveAt (env_now e) a \<longrightarrow> (\<exists>md. snd (Mock_GetByHash e (k_hash a) m) = Inr md \<and> ak_id md = i)) \<and>
    (\<not> liveAt (env_now e) a \<longrightarrow> snd (Mock_GetByHash e (k_hash a) m) = Inl ErrInvalidKey)"
  using assms(1)
proof (cases rule: Mock_GetByHash_cases [where e = e and h = "k_hash a"])
  case missing
  from assms(3) obtain k where "map_of (ms_keys m) i = Some k" "a = mock_akey k"
    by (auto simp: mock_view_Some)
  with missing(1) [of i k] show ?thesis by simp
next
  case (found j k r)
  then have j: "mock_view m j = Some (mock_akey k)" by (simp add: mock_view_def)
  with assms(2,3) found(2) have "j = i" unfolding hash_unique_def by (metis mock_akey_fields(1))
  with j assms(3) found show ?thesis
    by (auto simp: ownedMeta_def mock_wf_def split: option.splits)
qed

lemma setTimestamps_fields [simp]:
  "ak_id (setTimestamps k x) = ak_id x" "ak_username (setTimestamps k x) = ak_username x"
  "ak_subscription (setTimestamps k x) = ak_subscription x"
  "ak_ephemeral (setTimestamps k x) = ak_ephemeral x" "ak_status (setTimestamps k x) = ak_status x"
  by (simp_all add: setTimestamps_def Let_def split: option.splits)

lemma autoExpire_fields [simp]:
  "ak_id (autoExpire t k x) = ak_id x" "ak_username (autoExpire t k x) = ak_username x"
  "ak_subscription (autoExpire t k x) = ak_subscription x"
  "ak_ephemeral (autoExpire t k x) = ak_ephemeral x"
  by (simp_all add: autoExpire_def)

lemma set_applyPagination: "set (fst (applyPagination ks off l)) \<subseteq> set ks"
  by (auto simp: applyPagination_def Let_def split: if_splits dest!: in_set_takeD in_set_dropD)

lemma Mock_Search_sound:
  assumes inv: "mock_inv m" and s: "Mock_Search e u f so p m = Inr pr"
  shows "int (length (pr_keys pr)) \<le> pp_limit p \<and>
    (\<forall>md \<in> set (pr_keys pr). \<exists>k. mock_view m (ak_id md) = Some k \<and> describes md (ak_id md) k \<and>
       (u \<noteq> [] \<longrightarrow> k_user k = u) \<and> (k_ephemeral k \<longrightarrow> sf_includeEphemeral f = Some True))"
proof -
  let ?inc = "sf_includeEphemeral f = Some True"
  let ?sorted = "stable_sort (\<lambda>a b. compareKeys a b (sp_by so) (sp_order so))
    (filterKeys m u (sf_status f) ?inc (env_now e))"
  from s have pr: "pr_keys pr = fst (applyPagination ?sorted (pp_offset p) (pp_limit p))"
    and lim: "1 \<le> pp_limit p"
    by (auto simp: Mock_Search_def Let_def split: if_splits prod.splits)
  have len: "int (length (pr_keys pr)) \<le> pp_limit p"
    unfolding pr using lim by (auto simp: applyPagination_def Let_def)
  have "\<exists>k. mock_view m (ak_id md) = Some k \<and> describes md (ak_id md) k \<and>
       (u \<noteq> [] \<longrightarrow> k_user k = u) \<and> (k_ephemeral k \<longrightarrow> ?inc)" if "md \<in> set (pr_keys pr)" for md
  proof -
    from that have "md \<in> set ?sorted"
      unfolding pr using set_applyPagination by blast
    then obtain i k where k: "(i, k) \<in> set (ms_keys m)"
      "filterKey u (sf_status f) ?inc (env_now e) k = Some md"
      unfolding set_stable_sort filterKeys_def by (auto dest!: set_map_filterD)
    then have ik: "map_of (ms_keys m) i = Some k" using mock_inv_distinct [OF inv] by simp
    with inv have "mock_wf i k" by (simp add: mock_inv_wf)
    with k(2) ik show ?thesis
      by (auto simp: filterKey_def Let_def mock_wf_def describes_def ownedMeta_def mock_view_def
          split: if_splits)
  qed
  with len show ?thesis by simp
qed

lemma mock_view_map:
  "mock_view (m\<lparr>ms_keys := map (\<lambda>(i, k). (i, f k)) (ms_keys m)\<rparr>) i =
     map_option (\<lambda>k. mock_akey (f k)) (map_of (ms_keys m) i)"
  by (simp add: mock_view_def map_of_map_value option.map_comp comp_def)

lemma mock_inv_map:
  assumes "mock_inv m" "\<And>i k. mock_wf i k \<Longrightarrow> mock_wf i (f k)"
  shows "mock_inv (m\<lparr>ms_keys := map (\<lambda>(i, k). (i, f k)) (ms_keys m)\<rparr>)"
proof -
  have "map fst (map (\<lambda>(i, k). (i, f k)) (ms_keys m)) = map fst (ms_keys m)"
    by (simp add: case_prod_beta comp_def)
  then show ?thesis
    using assms by (auto simp: mock_inv_def map_of_map_value simp del: map_map)
qed

lemma mock_akey_revoke: "mock_akey (revokeStored k) = (mock_akey k)\<lparr>k_status := StatusRevoked\<rparr>"
  by (simp add: mock_akey_def revokeStored_def)

lemma Mock_InvalidateAll_law:
  assumes "mock_inv m"
  shows "mock_inv (fst (Mock_InvalidateAll e u m)) \<and>
    mock_view (fst (Mock_InvalidateAll e u m)) = revokeAllOf u (mock_view m) \<and>
    snd (Mock_InvalidateAll e u m) =
      Inr (int (card {i. \<exists>k. mock_view m i = Some k \<and> k_user k = u \<and> k_status k = StatusActive}))"
proof -
  let ?hit = "\<lambda>k. sk_username k = u \<and> ak_status (sk_metadata k) = StatusActive"
  let ?f = "\<lambda>k. if ?hit k then revokeStored k else k"
  let ?keys = "map (\<lambda>(i, k). (i, ?f k)) (ms_keys m)"
  have eq: "Mock_InvalidateAll e u m =
      (m\<lparr>ms_keys := ?keys\<rparr>, Inr (int (length (filter (\<lambda>(_, k). ?hit k) (ms_keys m)))))"
    by (simp add: Mock_InvalidateAll_def Let_def)
  have "mock_inv (m\<lparr>ms_keys := ?keys\<rparr>)"
    using assms by (rule mock_inv_map) (simp add: mock_wf_def revokeStored_def)
  moreover have "mock_view (m\<lparr>ms_keys := ?keys\<rparr>) = revokeAllOf u (mock_view m)"
    by (rule ext, simp only: mock_view_map)
      (auto simp: revokeAllOf_def mock_view_def mock_akey_revoke option.map_comp intro!: option.map_cong)
  moreover have "length (filter (\<lambda>(_, k). ?hit k) (ms_keys m)) =
      card {i. \<exists>k. mock_view m i = Some k \<and> k_user k = u \<and> k_status k = StatusActive}"
    unfolding length_filter_value [OF mock_inv_distinct [OF assms]]
    by (rule arg_cong [where f = card]) (auto simp: mock_view_def)
  ultimately show ?thesis unfolding eq by simp
qed

lemma Mock_Delete_law:
  assumes "mock_inv m"
  shows "mock_inv (fst (Mock_DeleteExpiredEphemeral e m)) \<and>
    mock_view (fst (Mock_DeleteExpiredEphemeral e m)) =
      (\<lambda>i. case mock_view m i of None \<Rightarrow> None | Some k \<Rightarrow> if cleanable (env_now e) k then None else Some k) \<and>
    snd (Mock_DeleteExpiredEphemeral e m) =
      Inr (int (card {i. \<exists>k. mock_view m i = Some k \<and> cleanable (env_now e) k}))"
proof -
  note d = mock_inv_distinct [OF assms]
  let ?keep = "filter (\<lambda>(_, k). \<not> Mock_doomed (env_now e) k) (ms_keys m)"
  have look: "map_of ?keep i = (case map_of (ms_keys m) i of None \<Rightarrow> None
      | Some k \<Rightarrow> if \<not> Mock_doomed (env_now e) k then Some k else None)" for i
    by (rule map_of_filter_value [OF d])
  have "mock_inv (m\<lparr>ms_keys := ?keep\<rparr>)"
    using assms by (auto simp: mock_inv_def look distinct_map_filter split: option.splits if_splits)
  moreover have "mock_view (m\<lparr>ms_keys := ?keep\<rparr>) =
      (\<lambda>i. case mock_view m i of None \<Rightarrow> None | Some k \<Rightarrow> if cleanable (env_now e) k then None else Some k)"
    by (rule ext) (simp add: mock_view_def look split: option.splits flip: mock_cleanable)
  moreover have "length (filter (\<lambda>(_, k). Mock_doomed (env_now e) k) (ms_keys m)) =
      card {i. \<exists>k. mock_view m i = Some k \<and> cleanable (env_now e) k}"
    unfolding length_filter_value [OF d]
    by (rule arg_cong [where f = card]) (auto simp: mock_view_def simp flip: mock_cleanable)
  ultimately show ?thesis by (simp add: Mock_DeleteExpiredEphemeral_def)
qed

lemma Mock_AddKey_law:
  assumes "mock_inv m"
  shows "mock_inv (fst (Mock_AddKey e u i h n d g sub x eph m)) \<and>
    (if i \<noteq> [] \<and> n \<noteq> [] \<and> sub \<noteq> []
     then snd (Mock_AddKey e u i h n d g sub x eph m) = None \<and>
       mock_view (fst (Mock_AddKey e u i h n d g sub x eph m)) =
         (mock_view m)(i \<mapsto> newKey h u g sub (mock_expiry m x) eph)
     else snd (Mock_AddKey e u i h n d g sub x eph m) \<noteq> None \<and>
       fst (Mock_AddKey e u i h n d g sub x eph m) = m)"
proof (cases "i \<noteq> [] \<and> n \<noteq> [] \<and> sub \<noteq> []")
  case True
  then show ?thesis
    using assms
    by (auto simp: Mock_AddKey_def Let_def mock_view_update mock_akey_def newKey_def mock_expiry_def
        mock_wf_def isZeroTime_def intro!: mock_inv_update split: option.splits)
next
  case False
  with assms show ?thesis by (auto simp: Mock_AddKey_def)
qed

lemma Mock_Revoke_law:
  assumes "mock_inv m"
  shows "mock_inv (fst (Mock_Revoke e i m)) \<and>
    (case mock_view m i of
       Some k \<Rightarrow> if k_status k = StatusActive
         then snd (Mock_Revoke e i m) = None \<and>
              mock_view (fst (Mock_Revoke e i m)) = (mock_view m)(i \<mapsto> k\<lparr>k_status := StatusRevoked\<rparr>)
         else Mock_Revoke e i m = (m, Some ErrKeyNotFound)
     | None \<Rightarrow> Mock_Revoke e i m = (m, Some ErrKeyNotFound))"
proof (cases "map_of (ms_keys m) i")
  case None
  with assms show ?thesis by (simp add: Mock_Revoke_def mock_view_def)
next
  case (Some k)
  have "mock_wf i (revokeStored k)"
    using mock_inv_wf [OF assms Some] by (simp add: mock_wf_def revokeStored_def)
  with Some assms show ?thesis
    by (simp add: Mock_Revoke_def mock_view_def [of m i] mock_view_update mock_akey_revoke mock_inv_update)
qed

lemma Mock_UpdateLastUsed_law:
  assumes "mock_inv m"
  shows "mock_inv (fst (Mock_UpdateLastUsed e i m)) \<and> mock_view (fst (Mock_UpdateLastUsed e i m)) = mock_view m"
proof (cases "map_of (ms_keys m) i")
  case None
  with assms show ?thesis by (simp add: Mock_UpdateLastUsed_def)
next
  case (Some k)
  have "mock_wf i (k\<lparr>sk_lastUsedAt := Some (env_now e)\<rparr>)"
    using mock_inv_wf [OF assms Some] by (simp add: mock_wf_def)
  moreover have "(mock_view m)(i \<mapsto> mock_akey (k\<lparr>sk_lastUsedAt := Some (env_now e)\<rparr>)) = mock_view m"
    using Some by (auto simp: mock_view_def mock_akey_def)
  ultimately show ?thesis
    using Some assms by (simp add: Mock_UpdateLastUsed_def mock_view_update mock_inv_update)
qed

lemma Mock_Get_law:
  assumes "mock_inv m"
  shows "case mock_view m i of
      None \<Rightarrow> Mock_Get e i m = Inl ErrKeyNotFound
    | Some k \<Rightarrow> \<exists>md. Mock_Get e i m = Inr md \<and> describes md i k"
  using mock_inv_wf [OF assms, of i]
  by (auto simp: mock_view_def Mock_Get_def describes_def ownedMeta_def mock_wf_def split: option.splits)

lemma Mock_GetByHash_missing:
  assumes "mock_inv m" "\<forall>j k. mock_view m j = Some k \<longrightarrow> k_hash k \<noteq> h"
  shows "Mock_GetByHash e h m = (m, Inl ErrKeyNotFound)"
  using assms(1)
proof (cases rule: Mock_GetByHash_cases [where e = e and h = h])
  case (found i k r)
  then have "mock_view m i = Some (mock_akey k)" by (simp add: mock_view_def)
  with assms(2) found(2) have False by fastforce
  then show ?thesis ..
qed

interpretation mock_lookup: key_lookup Mock_ops mock_view mock_inv
proof (unfold_locales, goal_cases)
  case (1 s e h) then show ?case by (simp add: Mock_ops_def Mock_GetByHash_keeps)
next
  case (2 s e h i) then show ?case using Mock_GetByHash_keeps [of s e h i] by (simp add: Mock_ops_def)
next
  case (3 s e h m) then show ?case by (simp add: Mock_ops_def Mock_GetByHash_result)
next
  case (4 s e i k) then show ?case using Mock_GetByHash_unique by (simp add: Mock_ops_def)
next
  case (5 s e i k) then show ?case using Mock_GetByHash_unique by (simp add: Mock_ops_def)
next
  case (6 s e h) then show ?case by (simp add: Mock_ops_def Mock_GetByHash_missing)
next
  case (7 s e i m) then show ?case
    using Mock_Get_law [where m = s and i = i and e = e] by (auto simp: Mock_ops_def split: option.splits)
next
  case (8 s e i k) then show ?case using Mock_Get_law [where m = s and i = i and e = e] by (auto simp: Mock_ops_def)
next
  case (9 s e i) then show ?case using Mock_Get_law [where m = s and i = i and e = e] by (simp add: Mock_ops_def)
next
  case (10 s e h) then show ?case using Mock_GetByHash_keeps [of s e h] by (simp add: Mock_ops_def)
qed

interpretation mock: metadata_store Mock_ops mock_view mock_inv mock_expiry env_now
proof (unfold_locales, goal_cases)
  case (1 s e u i h n d g sub x eph) then show ?case by (simp add: Mock_ops_def Mock_AddKey_law)
next
  case (2 s e u i h n d g sub x eph s' r) then show ?case
    using Mock_AddKey_law [of s e u i h n d g sub x eph] by (auto simp: Mock_ops_def split: if_splits)
next
  case (3 s e i n h sub x u d g eph) then show ?case
    using Mock_AddKey_law [of s e u i h n d g sub x eph] by (simp add: Mock_ops_def)
next
  case (4 s e i) then show ?case by (simp add: Mock_ops_def Mock_Revoke_law)
next
  case (5 s e i s' r) then show ?case
    using Mock_Revoke_law [of s e i] by (auto simp: Mock_ops_def split: option.splits if_splits)
next
  case (6 s e i k) then show ?case using Mock_Revoke_law [of s e i] by (simp add: Mock_ops_def)
next
  case (7 s e i) then show ?case
    using Mock_Revoke_law [of s e i] by (auto simp: Mock_ops_def split: option.splits)
next
  case (9 s e u s' q) then show ?case
    using Mock_InvalidateAll_law [of s e u] by (simp add: Mock_ops_def)
next
  case (14 s e s' q) then show ?case
    using Mock_Delete_law [of s e] by (simp add: Mock_ops_def)
qed (simp_all add: Mock_ops_def Mock_InvalidateAll_law Mock_UpdateLastUsed_law Mock_Delete_law
    Mock_Search_sound)

end
