(* ===== verification/Store_Postgres.thy ===== *)
theory Store_Postgres
  imports Api_Key_Store
begin

text \<open>
  \<open>maas-api/internal/api_keys/store_postgres.go\<close>: the PostgreSQL store. The table \<open>api_keys\<close> (with the
  constraints of \<open>db/schema\<close>: primary key \<open>id\<close>, unique \<open>key_hash\<close>) is a list of rows; a fixed
  INSERT, UPDATE, DELETE or SELECT statement of the code is its effect on the rows. A statement the
  database rejects or fails to answer for any other reason is a fault of the environment, which
  may strike before or after the effect. Of the database itself two things stay open and are fields
  of the store: how the driver rounds a timestamp, and the meaning of an ORDER BY clause, whose text
  is built as in the code (\<^const>\<open>None\<close> when the server rejects it). Statements are atomic, and so
  is each operation. The theory ends with the interpretation of the store contract.
\<close>

section \<open>State\<close>

record api_keys_row =
  row_id :: string
  row_username :: string
  row_name :: string
  row_description :: "string option"
  row_key_hash :: string
  row_status :: string
  row_user_groups :: "string list"
  row_created_at :: gotime
  row_expires_at :: "gotime option"
  row_last_used_at :: "gotime option"
  row_ephemeral :: bool
  row_subscription :: string

record PostgresStore =
  pg_rows :: "api_keys_row list"
  pg_timestamp :: "gotime \<Rightarrow> gotime"
  pg_orderBy :: "string \<Rightarrow> (api_keys_row \<Rightarrow> api_keys_row \<Rightarrow> bool) option"

section \<open>Statements\<close>

text \<open>The effect of a statement and the number of affected rows, or the error it is rejected with.\<close>

type_synonym statement = "api_keys_row list \<Rightarrow> string + api_keys_row list \<times> int"

definition sqlInsert :: "api_keys_row \<Rightarrow> statement" where
  "sqlInsert r rows =
     (if list_ex (\<lambda>x. row_id x = row_id r \<or> row_key_hash x = row_key_hash r) rows
      then Inl ''duplicate key value violates unique constraint''
      else Inr (rows @ [r], 1))"

definition sqlUpdate :: "(api_keys_row \<Rightarrow> bool) \<Rightarrow> (api_keys_row \<Rightarrow> api_keys_row) \<Rightarrow> statement" where
  "sqlUpdate P f rows = Inr (map (\<lambda>r. if P r then f r else r) rows, int (length (filter P rows)))"

definition sqlDelete :: "(api_keys_row \<Rightarrow> bool) \<Rightarrow> statement" where
  "sqlDelete P rows = Inr (filter (\<lambda>r. \<not> P r) rows, int (length (filter P rows)))"

text \<open>\<open>db.ExecContext\<close>\<close>

definition execContext ::
  "(string \<times> bool) option \<Rightarrow> statement \<Rightarrow> PostgresStore \<Rightarrow> PostgresStore \<times> (string + int)" where
  "execContext fault stmt s =
     (case stmt (pg_rows s) of
        Inl err \<Rightarrow> (s, Inl err)
      | Inr (rows, n) \<Rightarrow>
          (case fault of
             None \<Rightarrow> (s\<lparr>pg_rows := rows\<rparr>, Inr n)
           | Some (err, applied) \<Rightarrow> (if applied then s\<lparr>pg_rows := rows\<rparr> else s, Inl err)))"

section \<open>Operations\<close>

definition PG_AddKey ::
  "store_env \<Rightarrow> string \<Rightarrow> string \<Rightarrow> string \<Rightarrow> string \<Rightarrow> string \<Rightarrow> string list \<Rightarrow> string \<Rightarrow> gotime option \<Rightarrow>
   bool \<Rightarrow> PostgresStore \<Rightarrow> PostgresStore \<times> StoreError option" where
  "PG_AddKey e username keyID keyHash name description userGroups sub expiresAt ephemeral s =
     (if keyID = [] then (s, Some ErrEmptyJTI)
      else if name = [] then (s, Some ErrEmptyName)
      else if keyHash = [] then (s, Some (StoreErr ''key hash is required''))
      else if sub = [] then (s, Some (StoreErr ''subscription is required''))
      else if ephemeral \<and> expiresAt = None
           then (s, Some (StoreErr ''ephemeral keys must have an expiration time''))
      else
        (case execContext (env_queryErr e)
                (sqlInsert \<lparr>row_id = keyID, row_username = username, row_name = name,
                   row_description = Some description, row_key_hash = keyHash,
                   row_status = StatusActive, row_user_groups = userGroups,
                   row_created_at = pg_timestamp s (env_now e),
                   row_expires_at = map_option (pg_timestamp s) expiresAt,
                   row_last_used_at = None, row_ephemeral = ephemeral, row_subscription = sub\<rparr>) s of
           (s', Inl err) \<Rightarrow> (s', Some (StoreErr (''failed to insert API key: '' @ err)))
         | (s', Inr _) \<Rightarrow> (s', None)))"

definition PG_List_match :: "string \<Rightarrow> string list \<Rightarrow> api_keys_row \<Rightarrow> bool" where
  "PG_List_match username statuses r =
     (\<not> row_ephemeral r \<and> (username \<noteq> [] \<longrightarrow> row_username r = username) \<and>
      (length statuses > 0 \<longrightarrow> List.member (map trimSpace statuses) (row_status r)))"

definition nullDate :: "gotime option \<Rightarrow> string" where
  "nullDate t = (case t of None \<Rightarrow> [] | Some t \<Rightarrow> formatRFC3339 t)"

definition nullString :: "string option \<Rightarrow> string" where
  "nullString d = (case d of None \<Rightarrow> [] | Some d \<Rightarrow> d)"

definition PG_List_scan :: "api_keys_row \<Rightarrow> ApiKey" where
  "PG_List_scan r =
     \<lparr>ak_id = row_id r, ak_name = row_name r, ak_description = nullString (row_description r),
      ak_username = [], ak_subscription = row_subscription r, ak_groups = [],
      ak_creationDate = formatRFC3339 (row_created_at r),
      ak_expirationDate = nullDate (row_expires_at r), ak_status = row_status r,
      ak_lastUsedAt = nullDate (row_last_used_at r), ak_ephemeral = row_ephemeral r\<rparr>"

text \<open>\<open>SELECT ... WHERE match ORDER BY clause LIMIT l OFFSET o\<close>, and its trimming to the page.\<close>

definition sqlSelect ::
  "PostgresStore \<Rightarrow> (api_keys_row \<Rightarrow> bool) \<Rightarrow> string \<Rightarrow> int \<Rightarrow> int \<Rightarrow> string + api_keys_row list" where
  "sqlSelect s P clause l off =
     (case pg_orderBy s clause of
        None \<Rightarrow> Inl ''syntax error''
      | Some lt \<Rightarrow> Inr (take (nat l) (drop (nat off) (stable_sort lt (filter P (pg_rows s))))))"

definition trimPage :: "int \<Rightarrow> ApiKey list \<Rightarrow> PaginatedResult" where
  "trimPage limit keys =
     (let hasMore = (int (length keys) > limit)
      in \<lparr>pr_keys = (if hasMore then take (nat limit) keys else keys), pr_hasMore = hasMore\<rparr>)"

definition PG_List ::
  "store_env \<Rightarrow> string \<Rightarrow> PaginationParams \<Rightarrow> string list \<Rightarrow> PostgresStore \<Rightarrow> StoreError + PaginatedResult" where
  "PG_List e username params statuses s =
     (if pp_limit params < 1 \<or> pp_limit params > 100
      then Inl (StoreErr ''limit must be between 1 and 100'')
      else if pp_offset params < 0 then Inl (StoreErr ''offset must be non-negative'')
      else
        (case env_queryErr e of
           Some (err, _) \<Rightarrow> Inl (StoreErr (''failed to list keys: '' @ err))
         | None \<Rightarrow>
             (case sqlSelect s (PG_List_match username statuses) ''ORDER BY created_at DESC''
                     (pp_limit params + 1) (pp_offset params) of
                Inl err \<Rightarrow> Inl (StoreErr (''failed to list keys: '' @ err))
              | Inr rows \<Rightarrow> Inr (trimPage (pp_limit params) (map PG_List_scan rows)))))"

text \<open>\<open>CASE WHEN status = 'active' AND expires_at IS NOT NULL AND expires_at < NOW() THEN 'expired'
  ELSE status END\<close>\<close>

definition effectiveStatus :: "gotime \<Rightarrow> api_keys_row \<Rightarrow> string" where
  "effectiveStatus dbnow r =
     (if row_status r = StatusActive \<and> (case row_expires_at r of None \<Rightarrow> False | Some t \<Rightarrow> t < dbnow)
      then StatusExpired else row_status r)"

definition PG_Search_match ::
  "gotime \<Rightarrow> string \<Rightarrow> SearchFilters \<Rightarrow> api_keys_row \<Rightarrow> bool" where
  "PG_Search_match dbnow username filters r =
     ((sf_includeEphemeral filters = None \<or> sf_includeEphemeral filters = Some False \<longrightarrow> \<not> row_ephemeral r) \<and>
      (username \<noteq> [] \<longrightarrow> row_username r = username) \<and>
      (length (sf_status filters) > 0 \<longrightarrow>
         List.member (map trimSpace (sf_status filters)) (effectiveStatus dbnow r)))"

definition orderByClause :: "SortParams \<Rightarrow> string" where
  "orderByClause sortParams =
     (if sp_by sortParams = ''expires_at'' \<or> sp_by sortParams = ''last_used_at''
      then (if sp_order sortParams = ''asc'' then ''ORDER BY '' @ sp_by sortParams @ '' ASC NULLS LAST''
            else ''ORDER BY '' @ sp_by sortParams @ '' DESC NULLS LAST'')
      else ''ORDER BY '' @ sp_by sortParams @ '' '' @ toUpper (sp_order sortParams))"

definition PG_Search_scan :: "gotime \<Rightarrow> api_keys_row \<Rightarrow> ApiKey" where
  "PG_Search_scan dbnow r =
     (PG_List_scan r)\<lparr>ak_username := row_username r, ak_status := effectiveStatus dbnow r\<rparr>"

definition PG_Search ::
  "store_env \<Rightarrow> string \<Rightarrow> SearchFilters \<Rightarrow> SortParams \<Rightarrow> PaginationParams \<Rightarrow> PostgresStore \<Rightarrow>
   StoreError + PaginatedResult" where
  "PG_Search e username filters sortParams pagination s =
     (if pp_limit pagination < 1 \<or> pp_limit pagination > MaxLimit
      then Inl (StoreErr ''limit must be between 1 and 100'')
      else if pp_offset pagination < 0 then Inl (StoreErr ''offset must be non-negative'')
      else
        (case env_queryErr e of
           Some (err, _) \<Rightarrow> Inl (StoreErr (''failed to search API keys: '' @ err))
         | None \<Rightarrow>
             (case sqlSelect s (PG_Search_match (env_dbnow e) username filters) (orderByClause sortParams)
                     (pp_limit pagination + 1) (pp_offset pagination) of
                Inl err \<Rightarrow> Inl (StoreErr (''failed to search API keys: '' @ err))
              | Inr rows \<Rightarrow> Inr (trimPage (pp_limit pagination) (map (PG_Search_scan (env_dbnow e)) rows)))))"

definition PG_Get :: "store_env \<Rightarrow> string \<Rightarrow> PostgresStore \<Rightarrow> StoreError + ApiKey" where
  "PG_Get e keyID s =
     (case env_queryErr e of
        Some (err, _) \<Rightarrow> Inl (StoreErr (''failed to get key: '' @ err))
      | None \<Rightarrow>
          (case find (\<lambda>r. row_id r = keyID) (pg_rows s) of
             None \<Rightarrow> Inl ErrKeyNotFound
           | Some r \<Rightarrow> Inr (PG_Search_scan (env_dbnow e) r)))"

definition PG_GetByHash ::
  "store_env \<Rightarrow> string \<Rightarrow> PostgresStore \<Rightarrow> PostgresStore \<times> (StoreError + ApiKey)" where
  "PG_GetByHash e keyHash s =
     (case env_queryErr e of
        Some (err, _) \<Rightarrow> (s, Inl (StoreErr (''database lookup failed: '' @ err)))
      | None \<Rightarrow>
          (case find (\<lambda>r. row_key_hash r = keyHash) (pg_rows s) of
             None \<Rightarrow> (s, Inl ErrKeyNotFound)
           | Some r \<Rightarrow>
               let k = \<lparr>ak_id = row_id r, ak_name = row_name r,
                        ak_description = nullString (row_description r),
                        ak_username = row_username r, ak_subscription = row_subscription r,
                        ak_groups = row_user_groups r, ak_creationDate = [], ak_expirationDate = [],
                        ak_status = row_status r, ak_lastUsedAt = nullDate (row_last_used_at r),
                        ak_ephemeral = row_ephemeral r\<rparr>;
                   expired = (case row_expires_at r of None \<Rightarrow> False | Some t \<Rightarrow> env_now e > t);
                   (s', k') =
                     (if expired \<and> ak_status k = StatusActive
                      then (fst (execContext (env_updateErr e)
                                   (sqlUpdate (\<lambda>x. row_id x = ak_id k \<and> row_status x = StatusActive)
                                      (\<lambda>x. x\<lparr>row_status := StatusExpired\<rparr>)) s),
                            k\<lparr>ak_status := StatusExpired\<rparr>)
                      else (s, k))
               in if ak_status k' = StatusRevoked \<or> ak_status k' = StatusExpired
                  then (s', Inl ErrInvalidKey) else (s', Inr k')))"

definition PG_InvalidateAll ::
  "store_env \<Rightarrow> string \<Rightarrow> PostgresStore \<Rightarrow> PostgresStore \<times> (StoreError + int)" where
  "PG_InvalidateAll e username s =
     (case execContext (env_queryErr e)
             (sqlUpdate (\<lambda>r. row_username r = username \<and> row_status r = StatusActive)
                (\<lambda>r. r\<lparr>row_status := StatusRevoked\<rparr>)) s of
        (s', Inl err) \<Rightarrow> (s', Inl (StoreErr (''failed to revoke keys: '' @ err)))
      | (s', Inr rows) \<Rightarrow>
          (case env_rowsErr e of
             Some err \<Rightarrow> (s', Inl (StoreErr (''failed to get affected rows: '' @ err)))
           | None \<Rightarrow> (s', Inr rows)))"

definition PG_Revoke :: "store_env \<Rightarrow> string \<Rightarrow> PostgresStore \<Rightarrow> PostgresStore \<times> StoreError option" where
  "PG_Revoke e keyID s =
     (case execContext (env_queryErr e)
             (sqlUpdate (\<lambda>r. row_id r = keyID \<and> row_status r = StatusActive)
                (\<lambda>r. r\<lparr>row_status := StatusRevoked\<rparr>)) s of
        (s', Inl err) \<Rightarrow> (s', Some (StoreErr (''failed to revoke key: '' @ err)))
      | (s', Inr rows) \<Rightarrow>
          (case env_rowsErr e of
             Some err \<Rightarrow> (s', Some (StoreErr (''failed to get rows affected: '' @ err)))
           | None \<Rightarrow> if rows = 0 then (s', Some ErrKeyNotFound) else (s', None)))"

definition PG_UpdateLastUsed ::
  "store_env \<Rightarrow> string \<Rightarrow> PostgresStore \<Rightarrow> PostgresStore \<times> StoreError option" where
  "PG_UpdateLastUsed e keyID s =
     (case execContext (env_queryErr e)
             (sqlUpdate (\<lambda>r. row_id r = keyID)
                (\<lambda>r. r\<lparr>row_last_used_at := Some (pg_timestamp s (env_now e))\<rparr>)) s of
        (s', Inl err) \<Rightarrow> (s', Some (StoreErr (''failed to update last_used_at: '' @ err)))
      | (s', Inr _) \<Rightarrow> (s', None))"

definition PG_doomed :: "gotime \<Rightarrow> api_keys_row \<Rightarrow> bool" where
  "PG_doomed dbnow r =
     (row_ephemeral r \<and>
      (case row_expires_at r of None \<Rightarrow> False | Some t \<Rightarrow> t < dbnow - 30 * Minute))"

definition PG_DeleteExpiredEphemeral ::
  "store_env \<Rightarrow> PostgresStore \<Rightarrow> PostgresStore \<times> (StoreError + int)" where
  "PG_DeleteExpiredEphemeral e s =
     (case execContext (env_queryErr e) (sqlDelete (PG_doomed (env_dbnow e))) s of
        (s', Inl err) \<Rightarrow> (s', Inl (StoreErr (''failed to delete expired ephemeral keys: '' @ err)))
      | (s', Inr rows) \<Rightarrow>
          (case env_rowsErr e of
             Some err \<Rightarrow> (s', Inl (StoreErr (''failed to get affected rows: '' @ err)))
           | None \<Rightarrow> (s', Inr rows)))"

definition PG_ops :: "PostgresStore MetadataStore" where
  "PG_ops =
     \<lparr>st_AddKey = PG_AddKey, st_Search = PG_Search, st_Get = PG_Get,
      st_GetByHash = PG_GetByHash, st_InvalidateAll = PG_InvalidateAll, st_Revoke = PG_Revoke,
      st_UpdateLastUsed = PG_UpdateLastUsed, st_DeleteExpiredEphemeral = PG_DeleteExpiredEphemeral\<rparr>"

section \<open>View and invariant\<close>

definition pg_akey :: "api_keys_row \<Rightarrow> akey" where
  "pg_akey r =
     \<lparr>k_hash = row_key_hash r, k_user = row_username r, k_groups = row_user_groups r,
      k_sub = row_subscription r, k_expires = row_expires_at r, k_ephemeral = row_ephemeral r,
      k_status = row_status r\<rparr>"

definition lookup :: "api_keys_row list \<Rightarrow> string \<Rightarrow> api_keys_row option" where
  "lookup rows i = find (\<lambda>r. row_id r = i) rows"

definition pg_view :: "PostgresStore \<Rightarrow> kview" where
  "pg_view s i = map_option pg_akey (lookup (pg_rows s) i)"

text \<open>The constraints of the schema.\<close>

definition rows_ok :: "api_keys_row list \<Rightarrow> bool" where
  "rows_ok rows \<longleftrightarrow> distinct (map row_id rows) \<and> distinct (map row_key_hash rows) \<and>
     (\<forall>r \<in> set rows. row_status r \<in> {StatusActive, StatusRevoked, StatusExpired})"

definition pg_inv :: "PostgresStore \<Rightarrow> bool" where
  "pg_inv s = rows_ok (pg_rows s)"

definition pg_expiry :: "PostgresStore \<Rightarrow> gotime option \<Rightarrow> gotime option" where
  "pg_expiry s x = map_option (pg_timestamp s) x"

section \<open>Lemmas on rows\<close>

lemma pg_akey_fields [simp]:
  "k_hash (pg_akey r) = row_key_hash r" "k_user (pg_akey r) = row_username r"
  "k_groups (pg_akey r) = row_user_groups r" "k_sub (pg_akey r) = row_subscription r"
  "k_expires (pg_akey r) = row_expires_at r" "k_ephemeral (pg_akey r) = row_ephemeral r"
  "k_status (pg_akey r) = row_status r"
  by (simp_all add: pg_akey_def)

lemma pg_akey_status: "pg_akey (r\<lparr>row_status := st\<rparr>) = (pg_akey r)\<lparr>k_status := st\<rparr>"
  by (simp add: pg_akey_def)

lemma lookup_simps [simp]:
  "lookup [] i = None" "lookup (r # rs) i = (if row_id r = i then Some r else lookup rs i)"
  by (simp_all add: lookup_def)

lemma lookup_SomeD: "lookup rows i = Some r \<Longrightarrow> r \<in> set rows \<and> row_id r = i"
  by (induction rows) (auto split: if_splits)

lemma lookup_id_ex:
  "(\<exists>x. lookup rows j = Some x \<and> row_id x = i \<and> Q x) \<longleftrightarrow> j = i \<and> (\<exists>x. lookup rows i = Some x \<and> Q x)"
  using lookup_SomeD by metis

lemma lookup_None: "lookup rows i = None \<longleftrightarrow> i \<notin> row_id ` set rows"
  by (induction rows) auto

lemma lookup_mem: "distinct (map row_id rows) \<Longrightarrow> r \<in> set rows \<Longrightarrow> lookup rows (row_id r) = Some r"
  by (induction rows) auto

lemma lookup_map: "(\<And>r. row_id (f r) = row_id r) \<Longrightarrow> lookup (map f rows) i = map_option f (lookup rows i)"
  by (induction rows) auto

lemma lookup_append: "lookup (rows @ [r]) i = (case lookup rows i of None \<Rightarrow> if row_id r = i then Some r else None | Some x \<Rightarrow> Some x)"
  by (induction rows) auto

lemma lookup_filter:
  "distinct (map row_id rows) \<Longrightarrow> lookup (filter P rows) i =
     (case lookup rows i of None \<Rightarrow> None | Some r \<Rightarrow> if P r then Some r else None)"
proof (induction rows)
  case Nil
  then show ?case by simp
next
  case (Cons r rows)
  then have "lookup rows (row_id r) = None" by (auto simp: lookup_None)
  with Cons show ?case by (auto split: option.splits)
qed

lemma length_filter_rows:
  assumes "distinct (map row_id rows)"
  shows "length (filter P rows) = card {i. \<exists>r. lookup rows i = Some r \<and> P r}"
proof -
  have "{i. \<exists>r. lookup rows i = Some r \<and> P r} = row_id ` set (filter P rows)"
    using assms by (auto dest: lookup_SomeD lookup_mem)
  moreover have "distinct (map row_id (filter P rows))"
    using assms by (rule distinct_map_filter)
  ultimately show ?thesis by (metis distinct_card length_map list.set_map)
qed

lemma rows_ok_map:
  assumes "rows_ok rows" "\<And>r. row_id (f r) = row_id r" "\<And>r. row_key_hash (f r) = row_key_hash r"
    and "\<And>r. row_status r \<in> {StatusActive, StatusRevoked, StatusExpired} \<Longrightarrow>
      row_status (f r) \<in> {StatusActive, StatusRevoked, StatusExpired}"
  shows "rows_ok (map f rows)"
proof -
  have "map row_id (map f rows) = map row_id rows" "map row_key_hash (map f rows) = map row_key_hash rows"
    using assms(2,3) by simp_all
  then show ?thesis unfolding rows_ok_def using assms(1,4) by (simp add: rows_ok_def del: map_map)
qed

lemma rows_ok_filter: "rows_ok rows \<Longrightarrow> rows_ok (filter P rows)"
  by (simp add: rows_ok_def distinct_map_filter)

text \<open>What an UPDATE that keeps ids and hashes does to the view, whether or not it is reported.\<close>

lemma execContext_update:
  fixes P :: "api_keys_row \<Rightarrow> bool"
  assumes "pg_inv s" "\<And>r. row_id (f r) = row_id r" "\<And>r. row_key_hash (f r) = row_key_hash r"
    and "\<And>r. row_status r \<in> {StatusActive, StatusRevoked, StatusExpired} \<Longrightarrow>
      row_status (f r) \<in> {StatusActive, StatusRevoked, StatusExpired}"
    and "execContext fault (sqlUpdate P f) s = (s', q)"
  shows "pg_inv s'"
    and "(\<forall>i. pg_view s' i = map_option (\<lambda>r. pg_akey (if P r then f r else r)) (lookup (pg_rows s) i)) \<or>
      s' = s \<and> (\<exists>err. q = Inl err)"
    and "q = Inr n \<Longrightarrow> n = int (card {i. \<exists>r. lookup (pg_rows s) i = Some r \<and> P r})"
    and "fault = None \<Longrightarrow> q = Inr (int (card {i. \<exists>r. lookup (pg_rows s) i = Some r \<and> P r}))"
proof -
  let ?g = "\<lambda>r. if P r then f r else r"
  let ?s = "s\<lparr>pg_rows := map ?g (pg_rows s)\<rparr>"
  have d: "distinct (map row_id (pg_rows s))" using assms(1) by (simp add: pg_inv_def rows_ok_def)
  have "rows_ok (map ?g (pg_rows s))"
    using assms(1-4) by (intro rows_ok_map) (auto simp: pg_inv_def)
  then have inv: "pg_inv ?s" by (simp add: pg_inv_def)
  have look: "lookup (map ?g (pg_rows s)) i = map_option ?g (lookup (pg_rows s) i)" for i
    using assms(2) by (intro lookup_map) simp
  have view: "pg_view ?s i = map_option (\<lambda>r. pg_akey (?g r)) (lookup (pg_rows s) i)" for i
    by (simp add: pg_view_def look option.map_comp comp_def)
  have exec: "execContext fault (sqlUpdate P f) s =
    (case fault of None \<Rightarrow> (?s, Inr (int (length (filter P (pg_rows s)))))
     | Some (err, applied) \<Rightarrow> (if applied then ?s else s, Inl err))"
    by (simp add: execContext_def sqlUpdate_def)
  note res = assms(5) [unfolded exec]
  show "pg_inv s'" using res inv assms(1) by (auto split: option.splits if_splits)
  show "(\<forall>i. pg_view s' i = map_option (\<lambda>r. pg_akey (?g r)) (lookup (pg_rows s) i)) \<or>
      s' = s \<and> (\<exists>err. q = Inl err)"
    using res view by (auto split: option.splits if_splits)
  show "q = Inr n \<Longrightarrow> n = int (card {i. \<exists>r. lookup (pg_rows s) i = Some r \<and> P r})"
    using res by (auto simp: length_filter_rows [OF d] split: option.splits)
  show "fault = None \<Longrightarrow> q = Inr (int (card {i. \<exists>r. lookup (pg_rows s) i = Some r \<and> P r}))"
    using res by (auto simp: length_filter_rows [OF d])
qed

section \<open>The laws of the contract\<close>

lemma pg_view_Some: "pg_view s i = Some k \<longleftrightarrow> (\<exists>r. lookup (pg_rows s) i = Some r \<and> k = pg_akey r)"
  by (auto simp: pg_view_def)

lemma pg_inv_lookup: "pg_inv s \<Longrightarrow> r \<in> set (pg_rows s) \<Longrightarrow> lookup (pg_rows s) (row_id r) = Some r"
  by (simp add: pg_inv_def rows_ok_def lookup_mem)

lemma pg_view_mem: "pg_inv s \<Longrightarrow> r \<in> set (pg_rows s) \<Longrightarrow> pg_view s (row_id r) = Some (pg_akey r)"
  by (simp add: pg_view_def pg_inv_lookup)

lemma pg_inv_status:
  "pg_inv s \<Longrightarrow> r \<in> set (pg_rows s) \<Longrightarrow> row_status r \<in> {StatusActive, StatusRevoked, StatusExpired}"
  by (auto simp: pg_inv_def rows_ok_def)

lemma pg_AddKey_law:
  assumes "pg_inv s" "PG_AddKey e u i h n d g sub x eph s = (s', r)"
  shows "pg_inv s' \<and>
    (pg_view s' = (pg_view s)(i \<mapsto> newKey h u g sub (pg_expiry s x) eph) \<and> sub \<noteq> [] \<and> i \<noteq> [] \<or>
     pg_view s' = pg_view s \<and> r \<noteq> None)"
proof -
  let ?row = "\<lparr>row_id = i, row_username = u, row_name = n, row_description = Some d, row_key_hash = h,
     row_status = StatusActive, row_user_groups = g, row_created_at = pg_timestamp s (env_now e),
     row_expires_at = map_option (pg_timestamp s) x, row_last_used_at = None, row_ephemeral = eph,
     row_subscription = sub\<rparr>"
  let ?dup = "list_ex (\<lambda>x. row_id x = i \<or> row_key_hash x = h) (pg_rows s)"
  let ?s = "s\<lparr>pg_rows := pg_rows s @ [?row]\<rparr>"
  have new: "pg_inv ?s \<and> pg_view ?s = (pg_view s)(i \<mapsto> newKey h u g sub (pg_expiry s x) eph)" if "\<not> ?dup"
  proof -
    have "rows_ok (pg_rows s @ [?row])"
      using that assms(1) by (auto simp: pg_inv_def rows_ok_def list_ex_iff)
    moreover have "lookup (pg_rows s) i = None" using that by (auto simp: lookup_None list_ex_iff)
    then have "pg_view ?s = (pg_view s)(i \<mapsto> newKey h u g sub (pg_expiry s x) eph)"
      by (auto simp: pg_view_def lookup_append newKey_def pg_akey_def pg_expiry_def split: option.splits)
    ultimately show ?thesis by (simp add: pg_inv_def)
  qed
  have "s' = s \<and> r \<noteq> None \<or> s' = ?s \<and> \<not> ?dup \<and> sub \<noteq> [] \<and> i \<noteq> []"
    using assms(2)
    by (auto simp: PG_AddKey_def execContext_def sqlInsert_def split: if_splits option.splits sum.splits)
  with new assms(1) show ?thesis by auto
qed

lemma pg_AddKey_ok:
  assumes "fault_free e" "i \<noteq> []" "n \<noteq> []" "h \<noteq> []" "sub \<noteq> []" "x \<noteq> None" "pg_inv s"
    and "pg_view s i = None" "\<forall>j k. pg_view s j = Some k \<longrightarrow> k_hash k \<noteq> h"
  shows "snd (PG_AddKey e u i h n d g sub x eph s) = None"
proof -
  have "row_id r \<noteq> i \<and> row_key_hash r \<noteq> h" if "r \<in> set (pg_rows s)" for r
    using pg_view_mem [OF assms(7) that] assms(8,9) by fastforce
  then have "\<not> list_ex (\<lambda>x. row_id x = i \<or> row_key_hash x = h) (pg_rows s)"
    by (auto simp: list_ex_iff)
  with assms(1-6) show ?thesis
    by (auto simp: PG_AddKey_def execContext_def sqlInsert_def fault_free_def)
qed

text \<open>The key that \<open>GetByHash\<close> builds from a row, and the expiry it notices.\<close>

definition pg_hash_key :: "api_keys_row \<Rightarrow> ApiKey" where
  "pg_hash_key r =
     \<lparr>ak_id = row_id r, ak_name = row_name r, ak_description = nullString (row_description r),
      ak_username = row_username r, ak_subscription = row_subscription r,
      ak_groups = row_user_groups r, ak_creationDate = [], ak_expirationDate = [],
      ak_status = row_status r, ak_lastUsedAt = nullDate (row_last_used_at r),
      ak_ephemeral = row_ephemeral r\<rparr>"

lemma PG_GetByHash_cases:
  assumes "pg_inv s"
  obtains (fault) err ap where "env_queryErr e = Some (err, ap)"
      "PG_GetByHash e h s = (s, Inl (StoreErr (''database lookup failed: '' @ err)))"
  | (missing) "env_queryErr e = None" "\<And>r. r \<in> set (pg_rows s) \<Longrightarrow> row_key_hash r \<noteq> h"
      "PG_GetByHash e h s = (s, Inl ErrKeyNotFound)"
  | (live) r where "env_queryErr e = None" "r \<in> set (pg_rows s)" "row_key_hash r = h"
      "liveAt (env_now e) (pg_akey r)" "PG_GetByHash e h s = (s, Inr (pg_hash_key r))"
  | (dead) r s' where "env_queryErr e = None" "r \<in> set (pg_rows s)" "row_key_hash r = h"
      "\<not> liveAt (env_now e) (pg_akey r)" "PG_GetByHash e h s = (s', Inl ErrInvalidKey)"
      "s' = (if row_status r = StatusActive then fst (execContext (env_updateErr e)
         (sqlUpdate (\<lambda>x. row_id x = row_id r \<and> row_status x = StatusActive)
           (\<lambda>x. x\<lparr>row_status := StatusExpired\<rparr>)) s) else s)"
proof (cases "env_queryErr e")
  case (Some p)
  then show ?thesis by (cases p) (auto simp: PG_GetByHash_def intro: fault)
next
  case noerr: None
  show ?thesis
  proof (cases "find (\<lambda>r. row_key_hash r = h) (pg_rows s)")
    case None
    then have "PG_GetByHash e h s = (s, Inl ErrKeyNotFound)" by (simp add: PG_GetByHash_def noerr)
    with noerr None show ?thesis by (intro missing) (auto simp: find_None_iff)
  next
    case (Some r)
    then have r: "r \<in> set (pg_rows s)" "row_key_hash r = h" by (auto simp: find_Some_iff)
    note st = pg_inv_status [OF assms r(1)]
    have res: "PG_GetByHash e h s =
      (if expiredAt (env_now e) (pg_akey r) \<and> row_status r = StatusActive
       then (fst (execContext (env_updateErr e)
               (sqlUpdate (\<lambda>x. row_id x = row_id r \<and> row_status x = StatusActive)
                 (\<lambda>x. x\<lparr>row_status := StatusExpired\<rparr>)) s), Inl ErrInvalidKey)
       else if row_status r = StatusActive then (s, Inr (pg_hash_key r)) else (s, Inl ErrInvalidKey))"
      using st unfolding PG_GetByHash_def noerr option.case Some
      by (auto simp: Let_def pg_hash_key_def expiredAt_def)
    show ?thesis
    proof (cases "liveAt (env_now e) (pg_akey r)")
      case True
      with noerr r res show ?thesis by (intro live [of r]) (auto simp: liveAt_def)
    next
      case False
      with noerr r res show ?thesis
        by (intro dead [OF noerr r False, of "fst (PG_GetByHash e h s)"]) (auto simp: liveAt_def)
    qed
  qed
qed

lemma pg_expire_update:
  assumes "pg_inv s" "r \<in> set (pg_rows s)" "row_status r = StatusActive"
    and s': "s' = fst (execContext fault (sqlUpdate (\<lambda>x. row_id x = row_id r \<and> row_status x = StatusActive)
           (\<lambda>x. x\<lparr>row_status := StatusExpired\<rparr>)) s)"
  shows "pg_inv s' \<and> (s' = s \<and> fault \<noteq> None \<or>
    pg_view s' = (pg_view s)(row_id r \<mapsto> (pg_akey r)\<lparr>k_status := StatusExpired\<rparr>))"
proof -
  obtain q where "execContext fault (sqlUpdate (\<lambda>x. row_id x = row_id r \<and> row_status x = StatusActive)
           (\<lambda>x. x\<lparr>row_status := StatusExpired\<rparr>)) s = (s', q)"
    using s' by (metis prod.collapse)
  note upd = execContext_update [OF assms(1) _ _ _ this]
  have inv: "pg_inv s'" by (rule upd) auto
  consider "s' = s" "fault \<noteq> None" | "\<forall>i. pg_view s' i = map_option (\<lambda>x. pg_akey (if row_id x = row_id r \<and>
      row_status x = StatusActive then x\<lparr>row_status := StatusExpired\<rparr> else x)) (lookup (pg_rows s) i)"
    using upd(2,4) by fastforce
  then show ?thesis
  proof cases
    case 1
    with inv show ?thesis by simp
  next
    case 2
    have "pg_view s' = (pg_view s)(row_id r \<mapsto> (pg_akey r)\<lparr>k_status := StatusExpired\<rparr>)"
    proof
      fix i
      show "pg_view s' i = ((pg_view s)(row_id r \<mapsto> (pg_akey r)\<lparr>k_status := StatusExpired\<rparr>)) i"
        using 2 pg_inv_lookup [OF assms(1,2)] assms(3)
        by (cases "lookup (pg_rows s) i") (auto simp: pg_view_def [of s] pg_akey_status dest: lookup_SomeD)
    qed
    with inv show ?thesis by simp
  qed
qed

lemma pg_hash_unique: "pg_inv st \<Longrightarrow> hash_unique (pg_view st)"
proof -
  assume inv: "pg_inv st"
  have "i = j" if "lookup (pg_rows st) i = Some r" "lookup (pg_rows st) j = Some r'"
    "row_key_hash r = row_key_hash r'" for i j r r'
  proof -
    have "inj_on row_key_hash (set (pg_rows st))"
      using inv by (simp add: pg_inv_def rows_ok_def distinct_map)
    with that have "r = r'" by (auto dest!: lookup_SomeD dest: inj_onD)
    with that show ?thesis by (auto dest!: lookup_SomeD)
  qed
  then show ?thesis by (auto simp: hash_unique_def pg_view_Some)
qed

text \<open>A lookup by hash leaves the view alone or expires the key with the hash; without a database
  error it does the latter.\<close>

lemma pg_GetByHash_keeps:
  assumes "pg_inv s"
  shows "pg_inv (fst (PG_GetByHash e h s)) \<and>
    (pg_view (fst (PG_GetByHash e h s)) = pg_view s \<and> \<not> fault_free e \<or>
     pg_view (fst (PG_GetByHash e h s)) = expireHash (env_now e) h (pg_view s))"
  using assms
proof (cases rule: PG_GetByHash_cases [where e = e and h = h])
  case (fault err ap)
  with assms show ?thesis by (simp add: fault_free_def)
next
  case missing
  then have "expireHash (env_now e) h (pg_view s) = pg_view s"
    by (intro expireHash_missing) (metis pg_view_Some lookup_SomeD pg_akey_fields(1))
  with missing(3) assms show ?thesis by simp
next
  case (live r)
  with assms show ?thesis
    using expireHash_only [OF pg_hash_unique pg_view_mem, of s r h "env_now e"] by (auto simp: liveAt_def)
next
  case (dead r s')
  have only: "expireHash (env_now e) h (pg_view s) =
    (if row_status r = StatusActive then (pg_view s)(row_id r \<mapsto> (pg_akey r)\<lparr>k_status := StatusExpired\<rparr>)
     else pg_view s)"
    using expireHash_only [OF pg_hash_unique pg_view_mem, of s r h "env_now e"] assms dead(2-4)
    by (auto simp: liveAt_def)
  show ?thesis
  proof (cases "row_status r = StatusActive")
    case True
    with pg_expire_update [OF assms dead(2) True, of s' "env_updateErr e"] dead(5,6) only
    show ?thesis by (auto simp: fault_free_def)
  next
    case False
    with dead(5,6) only assms show ?thesis by simp
  qed
qed

lemma pg_GetByHash_sound:
  assumes "pg_inv s" "snd (PG_GetByHash e h s) = Inr m"
  shows "\<exists>k. pg_view s (ak_id m) = Some k \<and> k_hash k = h \<and> liveAt (env_now e) k \<and>
    describes m (ak_id m) k \<and> ak_groups m = k_groups k"
  using assms(1)
proof (cases rule: PG_GetByHash_cases [where e = e and h = h])
  case (live r)
  then show ?thesis
    using pg_view_mem [OF assms(1) live(2)] assms(2) by (auto simp: pg_hash_key_def describes_def)
qed (use assms in simp_all)

lemma pg_GetByHash_found:
  assumes "pg_inv s" "env_queryErr e = None" "pg_view s i = Some k"
  shows "if liveAt (env_now e) k then \<exists>m. snd (PG_GetByHash e (k_hash k) s) = Inr m \<and> ak_id m = i
    else snd (PG_GetByHash e (k_hash k) s) = Inl ErrInvalidKey"
proof -
  from assms(3) obtain x where x: "x \<in> set (pg_rows s)" "row_id x = i" "k = pg_akey x"
    by (auto simp: pg_view_Some dest: lookup_SomeD)
  have same: "r = x" if "r \<in> set (pg_rows s)" "row_key_hash r = k_hash k" for r
  proof -
    have "inj_on row_key_hash (set (pg_rows s))"
      using assms(1) by (simp add: pg_inv_def rows_ok_def distinct_map)
    with that x show ?thesis by (auto dest: inj_onD)
  qed
  from assms(1) show ?thesis
  proof (cases rule: PG_GetByHash_cases [where e = e and h = "k_hash k"])
    case (live r)
    with same [OF live(2,3)] x show ?thesis by (auto simp: pg_hash_key_def)
  next
    case (dead r s')
    with same [OF dead(2,3)] x show ?thesis by auto
  qed (use assms(2) x in auto)
qed

lemma pg_GetByHash_missing:
  assumes "pg_inv s" "env_queryErr e = None" "\<forall>j k. pg_view s j = Some k \<longrightarrow> k_hash k \<noteq> h"
  shows "PG_GetByHash e h s = (s, Inl ErrKeyNotFound)"
proof -
  have "row_key_hash r \<noteq> h" if "r \<in> set (pg_rows s)" for r
    using pg_view_mem [OF assms(1) that] assms(3) by fastforce
  with assms(1,2) show ?thesis
    by (cases rule: PG_GetByHash_cases [where e = e and h = h]) auto
qed

lemma pg_Get_law:
  "PG_Get e i s = (case env_queryErr e of
     Some (err, _) \<Rightarrow> Inl (StoreErr (''failed to get key: '' @ err))
   | None \<Rightarrow> (case lookup (pg_rows s) i of None \<Rightarrow> Inl ErrKeyNotFound
              | Some r \<Rightarrow> Inr (PG_Search_scan (env_dbnow e) r)))"
  by (simp add: PG_Get_def lookup_def split: option.splits)

lemma pg_scan_describes: "describes (PG_Search_scan now r) (row_id r) (pg_akey r)"
  by (simp add: describes_def PG_Search_scan_def PG_List_scan_def)

lemma pg_Search_sound:
  assumes inv: "pg_inv s" and res: "PG_Search e u f so p s = Inr pr"
  shows "int (length (pr_keys pr)) \<le> pp_limit p \<and>
    (\<forall>m \<in> set (pr_keys pr). \<exists>k. pg_view s (ak_id m) = Some k \<and> describes m (ak_id m) k \<and>
       (u \<noteq> [] \<longrightarrow> k_user k = u) \<and> (k_ephemeral k \<longrightarrow> sf_includeEphemeral f = Some True))"
proof -
  from res obtain lt where pr: "pr = trimPage (pp_limit p) (map (PG_Search_scan (env_dbnow e))
      (take (nat (pp_limit p + 1)) (drop (nat (pp_offset p))
        (stable_sort lt (filter (PG_Search_match (env_dbnow e) u f) (pg_rows s))))))"
    and lim: "1 \<le> pp_limit p"
    by (auto simp: PG_Search_def sqlSelect_def split: if_splits option.splits sum.splits)
  have "int (length (pr_keys pr)) \<le> pp_limit p"
    unfolding pr using lim by (auto simp: trimPage_def Let_def)
  moreover have "\<exists>k. pg_view s (ak_id m) = Some k \<and> describes m (ak_id m) k \<and>
       (u \<noteq> [] \<longrightarrow> k_user k = u) \<and> (k_ephemeral k \<longrightarrow> sf_includeEphemeral f = Some True)"
    if "m \<in> set (pr_keys pr)" for m
  proof -
    from that obtain r where r: "r \<in> set (pg_rows s)" "PG_Search_match (env_dbnow e) u f r"
      "m = PG_Search_scan (env_dbnow e) r"
      unfolding pr trimPage_def Let_def
      by (auto split: if_splits dest!: in_set_takeD in_set_dropD)
    then have "pg_view s (ak_id m) = Some (pg_akey r)"
      using pg_view_mem [OF inv r(1)] by (simp add: PG_Search_scan_def PG_List_scan_def)
    with r show ?thesis
      by (cases "sf_includeEphemeral f")
        (auto simp: PG_Search_match_def PG_Search_scan_def PG_List_scan_def describes_def)
  qed
  ultimately show ?thesis by simp
qed

lemma pg_revoke_view:
  assumes "\<forall>i. pg_view s' i = map_option (\<lambda>r. pg_akey (if P r then r\<lparr>row_status := StatusRevoked\<rparr> else r))
      (lookup (pg_rows s) i)"
  shows "pg_view s' i = map_option (\<lambda>r. if P r then (pg_akey r)\<lparr>k_status := StatusRevoked\<rparr> else pg_akey r)
      (lookup (pg_rows s) i)"
  using assms by (cases "lookup (pg_rows s) i") (auto simp: pg_akey_status)

lemma pg_revoke_one:
  assumes "\<forall>j. pg_view s' j = map_option (\<lambda>r. pg_akey (if row_id r = i \<and> row_status r = StatusActive
      then r\<lparr>row_status := StatusRevoked\<rparr> else r)) (lookup (pg_rows s) j)"
    and "lookup (pg_rows s) i = Some x" "row_status x = StatusActive"
  shows "pg_view s' = (pg_view s)(i \<mapsto> (pg_akey x)\<lparr>k_status := StatusRevoked\<rparr>)"
proof (rule ext)
  fix j
  show "pg_view s' j = ((pg_view s)(i \<mapsto> (pg_akey x)\<lparr>k_status := StatusRevoked\<rparr>)) j"
  proof (cases "lookup (pg_rows s) j")
    case None
    with pg_revoke_view [OF assms(1), of j] assms(2) show ?thesis by (auto simp: pg_view_def [of s])
  next
    case (Some y)
    then have "row_id y = j" by (simp add: lookup_SomeD)
    with Some pg_revoke_view [OF assms(1), of j] assms(2,3) show ?thesis
      by (cases "j = i") (simp_all add: pg_view_def [of s])
  qed
qed

lemma pg_Revoke_law:
  assumes inv: "pg_inv s" and res: "PG_Revoke e i s = (s', r)"
  shows "pg_inv s' \<and>
    ((\<exists>k. pg_view s i = Some k \<and> k_status k = StatusActive \<and>
        pg_view s' = (pg_view s)(i \<mapsto> k\<lparr>k_status := StatusRevoked\<rparr>) \<and> (fault_free e \<longrightarrow> r = None)) \<or>
     pg_view s' = pg_view s \<and> r \<noteq> None \<and>
       (fault_free e \<longrightarrow> r = Some ErrKeyNotFound \<and> (\<forall>k. pg_view s i = Some k \<longrightarrow> k_status k \<noteq> StatusActive)))"
proof -
  let ?P = "\<lambda>x. row_id x = i \<and> row_status x = StatusActive"
  obtain q where q: "execContext (env_queryErr e) (sqlUpdate ?P (\<lambda>x. x\<lparr>row_status := StatusRevoked\<rparr>)) s = (s', q)"
    and r: "(\<exists>err. q = Inl err \<and> r \<noteq> None \<and> \<not> fault_free e) \<or>
      (\<exists>n. q = Inr n \<and> (r \<noteq> None \<and> \<not> fault_free e \<or> r = (if n = 0 then Some ErrKeyNotFound else None)))"
    using res
    by (auto simp: PG_Revoke_def fault_free_def execContext_def sqlUpdate_def
        split: prod.splits sum.splits option.splits if_splits)
  note upd = execContext_update [OF inv _ _ _ q]
  have hits: "{j. \<exists>x. lookup (pg_rows s) j = Some x \<and> ?P x} =
      (if \<exists>k. pg_view s i = Some k \<and> k_status k = StatusActive then {i} else {})"
    by (auto simp: lookup_id_ex pg_view_Some)
  have inv': "pg_inv s'" by (rule upd) auto
  show ?thesis
  proof (cases "\<exists>k. pg_view s i = Some k \<and> k_status k = StatusActive")
    case True
    then obtain x where x: "lookup (pg_rows s) i = Some x" "row_status x = StatusActive"
      by (auto simp: pg_view_Some)
    have "\<not> (\<exists>err. q = Inl err) \<Longrightarrow> \<exists>n. q = Inr n \<and> n \<noteq> 0" using upd(3) True hits r by auto
    with r have rN: "fault_free e \<longrightarrow> r = None" by auto
    have "pg_view s' = (pg_view s)(i \<mapsto> (pg_akey x)\<lparr>k_status := StatusRevoked\<rparr>) \<or> s' = s \<and> (\<exists>err. q = Inl err)"
      using upd(2) pg_revoke_one [OF _ x] by auto
    then show ?thesis
      using x rN inv' r by (auto simp: pg_view_Some)
  next
    case False
    have "pg_view s' = pg_view s"
    proof -
      have "pg_akey (if ?P y then y\<lparr>row_status := StatusRevoked\<rparr> else y) = pg_akey y"
        if "lookup (pg_rows s) j = Some y" for j y
      proof -
        have "row_id y = j" using that by (simp add: lookup_SomeD)
        then show ?thesis using that False by (cases "j = i") (auto simp: pg_view_Some)
      qed
      then show ?thesis
        using upd(2) by (auto simp: pg_view_def [of s] intro!: ext option.map_cong)
    qed
    moreover have "q = Inr n \<Longrightarrow> n = 0" for n using upd(3) [of n] False hits by simp
    ultimately show ?thesis using r inv' False by auto
  qed
qed

lemma pg_InvalidateAll_law:
  assumes inv: "pg_inv s" and res: "PG_InvalidateAll e u s = (s', q)"
  shows "pg_inv s' \<and>
    (pg_view s' = revokeAllOf u (pg_view s) \<and>
       (\<forall>n. q = Inr n \<longrightarrow> n = int (card {i. \<exists>k. pg_view s i = Some k \<and> k_user k = u \<and> k_status k = StatusActive})) \<or>
     pg_view s' = pg_view s \<and> (\<exists>err. q = Inl err)) \<and>
    (fault_free e \<longrightarrow> (\<exists>n. q = Inr n))"
proof -
  let ?P = "\<lambda>x. row_username x = u \<and> row_status x = StatusActive"
  obtain q0 where q0: "execContext (env_queryErr e) (sqlUpdate ?P (\<lambda>x. x\<lparr>row_status := StatusRevoked\<rparr>)) s = (s', q0)"
    and q: "(\<exists>err err'. q0 = Inl err \<and> q = Inl err') \<or> (\<exists>n. q0 = Inr n \<and> (q = Inr n \<or> (\<exists>err. q = Inl err)))"
    and ok: "fault_free e \<longrightarrow> (\<forall>n. q0 = Inr n \<longrightarrow> q = Inr n)"
    using res
    by (auto simp: PG_InvalidateAll_def fault_free_def split: prod.splits sum.splits option.splits)
  note upd = execContext_update [OF inv _ _ _ q0]
  have inv': "pg_inv s'" by (rule upd) auto
  have cnt: "{i. \<exists>x. lookup (pg_rows s) i = Some x \<and> ?P x} =
      {i. \<exists>k. pg_view s i = Some k \<and> k_user k = u \<and> k_status k = StatusActive}"
    by (auto simp: pg_view_def)
  have "pg_view s' = revokeAllOf u (pg_view s)"
    if "\<forall>j. pg_view s' j = map_option (\<lambda>r. pg_akey (if ?P r then r\<lparr>row_status := StatusRevoked\<rparr> else r))
          (lookup (pg_rows s) j)"
    using pg_revoke_view [OF that]
    by (auto simp: revokeAllOf_def pg_view_def [of s] option.map_comp comp_def intro!: ext option.map_cong)
  with upd(2) have view: "pg_view s' = revokeAllOf u (pg_view s) \<or> s' = s \<and> (\<exists>err. q0 = Inl err)" by auto
  have count: "n = int (card {i. \<exists>k. pg_view s i = Some k \<and> k_user k = u \<and> k_status k = StatusActive})"
    if "q0 = Inr n" for n
    using upd(3) [OF _ _ _ that] cnt by simp
  have free: "\<exists>n. q = Inr n" if "fault_free e"
    using upd(4) ok that q by (auto simp: fault_free_def)
  from q view count free inv' show ?thesis by auto
qed

lemma pg_UpdateLastUsed_law:
  assumes inv: "pg_inv s"
  shows "pg_inv (fst (PG_UpdateLastUsed e i s)) \<and> pg_view (fst (PG_UpdateLastUsed e i s)) = pg_view s"
proof -
  let ?f = "\<lambda>r. r\<lparr>row_last_used_at := Some (pg_timestamp s (env_now e))\<rparr>"
  let ?ex = "execContext (env_queryErr e) (sqlUpdate (\<lambda>r. row_id r = i) ?f) s"
  have eq: "fst (PG_UpdateLastUsed e i s) = fst ?ex"
    by (simp add: PG_UpdateLastUsed_def split: prod.splits sum.splits)
  note upd = execContext_update [OF inv _ _ _ prod.collapse [symmetric]]
  have same: "(\<lambda>r. pg_akey (if row_id r = i then ?f r else r)) = pg_akey"
    by (rule ext) (simp add: pg_akey_def)
  have "pg_view (fst ?ex) = pg_view s"
    using upd(2) [where P = "\<lambda>r. row_id r = i" and f = ?f and fault = "env_queryErr e"]
    unfolding same by (auto simp: pg_view_def [of s])
  moreover have "pg_inv (fst ?ex)" by (rule upd(1)) auto
  ultimately show ?thesis using eq by simp
qed

lemma pg_doomed_cleanable: "PG_doomed now r = cleanable now (pg_akey r)"
  by (simp add: PG_doomed_def cleanable_def)

lemma pg_Delete_law:
  assumes inv: "pg_inv s" and res: "PG_DeleteExpiredEphemeral e s = (s', q)"
  shows "pg_inv s' \<and>
    (pg_view s' = (\<lambda>i. case pg_view s i of None \<Rightarrow> None
                     | Some k \<Rightarrow> if cleanable (env_dbnow e) k then None else Some k) \<and>
       (\<forall>n. q = Inr n \<longrightarrow> n = int (card {i. \<exists>k. pg_view s i = Some k \<and> cleanable (env_dbnow e) k})) \<or>
     pg_view s' = pg_view s \<and> (\<exists>err. q = Inl err)) \<and>
    (fault_free e \<longrightarrow> (\<exists>n. q = Inr n))"
proof -
  let ?D = "PG_doomed (env_dbnow e)"
  let ?s = "s\<lparr>pg_rows := filter (\<lambda>r. \<not> ?D r) (pg_rows s)\<rparr>"
  have d: "distinct (map row_id (pg_rows s))" using inv by (simp add: pg_inv_def rows_ok_def)
  have view: "pg_view ?s = (\<lambda>i. case pg_view s i of None \<Rightarrow> None
      | Some k \<Rightarrow> if cleanable (env_dbnow e) k then None else Some k)"
    by (rule ext) (simp add: pg_view_def lookup_filter [OF d] pg_doomed_cleanable split: option.splits)
  have inv': "pg_inv ?s" using inv by (simp add: pg_inv_def rows_ok_filter)
  have cnt: "int (length (filter ?D (pg_rows s))) =
      int (card {i. \<exists>k. pg_view s i = Some k \<and> cleanable (env_dbnow e) k})"
    unfolding length_filter_rows [OF d] pg_doomed_cleanable pg_view_Some
    by (rule arg_cong [where f = "\<lambda>S. int (card S)"]) auto
  have "s' = ?s \<and> q = Inr (int (length (filter ?D (pg_rows s)))) \<or> s' = ?s \<and> (\<exists>err. q = Inl err) \<and> \<not> fault_free e \<or>
      s' = s \<and> (\<exists>err. q = Inl err) \<and> \<not> fault_free e"
    using res
    by (auto simp: PG_DeleteExpiredEphemeral_def execContext_def sqlDelete_def fault_free_def
        split: prod.splits sum.splits option.splits if_splits)
  then show ?thesis
    by (elim disjE conjE) (simp_all only: view inv' inv cnt, auto)
qed

interpretation pg_lookup: key_lookup PG_ops pg_view pg_inv
proof (unfold_locales, goal_cases)
  case (2 s e h i) then show ?case using pg_GetByHash_keeps [of s e h] by (auto simp: PG_ops_def)
next
  case (3 s e h m) then show ?case by (simp add: PG_ops_def pg_GetByHash_sound)
next
  case (4 s e i k) then show ?case
    using pg_GetByHash_found [of s e i k] by (simp add: PG_ops_def fault_free_def)
next
  case (5 s e i k) then show ?case
    using pg_GetByHash_found [of s e i k] by (simp add: PG_ops_def fault_free_def)
next
  case (6 s e h) then show ?case by (simp add: PG_ops_def pg_GetByHash_missing fault_free_def)
next
  case (7 s e i m) then show ?case
    using pg_scan_describes
    by (auto simp: PG_ops_def pg_Get_law pg_view_def split: option.splits dest: lookup_SomeD)
next
  case (8 s e i k) then show ?case by (auto simp: PG_ops_def pg_Get_law pg_view_def fault_free_def)
next
  case (9 s e i) then show ?case by (auto simp: PG_ops_def pg_Get_law pg_view_def fault_free_def)
next
  case (10 s e h) then show ?case using pg_GetByHash_keeps [of s e h] by (auto simp: PG_ops_def)
qed (simp_all add: PG_ops_def pg_GetByHash_keeps)

interpretation pg: metadata_store PG_ops pg_view pg_inv pg_expiry env_dbnow
proof (unfold_locales, goal_cases)
  case (1 s e u i h n d g sub x eph) then show ?case
    using pg_AddKey_law by (metis PG_ops_def MetadataStore.select_convs(1) prod.collapse)
next
  case (2 s e u i h n d g sub x eph s' r) then show ?case
    using pg_AddKey_law [of s e u i h n d g sub x eph s' r] by (simp add: PG_ops_def)
next
  case (3 s e i n h sub x u d g eph) then show ?case by (simp add: PG_ops_def pg_AddKey_ok)
next
  case (4 s e i) then show ?case
    using pg_Revoke_law by (metis PG_ops_def MetadataStore.select_convs(6) prod.collapse)
next
  case (5 s e i s' r) then show ?case
    using pg_Revoke_law [of s e i s' r] by (auto simp: PG_ops_def)
next
  case (6 s e i k) then show ?case
    using pg_Revoke_law [of s e i "fst (PG_Revoke e i s)" "snd (PG_Revoke e i s)"] by (auto simp: PG_ops_def)
next
  case (7 s e i) then show ?case
    using pg_Revoke_law [of s e i "fst (PG_Revoke e i s)" "snd (PG_Revoke e i s)"] by (auto simp: PG_ops_def)
next
  case (8 s e u) then show ?case
    using pg_InvalidateAll_law by (metis PG_ops_def MetadataStore.select_convs(5) prod.collapse)
next
  case (9 s e u s' q) then show ?case
    using pg_InvalidateAll_law [of s e u s' q] by (simp add: PG_ops_def)
next
  case (10 s e u) then show ?case
    using pg_InvalidateAll_law [of s e u "fst (PG_InvalidateAll e u s)" "snd (PG_InvalidateAll e u s)"]
    by (simp add: PG_ops_def)
next
  case (13 s e) then show ?case
    using pg_Delete_law by (metis PG_ops_def MetadataStore.select_convs(8) prod.collapse)
next
  case (14 s e s' q) then show ?case using pg_Delete_law [of s e s' q] by (simp add: PG_ops_def)
next
  case (15 s e) then show ?case
    using pg_Delete_law [of s e "fst (PG_DeleteExpiredEphemeral e s)" "snd (PG_DeleteExpiredEphemeral e s)"]
    by (simp add: PG_ops_def)
qed (simp_all add: PG_ops_def pg_UpdateLastUsed_law pg_Search_sound)

section \<open>Search: order and pages\<close>

text \<open>What PostgreSQL documents of the ORDER BY clauses the code builds: comparison of the column,
  descending or ascending, rows with a NULL timestamp after all others; a clause without a column
  name is a syntax error.\<close>

definition nullsLast :: "(gotime \<Rightarrow> gotime \<Rightarrow> bool) \<Rightarrow> gotime option \<Rightarrow> gotime option \<Rightarrow> bool" where
  "nullsLast lt a b =
     (case (a, b) of (Some x, Some y) \<Rightarrow> lt x y | (Some _, None) \<Rightarrow> True | (None, _) \<Rightarrow> False)"

definition orderBy_documented :: "(string \<Rightarrow> (api_keys_row \<Rightarrow> api_keys_row \<Rightarrow> bool) option) \<Rightarrow> bool" where
  "orderBy_documented f \<longleftrightarrow>
     f ''ORDER BY created_at ASC'' = Some (\<lambda>a b. row_created_at a < row_created_at b) \<and>
     f ''ORDER BY created_at DESC'' = Some (\<lambda>a b. row_created_at a > row_created_at b) \<and>
     f ''ORDER BY expires_at ASC NULLS LAST'' = Some (\<lambda>a b. nullsLast (<) (row_expires_at a) (row_expires_at b)) \<and>
     f ''ORDER BY expires_at DESC NULLS LAST'' = Some (\<lambda>a b. nullsLast (>) (row_expires_at a) (row_expires_at b)) \<and>
     f ''ORDER BY last_used_at ASC NULLS LAST'' = Some (\<lambda>a b. nullsLast (<) (row_last_used_at a) (row_last_used_at b)) \<and>
     f ''ORDER BY last_used_at DESC NULLS LAST'' = Some (\<lambda>a b. nullsLast (>) (row_last_used_at a) (row_last_used_at b)) \<and>
     (\<forall>c. f (''ORDER BY  '' @ c) = None)"

text \<open>One server that behaves so, with bytewise order on names.\<close>

definition std_orderBy :: "string \<Rightarrow> (api_keys_row \<Rightarrow> api_keys_row \<Rightarrow> bool) option" where
  "std_orderBy c =
     (if c = ''ORDER BY created_at ASC'' \<or> c = ''ORDER BY created_at '' then Some (\<lambda>a b. row_created_at a < row_created_at b)
      else if c = ''ORDER BY created_at DESC'' then Some (\<lambda>a b. row_created_at a > row_created_at b)
      else if c = ''ORDER BY expires_at ASC NULLS LAST'' then Some (\<lambda>a b. nullsLast (<) (row_expires_at a) (row_expires_at b))
      else if c = ''ORDER BY expires_at DESC NULLS LAST'' then Some (\<lambda>a b. nullsLast (>) (row_expires_at a) (row_expires_at b))
      else if c = ''ORDER BY last_used_at ASC NULLS LAST'' then Some (\<lambda>a b. nullsLast (<) (row_last_used_at a) (row_last_used_at b))
      else if c = ''ORDER BY last_used_at DESC NULLS LAST'' then Some (\<lambda>a b. nullsLast (>) (row_last_used_at a) (row_last_used_at b))
      else if c = ''ORDER BY name ASC'' \<or> c = ''ORDER BY name '' then Some (\<lambda>a b. row_name a < row_name b)
      else if c = ''ORDER BY name DESC'' then Some (\<lambda>a b. row_name a > row_name b)
      else None)"

lemma std_orderBy_documented: "orderBy_documented std_orderBy"
  by (simp add: orderBy_documented_def std_orderBy_def)

interpretation by_expiry_desc: weak_order "\<lambda>a b. nullsLast (>) (row_expires_at a) (row_expires_at b)"
  by unfold_locales (auto simp: nullsLast_def split: option.splits)

text \<open>Pages of a search. A successful \<open>Search\<close> of the PostgreSQL store returns, of all rows that
  match the filters, sorted by the requested order, exactly those from the offset on, up to the
  limit, and \<open>HasMore\<close> says whether matching rows remain behind the page; so consecutive pages
  neither repeat nor skip a key.\<close>

theorem search_page:
  assumes "PG_Search e u f so p s = Inr pr" "pg_orderBy s (orderByClause so) = Some lt"
  shows "pr_keys pr = map (PG_Search_scan (env_dbnow e))
      (take (nat (pp_limit p)) (drop (nat (pp_offset p))
        (stable_sort lt (filter (PG_Search_match (env_dbnow e) u f) (pg_rows s))))) \<and>
    (pr_hasMore pr \<longleftrightarrow> pp_offset p + pp_limit p <
      int (length (filter (PG_Search_match (env_dbnow e) u f) (pg_rows s))))"
proof -
  let ?sorted = "stable_sort lt (filter (PG_Search_match (env_dbnow e) u f) (pg_rows s))"
  let ?page = "take (nat (pp_limit p + 1)) (drop (nat (pp_offset p)) ?sorted)"
  from assms have pr: "pr = trimPage (pp_limit p) (map (PG_Search_scan (env_dbnow e)) ?page)"
    and lim: "1 \<le> pp_limit p" "0 \<le> pp_offset p"
    by (auto simp: PG_Search_def sqlSelect_def split: if_splits option.splits)
  have more: "int (length ?page) > pp_limit p \<longleftrightarrow> pp_offset p + pp_limit p < int (length ?sorted)"
    using lim by auto
  have le: "nat (pp_limit p) \<le> nat (pp_limit p + 1)" by simp
  have "take (nat (pp_limit p)) ?page = take (nat (pp_limit p)) (drop (nat (pp_offset p)) ?sorted)"
    using le by (simp add: min_def)
  moreover have "?page = take (nat (pp_limit p)) (drop (nat (pp_offset p)) ?sorted)"
    if "\<not> int (length ?page) > pp_limit p"
    using that lim by (subst (1 2) take_all) auto
  ultimately show ?thesis
    using more unfolding pr trimPage_def Let_def by (auto simp: take_map)
qed

definition exSearchRow :: "string \<Rightarrow> gotime option \<Rightarrow> api_keys_row" where
  "exSearchRow i x =
     \<lparr>row_id = i, row_username = ''alice'', row_name = i, row_description = None, row_key_hash = i,
      row_status = StatusActive, row_user_groups = [], row_created_at = 0, row_expires_at = x,
      row_last_used_at = None, row_ephemeral = False, row_subscription = ''gold''\<rparr>"

definition exSearchStore :: PostgresStore where
  "exSearchStore = \<lparr>pg_rows = [exSearchRow ''a'' None, exSearchRow ''b'' (Some 10), exSearchRow ''c'' (Some 20)],
     pg_timestamp = (\<lambda>t. t), pg_orderBy = std_orderBy\<rparr>"

definition noFilters :: SearchFilters where
  "noFilters =
     \<lparr>sf_username = [], sf_status = [], sf_createdAfter = None, sf_createdBefore = None,
      sf_expiresAfter = None, sf_expiresBefore = None, sf_lastUsedAfter = None, sf_nameContains = None,
      sf_descriptionContains = None, sf_hasExpiration = None, sf_hasBeenUsed = None,
      sf_includeEphemeral = None\<rparr>"

theorem search_page_witness:
  "\<exists>pr. PG_Search \<lparr>env_now = 0, env_dbnow = 0, env_queryErr = None, env_updateErr = None, env_rowsErr = None\<rparr>
        ''alice'' noFilters \<lparr>sp_by = ''expires_at'', sp_order = ''desc''\<rparr> \<lparr>pp_limit = 2, pp_offset = 0\<rparr> exSearchStore = Inr pr \<and>
     map ak_id (pr_keys pr) = [''c'', ''b''] \<and> (pr_hasMore pr \<longleftrightarrow> (0::int) + 2 < 3)"
proof -
  let ?e = "\<lparr>env_now = 0, env_dbnow = 0, env_queryErr = None, env_updateErr = None, env_rowsErr = None\<rparr>"
  let ?so = "\<lparr>sp_by = ''expires_at'', sp_order = ''desc''\<rparr>"
  have "map_sum id (\<lambda>pr. map ak_id (pr_keys pr))
      (PG_Search ?e ''alice'' noFilters ?so \<lparr>pp_limit = 2, pp_offset = 0\<rparr> exSearchStore) = Inr [''c'', ''b'']"
    by code_simp
  then obtain pr where pr: "PG_Search ?e ''alice'' noFilters ?so \<lparr>pp_limit = 2, pp_offset = 0\<rparr> exSearchStore = Inr pr"
    "map ak_id (pr_keys pr) = [''c'', ''b'']" by (rule map_sum_InrE)
  have lt: "pg_orderBy exSearchStore (orderByClause ?so) =
      Some (\<lambda>a b. nullsLast (>) (row_expires_at a) (row_expires_at b))"
    by (simp add: exSearchStore_def orderByClause_def std_orderBy_def)
  have "length (filter (PG_Search_match (env_dbnow ?e) ''alice'' noFilters) (pg_rows exSearchStore)) = 3"
    by code_simp
  with search_page [OF pr(1) lt] pr show ?thesis by simp
qed

end
