(* ===== verification/Config.thy ===== *)
theory Config
  imports Go_Prelude
begin

text \<open>
  \<open>maas-api/internal/config/config.go\<close> and \<open>tls.go\<close>: loading the server configuration from the
  environment, and its validation after the command-line flags were parsed. The functions of
  \<open>k8s.io/utils/env\<close> (typed access to environment variables with a default) and
  \<open>validation.IsDNS1123Label\<close> are third-party: the record \<open>env_api\<close> and an argument. A method that
  updates its receiver returns the updated record.
\<close>

section \<open>TLS\<close>

definition VersionTLS12 :: int where "VersionTLS12 = 0x0303"
definition VersionTLS13 :: int where "VersionTLS13 = 0x0304"
definition tlsVersion12 :: string where "tlsVersion12 = ''1.2''"
definition tlsVersion13 :: string where "tlsVersion13 = ''1.3''"

definition TLSVersion_String :: "int \<Rightarrow> string" where
  "TLSVersion_String v =
     (if v = VersionTLS12 then tlsVersion12 else if v = VersionTLS13 then tlsVersion13 else tlsVersion12)"

definition TLSVersion_Set :: "int \<Rightarrow> string \<Rightarrow> string + int" where
  "TLSVersion_Set v s =
     (if s = tlsVersion12 then Inr VersionTLS12
      else if s = tlsVersion13 then Inr VersionTLS13
      else Inl (''unsupported TLS version '' @ s))"

record TLSConfig =
  tls_cert :: string
  tls_key :: string
  tls_selfSigned :: bool
  tls_minVersion :: int

definition HasCerts :: "TLSConfig \<Rightarrow> bool" where
  "HasCerts t = (tls_cert t \<noteq> [] \<and> tls_key t \<noteq> [])"

definition TLS_Enabled :: "TLSConfig \<Rightarrow> bool" where
  "TLS_Enabled t = (HasCerts t \<or> tls_selfSigned t)"

record env_api =
  envString :: "string \<Rightarrow> string \<Rightarrow> string"
  envBool :: "string \<Rightarrow> bool \<Rightarrow> bool"
  envInt :: "string \<Rightarrow> int \<Rightarrow> int"

definition loadTLSConfig :: "env_api \<Rightarrow> TLSConfig" where
  "loadTLSConfig env =
     \<lparr>tls_cert = envString env ''TLS_CERT'' [], tls_key = envString env ''TLS_KEY'' [],
      tls_selfSigned = envBool env ''TLS_SELF_SIGNED'' False, tls_minVersion = VersionTLS12\<rparr>"

definition TLS_validate :: "env_api \<Rightarrow> TLSConfig \<Rightarrow> TLSConfig \<times> string option" where
  "TLS_validate env t =
     (if (tls_cert t \<noteq> [] \<and> tls_key t = []) \<or> (tls_cert t = [] \<and> tls_key t \<noteq> [])
      then (t, Some ''--tls-cert and --tls-key must both be provided together'')
      else
        let t1 = (if HasCerts t then t\<lparr>tls_selfSigned := False\<rparr> else t);
            envVal = envString env ''TLS_MIN_VERSION'' []
        in if envVal \<noteq> [] then
             (case TLSVersion_Set (tls_minVersion t1) envVal of
                Inl err \<Rightarrow> (t1, Some err)
              | Inr v \<Rightarrow> (t1\<lparr>tls_minVersion := v\<rparr>, None))
           else (t1, None))"

section \<open>Configuration\<close>

definition DefaultNamespace :: string where "DefaultNamespace = ''maas-api''"
definition DefaultGatewayName :: string where "DefaultGatewayName = ''maas-default-gateway''"
definition DefaultGatewayNamespace :: string where "DefaultGatewayNamespace = ''openshift-ingress''"
definition DefaultMaaSSubscriptionNamespace :: string where
  "DefaultMaaSSubscriptionNamespace = ''models-as-a-service''"
definition DefaultAPIKeyMaxExpirationDays :: int where "DefaultAPIKeyMaxExpirationDays = 90"
definition DefaultSecureAddr :: string where "DefaultSecureAddr = '':8443''"
definition DefaultInsecureAddr :: string where "DefaultInsecureAddr = '':8080''"

record Config =
  cfg_name :: string
  cfg_namespace :: string
  cfg_gatewayName :: string
  cfg_gatewayNamespace :: string
  cfg_maasSubscriptionNamespace :: string
  cfg_address :: string
  cfg_secure :: bool
  cfg_tls :: TLSConfig
  cfg_debugMode :: bool
  cfg_dbConnectionURL :: string
  cfg_apiKeyMaxExpirationDays :: int
  cfg_accessCheckTimeoutSeconds :: int
  cfg_deprecatedHTTPPort :: string

definition Load :: "env_api \<Rightarrow> Config" where
  "Load env =
     (let gatewayName = envString env ''GATEWAY_NAME'' DefaultGatewayName
      in \<lparr>cfg_name = envString env ''INSTANCE_NAME'' gatewayName,
          cfg_namespace = envString env ''NAMESPACE'' DefaultNamespace,
          cfg_gatewayName = gatewayName,
          cfg_gatewayNamespace = envString env ''GATEWAY_NAMESPACE'' DefaultGatewayNamespace,
          cfg_maasSubscriptionNamespace =
            envString env ''MAAS_SUBSCRIPTION_NAMESPACE'' DefaultMaaSSubscriptionNamespace,
          cfg_address = envString env ''ADDRESS'' [],
          cfg_secure = envBool env ''SECURE'' False,
          cfg_tls = loadTLSConfig env,
          cfg_debugMode = envBool env ''DEBUG_MODE'' False,
          cfg_dbConnectionURL = [],
          cfg_apiKeyMaxExpirationDays = envInt env ''API_KEY_MAX_EXPIRATION_DAYS'' DefaultAPIKeyMaxExpirationDays,
          cfg_accessCheckTimeoutSeconds = envInt env ''ACCESS_CHECK_TIMEOUT_SECONDS'' 15,
          cfg_deprecatedHTTPPort = envString env ''PORT'' []\<rparr>)"

definition handleDeprecatedFlags :: "Config \<Rightarrow> Config" where
  "handleDeprecatedFlags c =
     (if cfg_deprecatedHTTPPort c \<noteq> [] then
        let c1 = c\<lparr>cfg_secure := False\<rparr>
        in if cfg_address c1 = [] then c1\<lparr>cfg_address := '':'' @ cfg_deprecatedHTTPPort c1\<rparr> else c1
      else c)"

text \<open>The checks after the TLS part of \<open>Validate\<close>; \<open>dnsErrs\<close> is \<open>validation.IsDNS1123Label\<close>.\<close>

definition Validate_rest :: "(string \<Rightarrow> string list) \<Rightarrow> Config \<Rightarrow> Config \<times> string option" where
  "Validate_rest dnsErrs c =
     (let c1 = (if TLS_Enabled (cfg_tls c) then c\<lparr>cfg_secure := True\<rparr> else c)
      in if cfg_secure c1 \<and> \<not> TLS_Enabled (cfg_tls c1)
         then (c1, Some ''--secure requires either --tls-cert/--tls-key or --tls-self-signed'')
         else
           let c2 = (if cfg_address c1 = []
                     then c1\<lparr>cfg_address := (if cfg_secure c1 then DefaultSecureAddr else DefaultInsecureAddr)\<rparr>
                     else c1)
           in if trimSpace (cfg_maasSubscriptionNamespace c2) = []
              then (c2, Some ''MAAS_SUBSCRIPTION_NAMESPACE must be non-empty'')
              else if length (dnsErrs (cfg_maasSubscriptionNamespace c2)) > 0
              then (c2, Some (''MAAS_SUBSCRIPTION_NAMESPACE is invalid: '' @ cfg_maasSubscriptionNamespace c2))
              else if cfg_apiKeyMaxExpirationDays c2 < 1
              then (c2, Some ''API_KEY_MAX_EXPIRATION_DAYS must be at least 1'')
              else if cfg_accessCheckTimeoutSeconds c2 < 1
              then (c2, Some ''ACCESS_CHECK_TIMEOUT_SECONDS must be at least 1'')
              else (c2, None))"

definition Validate :: "env_api \<Rightarrow> (string \<Rightarrow> string list) \<Rightarrow> Config \<Rightarrow> Config \<times> string option" where
  "Validate env dnsErrs c =
     (let c1 = handleDeprecatedFlags c
      in if cfg_dbConnectionURL c1 = []
         then (c1, Some ''db connection URL is required (loaded from K8s secret 'maas-db-config')'')
         else
           (case TLS_validate env (cfg_tls c1) of
              (t, Some err) \<Rightarrow> (c1\<lparr>cfg_tls := t\<rparr>, Some err)
            | (t, None) \<Rightarrow> Validate_rest dnsErrs (c1\<lparr>cfg_tls := t\<rparr>)))"

text \<open>\<open>LoadDatabaseURL\<close>: the argument is the outcome of reading the secret, its data on success.\<close>

definition LoadDatabaseURL :: "string + (string \<times> string) list \<Rightarrow> Config \<Rightarrow> Config \<times> string option" where
  "LoadDatabaseURL secret c =
     (case secret of
        Inl err \<Rightarrow> (c, Some (''failed to read secret '' @ cfg_namespace c @ ''/maas-db-config: '' @ err))
      | Inr data \<Rightarrow>
          (case map_of data ''DB_CONNECTION_URL'' of
             None \<Rightarrow> (c, Some (''key not found or empty in secret '' @ cfg_namespace c @ ''/maas-db-config''))
           | Some dbURL \<Rightarrow>
               if length dbURL = 0
               then (c, Some (''key not found or empty in secret '' @ cfg_namespace c @ ''/maas-db-config''))
               else (c\<lparr>cfg_dbConnectionURL := dbURL\<rparr>, None)))"

section \<open>Properties\<close>

lemma TLS_validate_None:
  assumes "TLS_validate env t = (t', None)"
  shows "(tls_cert t' = [] \<longleftrightarrow> tls_key t' = []) \<and> tls_cert t' = tls_cert t \<and> tls_key t' = tls_key t \<and>
    \<not> (HasCerts t' \<and> tls_selfSigned t') \<and> (tls_minVersion t' \<in> {tls_minVersion t, VersionTLS12, VersionTLS13}) \<and>
    TLS_Enabled t' = TLS_Enabled t"
  using assms
  by (auto simp: TLS_validate_def Let_def HasCerts_def TLS_Enabled_def TLSVersion_Set_def
      split: if_splits sum.splits)

text \<open>What a valid configuration satisfies.\<close>

definition config_valid :: "Config \<Rightarrow> bool" where
  "config_valid c \<longleftrightarrow>
     cfg_dbConnectionURL c \<noteq> [] \<and> (cfg_secure c \<longleftrightarrow> TLS_Enabled (cfg_tls c)) \<and>
     (tls_cert (cfg_tls c) = [] \<longleftrightarrow> tls_key (cfg_tls c) = []) \<and> cfg_address c \<noteq> [] \<and>
     trimSpace (cfg_maasSubscriptionNamespace c) \<noteq> [] \<and> cfg_apiKeyMaxExpirationDays c \<ge> 1 \<and>
     cfg_accessCheckTimeoutSeconds c \<ge> 1"

lemma TLS_validate_idem: "TLS_validate env t = (t', None) \<Longrightarrow> TLS_validate env t' = (t', None)"
  by (auto simp: TLS_validate_def Let_def HasCerts_def TLSVersion_Set_def split: if_splits sum.splits)

lemma handleDeprecatedFlags_fields [simp]:
  "cfg_tls (handleDeprecatedFlags c) = cfg_tls c"
  "cfg_dbConnectionURL (handleDeprecatedFlags c) = cfg_dbConnectionURL c"
  "cfg_deprecatedHTTPPort (handleDeprecatedFlags c) = cfg_deprecatedHTTPPort c"
  by (simp_all add: handleDeprecatedFlags_def Let_def)

lemma handleDeprecatedFlags_secure:
  "cfg_deprecatedHTTPPort c \<noteq> [] \<Longrightarrow> \<not> cfg_secure (handleDeprecatedFlags c)"
  by (simp add: handleDeprecatedFlags_def Let_def)

lemma Validate_rest_None:
  assumes "Validate_rest dnsErrs c = (c', None)"
  shows "(cfg_secure c' \<longleftrightarrow> TLS_Enabled (cfg_tls c')) \<and> cfg_address c' \<noteq> [] \<and>
    trimSpace (cfg_maasSubscriptionNamespace c') \<noteq> [] \<and> cfg_apiKeyMaxExpirationDays c' \<ge> 1 \<and>
    cfg_accessCheckTimeoutSeconds c' \<ge> 1 \<and> cfg_tls c' = cfg_tls c \<and>
    cfg_dbConnectionURL c' = cfg_dbConnectionURL c \<and> cfg_deprecatedHTTPPort c' = cfg_deprecatedHTTPPort c \<and>
    dnsErrs (cfg_maasSubscriptionNamespace c') = []"
  using assms
  by (auto simp: Validate_rest_def Let_def DefaultSecureAddr_def DefaultInsecureAddr_def split: if_splits)

lemma Validate_rest_fixpoint:
  assumes "cfg_secure c \<longrightarrow> TLS_Enabled (cfg_tls c)" "cfg_address c \<noteq> []"
    "trimSpace (cfg_maasSubscriptionNamespace c) \<noteq> []" "cfg_apiKeyMaxExpirationDays c \<ge> 1"
    "cfg_accessCheckTimeoutSeconds c \<ge> 1" "dnsErrs (cfg_maasSubscriptionNamespace c) = []"
  shows "Validate_rest dnsErrs c = (c\<lparr>cfg_secure := TLS_Enabled (cfg_tls c)\<rparr>, None)"
  using assms by (cases c) (auto simp: Validate_rest_def Let_def)

lemma Validate_steps:
  assumes "Validate env dnsErrs c = (c', None)"
  obtains t where "TLS_validate env (cfg_tls c) = (t, None)" "Validate_rest dnsErrs ((handleDeprecatedFlags c)\<lparr>cfg_tls := t\<rparr>) = (c', None)"
    "cfg_dbConnectionURL c \<noteq> []"
  using assms by (auto simp: Validate_def Let_def split: if_splits prod.splits option.splits)

lemma Validate_config: "Validate env dnsErrs c = (c', None) \<Longrightarrow> config_valid c'"
  by (erule Validate_steps, drule Validate_rest_None, drule TLS_validate_None) (auto simp: config_valid_def)

text \<open>The maximal lifetime is checked from below only: any other value from one on passes as well.\<close>

lemma handleDeprecatedFlags_maxDays:
  "handleDeprecatedFlags (c\<lparr>cfg_apiKeyMaxExpirationDays := n\<rparr>) =
     (handleDeprecatedFlags c)\<lparr>cfg_apiKeyMaxExpirationDays := n\<rparr>"
  by (cases c) (simp add: handleDeprecatedFlags_def Let_def)

lemma Validate_rest_maxDays:
  assumes "Validate_rest dnsErrs c = (c', None)" "1 \<le> n"
  shows "Validate_rest dnsErrs (c\<lparr>cfg_apiKeyMaxExpirationDays := n\<rparr>) = (c'\<lparr>cfg_apiKeyMaxExpirationDays := n\<rparr>, None)"
  using assms by (cases c) (auto simp: Validate_rest_def Let_def split: if_splits)

lemma Validate_maxDays:
  assumes "Validate env dnsErrs c = (c', None)" "1 \<le> n"
  shows "Validate env dnsErrs (c\<lparr>cfg_apiKeyMaxExpirationDays := n\<rparr>) = (c'\<lparr>cfg_apiKeyMaxExpirationDays := n\<rparr>, None)"
proof -
  let ?h = "handleDeprecatedFlags c"
  from Validate_steps [OF assms(1)] obtain t where t: "TLS_validate env (cfg_tls c) = (t, None)"
    and rest: "Validate_rest dnsErrs (?h\<lparr>cfg_tls := t\<rparr>) = (c', None)" and db: "cfg_dbConnectionURL c \<noteq> []" .
  have "?h\<lparr>cfg_tls := t, cfg_apiKeyMaxExpirationDays := n\<rparr> = ?h\<lparr>cfg_apiKeyMaxExpirationDays := n, cfg_tls := t\<rparr>"
    by simp
  with t db Validate_rest_maxDays [OF rest assms(2), unfolded this] show ?thesis
    by (simp add: Validate_def handleDeprecatedFlags_maxDays)
qed

text \<open>C34: a configuration that passes \<open>Validate\<close> serves HTTPS exactly when TLS is configured, has
  certificate and key together or not at all, a listen address, a database URL, a subscription
  namespace, and limits of at least one; validating it again changes nothing.\<close>

theorem Validate_sound:
  assumes "Validate env dnsErrs c = (c', None)"
  shows "config_valid c' \<and> Validate env dnsErrs c' = (c', None)"
proof -
  let ?h = "handleDeprecatedFlags c"
  from Validate_steps [OF assms] obtain t where t: "TLS_validate env (cfg_tls c) = (t, None)"
    and rest: "Validate_rest dnsErrs (?h\<lparr>cfg_tls := t\<rparr>) = (c', None)" .
  note r = Validate_rest_None [OF rest] and valid = Validate_config [OF assms]
  have port: "handleDeprecatedFlags c' = c'\<lparr>cfg_secure := (cfg_deprecatedHTTPPort c' = [] \<and> cfg_secure c')\<rparr>"
    using r by (cases c') (auto simp: handleDeprecatedFlags_def Let_def)
  have t': "cfg_tls c' = t" "TLS_validate env t = (t, None)" using r TLS_validate_idem [OF t] by simp_all
  have "Validate env dnsErrs c' =
      Validate_rest dnsErrs (c'\<lparr>cfg_secure := (cfg_deprecatedHTTPPort c' = [] \<and> cfg_secure c'), cfg_tls := t\<rparr>)"
    using valid t' unfolding Validate_def port Let_def by (simp add: config_valid_def)
  also have "\<dots> = (c', None)"
    using r t' by (subst Validate_rest_fixpoint) (auto intro: Config.equality)
  finally show ?thesis using valid by simp
qed

theorem Validate_sound_witness:
  "\<exists>c'. Validate \<lparr>envString = (\<lambda>k d. d), envBool = (\<lambda>k d. d), envInt = (\<lambda>k d. d)\<rparr> (\<lambda>s. [])
      ((Load \<lparr>envString = (\<lambda>k d. d), envBool = (\<lambda>k d. d), envInt = (\<lambda>k d. d)\<rparr>)\<lparr>cfg_dbConnectionURL := ''postgresql://db''\<rparr>)
      = (c', None) \<and> config_valid c' \<and> cfg_address c' = '':8080''"
proof -
  let ?env = "\<lparr>envString = (\<lambda>k d. d), envBool = (\<lambda>k d. d), envInt = (\<lambda>k d. d)\<rparr>"
  let ?c = "(Load ?env)\<lparr>cfg_dbConnectionURL := ''postgresql://db''\<rparr>"
  have "snd (Validate ?env (\<lambda>s. []) ?c) = None" "cfg_address (fst (Validate ?env (\<lambda>s. []) ?c)) = '':8080''"
    by code_simp+
  then have v: "Validate ?env (\<lambda>s. []) ?c = (fst (Validate ?env (\<lambda>s. []) ?c), None)"
    and addr: "cfg_address (fst (Validate ?env (\<lambda>s. []) ?c)) = '':8080''"
    by (metis prod.collapse)+
  from Validate_sound [OF v] v addr show ?thesis by blast
qed

end
