(* ===== verification/Api_Key_Service.thy ===== *)
theory Api_Key_Service
  imports Api_Key_Gen Subscription_Selector Store_Mock Store_Postgres Config
begin

text \<open>
  \<open>maas-api/internal/api_keys/service.go\<close>: minting, validation, revocation, search and cleanup of API
  keys over any \<open>MetadataStore\<close> and any \<open>SubscriptionSelector\<close>. A service is a record of the store's
  operations, the configuration, the selector's two functions and \<open>uuid.Parse\<close> of the third-party uuid
  package; the store's state is threaded through. What a call takes from outside (clock readings,
  random bytes, the new UUID, the world of the store call) is a record. \<open>ValidateAPIKey\<close> starts
  \<open>UpdateLastUsed\<close> in a goroutine; the id it will be called with is part of its result, and the step
  relation \<open>service_step\<close> runs such pending updates at any later point, interleaved with all other
  operations. The client lemmas are proved once from the store contract, and hold for both stores.
\<close>

section \<open>Service\<close>

record SubscriptionSelector =
  ss_Select :: "string list \<Rightarrow> string \<Rightarrow> string \<Rightarrow> string \<Rightarrow> SelectError + SelectResponse"
  ss_SelectHighestPriority :: "string list \<Rightarrow> string \<Rightarrow> SelectError + SelectResponse"

definition selectorOf :: "Selector \<Rightarrow> SubscriptionSelector" where
  "selectorOf s = \<lparr>ss_Select = Select s, ss_SelectHighestPriority = SelectHighestPriority s\<rparr>"

record 's Service =
  svc_store :: "'s MetadataStore"
  svc_config :: "Config option"
  svc_subSelector :: SubscriptionSelector
  svc_uuidParse :: "string \<Rightarrow> bool"

record CreateAPIKeyResponse =
  car_key :: string
  car_keyPrefix :: string
  car_id :: string
  car_name :: string
  car_subscription :: string
  car_createdAt :: string
  car_expiresAt :: string
  car_ephemeral :: bool

text \<open>The errors of \<open>CreateAPIKey\<close>; the two that wrap \<open>ErrExpirationExceedsMax\<close> carry the values their
  messages print.\<close>

datatype CreateError =
    ErrExpirationNotPositive
  | EphemeralExceedsMax duration
  | RegularExceedsMax duration int
  | GenerateFailed string
  | SelectFailed SelectError
  | StoreFailed StoreError

record create_env =
  ce_now :: gotime
  ce_createdNow :: gotime
  ce_keyIDEntropy :: "8 word list option"
  ce_secretEntropy :: "8 word list option"
  ce_uuid :: string
  ce_store :: store_env

definition maxDaysOf :: "Config option \<Rightarrow> int" where
  "maxDaysOf cfg =
     (case cfg of
        None \<Rightarrow> DefaultAPIKeyMaxExpirationDays
      | Some c \<Rightarrow> if cfg_apiKeyMaxExpirationDays c > 0 then cfg_apiKeyMaxExpirationDays c
                  else DefaultAPIKeyMaxExpirationDays)"

text \<open>\<open>time.Duration(maxDays) * 24 * time.Hour\<close> in 64-bit arithmetic.\<close>

definition maxRegularDuration :: "int \<Rightarrow> duration" where
  "maxRegularDuration maxDays = int64 (int64 (maxDays * 24) * Hour)"

text \<open>The part of \<open>CreateAPIKey\<close> that fixes the lifetime.\<close>

definition resolveExpiry :: "int \<Rightarrow> duration option \<Rightarrow> bool \<Rightarrow> CreateError + duration" where
  "resolveExpiry maxDays expiresIn ephemeral =
     (let maxReg = maxRegularDuration maxDays;
          d = (case expiresIn of
                 Some d \<Rightarrow> d
               | None \<Rightarrow> if ephemeral then 1 * Hour else maxReg)
      in if d \<le> 0 then Inl ErrExpirationNotPositive
         else if ephemeral then (if d > 1 * Hour then Inl (EphemeralExceedsMax d) else Inr d)
         else if d > maxReg then Inl (RegularExceedsMax d maxDays)
         else Inr d)"

definition CreateAPIKey ::
  "'s Service \<Rightarrow> create_env \<Rightarrow> string \<Rightarrow> string list \<Rightarrow> string \<Rightarrow> string \<Rightarrow> duration option \<Rightarrow> bool \<Rightarrow> string \<Rightarrow>
   's \<Rightarrow> 's \<times> (CreateError + CreateAPIKeyResponse)" where
  "CreateAPIKey s e username userGroups name description expiresIn ephemeral requestedSubscription st =
     (case resolveExpiry (maxDaysOf (svc_config s)) expiresIn ephemeral of
        Inl err \<Rightarrow> (st, Inl err)
      | Inr d \<Rightarrow>
          let expiresAt = ce_now e + d
          in (case GenerateAPIKey (ce_keyIDEntropy e) (ce_secretEntropy e) of
                Inl err \<Rightarrow> (st, Inl (GenerateFailed err))
              | Inr g \<Rightarrow>
                  (case (if requestedSubscription \<noteq> []
                         then ss_Select (svc_subSelector s) userGroups username requestedSubscription []
                         else ss_SelectHighestPriority (svc_subSelector s) userGroups username) of
                     Inl selectErr \<Rightarrow> (st, Inl (SelectFailed selectErr))
                   | Inr subResp \<Rightarrow>
                       let subscriptionName = resp_name subResp; keyID = ce_uuid e
                       in (case st_AddKey (svc_store s) (ce_store e) username keyID (gk_hash g) name
                                  description userGroups subscriptionName (Some expiresAt) ephemeral st of
                             (st', Some err) \<Rightarrow> (st', Inl (StoreFailed err))
                           | (st', None) \<Rightarrow>
                               (st', Inr \<lparr>car_key = gk_plaintext g, car_keyPrefix = gk_prefix g, car_id = keyID,
                                          car_name = name, car_subscription = subscriptionName,
                                          car_createdAt = formatRFC3339 (ce_createdNow e),
                                          car_expiresAt = formatRFC3339 expiresAt,
                                          car_ephemeral = ephemeral\<rparr>)))))"

definition GetAPIKey :: "'s Service \<Rightarrow> store_env \<Rightarrow> string \<Rightarrow> 's \<Rightarrow> StoreError + ApiKey" where
  "GetAPIKey s e i st = st_Get (svc_store s) e i st"

definition invalidResult :: "string \<Rightarrow> ValidationResult" where
  "invalidResult reason =
     \<lparr>vr_valid = False, vr_userID = [], vr_username = [], vr_keyID = [], vr_groups = [],
      vr_subscription = [], vr_reason = reason\<rparr>"

text \<open>The result is the new store state, the key id of the background update started, if any, and the
  returned error or result.\<close>

definition ValidateAPIKey ::
  "'s Service \<Rightarrow> store_env \<Rightarrow> string \<Rightarrow> 's \<Rightarrow> 's \<times> string option \<times> (string + ValidationResult)" where
  "ValidateAPIKey s e key st =
     (if \<not> IsValidKeyFormat key then (st, None, Inr (invalidResult ''invalid key format''))
      else
        let hash = HashAPIKey key
        in if hash = [] then (st, None, Inr (invalidResult ''invalid key format''))
           else
             (case st_GetByHash (svc_store s) e hash st of
                (st', Inl err) \<Rightarrow>
                  (case err of
                     ErrKeyNotFound \<Rightarrow> (st', None, Inr (invalidResult ''key not found''))
                   | ErrInvalidKey \<Rightarrow> (st', None, Inr (invalidResult ''key revoked or expired''))
                   | _ \<Rightarrow> (st', None, Inl ''validation lookup failed''))
              | (st', Inr metadata) \<Rightarrow>
                  let pending = Some (ak_id metadata); groups = ak_groups metadata
                  in if trimSpace (ak_subscription metadata) = []
                     then (st', pending, Inr (invalidResult ''key has no subscription bound''))
                     else if \<not> svc_uuidParse s (ak_id metadata)
                     then (st', pending, Inl ''database integrity error: invalid key ID format'')
                     else (st', pending,
                           Inr \<lparr>vr_valid = True, vr_userID = ak_id metadata,
                                vr_username = ak_username metadata, vr_keyID = ak_id metadata,
                                vr_groups = groups, vr_subscription = ak_subscription metadata,
                                vr_reason = []\<rparr>)))"

definition RevokeAPIKey :: "'s Service \<Rightarrow> store_env \<Rightarrow> string \<Rightarrow> 's \<Rightarrow> 's \<times> StoreError option" where
  "RevokeAPIKey s e keyID st = st_Revoke (svc_store s) e keyID st"

definition Search ::
  "'s Service \<Rightarrow> store_env \<Rightarrow> string \<Rightarrow> SearchFilters \<Rightarrow> SortParams \<Rightarrow> PaginationParams \<Rightarrow> 's \<Rightarrow>
   StoreError + PaginatedResult" where
  "Search s e username filters sortParams pagination st =
     st_Search (svc_store s) e username filters sortParams pagination st"

definition BulkRevokeAPIKeys ::
  "'s Service \<Rightarrow> store_env \<Rightarrow> string \<Rightarrow> 's \<Rightarrow> 's \<times> (StoreError + int)" where
  "BulkRevokeAPIKeys s e username st =
     (if username = [] then (st, Inl (StoreErr ''username is required''))
      else st_InvalidateAll (svc_store s) e username st)"

definition CleanupExpiredEphemeral :: "'s Service \<Rightarrow> store_env \<Rightarrow> 's \<Rightarrow> 's \<times> (StoreError + int)" where
  "CleanupExpiredEphemeral s e st =
     (case st_DeleteExpiredEphemeral (svc_store s) e st of
        (st', Inl _) \<Rightarrow> (st', Inl (StoreErr ''cleanup failed''))
      | (st', Inr n) \<Rightarrow> (st', Inr n))"

section \<open>Interleavings\<close>

text \<open>One step of the running service on the store state and the multiset of pending background
  updates, kept as a list. \<open>used\<close> are the key ids handed out before, none of which a new UUID repeats.
  \<open>GetAPIKey\<close> and \<open>Search\<close> change nothing and have no rule.\<close>

inductive service_step ::
  "'s Service \<Rightarrow> (string \<Rightarrow> bool) \<Rightarrow> 's \<times> string list \<Rightarrow> 's \<times> string list \<Rightarrow> bool" for s used where
  step_create: "CreateAPIKey s e u g n d x eph rs st = (st', r) \<Longrightarrow> \<not> used (ce_uuid e) \<Longrightarrow>
    service_step s used (st, ps) (st', ps)"
| step_validate: "ValidateAPIKey s e' key st = (st', p, r') \<Longrightarrow>
    service_step s used (st, ps) (st', ps @ (case p of None \<Rightarrow> [] | Some i \<Rightarrow> [i]))"
| step_background: "i \<in> set ps \<Longrightarrow> st_UpdateLastUsed (svc_store s) e' i st = (st', r'') \<Longrightarrow>
    service_step s used (st, ps) (st', remove1 i ps)"
| step_revoke: "RevokeAPIKey s e' i st = (st', r'') \<Longrightarrow> service_step s used (st, ps) (st', ps)"
| step_bulkRevoke: "BulkRevokeAPIKeys s e' u st = (st', q) \<Longrightarrow> service_step s used (st, ps) (st', ps)"
| step_cleanup: "CleanupExpiredEphemeral s e' st = (st', q) \<Longrightarrow> service_step s used (st, ps) (st', ps)"

inductive_cases service_stepE: "service_step s used c c'"

abbreviation service_run ::
  "'s Service \<Rightarrow> (string \<Rightarrow> bool) \<Rightarrow> 's \<times> string list \<Rightarrow> 's \<times> string list \<Rightarrow> bool" where
  "service_run s used \<equiv> (service_step s used)\<^sup>*\<^sup>*"

text \<open>The steps that spare the key \<open>i\<close> of user \<open>u\<close> with expiry \<open>t\<close>: the same six operations, on any
  arguments and with any database error, except that the key is not revoked, neither by its id nor in
  bulk by its owner, and that no validation happens after the expiry and no cleanup more than
  thirty minutes after it.\<close>

inductive sparing_step ::
  "'s Service \<Rightarrow> (string \<Rightarrow> bool) \<Rightarrow> string \<Rightarrow> string \<Rightarrow> gotime \<Rightarrow> 's \<times> string list \<Rightarrow> 's \<times> string list \<Rightarrow> bool"
  for s used i u t where
  spare_create: "CreateAPIKey s e v g n d x eph rs st = (st', r) \<Longrightarrow> \<not> used (ce_uuid e) \<Longrightarrow>
    sparing_step s used i u t (st, ps) (st', ps)"
| spare_validate: "ValidateAPIKey s e' key st = (st', p, r') \<Longrightarrow> env_now e' \<le> t \<Longrightarrow>
    sparing_step s used i u t (st, ps) (st', ps @ (case p of None \<Rightarrow> [] | Some j \<Rightarrow> [j]))"
| spare_background: "j \<in> set ps \<Longrightarrow> st_UpdateLastUsed (svc_store s) e' j st = (st', r'') \<Longrightarrow>
    sparing_step s used i u t (st, ps) (st', remove1 j ps)"
| spare_revoke: "RevokeAPIKey s e' j st = (st', r'') \<Longrightarrow> j \<noteq> i \<Longrightarrow> sparing_step s used i u t (st, ps) (st', ps)"
| spare_bulkRevoke: "BulkRevokeAPIKeys s e' v st = (st', q) \<Longrightarrow> v \<noteq> u \<Longrightarrow>
    sparing_step s used i u t (st, ps) (st', ps)"
| spare_cleanup: "CleanupExpiredEphemeral s e' st = (st', q) \<Longrightarrow> env_dbnow e' \<le> t + 30 * Minute \<Longrightarrow>
    sparing_step s used i u t (st, ps) (st', ps)"

section \<open>Lemmas of the service that need no store law\<close>

lemma CreateAPIKey_cases:
  assumes "CreateAPIKey s e u g n d x eph rs st = (st', r)"
  obtains (early) err where "st' = st" "r = Inl err"
  | (stored) dur gk sub sr where
      "resolveExpiry (maxDaysOf (svc_config s)) x eph = Inr dur"
      "GenerateAPIKey (ce_keyIDEntropy e) (ce_secretEntropy e) = Inr gk"
      "(if rs \<noteq> [] then ss_Select (svc_subSelector s) g u rs []
        else ss_SelectHighestPriority (svc_subSelector s) g u) = Inr sub"
      "st_AddKey (svc_store s) (ce_store e) u (ce_uuid e) (gk_hash gk) n d g (resp_name sub)
         (Some (ce_now e + dur)) eph st = (st', sr)"
      "r = (case sr of Some err \<Rightarrow> Inl (StoreFailed err)
            | None \<Rightarrow> Inr \<lparr>car_key = gk_plaintext gk, car_keyPrefix = gk_prefix gk, car_id = ce_uuid e,
                          car_name = n, car_subscription = resp_name sub,
                          car_createdAt = formatRFC3339 (ce_createdNow e),
                          car_expiresAt = formatRFC3339 (ce_now e + dur), car_ephemeral = eph\<rparr>)"
proof (cases "resolveExpiry (maxDaysOf (svc_config s)) x eph")
  case (Inl err)
  with assms show ?thesis by (intro early) (auto simp: CreateAPIKey_def)
next
  case dur: (Inr dur)
  show ?thesis
  proof (cases "GenerateAPIKey (ce_keyIDEntropy e) (ce_secretEntropy e)")
    case (Inl err)
    with assms dur show ?thesis by (intro early) (auto simp: CreateAPIKey_def)
  next
    case gk: (Inr gk)
    let ?sel = "if rs \<noteq> [] then ss_Select (svc_subSelector s) g u rs []
        else ss_SelectHighestPriority (svc_subSelector s) g u"
    show ?thesis
    proof (cases ?sel)
      case (Inl err)
      with assms dur gk show ?thesis
        by (intro early [of "SelectFailed err"]) (simp_all add: CreateAPIKey_def Let_def)
    next
      case sub: (Inr sub)
      let ?add = "st_AddKey (svc_store s) (ce_store e) u (ce_uuid e) (gk_hash gk) n d g
         (resp_name sub) (Some (ce_now e + dur)) eph st"
      from assms dur gk sub show ?thesis
        by (intro stored [OF dur gk sub, of "snd ?add"])
          (auto simp: CreateAPIKey_def Let_def split: prod.splits option.splits)
    qed
  qed
qed

lemma ValidateAPIKey_store:
  "fst (ValidateAPIKey s e key st) = st \<or>
   fst (ValidateAPIKey s e key st) = fst (st_GetByHash (svc_store s) e (HashAPIKey key) st)"
  by (auto simp: ValidateAPIKey_def Let_def split: prod.splits sum.splits StoreError.splits)

lemma ValidateAPIKey_valid:
  assumes "snd (snd (ValidateAPIKey s e key st)) = Inr v" "vr_valid v"
  obtains m where "snd (st_GetByHash (svc_store s) e (HashAPIKey key) st) = Inr m"
    "IsValidKeyFormat key" "trimSpace (ak_subscription m) \<noteq> []" "svc_uuidParse s (ak_id m)"
    "v = \<lparr>vr_valid = True, vr_userID = ak_id m, vr_username = ak_username m, vr_keyID = ak_id m,
          vr_groups = ak_groups m, vr_subscription = ak_subscription m, vr_reason = []\<rparr>"
  using assms
  by (auto simp: ValidateAPIKey_def Let_def invalidResult_def
      split: prod.splits sum.splits StoreError.splits if_splits)

lemma ValidateAPIKey_accepts:
  assumes "IsValidKeyFormat key" "snd (st_GetByHash (svc_store s) e (HashAPIKey key) st) = Inr m"
    and "trimSpace (ak_subscription m) \<noteq> []" "svc_uuidParse s (ak_id m)"
  shows "snd (snd (ValidateAPIKey s e key st)) =
    Inr \<lparr>vr_valid = True, vr_userID = ak_id m, vr_username = ak_username m, vr_keyID = ak_id m,
         vr_groups = ak_groups m, vr_subscription = ak_subscription m, vr_reason = []\<rparr>"
  using assms HashAPIKey_valid [OF assms(1)]
  by (auto simp: ValidateAPIKey_def Let_def split: prod.splits)

section \<open>The client side of the store contract\<close>

context metadata_store
begin

text \<open>Every operation keeps the invariant and, apart from creation under a fresh id, only lets keys
  evolve or disappear.\<close>

lemma create_keeps:
  assumes "inv st" "svc_store s = ops" "CreateAPIKey s e u g n d x eph rs st = (st', r)"
  shows "inv st' \<and> (view st' = view st \<or>
    (\<exists>k. view st' = (view st)(ce_uuid e \<mapsto> k) \<and> k_user k = u \<and> k_groups k = g))"
  using assms(3)
proof (cases rule: CreateAPIKey_cases)
  case (early err)
  with assms show ?thesis by simp
next
  case (stored dur gk sub sr)
  then have add: "st_AddKey ops (ce_store e) u (ce_uuid e) (gk_hash gk) n d g (resp_name sub)
      (Some (ce_now e + dur)) eph st = (st', sr)" using assms(2) by simp
  show ?thesis
    using AddKey_view [OF assms(1) add] inv_AddKey [OF assms(1)] add
    by (metis akey.select_convs(2,3) fst_conv newKey_def)
qed

lemma validate_keeps:
  assumes "inv st" "svc_store s = ops"
  shows "inv (fst (ValidateAPIKey s e key st)) \<and> view_evolves (view st) (view (fst (ValidateAPIKey s e key st)))"
  using ValidateAPIKey_store [of s e key st] assms inv_GetByHash GetByHash_view by auto

lemma revoke_evolves:
  assumes "inv st" "st_Revoke ops e i st = (st', r)"
  shows "view_evolves (view st) (view st')"
  using Revoke_view [OF assms] by (auto simp: view_evolves_def evolves_status split: if_splits)

lemma invalidateAll_evolves:
  assumes "inv st" "st_InvalidateAll ops e u st = (st', q)"
  shows "view_evolves (view st) (view st')"
  using InvalidateAll_view [OF assms] view_evolves_revokeAllOf by auto

lemma delete_evolves:
  assumes "inv st" "st_DeleteExpiredEphemeral ops e st = (st', q)"
  shows "view_evolves (view st) (view st')"
  using Delete_view [OF assms] by (auto simp: view_evolves_def split: option.splits if_splits)

lemma step_keeps:
  assumes "service_step s used (st, ps) (st', ps')" "inv st" "svc_store s = ops"
  shows "inv st' \<and> (view_evolves (view st) (view st') \<or>
    (\<exists>i k. \<not> used i \<and> view st' = (view st)(i \<mapsto> k)))"
  using assms(1)
proof cases
  case (step_create e u g n d x eph rs r)
  then show ?thesis using create_keeps [OF assms(2,3)] by fastforce
next
  case (step_validate e' key p r')
  then show ?thesis using validate_keeps [OF assms(2,3)] by (metis fst_conv)
next
  case (step_background i e' r'')
  then show ?thesis
    using inv_UpdateLastUsed [OF assms(2)] UpdateLastUsed_view [OF assms(2)] assms(3)
    by (metis fst_conv view_evolves_refl)
next
  case (step_revoke e' i r'')
  then show ?thesis
    using inv_Revoke [OF assms(2)] revoke_evolves [OF assms(2)] assms(3)
    by (metis RevokeAPIKey_def fst_conv)
next
  case (step_bulkRevoke e' u q)
  then show ?thesis
    using inv_InvalidateAll [OF assms(2)] invalidateAll_evolves [OF assms(2)] assms(2,3)
    by (metis BulkRevokeAPIKeys_def fst_conv view_evolves_refl)
next
  case (step_cleanup e' q)
  then have "fst (st_DeleteExpiredEphemeral ops e' st) = st'"
    using assms(3) by (auto simp: CleanupExpiredEphemeral_def split: prod.splits sum.splits)
  then show ?thesis
    using inv_Delete [OF assms(2)] delete_evolves [OF assms(2)] by (metis prod.collapse)
qed

text \<open>A key that is not active stays as it is or disappears, over every run.\<close>

lemma dead_stays:
  assumes "service_run s used c c'" "svc_store s = ops" "inv (fst c)"
    and "view (fst c) i = Some k" "k_status k \<noteq> StatusActive" "used i"
  shows "inv (fst c') \<and> (view (fst c') i = None \<or> view (fst c') i = Some k)"
  using assms(1)
proof (induction rule: rtranclp_induct)
  case base
  with assms show ?case by simp
next
  case (step c1 c2)
  obtain st ps st' ps' where c: "c1 = (st, ps)" "c2 = (st', ps')" by fastforce
  with step step_keeps [of s used st ps st' ps'] assms(2)
  have inv': "inv st'" and ev: "view_evolves (view st) (view st') \<or> (\<exists>j k'. \<not> used j \<and> view st' = (view st)(j \<mapsto> k'))"
    and i: "view st i = None \<or> view st i = Some k" by auto
  from ev have "view st' i = None \<or> view st' i = Some k"
  proof
    assume "view_evolves (view st) (view st')"
    with i assms(5) show ?thesis by (auto dest: view_evolves_None view_evolves_dead)
  next
    assume "\<exists>j k'. \<not> used j \<and> view st' = (view st)(j \<mapsto> k')"
    with i assms(6) show ?thesis by (auto split: if_splits)
  qed
  with inv' c show ?case by simp
qed

text \<open>A key is untouched by every step that spares it, and so by every run of such steps.\<close>

lemma spared_step:
  assumes "sparing_step s used i u t (st, ps) (st', ps')" "svc_store s = ops" "inv st" "used i"
    and "\<And>e. clock e = env_dbnow e"
    and k: "view st i = Some k" "k_user k = u" "k_expires k = Some t"
  shows "inv st' \<and> view st' i = Some k"
  using assms(1)
proof cases
  case (spare_create e v g n d x eph rs r)
  with create_keeps [OF assms(3,2) spare_create(2)] assms(4) k(1) show ?thesis by (metis fun_upd_other)
next
  case (spare_validate e' key p r')
  from spare_validate(2) have st': "st' = st \<or> st' = fst (st_GetByHash ops e' (HashAPIKey key) st)"
    using ValidateAPIKey_store [of s e' key st] assms(2) by simp
  have "\<not> expiredAt (env_now e') k" using spare_validate(3) k(3) by (simp add: expiredAt_def)
  then have "expireHash (env_now e') (HashAPIKey key) (view st) i = Some k" using k(1) by (simp add: expireHash_def)
  with st' assms(3) k(1) show ?thesis using inv_GetByHash GetByHash_effect by metis
next
  case (spare_background j e' r'')
  then show ?thesis using inv_UpdateLastUsed [OF assms(3)] UpdateLastUsed_view [OF assms(3)] assms(2) k(1)
    by (metis fst_conv)
next
  case (spare_revoke e' j r'')
  then have r: "st_Revoke ops e' j st = (st', r'')" using assms(2) by (simp add: RevokeAPIKey_def)
  from Revoke_view [OF assms(3) r] spare_revoke(3) k(1) have "view st' i = Some k" by auto
  then show ?thesis using inv_Revoke [OF assms(3)] r by (metis fst_conv)
next
  case (spare_bulkRevoke e' v q)
  consider "st' = st" | "st_InvalidateAll ops e' v st = (st', q)"
    using spare_bulkRevoke(2) assms(2) by (auto simp: BulkRevokeAPIKeys_def split: if_splits)
  then show ?thesis
  proof cases
    case 1
    with assms(3) k(1) show ?thesis by simp
  next
    case 2
    from InvalidateAll_view [OF assms(3) 2] spare_bulkRevoke(3) k(1,2) have "view st' i = Some k"
      by (auto simp: revokeAllOf_def)
    then show ?thesis using inv_InvalidateAll [OF assms(3)] 2 by (metis fst_conv)
  qed
next
  case (spare_cleanup e' q)
  then obtain q' where q': "st_DeleteExpiredEphemeral ops e' st = (st', q')"
    using assms(2) by (auto simp: CleanupExpiredEphemeral_def split: prod.splits sum.splits)
  have "\<not> cleanable (clock e') k" using spare_cleanup(3) assms(5) k(3) by (simp add: cleanable_def)
  with Delete_view [OF assms(3) q'] k(1) have "view st' i = Some k" by auto
  then show ?thesis using inv_Delete [OF assms(3)] q' by (metis fst_conv)
qed

lemma spared_run:
  assumes "(sparing_step s used i u t)\<^sup>*\<^sup>* c c'" "svc_store s = ops" "inv (fst c)" "used i"
    and "\<And>e. clock e = env_dbnow e"
    and "view (fst c) i = Some k" "k_user k = u" "k_expires k = Some t"
  shows "inv (fst c') \<and> view (fst c') i = Some k"
  using assms(1)
proof (induction rule: rtranclp_induct)
  case base
  with assms show ?case by simp
next
  case (step c1 c2)
  obtain st ps st' ps' where c: "c1 = (st, ps)" "c2 = (st', ps')" by fastforce
  with step spared_step [of s used i u t st ps st' ps' k] assms(2,4,5,7,8) show ?case by simp
qed

text \<open>Creation succeeds when every input is in order, and records the key.\<close>

lemma create_ok:
  assumes "inv st" "svc_store s = ops" "resolveExpiry (maxDaysOf (svc_config s)) x eph = Inr dur"
    and ent: "ce_keyIDEntropy e = Some kb" "ce_secretEntropy e = Some sb"
    and sel: "(if rs \<noteq> [] then ss_Select (svc_subSelector s) g u rs []
        else ss_SelectHighestPriority (svc_subSelector s) g u) = Inr sub"
    and "resp_name sub \<noteq> []" "n \<noteq> []" "ce_uuid e \<noteq> []" "fault_free (ce_store e)"
    and "view st (ce_uuid e) = None"
    and "\<forall>j k. view st j = Some k \<longrightarrow> k_hash k \<noteq> hashWithSalt (encodeBase62 kb) (encodeBase62 sb)"
  shows "\<exists>st' r. CreateAPIKey s e u g n d x eph rs st = (st', Inr r) \<and> inv st' \<and>
    car_id r = ce_uuid e \<and> car_subscription r = resp_name sub \<and>
    view st' = (view st)(ce_uuid e \<mapsto> newKey (hashWithSalt (encodeBase62 kb) (encodeBase62 sb)) u g
      (resp_name sub) (expiry st (Some (ce_now e + dur))) eph)"
proof -
  let ?h = "hashWithSalt (encodeBase62 kb) (encodeBase62 sb)"
  obtain gk where gk: "GenerateAPIKey (ce_keyIDEntropy e) (ce_secretEntropy e) = Inr gk" "gk_hash gk = ?h"
    unfolding ent GenerateAPIKey_Some by simp
  obtain st' sr where add: "st_AddKey ops (ce_store e) u (ce_uuid e) ?h n d g (resp_name sub)
      (Some (ce_now e + dur)) eph st = (st', sr)" by fastforce
  have "sr = None"
    using AddKey_ok [OF assms(1,10,9,8) hashWithSalt_nonempty assms(7) _ assms(11,12), of "Some (ce_now e + dur)" u d g eph]
      add by simp
  with add assms gk sel show ?thesis
    using AddKey_view [OF assms(1) add] inv_AddKey [OF assms(1)]
    by (auto simp: CreateAPIKey_def Let_def) (metis fst_conv)
qed

text \<open>What a positive validation means.\<close>

lemma valid_means:
  assumes "inv st" "svc_store s = ops" "snd (snd (ValidateAPIKey s e key st)) = Inr v" "vr_valid v"
  shows "\<exists>k. view st (vr_keyID v) = Some k \<and> k_hash k = HashAPIKey key \<and> liveAt (env_now e) k \<and>
    vr_username v = k_user k \<and> vr_groups v = k_groups k \<and> vr_subscription v = k_sub k \<and>
    trimSpace (k_sub k) \<noteq> [] \<and> IsValidKeyFormat key"
  using assms(3,4)
proof (rule ValidateAPIKey_valid)
  fix m
  assume m: "snd (st_GetByHash (svc_store s) e (HashAPIKey key) st) = Inr m" "IsValidKeyFormat key"
    "trimSpace (ak_subscription m) \<noteq> []"
    and v: "v = \<lparr>vr_valid = True, vr_userID = ak_id m, vr_username = ak_username m, vr_keyID = ak_id m,
          vr_groups = ak_groups m, vr_subscription = ak_subscription m, vr_reason = []\<rparr>"
  from GetByHash_sound [OF assms(1) m(1) [unfolded assms(2)]] obtain k where
    "view st (ak_id m) = Some k" "k_hash k = HashAPIKey key" "liveAt (env_now e) k"
    "describes m (ak_id m) k" "ak_groups m = k_groups k" by auto
  with m v show ?thesis by (auto simp: describes_def)
qed

text \<open>Validation accepts the key of every live record.\<close>

lemma live_validates:
  assumes "inv st" "svc_store s = ops" "fault_free e" "hash_unique (view st)"
    and "view st i = Some k" "liveAt (env_now e) k" "k_hash k = HashAPIKey key"
    and "IsValidKeyFormat key" "trimSpace (k_sub k) \<noteq> []" "svc_uuidParse s i"
  shows "snd (snd (ValidateAPIKey s e key st)) =
    Inr \<lparr>vr_valid = True, vr_userID = i, vr_username = k_user k, vr_keyID = i, vr_groups = k_groups k,
         vr_subscription = k_sub k, vr_reason = []\<rparr>"
proof -
  from GetByHash_complete [OF assms(1,3,4,5,6)] obtain m where
    m: "snd (st_GetByHash ops e (HashAPIKey key) st) = Inr m" "ak_id m = i"
    using assms(7) by auto
  from GetByHash_sound [OF assms(1) m(1)] m(2) assms(5) have
    "describes m i k" "ak_groups m = k_groups k" by auto
  with m assms show ?thesis
    using ValidateAPIKey_accepts [of key s e st m] by (simp add: describes_def)
qed

end

section \<open>The client side of the selector contract\<close>

text \<open>What the service relies on when it binds a subscription: the returned name is that of a
  subscription the user may use, and an explicit request yields the one asked for, in a usable phase.\<close>

locale subscription_source =
  fixes sel :: SubscriptionSelector
    and subs :: "subscription list"
  assumes Select_usable: "ss_Select sel g u rs [] = Inr r \<Longrightarrow> rs \<noteq> [] \<Longrightarrow>
      \<exists>sub \<in> set subs. resp_name r = sub_name sub \<and> userHasAccess sub u g \<and> names rs sub \<and>
        sub_phase sub \<noteq> [] \<and> sub_phase sub \<noteq> PhaseFailed"
    and Highest_usable: "ss_SelectHighestPriority sel g u = Inr r \<Longrightarrow>
      \<exists>sub \<in> set subs. resp_name r = sub_name sub \<and> userHasAccess sub u g"
begin

lemma created_key_subscription:
  assumes "svc_subSelector s = sel" "CreateAPIKey s e u g n d x eph rs st = (st', Inr r)"
  shows "\<exists>sub \<in> set subs. car_subscription r = sub_name sub \<and> userHasAccess sub u g \<and>
    (rs \<noteq> [] \<longrightarrow> names rs sub \<and> sub_phase sub \<noteq> [] \<and> sub_phase sub \<noteq> PhaseFailed)"
  using assms(2)
proof (cases rule: CreateAPIKey_cases)
  case (early err)
  then show ?thesis by simp
next
  case (stored dur gk sub sr)
  then have r: "car_subscription r = resp_name sub" by (auto split: option.splits)
  show ?thesis
  proof (cases "rs = []")
    case True
    with stored(3) assms(1) r show ?thesis using Highest_usable by auto
  next
    case False
    with stored(3) assms(1) r show ?thesis using Select_usable [of g u rs sub] by auto
  qed
qed

end

lemma SelectHighestPriority_Inr:
  assumes "SelectHighestPriority s g u = Inr r"
  shows "\<exists>sub \<in> set (loaded s). r = toResponse sub \<and> userHasAccess sub u g"
proof -
  from assms obtain subs where subs: "loadSubscriptions s = Inr subs"
    by (auto simp: SelectHighestPriority_def split: if_splits sum.splits)
  let ?acc = "filter (\<lambda>sub. userHasAccess sub u g) subs"
  from assms subs have acc: "?acc \<noteq> []" and r: "r = toResponse (sortSubscriptionsByPriority ?acc ! 0)"
    by (auto simp: SelectHighestPriority_def Let_def split: if_splits)
  from acc have "0 < length (sortSubscriptionsByPriority ?acc)"
    by (simp only: sortSubscriptionsByPriority_def length_stable_sort length_greater_0_conv not_False_eq_True)
  then have "sortSubscriptionsByPriority ?acc ! 0 \<in> set (sortSubscriptionsByPriority ?acc)"
    by (rule nth_mem)
  then have "sortSubscriptionsByPriority ?acc ! 0 \<in> set ?acc" by (simp only: set_sortSubscriptionsByPriority)
  with r subs show ?thesis by (auto simp: loaded_def)
qed

lemma resp_name_toResponse [simp]: "resp_name (toResponse sub) = sub_name sub"
  by (simp add: toResponse_def)

interpretation source: subscription_source "selectorOf s" "loaded s" for s
proof unfold_locales
  fix g u rs r
  assume "ss_Select (selectorOf s) g u rs [] = Inr r" "rs \<noteq> []"
  then show "\<exists>sub \<in> set (loaded s). resp_name r = sub_name sub \<and> userHasAccess sub u g \<and> names rs sub \<and>
        sub_phase sub \<noteq> [] \<and> sub_phase sub \<noteq> PhaseFailed"
    by (auto simp: selectorOf_def checkModelHealth_keyCreation elim!: Select_Inr)
next
  fix g u r
  assume "ss_SelectHighestPriority (selectorOf s) g u = Inr r"
  then show "\<exists>sub \<in> set (loaded s). resp_name r = sub_name sub \<and> userHasAccess sub u g"
    by (auto simp: selectorOf_def dest!: SelectHighestPriority_Inr)
qed

section \<open>Properties of the service\<close>

text \<open>The text of a generated key has the right format, and its hash is the one that is stored.\<close>

lemma generated_key:
  assumes "GenerateAPIKey kid secret = Inr gk"
  shows "IsValidKeyFormat (gk_plaintext gk)" "HashAPIKey (gk_plaintext gk) = gk_hash gk"
proof -
  from assms obtain kb sb where
    plain: "gk_plaintext gk = KeyPrefix @ encodeBase62 kb @ [KeyIDSeparator] @ encodeBase62 sb"
    and hash: "gk_hash gk = hashWithSalt (encodeBase62 kb) (encodeBase62 sb)"
    by (rule GenerateAPIKey_Inr)
  show "IsValidKeyFormat (gk_plaintext gk)" "HashAPIKey (gk_plaintext gk) = gk_hash gk"
    unfolding plain hash using encodeBase62_isBase62 ParseAPIKey_generated [of kb sb]
    by (simp_all add: IsValidKeyFormat_parse HashAPIKey_def del: append_Cons append_Nil append_assoc)
qed

text \<open>C1: minting and validating fit together on the PostgreSQL store. A key returned by a
  successful \<open>CreateAPIKey\<close> is accepted by \<open>ValidateAPIKey\<close> until its stored expiry, and the
  validation reports the owner, the groups and the subscription bound at creation. In between the
  service may run any sequence of creations under fresh ids, validations, background updates,
  revocations of other keys, bulk revocations of other users and cleanups, with any database errors,
  as long as the clocks of the validations have not passed the expiry and those of the cleanups not
  the expiry and half an hour. The validation itself needs a working database, an id that
  \<open>uuid.Parse\<close> accepts, and a subscription name that is not blank.\<close>

theorem create_then_validate:
  assumes "pg_inv st" "svc_store s = PG_ops"
    and create: "CreateAPIKey s e u g n d x eph rs st = (st', Inr r)"
    and exp: "resolveExpiry (maxDaysOf (svc_config s)) x eph = Inr dur"
      "t = pg_timestamp st (ce_now e + dur)"
    and run: "used (car_id r)" "(sparing_step s used (car_id r) u t)\<^sup>*\<^sup>* (st', ps) (st'', ps')"
    and "fault_free e'" "env_now e' \<le> t" "svc_uuidParse s (car_id r)" "trimSpace (car_subscription r) \<noteq> []"
  shows "snd (snd (ValidateAPIKey s e' (car_key r) st'')) =
    Inr \<lparr>vr_valid = True, vr_userID = car_id r, vr_username = u, vr_keyID = car_id r, vr_groups = g,
         vr_subscription = car_subscription r, vr_reason = []\<rparr>"
  using create
proof (cases rule: CreateAPIKey_cases)
  case (early err)
  then show ?thesis by simp
next
  case (stored dur' gk sub sr)
  let ?k = "newKey (gk_hash gk) u g (resp_name sub) (pg_expiry st (Some (ce_now e + dur))) eph"
  have sr: "sr = None" and dur: "dur' = dur" using stored(1,5) exp(1) by (auto split: option.splits)
  with stored have r: "car_key r = gk_plaintext gk" "car_id r = ce_uuid e" "car_subscription r = resp_name sub"
    by auto
  have add: "st_AddKey PG_ops (ce_store e) u (ce_uuid e) (gk_hash gk) n d g (resp_name sub)
      (Some (ce_now e + dur)) eph st = (st', None)" using stored(4) assms(2) sr dur by simp
  have view: "pg_view st' (car_id r) = Some ?k" using pg.AddKey_view [OF assms(1) add] r by simp
  have inv: "pg_inv st'" using pg.inv_AddKey [OF assms(1)] add by (metis fst_conv)
  have k: "k_user ?k = u" "k_expires ?k = Some t" using exp(2) by (simp_all add: newKey_def pg_expiry_def)
  have kept: "pg_inv st''" "pg_view st'' (car_id r) = Some ?k"
    using pg.spared_run [OF run(2) assms(2) _ run(1) refl _ k] inv view by simp_all
  have "liveAt (env_now e') ?k" using k(2) assms(9) by (simp add: liveAt_def expiredAt_def newKey_def)
  with pg.live_validates [OF kept(1) assms(2,8) pg_hash_unique [OF kept(1)] kept(2), of "gk_plaintext gk"]
  show ?thesis using generated_key [OF stored(2)] assms(10,11) r by (simp add: newKey_def)
qed

text \<open>A concrete service over an empty table.\<close>

definition exEnv :: "gotime \<Rightarrow> store_env" where
  "exEnv now = \<lparr>env_now = now, env_dbnow = now, env_queryErr = None, env_updateErr = None, env_rowsErr = None\<rparr>"

definition exPG :: PostgresStore where
  "exPG = \<lparr>pg_rows = [], pg_timestamp = (\<lambda>t. t), pg_orderBy = (\<lambda>_. None)\<rparr>"

definition exService :: "PostgresStore Service" where
  "exService = \<lparr>svc_store = PG_ops, svc_config = None, svc_subSelector = selectorOf exSelector,
     svc_uuidParse = (\<lambda>_. True)\<rparr>"

definition exCreate :: create_env where
  "exCreate = \<lparr>ce_now = 63900000000 * Second, ce_createdNow = 63900000000 * Second,
     ce_keyIDEntropy = Some (replicate 12 7), ce_secretEntropy = Some (replicate 32 9),
     ce_uuid = ''id-1'', ce_store = exEnv (63900000000 * Second)\<rparr>"

lemma exPG_facts: "pg_inv exPG" "pg_view exPG = (\<lambda>_. None)" "svc_store exService = PG_ops"
    "fault_free (exEnv now)"
  by (auto simp: exPG_def pg_inv_def rows_ok_def pg_view_def exService_def fault_free_def exEnv_def)

lemma exSelect_gold:
  obtains sub where "ss_SelectHighestPriority (svc_subSelector exService) [''team''] ''alice'' = Inr sub"
    "resp_name sub = ''gold''"
proof -
  have "map_sum id resp_name (SelectHighestPriority exSelector [''team''] ''alice'') = Inr ''gold''" by code_simp
  then show ?thesis using that by (auto simp: exService_def selectorOf_def elim: map_sum_InrE)
qed

lemma exExpiry: "resolveExpiry (maxDaysOf (svc_config exService)) (Some (2 * Hour)) False = Inr (2 * Hour)"
  by (simp add: exService_def) code_simp

lemma exCreate_ok:
  obtains st' r where
    "CreateAPIKey exService exCreate ''alice'' [''team''] ''ci'' [] (Some (2 * Hour)) False [] exPG = (st', Inr r)"
    "pg_inv st'" "car_id r = ''id-1''" "car_subscription r = ''gold''"
proof -
  obtain sub where sub: "ss_SelectHighestPriority (svc_subSelector exService) [''team''] ''alice'' = Inr sub"
    "resp_name sub = ''gold''" by (rule exSelect_gold)
  have "\<exists>st' r. CreateAPIKey exService exCreate ''alice'' [''team''] ''ci'' [] (Some (2 * Hour)) False [] exPG = (st', Inr r) \<and>
    pg_inv st' \<and> car_id r = ce_uuid exCreate \<and> car_subscription r = resp_name sub \<and>
    pg_view st' = (pg_view exPG)(ce_uuid exCreate \<mapsto> newKey (hashWithSalt (encodeBase62 (replicate 12 7))
      (encodeBase62 (replicate 32 9))) ''alice'' [''team''] (resp_name sub)
      (pg_expiry exPG (Some (ce_now exCreate + 2 * Hour))) False)"
    by (rule pg.create_ok [OF exPG_facts(1,3) exExpiry])
      (simp_all add: sub exPG_facts exCreate_def)
  with that sub(2) show ?thesis by (auto simp: exCreate_def)
qed

text \<open>In the example a bulk revocation of \<open>bob\<close> runs between the creation for \<open>alice\<close> and the validation.\<close>

theorem create_then_validate_witness:
  "\<exists>st' r st''. CreateAPIKey exService exCreate ''alice'' [''team''] ''ci'' [] (Some (2 * Hour)) False [] exPG = (st', Inr r) \<and>
     st'' = fst (BulkRevokeAPIKeys exService (exEnv (63900000000 * Second)) ''bob'' st') \<and>
     snd (snd (ValidateAPIKey exService (exEnv (63900000000 * Second + 1 * Hour)) (car_key r) st'')) =
       Inr \<lparr>vr_valid = True, vr_userID = ''id-1'', vr_username = ''alice'', vr_keyID = ''id-1'',
            vr_groups = [''team''], vr_subscription = ''gold'', vr_reason = []\<rparr>"
proof -
  obtain st' r where r:
    "CreateAPIKey exService exCreate ''alice'' [''team''] ''ci'' [] (Some (2 * Hour)) False [] exPG = (st', Inr r)"
    "car_id r = ''id-1''" "car_subscription r = ''gold''" by (rule exCreate_ok)
  let ?bulk = "BulkRevokeAPIKeys exService (exEnv (63900000000 * Second)) ''bob'' st'"
  have "trimSpace ''gold'' = ''gold''" by code_simp
  moreover have "sparing_step exService (\<lambda>_. True) (car_id r) ''alice'' t (st', []) (fst ?bulk, [])" for t
    by (rule spare_bulkRevoke [OF prod.collapse [symmetric]]) simp
  ultimately show ?thesis
    using create_then_validate [OF exPG_facts(1,3) r(1) exExpiry refl _ r_into_rtranclp,
        of "\<lambda>_. True" "[]" "fst ?bulk" "[]" "exEnv (63900000000 * Second + 1 * Hour)"] r
    by (simp add: exPG_facts exEnv_def exCreate_def exPG_def) (simp add: exService_def fault_free_def)
qed

text \<open>C7: a positive validation is justified. If \<open>ValidateAPIKey\<close> answers valid, the table holds a
  row with the reported id whose hash is the hash of the presented key, whose status is active and
  whose expiry has not passed, and the reported owner, groups and subscription are that row's.\<close>

theorem validate_sound:
  assumes "pg_inv st" "svc_store s = PG_ops"
    and "snd (snd (ValidateAPIKey s e key st)) = Inr v" "vr_valid v"
  shows "\<exists>r \<in> set (pg_rows st). row_id r = vr_keyID v \<and> row_key_hash r = HashAPIKey key \<and>
    row_status r = StatusActive \<and> (\<forall>t. row_expires_at r = Some t \<longrightarrow> env_now e \<le> t) \<and>
    vr_username v = row_username r \<and> vr_groups v = row_user_groups r \<and>
    vr_subscription v = row_subscription r \<and> IsValidKeyFormat key"
proof -
  from pg.valid_means [OF assms] obtain k where k: "pg_view st (vr_keyID v) = Some k"
    "k_hash k = HashAPIKey key" "liveAt (env_now e) k" "vr_username v = k_user k"
    "vr_groups v = k_groups k" "vr_subscription v = k_sub k" "IsValidKeyFormat key"
    by auto
  then obtain r where "r \<in> set (pg_rows st)" "row_id r = vr_keyID v" "k = pg_akey r"
    by (auto simp: pg_view_Some dest: lookup_SomeD)
  with k show ?thesis by (intro bexI [of _ r]) (auto simp: liveAt_def expiredAt_def not_less)
qed

text \<open>A table with two active keys: \<open>id-1\<close> of \<open>alice\<close>, and \<open>id-2\<close> of \<open>bob\<close> with the hash of the key
  text \<open>exKey\<close>.\<close>

definition exKey :: string where
  "exKey = KeyPrefix @ encodeBase62 (replicate 12 7) @ [KeyIDSeparator] @ encodeBase62 (replicate 32 9)"

definition exHash :: string where
  "exHash = hashWithSalt (encodeBase62 (replicate 12 7)) (encodeBase62 (replicate 32 9))"

definition exRow :: "string \<Rightarrow> string \<Rightarrow> string \<Rightarrow> api_keys_row" where
  "exRow i u h =
     \<lparr>row_id = i, row_username = u, row_name = ''ci'', row_description = None, row_key_hash = h,
      row_status = StatusActive, row_user_groups = [''team''], row_created_at = 0,
      row_expires_at = None, row_last_used_at = None, row_ephemeral = False, row_subscription = ''gold''\<rparr>"

definition exTable :: PostgresStore where
  "exTable = exPG\<lparr>pg_rows := [exRow ''id-1'' ''alice'' ''h1'', exRow ''id-2'' ''bob'' exHash]\<rparr>"

lemma exHash_ne: "exHash \<noteq> ''h1''"
proof -
  have "length exHash = 64" by (simp add: exHash_def hashWithSalt_def length_Sum256)
  moreover have "length ''h1'' = 2" by simp
  ultimately show ?thesis by force
qed

lemma exKey_facts: "IsValidKeyFormat exKey" "HashAPIKey exKey = exHash"
proof -
  have "ParseAPIKey exKey = Inr (encodeBase62 (replicate 12 7), encodeBase62 (replicate 32 9))"
    unfolding exKey_def by (rule ParseAPIKey_generated)
  then show "IsValidKeyFormat exKey" "HashAPIKey exKey = exHash"
    using encodeBase62_isBase62 by (simp_all add: IsValidKeyFormat_parse HashAPIKey_def exHash_def)
qed

lemma exTable_facts: "pg_inv exTable"
    "pg_view exTable ''id-1'' = Some (pg_akey (exRow ''id-1'' ''alice'' ''h1''))"
    "pg_view exTable ''id-2'' = Some (pg_akey (exRow ''id-2'' ''bob'' exHash))"
  using exHash_ne by (auto simp: exTable_def pg_inv_def rows_ok_def pg_view_def exRow_def)

text \<open>Bob's key is accepted in every state that still has his row unchanged.\<close>

lemma exKey_validates:
  assumes "pg_inv st" "pg_view st ''id-2'' = Some (pg_akey (exRow ''id-2'' ''bob'' exHash))"
  shows "snd (snd (ValidateAPIKey exService (exEnv now) exKey st)) =
    Inr \<lparr>vr_valid = True, vr_userID = ''id-2'', vr_username = ''bob'', vr_keyID = ''id-2'',
         vr_groups = [''team''], vr_subscription = ''gold'', vr_reason = []\<rparr>"
proof -
  have "trimSpace ''gold'' = ''gold''" by code_simp
  moreover have "liveAt (env_now (exEnv now)) (pg_akey (exRow ''id-2'' ''bob'' exHash))"
    by (simp add: liveAt_def expiredAt_def exRow_def)
  moreover have "svc_uuidParse exService ''id-2''" by (simp add: exService_def)
  ultimately show ?thesis
    using pg.live_validates [OF assms(1) exPG_facts(3,4) pg_hash_unique [OF assms(1)] assms(2)] exKey_facts
    by (simp add: exRow_def)
qed

theorem validate_sound_witness:
  "\<exists>x \<in> set (pg_rows exTable). row_id x = ''id-2'' \<and> row_key_hash x = HashAPIKey exKey"
  using validate_sound [OF exTable_facts(1) exPG_facts(3) exKey_validates [OF exTable_facts(1,3)]] by auto

text \<open>C2: revocation is final. Once \<open>RevokeAPIKey\<close> has succeeded for a key id, no later validation
  answers valid for that id, whatever sequence of creations, validations, background updates,
  revocations and cleanups runs in between and whatever database errors occur on the way; and while
  the revoked row is still stored, the key's text itself is not accepted under any id.\<close>

theorem revocation_is_final:
  assumes "pg_inv st" "svc_store s = PG_ops" "pg_view st i = Some k"
    and revoke: "RevokeAPIKey s e i st = (st1, None)"
    and run: "used i" "service_run s used (st1, ps) (st2, ps2)"
    and valid: "snd (snd (ValidateAPIKey s e2 key st2)) = Inr v" "vr_valid v"
  shows "vr_keyID v \<noteq> i \<and> (pg_view st2 i \<noteq> None \<longrightarrow> HashAPIKey key \<noteq> k_hash k)"
proof -
  let ?k = "k\<lparr>k_status := StatusRevoked\<rparr>"
  have rev: "st_Revoke PG_ops e i st = (st1, None)" using revoke assms(2) by (simp add: RevokeAPIKey_def)
  have st1: "pg_view st1 i = Some ?k" using pg.Revoke_view [OF assms(1) rev] assms(3) by auto
  have "pg_inv st1" using pg.inv_Revoke [OF assms(1), of e i] rev by simp
  with pg.dead_stays [OF run(2) assms(2)] st1 run(1)
  have inv: "pg_inv st2" and i: "pg_view st2 i = None \<or> pg_view st2 i = Some ?k" by auto
  from pg.valid_means [OF inv assms(2) valid] obtain k' where k': "pg_view st2 (vr_keyID v) = Some k'"
    "k_hash k' = HashAPIKey key" "liveAt (env_now e2) k'" by auto
  with i have ne: "vr_keyID v \<noteq> i" by (auto simp: liveAt_def)
  have "HashAPIKey key \<noteq> k_hash k" if "pg_view st2 i \<noteq> None"
  proof
    assume "HashAPIKey key = k_hash k"
    with i that k' have "pg_view st2 i = Some ?k" "k_hash k' = k_hash ?k" by auto
    with k'(1) pg_hash_unique [OF inv] have "vr_keyID v = i" unfolding hash_unique_def by blast
    with ne show False by simp
  qed
  with ne show ?thesis by simp
qed

lemma exRevoked:
  obtains st1 where "RevokeAPIKey exService (exEnv 0) ''id-1'' exTable = (st1, None)" "pg_inv st1"
    "pg_view st1 ''id-2'' = Some (pg_akey (exRow ''id-2'' ''bob'' exHash))"
proof -
  obtain st1 r where r: "st_Revoke PG_ops (exEnv 0) ''id-1'' exTable = (st1, r)" by fastforce
  have "r = None"
    using pg.Revoke_ok [OF exTable_facts(1) exPG_facts(4) [of 0] exTable_facts(2)] r by (simp add: exRow_def)
  moreover have "pg_inv st1" using pg.inv_Revoke [OF exTable_facts(1)] r by (metis fst_conv)
  moreover have "pg_view st1 ''id-2'' = Some (pg_akey (exRow ''id-2'' ''bob'' exHash))"
    using pg.Revoke_view [OF exTable_facts(1) r] exTable_facts(3) by auto
  ultimately show ?thesis using r by (intro that) (simp_all add: RevokeAPIKey_def exPG_facts)
qed

theorem revocation_is_final_witness:
  "\<exists>st1 v. RevokeAPIKey exService (exEnv 0) ''id-1'' exTable = (st1, None) \<and>
     snd (snd (ValidateAPIKey exService (exEnv 0) exKey st1)) = Inr v \<and> vr_valid v \<and> vr_keyID v \<noteq> ''id-1''"
proof -
  obtain st1 where st1: "RevokeAPIKey exService (exEnv 0) ''id-1'' exTable = (st1, None)" "pg_inv st1"
    "pg_view st1 ''id-2'' = Some (pg_akey (exRow ''id-2'' ''bob'' exHash))" by (rule exRevoked)
  note v = exKey_validates [OF st1(2,3), of 0]
  from revocation_is_final [OF exTable_facts(1) exPG_facts(3) exTable_facts(2) st1(1) _ rtranclp.rtrancl_refl v,
      of "\<lambda>_. True"] st1 v
  show ?thesis by auto
qed

text \<open>The same holds for the in-memory store, by key id.\<close>

theorem revocation_is_final_mock:
  assumes "mock_inv st" "svc_store s = Mock_ops" "RevokeAPIKey s e i st = (st1, None)"
    and "used i" "service_run s used (st1, ps) (st2, ps2)"
    and "snd (snd (ValidateAPIKey s e2 key st2)) = Inr v" "vr_valid v"
  shows "vr_keyID v \<noteq> i"
proof -
  have rev: "st_Revoke Mock_ops e i st = (st1, None)" using assms(2,3) by (simp add: RevokeAPIKey_def)
  from mock.Revoke_view [OF assms(1) rev] obtain k where
    "mock_view st1 i = Some (k\<lparr>k_status := StatusRevoked\<rparr>)" by auto
  moreover have "mock_inv st1" using mock.inv_Revoke [OF assms(1), of e i] rev by simp
  ultimately have "mock_inv st2 \<and> (mock_view st2 i = None \<or> mock_view st2 i = Some (k\<lparr>k_status := StatusRevoked\<rparr>))"
    using mock.dead_stays [OF assms(5,2)] assms(4) by simp
  with mock.valid_means [OF _ assms(2,6,7)] show ?thesis by (auto simp: liveAt_def)
qed

definition exMock :: MockStore where
  "exMock = fst (Mock_AddKey (exEnv 0) ''bob'' ''id-2'' exHash ''ci'' [] [''team''] ''gold'' None False
     (fst (Mock_AddKey (exEnv 0) ''alice'' ''id-1'' ''h1'' ''ci'' [] [''team''] ''gold'' None False NewMockStore)))"

lemma hash_unique_two:
  "k_hash k \<noteq> k_hash l \<Longrightarrow> hash_unique (Map.empty(i \<mapsto> k, j \<mapsto> l))"
  by (auto simp: hash_unique_def split: if_splits)

lemma exMock_facts: "mock_inv exMock"
    "mock_view exMock = Map.empty(''id-1'' \<mapsto> newKey ''h1'' ''alice'' [''team''] ''gold'' None False,
       ''id-2'' \<mapsto> newKey exHash ''bob'' [''team''] ''gold'' None False)"
proof -
  let ?m = "fst (Mock_AddKey (exEnv 0) ''alice'' ''id-1'' ''h1'' ''ci'' [] [''team''] ''gold'' None False NewMockStore)"
  have "mock_inv NewMockStore" "mock_view NewMockStore = Map.empty"
    by (auto simp: mock_inv_def NewMockStore_def mock_view_def)
  then have m: "mock_inv ?m" "mock_view ?m = Map.empty(''id-1'' \<mapsto> newKey ''h1'' ''alice'' [''team''] ''gold'' None False)"
    using Mock_AddKey_law [of NewMockStore "exEnv 0" "''alice''" "''id-1''" "''h1''" "''ci''" "[]" "[''team'']" "''gold''" None False]
    by (simp_all add: mock_expiry_def)
  show "mock_inv exMock"
    "mock_view exMock = Map.empty(''id-1'' \<mapsto> newKey ''h1'' ''alice'' [''team''] ''gold'' None False,
       ''id-2'' \<mapsto> newKey exHash ''bob'' [''team''] ''gold'' None False)"
    using m Mock_AddKey_law [OF m(1), of "exEnv 0" "''bob''" "''id-2''" exHash "''ci''" "[]" "[''team'']" "''gold''" None False]
    by (simp_all add: mock_expiry_def exMock_def)
qed

definition exMockService :: "MockStore Service" where
  "exMockService = \<lparr>svc_store = Mock_ops, svc_config = None, svc_subSelector = selectorOf exSelector,
     svc_uuidParse = (\<lambda>_. True)\<rparr>"

theorem revocation_is_final_mock_witness:
  "\<exists>st1 v. RevokeAPIKey exMockService (exEnv 0) ''id-1'' exMock = (st1, None) \<and>
     snd (snd (ValidateAPIKey exMockService (exEnv 0) exKey st1)) = Inr v \<and> vr_valid v \<and> vr_keyID v \<noteq> ''id-1''"
proof -
  let ?a = "newKey ''h1'' ''alice'' [''team''] ''gold'' None False"
  let ?b = "newKey exHash ''bob'' [''team''] ''gold'' None False"
  have store: "svc_store exMockService = Mock_ops" by (simp add: exMockService_def)
  have a: "mock_view exMock ''id-1'' = Some ?a" by (simp add: exMock_facts)
  obtain st1 r where r: "st_Revoke Mock_ops (exEnv 0) ''id-1'' exMock = (st1, r)" by fastforce
  have rN: "r = None"
    using mock.Revoke_ok [OF exMock_facts(1) exPG_facts(4) [of 0] a] r by (simp add: newKey_def)
  have inv: "mock_inv st1" using mock.inv_Revoke [OF exMock_facts(1)] r by (metis fst_conv)
  have view: "mock_view st1 = Map.empty(''id-1'' \<mapsto> ?a\<lparr>k_status := StatusRevoked\<rparr>, ''id-2'' \<mapsto> ?b)"
    using mock.Revoke_view [OF exMock_facts(1) r] a rN
    by (simp add: exMock_facts) (simp add: fun_upd_twist)
  have uniq: "hash_unique (mock_view st1)"
    unfolding view using exHash_ne by (intro hash_unique_two) (simp add: newKey_def)
  have b: "mock_view st1 ''id-2'' = Some ?b" by (simp add: view)
  have trim: "trimSpace ''gold'' = ''gold''" by code_simp
  have live: "liveAt (env_now (exEnv 0)) ?b" by (simp add: liveAt_def expiredAt_def newKey_def)
  have v: "snd (snd (ValidateAPIKey exMockService (exEnv 0) exKey st1)) =
    Inr \<lparr>vr_valid = True, vr_userID = ''id-2'', vr_username = ''bob'', vr_keyID = ''id-2'',
         vr_groups = [''team''], vr_subscription = ''gold'', vr_reason = []\<rparr>"
    using mock.live_validates [OF inv store exPG_facts(4) uniq b live, of exKey] exKey_facts trim
    by (simp add: newKey_def) (simp add: exMockService_def)
  have rev: "RevokeAPIKey exMockService (exEnv 0) ''id-1'' exMock = (st1, None)"
    using r rN by (simp add: RevokeAPIKey_def store)
  from revocation_is_final_mock [OF exMock_facts(1) store rev _ rtranclp.rtrancl_refl v, of "\<lambda>_. True"] rev v
  show ?thesis by auto
qed

text \<open>Bulk revocation. A successful \<open>BulkRevokeAPIKeys\<close> for a user leaves no key of that user
  that validates, leaves the keys of all other users as they were, and reports the number of keys
  that were active.\<close>

theorem bulk_revoke_complete:
  assumes "pg_inv st" "svc_store s = PG_ops" "BulkRevokeAPIKeys s e u st = (st', Inr n)"
  shows "(\<forall>e' key v. snd (snd (ValidateAPIKey s e' key st')) = Inr v \<longrightarrow> vr_valid v \<longrightarrow> vr_username v \<noteq> u) \<and>
    (\<forall>i k. pg_view st i = Some k \<longrightarrow> k_user k \<noteq> u \<longrightarrow> pg_view st' i = Some k) \<and>
    n = int (card {i. \<exists>k. pg_view st i = Some k \<and> k_user k = u \<and> k_status k = StatusActive})"
proof -
  have q: "st_InvalidateAll PG_ops e u st = (st', Inr n)"
    using assms(2,3) by (auto simp: BulkRevokeAPIKeys_def split: if_splits)
  from pg.InvalidateAll_view [OF assms(1) q] have view: "pg_view st' = revokeAllOf u (pg_view st)"
    and n: "n = int (card {i. \<exists>k. pg_view st i = Some k \<and> k_user k = u \<and> k_status k = StatusActive})" by auto
  have inv: "pg_inv st'" using pg.inv_InvalidateAll [OF assms(1)] q by (metis fst_conv)
  have "vr_username v \<noteq> u" if "snd (snd (ValidateAPIKey s e' key st')) = Inr v" "vr_valid v" for e' key v
  proof -
    from pg.valid_means [OF inv assms(2) that] obtain k where
      "revokeAllOf u (pg_view st) (vr_keyID v) = Some k" "k_status k = StatusActive" "vr_username v = k_user k"
      unfolding view liveAt_def by blast
    then show ?thesis by (simp add: revokeAllOf_active)
  qed
  moreover have "pg_view st' i = Some k" if "pg_view st i = Some k" "k_user k \<noteq> u" for i k
    using that by (simp add: view revokeAllOf_def)
  ultimately show ?thesis using n by blast
qed

theorem bulk_revoke_complete_witness:
  "\<exists>st' n. BulkRevokeAPIKeys exService (exEnv 0) ''alice'' exTable = (st', Inr n) \<and>
     pg_view st' ''id-2'' = Some (pg_akey (exRow ''id-2'' ''bob'' exHash))"
proof -
  obtain st' n where q: "BulkRevokeAPIKeys exService (exEnv 0) ''alice'' exTable = (st', Inr n)"
    using pg.InvalidateAll_ok [OF exTable_facts(1) exPG_facts(4) [of 0], of "''alice''"]
    by (auto simp: BulkRevokeAPIKeys_def exPG_facts) (metis prod.collapse)
  from bulk_revoke_complete [OF exTable_facts(1) exPG_facts(3) q] exTable_facts(3) q
  show ?thesis by (simp add: exRow_def)
qed

lemma int64_wrap: "2 ^ 63 \<le> x \<Longrightarrow> x < 2 ^ 64 + 2 ^ 63 \<Longrightarrow> int64 x = x - 2 ^ 64"
proof -
  assume x: "2 ^ 63 \<le> x" "x < 2 ^ 64 + 2 ^ 63"
  have "(x + 2 ^ 63) mod 2 ^ 64 = (x + 2 ^ 63 - 2 ^ 64) mod 2 ^ 64" by (rule minus_mod_self2 [symmetric])
  also have "\<dots> = x + 2 ^ 63 - 2 ^ 64" using x by (intro mod_pos_pos_trivial) simp_all
  finally show ?thesis by (simp add: int64_def)
qed

lemma maxRegularDuration_exact:
  "1 \<le> m \<Longrightarrow> m \<le> 106751 \<Longrightarrow> maxRegularDuration m = m * 24 * Hour"
  by (simp add: maxRegularDuration_def int64_def)

text \<open>Lifetimes. For a maximum of up to 106751 days, the duration the service accepts is positive,
  at most one hour for an ephemeral key and at most the maximum number of days otherwise, and a
  request without a duration is always accepted; a request is refused exactly when it is not
  positive or exceeds the bound that applies.\<close>

theorem expiry_bounds:
  assumes "1 \<le> m" "m \<le> 106751"
  shows "(resolveExpiry m x eph = Inr d \<longrightarrow> 0 < d \<and> d \<le> (if eph then 1 * Hour else m * 24 * Hour)) \<and>
    (\<exists>d. resolveExpiry m None eph = Inr d) \<and>
    ((\<exists>err. resolveExpiry m (Some y) eph = Inl err) \<longleftrightarrow> y \<le> 0 \<or> y > (if eph then 1 * Hour else m * 24 * Hour))"
  using assms by (auto simp: resolveExpiry_def Let_def maxRegularDuration_exact split: if_splits)

theorem expiry_bounds_witness:
  "(\<exists>d. resolveExpiry 90 None False = Inr d) \<and>
   ((\<exists>err. resolveExpiry 90 (Some (91 * 24 * Hour)) False = Inl err) \<longleftrightarrow>
     91 * 24 * Hour \<le> (0::int) \<or> 91 * 24 * Hour > (if False then 1 * Hour else 90 * 24 * Hour))"
  using expiry_bounds [of 90 None False 0 "91 * 24 * Hour"] by simp

text \<open>C40: beyond that the 64-bit product wraps. A configured maximum between 106752 and 213503 days,
  which the configuration check accepts, makes the longest allowed duration negative and every request
  for a regular key fail, with or without a duration, before the store is touched; a maximum of 213504
  days caps regular keys at less than half an hour.\<close>

theorem expiry_overflow:
  assumes "106752 \<le> n" "n \<le> 213503" "Validate env dnsErrs c = (c', None)"
    and "svc_config s = Some (c'\<lparr>cfg_apiKeyMaxExpirationDays := n\<rparr>)"
  shows "Validate env dnsErrs (c\<lparr>cfg_apiKeyMaxExpirationDays := n\<rparr>) = (c'\<lparr>cfg_apiKeyMaxExpirationDays := n\<rparr>, None) \<and>
    maxRegularDuration n < 0 \<and>
    (\<exists>err. CreateAPIKey s e u g nm d x False rs st = (st, Inl err)) \<and>
    0 < maxRegularDuration 213504 \<and> maxRegularDuration 213504 < 30 * Minute"
proof -
  have "int64 (n * 24) = n * 24" using assms(1,2) by (intro int64_id) simp_all
  then have neg: "maxRegularDuration n < 0"
    using assms(1,2) by (simp add: maxRegularDuration_def int64_wrap)
  have "maxDaysOf (svc_config s) = n" using assms(1,4) by (simp add: maxDaysOf_def)
  moreover have "\<exists>err. resolveExpiry n x False = Inl err"
    using neg by (auto simp: resolveExpiry_def Let_def split: option.splits)
  ultimately have "\<exists>err. CreateAPIKey s e u g nm d x False rs st = (st, Inl err)"
    by (auto simp: CreateAPIKey_def)
  moreover have "0 < maxRegularDuration 213504" "maxRegularDuration 213504 < 30 * Minute"
    by (simp_all add: maxRegularDuration_def int64_def)
  ultimately show ?thesis using neg Validate_maxDays [OF assms(3), of n] assms(1) by simp
qed

theorem expiry_overflow_witness:
  "\<exists>c' err. Validate \<lparr>envString = (\<lambda>k d. d), envBool = (\<lambda>k d. d), envInt = (\<lambda>k d. d)\<rparr> (\<lambda>s. [])
       ((Load \<lparr>envString = (\<lambda>k d. d), envBool = (\<lambda>k d. d), envInt = (\<lambda>k d. d)\<rparr>)
         \<lparr>cfg_dbConnectionURL := ''postgresql://db'', cfg_apiKeyMaxExpirationDays := 150000\<rparr>) = (c', None) \<and>
     CreateAPIKey (exService\<lparr>svc_config := Some c'\<rparr>) exCreate ''alice'' [''team''] ''ci'' [] (Some (2 * Hour)) False [] exPG
       = (exPG, Inl err)"
proof -
  let ?env = "\<lparr>envString = (\<lambda>k d. d), envBool = (\<lambda>k d. d), envInt = (\<lambda>k d. d)\<rparr>"
  let ?c = "(Load ?env)\<lparr>cfg_dbConnectionURL := ''postgresql://db''\<rparr>"
  let ?v = "fst (Validate ?env (\<lambda>s. []) ?c)"
  have "snd (Validate ?env (\<lambda>s. []) ?c) = None" by code_simp
  then have v: "Validate ?env (\<lambda>s. []) ?c = (?v, None)" by (metis prod.collapse)
  have c: "svc_config (exService\<lparr>svc_config := Some (?v\<lparr>cfg_apiKeyMaxExpirationDays := 150000\<rparr>)\<rparr>) =
    Some (?v\<lparr>cfg_apiKeyMaxExpirationDays := 150000\<rparr>)" by simp
  show ?thesis
    using expiry_overflow [OF _ _ v c, of exCreate "''alice''" "[''team'']" "''ci''" "[]" "Some (2 * Hour)" "[]" exPG]
    by (intro exI [of _ "?v\<lparr>cfg_apiKeyMaxExpirationDays := 150000\<rparr>"]) simp
qed

text \<open>A minted key is bound to a subscription of the cluster that its owner may use; with an
  explicit request it is the subscription named, reconciled and not failed.\<close>

theorem created_key_subscription_usable:
  assumes "svc_subSelector s = selectorOf sel"
    and "CreateAPIKey s e u g n d x eph rs st = (st', Inr r)"
  shows "\<exists>sub \<in> set (loaded sel). car_subscription r = sub_name sub \<and>
    (u \<in> set (sub_users sub) \<or> (\<exists>gr \<in> set g. trimSpace gr \<in> set (sub_groups sub))) \<and>
    (rs \<noteq> [] \<longrightarrow> names rs sub \<and> sub_phase sub \<noteq> [] \<and> sub_phase sub \<noteq> PhaseFailed)"
  using source.created_key_subscription [OF assms] by (auto simp: userHasAccess_iff)

theorem created_key_subscription_usable_witness:
  "\<exists>st' r. CreateAPIKey exService exCreate ''alice'' [''team''] ''ci'' [] (Some (2 * Hour)) False [] exPG = (st', Inr r) \<and>
     (\<exists>sub \<in> set (loaded exSelector). sub_name sub = ''gold'' \<and>
        (''alice'' \<in> set (sub_users sub) \<or> (\<exists>gr \<in> set [''team'']. trimSpace gr \<in> set (sub_groups sub))))"
proof -
  obtain st' r where r:
    "CreateAPIKey exService exCreate ''alice'' [''team''] ''ci'' [] (Some (2 * Hour)) False [] exPG = (st', Inr r)"
    "car_subscription r = ''gold''" by (rule exCreate_ok)
  have "svc_subSelector exService = selectorOf exSelector" by (simp add: exService_def)
  from created_key_subscription_usable [OF this r(1)] r show ?thesis by metis
qed

text \<open>C37: without an explicit request the health of the subscription is not looked at. When the
  subscription of highest priority that a user may use is in phase Failed, \<open>CreateAPIKey\<close> without a
  named subscription (and with everything else in order) mints an active key bound to it, while the
  same call naming that subscription is refused and stores nothing, provided the name names no other
  subscription.\<close>

theorem default_selection_ignores_health:
  assumes "pg_inv st" "svc_store s = PG_ops" "svc_subSelector s = selectorOf sel"
    and "SelectHighestPriority sel g u = Inr r" "resp_phase r = PhaseFailed" "resp_name r \<noteq> []"
    and named: "\<forall>sub \<in> set (loaded sel). names (resp_name r) sub \<longrightarrow> toResponse sub = r"
    and "resolveExpiry (maxDaysOf (svc_config s)) x eph = Inr dur"
    and "ce_keyIDEntropy e = Some kb" "ce_secretEntropy e = Some sb"
    and "n \<noteq> []" "ce_uuid e \<noteq> []" "fault_free (ce_store e)" "pg_view st (ce_uuid e) = None"
    and "\<forall>j k. pg_view st j = Some k \<longrightarrow> k_hash k \<noteq> hashWithSalt (encodeBase62 kb) (encodeBase62 sb)"
  shows "(\<exists>st' c k. CreateAPIKey s e u g n d x eph [] st = (st', Inr c) \<and> car_subscription c = resp_name r \<and>
      pg_view st' (car_id c) = Some k \<and> k_sub k = resp_name r \<and> k_status k = StatusActive) \<and>
    (\<exists>err. CreateAPIKey s e u g n d x eph (resp_name r) st = (st, Inl (SelectFailed err)))"
proof -
  have sel: "(if [] \<noteq> ([] :: string) then ss_Select (svc_subSelector s) g u [] []
      else ss_SelectHighestPriority (svc_subSelector s) g u) = Inr r"
    using assms(3,4) by (simp add: selectorOf_def)
  note made = pg.create_ok [OF assms(1,2,8,9,10) sel assms(6,11,12,13,14,15), of d]
  have "\<exists>err. Select sel g u (resp_name r) [] = Inl err"
  proof (rule ccontr)
    assume "\<nexists>err. Select sel g u (resp_name r) [] = Inl err"
    then obtain r' where "Select sel g u (resp_name r) [] = Inr r'" by (metis sumE)
    then obtain sub where "sub \<in> set (loaded sel)" "checkModelHealth sub [] = None" "resp_name r \<noteq> [] \<Longrightarrow> names (resp_name r) sub"
      by (rule Select_Inr) blast
    with named assms(5,6) show False by (auto simp: checkModelHealth_keyCreation toResponse_def)
  qed
  then obtain err where "Select sel g u (resp_name r) [] = Inl err" by blast
  then have "CreateAPIKey s e u g n d x eph (resp_name r) st = (st, Inl (SelectFailed err))"
    using assms(3,6,8,9,10) by (simp add: CreateAPIKey_def GenerateAPIKey_Some selectorOf_def)
  with made show ?thesis by (fastforce simp: newKey_def)
qed

theorem default_selection_ignores_health_witness:
  "\<exists>st' c k. CreateAPIKey exService exCreate ''bob'' [] ''ci'' [] (Some (2 * Hour)) False [] exPG = (st', Inr c) \<and>
     pg_view st' (car_id c) = Some k \<and> k_sub k = ''solo''"
proof -
  have "map_sum id (\<lambda>r. (resp_phase r, resp_name r)) (SelectHighestPriority exSelector [] ''bob'') =
      Inr (''Failed'', ''solo'')" by code_simp
  then obtain r where r: "SelectHighestPriority exSelector [] ''bob'' = Inr r"
    "(resp_phase r, resp_name r) = (''Failed'', ''solo'')" by (rule map_sum_InrE)
  have "list_all (\<lambda>sub. names ''solo'' sub \<longrightarrow> SelectHighestPriority exSelector [] ''bob'' = Inr (toResponse sub))
      (loaded exSelector)" by code_simp
  then have named: "\<forall>sub \<in> set (loaded exSelector). names (resp_name r) sub \<longrightarrow> toResponse sub = r"
    using r by (auto simp: list_all_iff)
  have "svc_subSelector exService = selectorOf exSelector" by (simp add: exService_def)
  note default_selection_ignores_health [OF exPG_facts(1,3) this r(1) _ _ named exExpiry,
      of exCreate "replicate 12 7" "replicate 32 9" "''ci''" "[]"]
  then show ?thesis using r(2) by (simp add: exPG_facts exCreate_def PhaseFailed_def) blast
qed

text \<open>C31: minting makes progress on the PostgreSQL store. With an acceptable lifetime, random bytes,
  a selected subscription, a name, a fresh id and hash, and a working database, \<open>CreateAPIKey\<close>
  succeeds, keeps the table's constraints, and adds exactly the one active key.\<close>

theorem create_succeeds:
  assumes "pg_inv st" "svc_store s = PG_ops" "resolveExpiry (maxDaysOf (svc_config s)) x eph = Inr dur"
    and "ce_keyIDEntropy e = Some kb" "ce_secretEntropy e = Some sb"
    and "(if rs \<noteq> [] then ss_Select (svc_subSelector s) g u rs []
        else ss_SelectHighestPriority (svc_subSelector s) g u) = Inr sub"
    and "resp_name sub \<noteq> []" "n \<noteq> []" "ce_uuid e \<noteq> []" "fault_free (ce_store e)"
    and "pg_view st (ce_uuid e) = None"
    and "\<forall>j k. pg_view st j = Some k \<longrightarrow> k_hash k \<noteq> hashWithSalt (encodeBase62 kb) (encodeBase62 sb)"
  shows "\<exists>st' r. CreateAPIKey s e u g n d x eph rs st = (st', Inr r) \<and> pg_inv st' \<and>
    car_id r = ce_uuid e \<and> car_subscription r = resp_name sub \<and>
    pg_view st' = (pg_view st)(ce_uuid e \<mapsto> newKey (hashWithSalt (encodeBase62 kb) (encodeBase62 sb)) u g
      (resp_name sub) (Some (pg_timestamp st (ce_now e + dur))) eph)"
  using pg.create_ok [OF assms] by (simp add: pg_expiry_def)

theorem create_succeeds_witness:
  "\<exists>st' r. CreateAPIKey exService exCreate ''alice'' [''team''] ''ci'' [] (Some (2 * Hour)) False [] exPG = (st', Inr r) \<and>
     pg_inv st' \<and> car_id r = ''id-1''"
proof -
  obtain sub where sub: "ss_SelectHighestPriority (svc_subSelector exService) [''team''] ''alice'' = Inr sub"
    "resp_name sub = ''gold''" by (rule exSelect_gold)
  have "\<exists>st' r. CreateAPIKey exService exCreate ''alice'' [''team''] ''ci'' [] (Some (2 * Hour)) False [] exPG = (st', Inr r) \<and>
    pg_inv st' \<and> car_id r = ce_uuid exCreate \<and> car_subscription r = resp_name sub \<and>
    pg_view st' = (pg_view exPG)(ce_uuid exCreate \<mapsto> newKey (hashWithSalt (encodeBase62 (replicate 12 7))
      (encodeBase62 (replicate 32 9))) ''alice'' [''team''] (resp_name sub)
      (Some (pg_timestamp exPG (ce_now exCreate + 2 * Hour))) False)"
    by (rule create_succeeds [OF exPG_facts(1,3) exExpiry])
      (simp_all add: sub exPG_facts exCreate_def)
  then show ?thesis by (auto simp: exCreate_def)
qed

text \<open>C32: cleanup removes what it should and never takes away a usable key. Without a database error a
  cleanup run removes exactly the ephemeral keys that expired more than thirty minutes before the
  database's clock, leaves all other keys as they were and reports the number removed. Whatever a run
  reports, every key it removed was of that kind; and every key text that validated before, at a time
  not more than thirty minutes behind that clock, validates afterwards with the same answer.\<close>

theorem cleanup_safe:
  assumes "pg_inv st" "svc_store s = PG_ops" "CleanupExpiredEphemeral s e st = (st', q)"
  shows "(fault_free e \<longrightarrow>
      q = Inr (int (card {i. \<exists>k. pg_view st i = Some k \<and> cleanable (env_dbnow e) k})) \<and>
      (\<forall>i. pg_view st' i = (case pg_view st i of None \<Rightarrow> None
         | Some k \<Rightarrow> if k_ephemeral k \<and> (\<exists>t. k_expires k = Some t \<and> t + 30 * Minute < env_dbnow e)
                     then None else Some k))) \<and>
    (\<forall>i k. pg_view st i = Some k \<longrightarrow> pg_view st' i \<noteq> Some k \<longrightarrow>
      k_ephemeral k \<and> (\<exists>t. k_expires k = Some t \<and> t + 30 * Minute < env_dbnow e)) \<and>
    (fault_free e' \<longrightarrow> env_dbnow e - 30 * Minute \<le> env_now e' \<longrightarrow>
      snd (snd (ValidateAPIKey s e' key st)) = Inr v \<longrightarrow> vr_valid v \<longrightarrow>
      snd (snd (ValidateAPIKey s e' key st')) = Inr v)"
proof -
  obtain q0 where q0: "st_DeleteExpiredEphemeral PG_ops e st = (st', q0)" "\<And>n. q0 = Inr n \<Longrightarrow> q = Inr n"
    using assms(2,3) by (auto simp: CleanupExpiredEphemeral_def split: prod.splits sum.splits)
  have old: "cleanable now k \<longleftrightarrow> k_ephemeral k \<and> (\<exists>t. k_expires k = Some t \<and> t + 30 * Minute < now)" for now k
    by (auto simp: cleanable_def split: option.splits)
  have inv: "pg_inv st'" using pg.inv_Delete [OF assms(1)] q0(1) by (metis fst_conv)
  have kept: "pg_view st' i = Some k" if "pg_view st i = Some k" "\<not> cleanable (env_dbnow e) k" for i k
    using pg.Delete_view [OF assms(1) q0(1)] that by auto
  have exact: "q = Inr (int (card {i. \<exists>k. pg_view st i = Some k \<and> cleanable (env_dbnow e) k})) \<and>
      (\<forall>i. pg_view st' i = (case pg_view st i of None \<Rightarrow> None
         | Some k \<Rightarrow> if cleanable (env_dbnow e) k then None else Some k))" if free: "fault_free e"
  proof -
    obtain n where "q0 = Inr n" using pg.Delete_ok [OF assms(1) free] q0(1) by auto
    with pg.Delete_view [OF assms(1) q0(1)] q0(2) show ?thesis by auto
  qed
  have "snd (snd (ValidateAPIKey s e' key st')) = Inr v"
    if free: "fault_free e'" and now: "env_dbnow e - 30 * Minute \<le> env_now e'"
      and v: "snd (snd (ValidateAPIKey s e' key st)) = Inr v" "vr_valid v"
  proof -
    from pg.valid_means [OF assms(1,2) v] obtain k where k: "pg_view st (vr_keyID v) = Some k"
      "k_hash k = HashAPIKey key" "liveAt (env_now e') k" "trimSpace (k_sub k) \<noteq> []" "IsValidKeyFormat key"
      by blast
    have "\<not> cleanable (env_dbnow e) k"
      using k(3) now by (auto simp: cleanable_def liveAt_def expiredAt_def split: option.splits)
    then have st': "pg_view st' (vr_keyID v) = Some k" by (rule kept [OF k(1)])
    have uuid: "svc_uuidParse s (vr_keyID v)" using v by (rule ValidateAPIKey_valid) simp
    show ?thesis
      using pg.live_validates [OF inv assms(2) free pg_hash_unique [OF inv] st' k(3,2,5,4) uuid]
        pg.live_validates [OF assms(1,2) free pg_hash_unique [OF assms(1)] k(1,3,2,5,4) uuid] v(1) by simp
  qed
  with exact kept show ?thesis unfolding old [symmetric] by blast
qed

theorem cleanup_safe_witness:
  "snd (snd (ValidateAPIKey exService (exEnv 0) exKey (fst (CleanupExpiredEphemeral exService (exEnv 0) exTable)))) =
     snd (snd (ValidateAPIKey exService (exEnv 0) exKey exTable))"
proof -
  note v = exKey_validates [OF exTable_facts(1,3), of 0]
  have "env_dbnow (exEnv 0) - 30 * Minute \<le> env_now (exEnv 0)" by (simp add: exEnv_def)
  with v exPG_facts(4) [of 0] show ?thesis
    using cleanup_safe [OF exTable_facts(1) exPG_facts(3) prod.collapse [symmetric],
        where e = "exEnv 0" and e' = "exEnv 0" and key = exKey]
    by simp
qed

section \<open>Two stores with the same contents\<close>

text \<open>The contract fixes the answers of a store up to its contents: two stores with equal views and
  clocks give equal results.\<close>

locale store_pair =
  a: metadata_store opsA viewA invA expiryA clockA + b: metadata_store opsB viewB invB expiryB clockB
  for opsA :: "'a MetadataStore" and viewA invA expiryA clockA
    and opsB :: "'b MetadataStore" and viewB invB expiryB clockB
begin

lemma revoke_agree:
  assumes "invA x" "invB y" "viewA x = viewB y" "fault_free e"
  shows "snd (st_Revoke opsA e i x) = snd (st_Revoke opsB e i y) \<and>
    viewA (fst (st_Revoke opsA e i x)) = viewB (fst (st_Revoke opsB e i y))"
proof (cases "\<exists>k. viewB y i = Some k \<and> k_status k = StatusActive")
  case True
  then obtain k where k: "viewA x i = Some k" "viewB y i = Some k" "k_status k = StatusActive"
    using assms(3) by auto
  have "snd (st_Revoke opsA e i x) = None" "snd (st_Revoke opsB e i y) = None"
    using a.Revoke_ok [OF assms(1,4) k(1,3)] b.Revoke_ok [OF assms(2,4) k(2,3)] by simp_all
  with a.Revoke_view [OF assms(1) prod.collapse [symmetric], where e = e and i = i]
    b.Revoke_view [OF assms(2) prod.collapse [symmetric], where e = e and i = i] k assms(3)
  show ?thesis by auto
next
  case False
  with assms have "snd (st_Revoke opsA e i x) = Some ErrKeyNotFound" "snd (st_Revoke opsB e i y) = Some ErrKeyNotFound"
    using a.Revoke_missing [OF assms(1,4)] b.Revoke_missing [OF assms(2,4)] by auto
  with a.Revoke_view [OF assms(1) prod.collapse [symmetric], where e = e and i = i]
    b.Revoke_view [OF assms(2) prod.collapse [symmetric], where e = e and i = i] False assms(3)
  show ?thesis by auto
qed

lemma invalidateAll_agree:
  assumes "invA x" "invB y" "viewA x = viewB y" "fault_free e"
  shows "snd (st_InvalidateAll opsA e u x) = snd (st_InvalidateAll opsB e u y) \<and>
    viewA (fst (st_InvalidateAll opsA e u x)) = viewB (fst (st_InvalidateAll opsB e u y))"
  using a.InvalidateAll_ok [OF assms(1,4), of u] b.InvalidateAll_ok [OF assms(2,4), of u]
    a.InvalidateAll_view [OF assms(1) prod.collapse [symmetric], where e = e and u = u]
    b.InvalidateAll_view [OF assms(2) prod.collapse [symmetric], where e = e and u = u] assms(3)
  by auto

lemma delete_agree:
  assumes "invA x" "invB y" "viewA x = viewB y" "fault_free e" "clockA e = clockB e"
  shows "snd (st_DeleteExpiredEphemeral opsA e x) = snd (st_DeleteExpiredEphemeral opsB e y) \<and>
    viewA (fst (st_DeleteExpiredEphemeral opsA e x)) = viewB (fst (st_DeleteExpiredEphemeral opsB e y))"
  using a.Delete_ok [OF assms(1,4)] b.Delete_ok [OF assms(2,4)]
    a.Delete_view [OF assms(1) prod.collapse [symmetric], where e = e, unfolded assms(3,5)]
    b.Delete_view [OF assms(2) prod.collapse [symmetric], where e = e]
  by auto

lemma getByHash_agree:
  assumes "invA x" "invB y" "viewA x = viewB y" "fault_free e" "hash_unique (viewB y)"
  shows "map_sum id (\<lambda>m. (ak_id m, ak_username m, ak_groups m, ak_subscription m)) (snd (st_GetByHash opsA e h x)) =
    map_sum id (\<lambda>m. (ak_id m, ak_username m, ak_groups m, ak_subscription m)) (snd (st_GetByHash opsB e h y))"
proof (cases "\<exists>i k. viewB y i = Some k \<and> k_hash k = h")
  case False
  with a.GetByHash_missing [OF assms(1,4), of h] b.GetByHash_missing [OF assms(2,4), of h] assms(3)
  show ?thesis by auto
next
  case True
  then obtain i k where k: "viewA x i = Some k" "viewB y i = Some k" "h = k_hash k" using assms(3) by auto
  have uA: "hash_unique (viewA x)" using assms(3,5) by simp
  show ?thesis
  proof (cases "liveAt (env_now e) k")
    case True
    obtain m where m: "snd (st_GetByHash opsA e h x) = Inr m" "ak_id m = i"
      using a.GetByHash_complete [OF assms(1,4) uA k(1) True] k(3) by auto
    obtain m' where m': "snd (st_GetByHash opsB e h y) = Inr m'" "ak_id m' = i"
      using b.GetByHash_complete [OF assms(2,4,5) k(2) True] k(3) by auto
    from a.GetByHash_sound [OF assms(1) m(1)] b.GetByHash_sound [OF assms(2) m'(1)] m m' k
    show ?thesis by (auto simp: describes_def)
  next
    case False
    with a.GetByHash_dead [OF assms(1,4) uA k(1)] b.GetByHash_dead [OF assms(2,4,5) k(2)] k(3)
    show ?thesis by simp
  qed
qed

lemma getByHash_view_agree:
  assumes "invA x" "invB y" "viewA x = viewB y" "fault_free e" "hash_unique (viewB y)"
  shows "viewA (fst (st_GetByHash opsA e h x)) = viewB (fst (st_GetByHash opsB e h y))"
  using a.GetByHash_exact [OF assms(1,4), of h] b.GetByHash_exact [OF assms(2,4,5), of h] assms(3,5) by simp

end

interpretation mock_pg: store_pair Mock_ops mock_view mock_inv mock_expiry env_now PG_ops pg_view pg_inv pg_expiry env_dbnow
  by unfold_locales

text \<open>The two stores hold the same keys.\<close>

definition mirrors :: "MockStore \<Rightarrow> PostgresStore \<Rightarrow> bool" where
  "mirrors m p \<longleftrightarrow> mock_inv m \<and> pg_inv p \<and> mock_view m = pg_view p"

lemma mirrors_addKey:
  assumes "mirrors m p" "fault_free e" "h \<noteq> []" "pg_view p i = None"
    and "\<forall>j k. pg_view p j = Some k \<longrightarrow> k_hash k \<noteq> h" "\<not> isZeroTime t" "pg_timestamp p t = t"
  shows "snd (Mock_AddKey e u i h n d g sub (Some t) eph m) = snd (PG_AddKey e u i h n d g sub (Some t) eph p) \<and>
    mirrors (fst (Mock_AddKey e u i h n d g sub (Some t) eph m)) (fst (PG_AddKey e u i h n d g sub (Some t) eph p))"
proof (cases "i \<noteq> [] \<and> n \<noteq> [] \<and> sub \<noteq> []")
  case True
  have inv: "mock_inv m" "pg_inv p" "mock_view m = pg_view p" using assms(1) by (auto simp: mirrors_def)
  have "snd (PG_AddKey e u i h n d g sub (Some t) eph p) = None"
    using True assms(2-5) inv(2) by (intro pg_AddKey_ok) auto
  with Mock_AddKey_law [OF inv(1), of e u i h n d g sub "Some t" eph] True assms(6,7) inv(3)
    pg_AddKey_law [OF inv(2) prod.collapse [symmetric], where e = e and u = u and i = i and h = h and n = n
      and d = d and g = g and sub = sub and x = "Some t" and eph = eph]
  show ?thesis by (simp add: mirrors_def mock_expiry_def pg_expiry_def)
next
  case False
  with assms(1,3) show ?thesis by (auto simp: Mock_AddKey_def PG_AddKey_def)
qed

lemma mirrors_updateLastUsed:
  assumes "mirrors m p" "fault_free e"
  shows "mirrors (fst (Mock_UpdateLastUsed e i m)) (fst (PG_UpdateLastUsed e i p)) \<and>
    snd (PG_UpdateLastUsed e i p) = None \<and>
    snd (Mock_UpdateLastUsed e i m) = (if pg_view p i = None then Some ErrKeyNotFound else None)"
proof -
  have inv: "mock_inv m" "pg_inv p" "mock_view m = pg_view p" using assms(1) by (auto simp: mirrors_def)
  have "snd (PG_UpdateLastUsed e i p) = None"
    using assms(2) by (simp add: PG_UpdateLastUsed_def execContext_def sqlUpdate_def fault_free_def)
  moreover have "snd (Mock_UpdateLastUsed e i m) = (if mock_view m i = None then Some ErrKeyNotFound else None)"
    by (simp add: Mock_UpdateLastUsed_def mock_view_def split: option.splits)
  ultimately show ?thesis
    using Mock_UpdateLastUsed_law [OF inv(1), of e i] pg_UpdateLastUsed_law [OF inv(2), of e i] inv(3)
    by (simp add: mirrors_def)
qed

text \<open>C13: the in-memory store mirrors the PostgreSQL store, as a simulation. Let both hold the same
  keys, with the two clocks equal and no database error. Then \<open>Revoke\<close>, \<open>InvalidateAll\<close>,
  \<open>DeleteExpiredEphemeral\<close> (also with the thirty-minute grace period) and \<open>GetByHash\<close> (by the verdict and
  the identity) give the same answer and leave both with the same keys; so does \<open>AddKey\<close>, its refusals
  of an empty id, name or subscription included, for a non-empty hash, an id and hash that are not
  stored yet and an expiry that the database represents exactly; and \<open>UpdateLastUsed\<close>, except that for
  an id that is not stored the mock reports \<open>ErrKeyNotFound\<close> and PostgreSQL success.\<close>

theorem mock_mirrors_postgres:
  assumes "mirrors m p" "fault_free e" "env_now e = env_dbnow e"
  shows "snd (Mock_Revoke e i m) = snd (PG_Revoke e i p) \<and>
    mirrors (fst (Mock_Revoke e i m)) (fst (PG_Revoke e i p)) \<and>
    snd (Mock_InvalidateAll e u m) = snd (PG_InvalidateAll e u p) \<and>
    mirrors (fst (Mock_InvalidateAll e u m)) (fst (PG_InvalidateAll e u p)) \<and>
    snd (Mock_DeleteExpiredEphemeral e m) = snd (PG_DeleteExpiredEphemeral e p) \<and>
    mirrors (fst (Mock_DeleteExpiredEphemeral e m)) (fst (PG_DeleteExpiredEphemeral e p)) \<and>
    map_sum id (\<lambda>k. (ak_id k, ak_username k, ak_groups k, ak_subscription k)) (snd (Mock_GetByHash e h m)) =
      map_sum id (\<lambda>k. (ak_id k, ak_username k, ak_groups k, ak_subscription k)) (snd (PG_GetByHash e h p)) \<and>
    mirrors (fst (Mock_GetByHash e h m)) (fst (PG_GetByHash e h p)) \<and>
    (h \<noteq> [] \<longrightarrow> pg_view p i = None \<longrightarrow> (\<forall>j k. pg_view p j = Some k \<longrightarrow> k_hash k \<noteq> h) \<longrightarrow>
      \<not> isZeroTime t \<longrightarrow> pg_timestamp p t = t \<longrightarrow>
      snd (Mock_AddKey e u i h n d g sub (Some t) eph m) = snd (PG_AddKey e u i h n d g sub (Some t) eph p) \<and>
      mirrors (fst (Mock_AddKey e u i h n d g sub (Some t) eph m)) (fst (PG_AddKey e u i h n d g sub (Some t) eph p))) \<and>
    mirrors (fst (Mock_UpdateLastUsed e i m)) (fst (PG_UpdateLastUsed e i p)) \<and>
    snd (PG_UpdateLastUsed e i p) = None \<and>
    snd (Mock_UpdateLastUsed e i m) = (if pg_view p i = None then Some ErrKeyNotFound else None)"
proof -
  have inv: "mock_inv m" "pg_inv p" "mock_view m = pg_view p" using assms(1) by (auto simp: mirrors_def)
  note pair = inv assms(2)
  note hash = pg_hash_unique [OF inv(2)]
  have "snd (Mock_Revoke e i m) = snd (PG_Revoke e i p)" "mirrors (fst (Mock_Revoke e i m)) (fst (PG_Revoke e i p))"
    using mock_pg.revoke_agree [OF pair, of i] mock.inv_Revoke [OF inv(1), of e i] pg.inv_Revoke [OF inv(2), of e i]
    by (simp_all add: mirrors_def Mock_ops_def PG_ops_def)
  moreover have "snd (Mock_InvalidateAll e u m) = snd (PG_InvalidateAll e u p)"
    "mirrors (fst (Mock_InvalidateAll e u m)) (fst (PG_InvalidateAll e u p))"
    using mock_pg.invalidateAll_agree [OF pair, of u] mock.inv_InvalidateAll [OF inv(1), of e u]
      pg.inv_InvalidateAll [OF inv(2), of e u]
    by (simp_all add: mirrors_def Mock_ops_def PG_ops_def)
  moreover have "snd (Mock_DeleteExpiredEphemeral e m) = snd (PG_DeleteExpiredEphemeral e p)"
    "mirrors (fst (Mock_DeleteExpiredEphemeral e m)) (fst (PG_DeleteExpiredEphemeral e p))"
    using mock_pg.delete_agree [OF pair assms(3)] mock.inv_Delete [OF inv(1), of e] pg.inv_Delete [OF inv(2), of e]
    by (simp_all add: mirrors_def Mock_ops_def PG_ops_def)
  moreover have "map_sum id (\<lambda>k. (ak_id k, ak_username k, ak_groups k, ak_subscription k)) (snd (Mock_GetByHash e h m)) =
      map_sum id (\<lambda>k. (ak_id k, ak_username k, ak_groups k, ak_subscription k)) (snd (PG_GetByHash e h p))"
    "mirrors (fst (Mock_GetByHash e h m)) (fst (PG_GetByHash e h p))"
    using mock_pg.getByHash_agree [OF pair hash, of h] mock_pg.getByHash_view_agree [OF pair hash, of h]
      mock_lookup.inv_GetByHash [OF inv(1), of e h] pg_lookup.inv_GetByHash [OF inv(2), of e h]
    by (simp_all add: mirrors_def Mock_ops_def PG_ops_def)
  moreover note mirrors_addKey [OF assms(1,2), of h i t u n d g sub eph]
    mirrors_updateLastUsed [OF assms(1,2), of i]
  ultimately show ?thesis by blast
qed

theorem mock_mirrors_postgres_witness:
  "snd (Mock_Revoke (exEnv 0) ''id-1'' exMock) = snd (PG_Revoke (exEnv 0) ''id-1'' exTable) \<and>
   snd (Mock_InvalidateAll (exEnv 0) ''bob'' exMock) = snd (PG_InvalidateAll (exEnv 0) ''bob'' exTable) \<and>
   mirrors (fst (Mock_AddKey (exEnv 0) ''bob'' ''id-3'' ''h3'' ''ci'' [] [] ''gold'' (Some (1 * Hour)) True exMock))
     (fst (PG_AddKey (exEnv 0) ''bob'' ''id-3'' ''h3'' ''ci'' [] [] ''gold'' (Some (1 * Hour)) True exTable))"
proof -
  have "pg_view exTable = mock_view exMock"
    by (rule ext) (auto simp: exMock_facts exTable_def pg_view_def exRow_def newKey_def pg_akey_def)
  then have mir: "mirrors exMock exTable" using exMock_facts(1) exTable_facts(1) by (simp add: mirrors_def)
  have now: "env_now (exEnv 0) = env_dbnow (exEnv 0)" by (simp add: exEnv_def)
  have new: "pg_view exTable ''id-3'' = None" by (simp add: exTable_def pg_view_def exRow_def)
  have "length exHash = 64" by (simp add: exHash_def hashWithSalt_def length_Sum256)
  moreover have "length ''h3'' = 2" by simp
  ultimately have "exHash \<noteq> ''h3''" by force
  then have "\<forall>j k. pg_view exTable j = Some k \<longrightarrow> k_hash k \<noteq> ''h3''"
    by (auto simp: exTable_def pg_view_def exRow_def split: if_splits)
  moreover have "\<not> isZeroTime (1 * Hour)" "pg_timestamp exTable (1 * Hour) = 1 * Hour"
    by (simp_all add: isZeroTime_def exTable_def exPG_def)
  ultimately show ?thesis
    using mock_mirrors_postgres [OF mir exPG_facts(4) [of 0] now, of "''id-1''" "''bob''" "''h3''" 0 "''ci''" "[]" "[]" "''gold''" True]
      mock_mirrors_postgres [OF mir exPG_facts(4) [of 0] now, of "''id-3''" "''bob''" "''h3''" "1 * Hour" "''ci''" "[]" "[]" "''gold''" True] new
    by (simp del: One_nat_def)
qed

end
