(* ===== verification/Identity.thy ===== *)
theory Identity
  imports Go_Prelude
begin

text \<open>
  The identity of a caller: \<open>UserContext\<close> of \<open>maas-api/internal/token/types.go\<close>, the value that the
  middleware of \<open>token/handler.go\<close> leaves in the request context, and the administrator check of
  \<open>auth/sar_admin_checker.go\<close>. The Kubernetes client is third-party: the outcome of creating a
  SubjectAccessReview is a function of the review's specification.
\<close>

record UserContext =
  uc_username :: string
  uc_groups :: "string list"

text \<open>\<open>c.Get("user")\<close> followed by the type assertion: no value, a value of another type (or a nil
  pointer, which the handlers treat the same way), or the user.\<close>

datatype ctx_user = NoUser | WrongType | User UserContext

record SubjectAccessReviewSpec =
  sar_user :: string
  sar_groups :: "string list"
  sar_namespace :: string
  sar_verb :: string
  sar_group :: string
  sar_resource :: string

record SARAdminChecker =
  sac_create :: "SubjectAccessReviewSpec \<Rightarrow> string + bool"
  sac_namespace :: string

text \<open>\<open>NewSARAdminChecker\<close> panics on an empty namespace.\<close>

definition NewSARAdminChecker ::
  "(SubjectAccessReviewSpec \<Rightarrow> string + bool) option \<Rightarrow> string \<Rightarrow> string + SARAdminChecker" where
  "NewSARAdminChecker client namespace =
     (case client of
        None \<Rightarrow> Inl ''client cannot be nil for SARAdminChecker''
      | Some create \<Rightarrow>
          if namespace = [] then Inl ''namespace cannot be empty for SARAdminChecker''
          else Inr \<lparr>sac_create = create, sac_namespace = namespace\<rparr>)"

text \<open>A nil checker or a nil user is \<^const>\<open>None\<close>.\<close>

definition SAR_IsAdmin :: "SARAdminChecker option \<Rightarrow> UserContext option \<Rightarrow> bool" where
  "SAR_IsAdmin s user =
     (case (s, user) of
        (Some c, Some u) \<Rightarrow>
          if uc_username u = [] then False
          else
            (case sac_create c
                    \<lparr>sar_user = uc_username u, sar_groups = uc_groups u, sar_namespace = sac_namespace c,
                     sar_verb = ''create'', sar_group = ''maas.opendatahub.io'',
                     sar_resource = ''maasauthpolicies''\<rparr> of
               Inl _ \<Rightarrow> False
             | Inr allowed \<Rightarrow> allowed)
      | _ \<Rightarrow> False)"

end
