(* ===== verification/Api_Key_Handler.thy ===== *)
theory Api_Key_Handler
  imports Api_Key_Service Identity
begin

text \<open>
  \<open>maas-api/internal/api_keys/handler.go\<close>: the HTTP handlers of the API key endpoints. A request is
  what gin hands to the handler: the outcome of \<open>ShouldBindJSON\<close> (an error text or the bound request),
  the path parameter, the user left in the context; the admin checker is a function of the user. A
  response is its status and body. Every handler is the whole function, with the store state threaded
  through and, for each store call it makes, the world of that call.
\<close>

section \<open>Requests and responses\<close>

record CreateAPIKeyRequest =
  cr_name :: string
  cr_description :: string
  cr_subscription :: string
  cr_expiresIn :: "duration option"
  cr_ephemeral :: bool

record SearchAPIKeysRequest =
  sr_filters :: "SearchFilters option"
  sr_sort :: "SortParams option"
  sr_pagination :: "PaginationParams option"

datatype body =
    ErrorBody string
  | ErrorCodeBody string string
  | KeyBody ApiKey
  | CreatedBody CreateAPIKeyResponse
  | ValidationBody ValidationResult
  | SearchBody (sb_object: string) (sb_data: "ApiKey list") (sb_hasMore: bool)
  | BulkRevokeBody int string
  | CleanupBody int string

type_synonym response = "int \<times> body"

record 's Handler =
  h_service :: "'s Service"
  h_isAdmin :: "UserContext \<Rightarrow> bool"

definition apiKeySubscriptionResolutionErrCode :: string where
  "apiKeySubscriptionResolutionErrCode = ''invalid_subscription''"
definition apiKeySubscriptionResolutionErrMsg :: string where
  "apiKeySubscriptionResolutionErrMsg = ''Unable to resolve a subscription for this API key''"

section \<open>Authorization\<close>

definition getUserContext :: "ctx_user \<Rightarrow> response + UserContext" where
  "getUserContext c =
     (case c of
        NoUser \<Rightarrow> Inl (500, ErrorBody ''User context not found'')
      | WrongType \<Rightarrow> Inl (500, ErrorBody ''Invalid user context type'')
      | User u \<Rightarrow> Inr u)"

definition isAdmin :: "'s Handler \<Rightarrow> UserContext \<Rightarrow> bool" where
  "isAdmin h user = h_isAdmin h user"

definition isAuthorizedForKey :: "'s Handler \<Rightarrow> UserContext \<Rightarrow> string \<Rightarrow> bool" where
  "isAuthorizedForKey h user keyOwner =
     (if uc_username user = keyOwner then True else isAdmin h user)"

section \<open>Handlers\<close>

definition handle_GetAPIKey ::
  "'s Handler \<Rightarrow> store_env \<Rightarrow> ctx_user \<Rightarrow> string \<Rightarrow> 's \<Rightarrow> response" where
  "handle_GetAPIKey h e c tokenID st =
     (if tokenID = [] then (400, ErrorBody ''Token ID required'')
      else
        (case getUserContext c of
           Inl resp \<Rightarrow> resp
         | Inr user \<Rightarrow>
             (case GetAPIKey (h_service h) e tokenID st of
                Inl err \<Rightarrow>
                  if err = ErrKeyNotFound then (404, ErrorBody ''API key not found'')
                  else (500, ErrorBody ''Failed to retrieve API key'')
              | Inr tok \<Rightarrow>
                  if \<not> isAuthorizedForKey h user (ak_username tok)
                  then (404, ErrorBody ''API key not found'')
                  else (200, KeyBody tok))))"

definition createErrorText :: "CreateError \<Rightarrow> string" where
  "createErrorText err =
     (case err of
        ErrExpirationNotPositive \<Rightarrow> ''expiration must be positive''
      | EphemeralExceedsMax d \<Rightarrow> 
          ''ephemeral key expiration ('' @ durationString d @
          '') cannot exceed 1 hour: expiration exceeds maximum allowed''
      | RegularExceedsMax d m \<Rightarrow> 
          ''requested expiration ('' @ durationString d @ '') exceeds maximum allowed ('' @ showInt m @
          '' days): expiration exceeds maximum allowed''
      | _ \<Rightarrow> [])"

definition createErrorResponse :: "CreateError \<Rightarrow> response" where
  "createErrorResponse err =
     (case err of
        ErrExpirationNotPositive \<Rightarrow> (400, ErrorBody (createErrorText err))
      | EphemeralExceedsMax _ \<Rightarrow> (400, ErrorBody (createErrorText err))
      | RegularExceedsMax _ _ \<Rightarrow> (400, ErrorBody (createErrorText err))
      | SelectFailed (SubscriptionNotFoundError _) \<Rightarrow>
          (400, ErrorCodeBody apiKeySubscriptionResolutionErrMsg apiKeySubscriptionResolutionErrCode)
      | SelectFailed (AccessDeniedError _) \<Rightarrow>
          (400, ErrorCodeBody apiKeySubscriptionResolutionErrMsg apiKeySubscriptionResolutionErrCode)
      | SelectFailed NoSubscriptionError \<Rightarrow>
          (400, ErrorCodeBody apiKeySubscriptionResolutionErrMsg apiKeySubscriptionResolutionErrCode)
      | SelectFailed (ModelUnhealthyError _ phase _ message) \<Rightarrow>
          (if phase = ''Failed'' then 403 else 400, ErrorCodeBody message ''subscription_not_ready'')
      | _ \<Rightarrow> (500, ErrorBody ''Failed to create API key''))"

text \<open>\<open>nameNow\<close> is the reading of the clock that names an unnamed ephemeral key, in nanoseconds since
  the Unix epoch.\<close>

definition handle_CreateAPIKey ::
  "'s Handler \<Rightarrow> create_env \<Rightarrow> int \<Rightarrow> string + CreateAPIKeyRequest \<Rightarrow> ctx_user \<Rightarrow> 's \<Rightarrow> 's \<times> response" where
  "handle_CreateAPIKey h e nameNow bound c st =
     (case bound of
        Inl err \<Rightarrow> (st, (400, ErrorBody err))
      | Inr req \<Rightarrow>
          (case getUserContext c of
             Inl resp \<Rightarrow> (st, resp)
           | Inr user \<Rightarrow>
               if \<not> cr_ephemeral req \<and> cr_name req = []
               then (st, (400, ErrorBody ''name is required for non-ephemeral keys''))
               else
                 let name = (if cr_ephemeral req \<and> cr_name req = []
                             then ''ephemeral-'' @ showInt nameNow else cr_name req);
                     expiresIn = (case cr_expiresIn req of
                                    Some d \<Rightarrow> Some d
                                  | None \<Rightarrow> if cr_ephemeral req then Some (1 * Hour) else None)
                 in (case CreateAPIKey (h_service h) e (uc_username user) (uc_groups user) name
                            (cr_description req) expiresIn (cr_ephemeral req)
                            (trimSpace (cr_subscription req)) st of
                       (st', Inl err) \<Rightarrow> (st', createErrorResponse err)
                     | (st', Inr result) \<Rightarrow> (st', (201, CreatedBody result)))))"

definition handle_ValidateAPIKey ::
  "'s Handler \<Rightarrow> store_env \<Rightarrow> string + string \<Rightarrow> 's \<Rightarrow> 's \<times> string option \<times> response" where
  "handle_ValidateAPIKey h e bound st =
     (case bound of
        Inl _ \<Rightarrow> (st, None, (400, ErrorBody ''key is required''))
      | Inr key \<Rightarrow>
          (case ValidateAPIKey (h_service h) e key st of
             (st', pending, Inl _) \<Rightarrow> (st', pending, (500, ErrorBody ''validation failed''))
           | (st', pending, Inr result) \<Rightarrow> (st', pending, (200, ValidationBody result))))"

definition handle_RevokeAPIKey ::
  "'s Handler \<Rightarrow> store_env \<Rightarrow> store_env \<Rightarrow> store_env \<Rightarrow> ctx_user \<Rightarrow> string \<Rightarrow> 's \<Rightarrow> 's \<times> response" where
  "handle_RevokeAPIKey h e1 e2 e3 c keyID st =
     (if keyID = [] then (st, (400, ErrorBody ''API key ID required''))
      else
        (case getUserContext c of
           Inl resp \<Rightarrow> (st, resp)
         | Inr user \<Rightarrow>
             (case GetAPIKey (h_service h) e1 keyID st of
                Inl err \<Rightarrow>
                  (st, if err = ErrKeyNotFound then (404, ErrorBody ''API key not found'')
                       else (500, ErrorBody ''Failed to retrieve API key''))
              | Inr keyMetadata \<Rightarrow>
                  if \<not> isAuthorizedForKey h user (ak_username keyMetadata)
                  then (st, (404, ErrorBody ''API key not found''))
                  else
                    (case RevokeAPIKey (h_service h) e2 keyID st of
                       (st', Some err) \<Rightarrow>
                         (st', if err = ErrKeyNotFound then (404, ErrorBody ''API key not found'')
                               else (500, ErrorBody ''Failed to revoke API key''))
                     | (st', None) \<Rightarrow>
                         (case GetAPIKey (h_service h) e3 keyID st' of
                            Inl _ \<Rightarrow> (st', (500, ErrorBody ''Key revoked but failed to retrieve metadata''))
                          | Inr revokedKey \<Rightarrow> (st', (200, KeyBody revokedKey)))))))"

definition emptyFilters :: SearchFilters where
  "emptyFilters =
     \<lparr>sf_username = [], sf_status = [], sf_createdAfter = None, sf_createdBefore = None,
      sf_expiresAfter = None, sf_expiresBefore = None, sf_lastUsedAfter = None, sf_nameContains = None,
      sf_descriptionContains = None, sf_hasExpiration = None, sf_hasBeenUsed = None,
      sf_includeEphemeral = None\<rparr>"

text \<open>The checks of \<open>SearchAPIKeys\<close> after the target user is known: sort field, sort order
  (normalised), page.\<close>

definition searchParams ::
  "SortParams \<Rightarrow> PaginationParams \<Rightarrow> response + SortParams \<times> PaginationParams" where
  "searchParams sortParams pagination =
     (if sp_by sortParams \<noteq> [] \<and> \<not> List.member ValidSortFields (sp_by sortParams)
      then Inl (400, ErrorBody ''invalid sort.by: must be one of: created_at, expires_at, last_used_at, name'')
      else
        let orderLower = toLower (trimSpace (sp_order sortParams))
        in if sp_order sortParams \<noteq> [] \<and> \<not> List.member ValidSortOrders orderLower
           then Inl (400, ErrorBody ''invalid sort.order: must be asc or desc'')
           else
             let sort1 = (if sp_order sortParams \<noteq> [] then sortParams\<lparr>sp_order := orderLower\<rparr> else sortParams)
             in if pp_limit pagination < 1
                then Inl (400, ErrorBody ''pagination.limit must be at least 1'')
                else
                  let page1 = (if pp_limit pagination > MaxLimit then pagination\<lparr>pp_limit := MaxLimit\<rparr> else pagination)
                  in if pp_offset page1 < 0
                     then Inl (400, ErrorBody ''pagination.offset must be non-negative'')
                     else Inr (sort1, page1))"

definition handle_SearchAPIKeys ::
  "'s Handler \<Rightarrow> store_env \<Rightarrow> string + SearchAPIKeysRequest \<Rightarrow> ctx_user \<Rightarrow> 's \<Rightarrow> response" where
  "handle_SearchAPIKeys h e bound c st =
     (case bound of
        Inl err \<Rightarrow> (400, ErrorBody err)
      | Inr req \<Rightarrow>
          (case getUserContext c of
             Inl resp \<Rightarrow> resp
           | Inr user \<Rightarrow>
               let filters = (case sr_filters req of None \<Rightarrow> emptyFilters | Some f \<Rightarrow> f);
                   sortParams = (case sr_sort req of
                                   None \<Rightarrow> \<lparr>sp_by = DefaultSortBy, sp_order = DefaultSortOrder\<rparr> | Some x \<Rightarrow> x);
                   pagination = (case sr_pagination req of
                                   None \<Rightarrow> \<lparr>pp_limit = DefaultLimit, pp_offset = 0\<rparr> | Some p \<Rightarrow> p)
               in (case find (\<lambda>status. \<not> List.member ValidStatuses (trimSpace status)) (sf_status filters) of
                     Some status \<Rightarrow>
                       (400, ErrorBody (''invalid status '' @ [CHR 0x27] @ status @ [CHR 0x27] @ '': must be active, revoked, or expired''))
                   | None \<Rightarrow>
                       let admin = isAdmin h user; targetUsername = sf_username filters
                       in if \<not> admin \<and> targetUsername \<noteq> [] \<and> targetUsername \<noteq> uc_username user
                          then (403, ErrorBody ''non-admin users can only search their own API keys'')
                          else
                            let target = (if \<not> admin then uc_username user else targetUsername)
                            in (case searchParams sortParams pagination of
                                  Inl resp \<Rightarrow> resp
                                | Inr (sort1, page1) \<Rightarrow>
                                    (case Search (h_service h) e target filters sort1 page1 st of
                                       Inl _ \<Rightarrow> (500, ErrorBody ''Failed to search API keys'')
                                     | Inr result \<Rightarrow>
                                         (200, SearchBody ''list'' (pr_keys result) (pr_hasMore result)))))))"

definition handle_Cleanup :: "'s Handler \<Rightarrow> store_env \<Rightarrow> 's \<Rightarrow> 's \<times> response" where
  "handle_Cleanup h e st =
     (case CleanupExpiredEphemeral (h_service h) e st of
        (st', Inl _) \<Rightarrow> (st', (500, ErrorBody ''Failed to cleanup expired ephemeral keys''))
      | (st', Inr n) \<Rightarrow>
          (st', (200, CleanupBody n (''Successfully deleted '' @ showInt n @ '' expired ephemeral key(s)''))))"

text \<open>The bound request is the user name, which the binding requires to be present and non-empty.\<close>

definition handle_BulkRevoke ::
  "'s Handler \<Rightarrow> store_env \<Rightarrow> string + string \<Rightarrow> ctx_user \<Rightarrow> 's \<Rightarrow> 's \<times> response" where
  "handle_BulkRevoke h e bound c st =
     (case bound of
        Inl err \<Rightarrow> (st, (400, ErrorBody err))
      | Inr target \<Rightarrow>
          (case getUserContext c of
             Inl resp \<Rightarrow> (st, resp)
           | Inr user \<Rightarrow>
               if target \<noteq> uc_username user \<and> \<not> isAdmin h user
               then (st, (403, ErrorBody ''Access denied: you can only bulk revoke your own API keys''))
               else
                 (case BulkRevokeAPIKeys (h_service h) e target st of
                    (st', Inl _) \<Rightarrow> (st', (500, ErrorBody ''Failed to revoke API keys''))
                  | (st', Inr n) \<Rightarrow>
                      (st', (200, BulkRevokeBody n (''Successfully revoked '' @ showInt n @
                               '' active API key(s) for user '' @ target))))))"

section \<open>Properties\<close>

lemma GetAPIKey_pg:
  assumes "pg_inv st" "svc_store s = PG_ops"
  shows "GetAPIKey s e i st = Inr m \<Longrightarrow> \<exists>k. pg_view st i = Some k \<and> describes m i k"
    and "fault_free e \<Longrightarrow> pg_view st i = None \<Longrightarrow> GetAPIKey s e i st = Inl ErrKeyNotFound"
    and "fault_free e \<Longrightarrow> pg_view st i = Some k \<Longrightarrow> \<exists>m. GetAPIKey s e i st = Inr m \<and> ak_username m = k_user k"
  using pg_lookup.Get_sound [OF assms(1), of e i] pg_lookup.Get_missing [OF assms(1), of e i]
    pg_lookup.Get_complete [OF assms(1), of e i] assms(2)
  by (auto simp: GetAPIKey_def describes_def)

text \<open>C27: no key enumeration. For a caller who is no administrator, reading or revoking a key of
  another user gives exactly the response that a key id that does not exist gives, and revoking
  leaves the store as it was.\<close>

theorem foreign_key_looks_missing:
  assumes "pg_inv st" "svc_store (h_service h) = PG_ops" "fault_free e1"
    and "pg_view st i = Some k" "k_user k \<noteq> uc_username u" "\<not> h_isAdmin h u"
    and "i \<noteq> []" "j \<noteq> []" "pg_view st j = None"
  shows "handle_GetAPIKey h e1 (User u) i st = handle_GetAPIKey h e1 (User u) j st \<and>
    handle_RevokeAPIKey h e1 e2 e3 (User u) i st = handle_RevokeAPIKey h e1 e2 e3 (User u) j st \<and>
    fst (handle_RevokeAPIKey h e1 e2 e3 (User u) i st) = st"
proof -
  obtain m where m: "GetAPIKey (h_service h) e1 i st = Inr m" "ak_username m = k_user k"
    using GetAPIKey_pg(3) [OF assms(1-4)] by auto
  have j: "GetAPIKey (h_service h) e1 j st = Inl ErrKeyNotFound"
    using GetAPIKey_pg(2) [OF assms(1-3,9)] .
  have "\<not> isAuthorizedForKey h u (ak_username m)"
    using m(2) assms(5,6) by (simp add: isAuthorizedForKey_def isAdmin_def)
  with m j assms(7,8) show ?thesis
    by (simp add: handle_GetAPIKey_def handle_RevokeAPIKey_def getUserContext_def)
qed

text \<open>C8: authorization. A key's metadata is returned, and a key is revoked, only for its owner or an
  administrator; a revocation request changes at most the status of the one key it names.\<close>

theorem key_access_authorized:
  assumes "pg_inv st" "svc_store (h_service h) = PG_ops"
  shows "(handle_GetAPIKey h e1 (User u) i st = (200, KeyBody m) \<longrightarrow>
      (\<exists>k. pg_view st i = Some k \<and> (k_user k = uc_username u \<or> h_isAdmin h u))) \<and>
    (pg_view (fst (handle_RevokeAPIKey h e1 e2 e3 (User u) i st)) \<noteq> pg_view st \<longrightarrow>
      (\<exists>k. pg_view st i = Some k \<and> k_status k = StatusActive \<and> (k_user k = uc_username u \<or> h_isAdmin h u) \<and>
        pg_view (fst (handle_RevokeAPIKey h e1 e2 e3 (User u) i st)) =
          (pg_view st)(i \<mapsto> k\<lparr>k_status := StatusRevoked\<rparr>)))"
proof -
  have auth: "\<exists>k. pg_view st i = Some k \<and> (k_user k = uc_username u \<or> h_isAdmin h u)"
    if "GetAPIKey (h_service h) e1 i st = Inr m" "isAuthorizedForKey h u (ak_username m)" for m
    using GetAPIKey_pg(1) [OF assms that(1)] that(2)
    by (auto simp: describes_def isAuthorizedForKey_def isAdmin_def split: if_splits)
  have "handle_GetAPIKey h e1 (User u) i st = (200, KeyBody m) \<longrightarrow>
      (\<exists>k. pg_view st i = Some k \<and> (k_user k = uc_username u \<or> h_isAdmin h u))"
    using auth by (auto simp: handle_GetAPIKey_def getUserContext_def split: if_splits sum.splits)
  moreover have "\<exists>k. pg_view st i = Some k \<and> k_status k = StatusActive \<and> (k_user k = uc_username u \<or> h_isAdmin h u) \<and>
        pg_view (fst (handle_RevokeAPIKey h e1 e2 e3 (User u) i st)) = (pg_view st)(i \<mapsto> k\<lparr>k_status := StatusRevoked\<rparr>)"
    if ch: "pg_view (fst (handle_RevokeAPIKey h e1 e2 e3 (User u) i st)) \<noteq> pg_view st"
  proof -
    let ?rev = "RevokeAPIKey (h_service h) e2 i st"
    obtain m where m: "GetAPIKey (h_service h) e1 i st = Inr m" "isAuthorizedForKey h u (ak_username m)"
      and st': "fst (handle_RevokeAPIKey h e1 e2 e3 (User u) i st) = fst ?rev"
      using ch
      by (auto simp: handle_RevokeAPIKey_def getUserContext_def split: if_splits sum.splits prod.splits option.splits)
    have "st_Revoke PG_ops e2 i st = (fst ?rev, snd ?rev)"
      using assms(2) by (simp add: RevokeAPIKey_def)
    from pg.Revoke_view [OF assms(1) this] ch st' auth [OF m] show ?thesis by auto
  qed
  ultimately show ?thesis by blast
qed

definition exHandler :: "PostgresStore Handler" where
  "exHandler = \<lparr>h_service = exService, h_isAdmin = (\<lambda>u. uc_username u = ''root'')\<rparr>"

definition exUser :: "string \<Rightarrow> UserContext" where
  "exUser n = \<lparr>uc_username = n, uc_groups = [''team'']\<rparr>"

lemma exHandler_facts [simp]: "svc_store (h_service exHandler) = PG_ops"
    "h_isAdmin exHandler u \<longleftrightarrow> uc_username u = ''root''" "uc_username (exUser n) = n"
  by (simp_all add: exHandler_def exService_def exUser_def)

theorem foreign_key_looks_missing_witness:
  "handle_GetAPIKey exHandler (exEnv 0) (User (exUser ''alice'')) ''id-2'' exTable =
     handle_GetAPIKey exHandler (exEnv 0) (User (exUser ''alice'')) ''id-9'' exTable \<and>
   fst (handle_RevokeAPIKey exHandler (exEnv 0) (exEnv 0) (exEnv 0) (User (exUser ''alice'')) ''id-2'' exTable) = exTable"
proof -
  have missing: "pg_view exTable ''id-9'' = None" by (simp add: exTable_def pg_view_def exRow_def)
  have "k_user (pg_akey (exRow ''id-2'' ''bob'' exHash)) \<noteq> uc_username (exUser ''alice'')"
    by (simp add: exRow_def)
  moreover have "\<not> h_isAdmin exHandler (exUser ''alice'')" by simp
  ultimately show ?thesis
    using foreign_key_looks_missing [OF exTable_facts(1) exHandler_facts(1) exPG_facts(4) [of 0] exTable_facts(3)
        _ _ _ _ missing, where ?u = "exUser ''alice''" and ?e2.0 = "exEnv 0" and ?e3.0 = "exEnv 0"]
    by blast
qed

theorem key_access_authorized_witness:
  "\<exists>k. pg_view exTable ''id-2'' = Some k \<and>
     (k_user k = uc_username (exUser ''bob'') \<or> h_isAdmin exHandler (exUser ''bob''))"
proof -
  obtain m where m: "GetAPIKey (h_service exHandler) (exEnv 0) ''id-2'' exTable = Inr m" "ak_username m = ''bob''"
    using GetAPIKey_pg(3) [OF exTable_facts(1) exHandler_facts(1) exPG_facts(4) exTable_facts(3)]
    by (auto simp: exRow_def)
  then have "handle_GetAPIKey exHandler (exEnv 0) (User (exUser ''bob'')) ''id-2'' exTable = (200, KeyBody m)"
    by (simp add: handle_GetAPIKey_def getUserContext_def isAuthorizedForKey_def)
  with key_access_authorized [OF exTable_facts(1) exHandler_facts(1)] show ?thesis by blast
qed

lemma searchParams_ok:
  "searchParams so p = Inr (so', p') \<Longrightarrow>
     sp_by so' = sp_by so \<and> 1 \<le> pp_limit p' \<and> pp_limit p' \<le> MaxLimit \<and> 0 \<le> pp_offset p'"
  by (auto simp: searchParams_def Let_def MaxLimit_def split: if_splits)

lemma searchParams_error: "searchParams so p \<noteq> Inl (200, b)"
  by (auto simp: searchParams_def Let_def)

text \<open>Scope of a search. A named caller who is no administrator is only ever shown keys of his own,
  each with the data of a row of the store, ephemeral keys only on request, and nobody is shown more
  than a hundred keys at a time, whatever user name, filters, order and page the request asks for.\<close>

theorem search_own_keys_only:
  assumes "pg_inv st" "svc_store (h_service h) = PG_ops"
    and "handle_SearchAPIKeys h e (Inr req) (User u) st = (200, SearchBody obj keys hasMore)"
    and "uc_username u \<noteq> []"
  shows "int (length keys) \<le> MaxLimit \<and>
    (\<forall>m \<in> set keys. \<exists>k. pg_view st (ak_id m) = Some k \<and> describes m (ak_id m) k \<and>
       (k_user k = uc_username u \<or> h_isAdmin h u) \<and>
       (k_ephemeral k \<longrightarrow> (\<exists>f. sr_filters req = Some f \<and> sf_includeEphemeral f = Some True)))"
proof -
  let ?f = "case sr_filters req of None \<Rightarrow> emptyFilters | Some f \<Rightarrow> f"
  from assms(3) obtain t so p so' p' pr where
    sp: "searchParams so p = Inr (so', p')"
    and srch: "Search (h_service h) e t ?f so' p' st = Inr pr"
    and res: "keys = pr_keys pr" and t: "\<not> h_isAdmin h u \<longrightarrow> t = uc_username u"
    by (auto simp: handle_SearchAPIKeys_def getUserContext_def isAdmin_def Let_def searchParams_error
        split: option.splits if_splits sum.splits)
  from srch assms(2) have "st_Search PG_ops e t ?f so' p' st = Inr pr"
    by (simp add: Search_def)
  note sound = pg.Search_sound [OF assms(1) this, folded res]
  have "int (length keys) \<le> MaxLimit" using sound searchParams_ok [OF sp] by auto
  moreover have "\<exists>k. pg_view st (ak_id m) = Some k \<and> describes m (ak_id m) k \<and>
       (k_user k = uc_username u \<or> h_isAdmin h u) \<and> (k_ephemeral k \<longrightarrow> sf_includeEphemeral ?f = Some True)"
    if "m \<in> set keys" for m
    using sound that t assms(4) by metis
  moreover have "sf_includeEphemeral ?f = Some True \<Longrightarrow> \<exists>f. sr_filters req = Some f \<and> sf_includeEphemeral f = Some True"
    by (auto simp: emptyFilters_def split: option.splits)
  ultimately show ?thesis by meson
qed

definition exSearchRequest :: SearchAPIKeysRequest where
  "exSearchRequest = \<lparr>sr_filters = None, sr_sort = None, sr_pagination = Some \<lparr>pp_limit = 5000, pp_offset = 0\<rparr>\<rparr>"

text \<open>Alice asks for five thousand keys and gets her three, newest first.\<close>

theorem search_own_keys_only_witness:
  "\<exists>keys. handle_SearchAPIKeys exHandler (exEnv 0) (Inr exSearchRequest) (User (exUser ''alice'')) exSearchStore =
       (200, SearchBody ''list'' keys False) \<and>
     map ak_id keys = [''a'', ''b'', ''c''] \<and> int (length keys) \<le> MaxLimit \<and>
     (\<forall>m \<in> set keys. \<exists>k. pg_view exSearchStore (ak_id m) = Some k \<and> k_user k = ''alice'')"
proof -
  let ?r = "handle_SearchAPIKeys exHandler (exEnv 0) (Inr exSearchRequest) (User (exUser ''alice'')) exSearchStore"
  have "(fst ?r, case snd ?r of SearchBody obj keys hasMore \<Rightarrow> Some (obj, map ak_id keys, hasMore) | _ \<Rightarrow> None) =
      (200, Some (''list'', [''a'', ''b'', ''c''], False))" by code_simp
  then obtain keys where r: "?r = (200, SearchBody ''list'' keys False)" "map ak_id keys = [''a'', ''b'', ''c'']"
    by (cases ?r) (auto split: body.splits)
  have inv: "pg_inv exSearchStore"
    by (simp add: exSearchStore_def pg_inv_def rows_ok_def exSearchRow_def)
  from search_own_keys_only [OF inv exHandler_facts(1) r(1)] r show ?thesis by auto
qed

text \<open>Bulk revocation is for the owner or an administrator. The request changes the store only if
  the caller names himself or is an administrator; it then revokes exactly the active keys of the
  named user and reports their number. Everybody else gets status 403.\<close>

theorem bulk_revoke_authorized:
  assumes "pg_inv st" "svc_store (h_service h) = PG_ops" "fault_free e" "t \<noteq> []"
  shows "if t = uc_username u \<or> h_isAdmin h u
    then \<exists>st'. handle_BulkRevoke h e (Inr t) (User u) st =
        (st', (200, BulkRevokeBody
           (int (card {i. \<exists>k. pg_view st i = Some k \<and> k_user k = t \<and> k_status k = StatusActive}))
           (''Successfully revoked '' @
             showInt (int (card {i. \<exists>k. pg_view st i = Some k \<and> k_user k = t \<and> k_status k = StatusActive})) @
             '' active API key(s) for user '' @ t))) \<and>
      pg_view st' = revokeAllOf t (pg_view st)
    else fst (handle_BulkRevoke h e (Inr t) (User u) st) = st \<and>
      fst (snd (handle_BulkRevoke h e (Inr t) (User u) st)) = 403"
proof (cases "t = uc_username u \<or> h_isAdmin h u")
  case True
  obtain st' q where q: "st_InvalidateAll PG_ops e t st = (st', q)" by fastforce
  with pg.InvalidateAll_ok [OF assms(1,3), of t] obtain n where n: "q = Inr n" by auto
  from pg.InvalidateAll_view [OF assms(1) q] n
  have v: "pg_view st' = revokeAllOf t (pg_view st)"
    "n = int (card {i. \<exists>k. pg_view st i = Some k \<and> k_user k = t \<and> k_status k = StatusActive})" by auto
  have "BulkRevokeAPIKeys (h_service h) e t st = (st', Inr n)"
    using q n assms(2,4) by (simp add: BulkRevokeAPIKeys_def)
  with True v show ?thesis
    by (auto simp: handle_BulkRevoke_def getUserContext_def isAdmin_def)
next
  case False
  then show ?thesis by (simp add: handle_BulkRevoke_def getUserContext_def isAdmin_def)
qed

theorem bulk_revoke_authorized_witness:
  "fst (snd (handle_BulkRevoke exHandler (exEnv 0) (Inr ''bob'') (User (exUser ''alice'')) exTable)) = 403 \<and>
   (\<exists>st'. fst (handle_BulkRevoke exHandler (exEnv 0) (Inr ''bob'') (User (exUser ''root'')) exTable) = st' \<and>
      pg_view st' = revokeAllOf ''bob'' (pg_view exTable))"
  using bulk_revoke_authorized [OF exTable_facts(1) exHandler_facts(1) exPG_facts(4), of "''bob''" "exUser ''alice''" 0]
    bulk_revoke_authorized [OF exTable_facts(1) exHandler_facts(1) exPG_facts(4), of "''bob''" "exUser ''root''" 0]
  by auto

end
