(* ===== verification/Go_Json.thy ===== *)
theory Go_Json
  imports Go_Prelude
begin

text \<open>
  The part of \<open>encoding/json\<close> the sources use: encoding a slice of strings, and decoding into a
  \<open>[]string\<close>. Decoding follows the standard library: white space between tokens, the escapes with
  surrogate pairs, bytes that are not UTF-8 replaced by U+FFFD, \<open>null\<close> as the zero value. Inputs of any
  other shape are errors; which error is not distinguished, as the callers do not look.
\<close>

section \<open>Encoding\<close>

text \<open>\<open>json.Marshal\<close> of a slice of strings: control characters, quotes, backslashes and \<open><\<close>, \<open>>\<close>, \<open>&\<close> are
  escaped. (The replacement of invalid UTF-8 and of U+2028 and U+2029 is not modelled: subjects are
  Kubernetes strings of valid UTF-8.)\<close>

definition lowerHex :: "nat \<Rightarrow> char" where
  "lowerHex n = ''0123456789abcdef'' ! n"

definition jsonChar :: "char \<Rightarrow> string" where
  "jsonChar ch =
     (if ch = CHR 0x22 \<or> ch = CHR 0x5C then [CHR 0x5C, ch]
      else if ch = CHR 0x08 then [CHR 0x5C, CHR ''b'']
      else if ch = CHR 0x0C then [CHR 0x5C, CHR ''f'']
      else if ch = CHR 0x0A then [CHR 0x5C, CHR ''n'']
      else if ch = CHR 0x0D then [CHR 0x5C, CHR ''r'']
      else if ch = CHR 0x09 then [CHR 0x5C, CHR ''t'']
      else if of_char ch < (32 :: nat) \<or> ch = CHR ''<'' \<or> ch = CHR ''>'' \<or> ch = CHR ''&''
      then [CHR 0x5C, CHR ''u'', CHR ''0'', CHR ''0'', lowerHex (of_char ch div 16), lowerHex (of_char ch mod 16)]
      else [ch])"

definition jsonString :: "string \<Rightarrow> string" where
  "jsonString s = CHR 0x22 # concat (map jsonChar s) @ [CHR 0x22]"

definition jsonStrings :: "string list \<Rightarrow> string" where
  "jsonStrings xs = CHR ''['' # joinStrings '','' (map jsonString xs) @ '']''"

section \<open>UTF-8\<close>

definition byteIn :: "nat \<Rightarrow> nat \<Rightarrow> char \<Rightarrow> bool" where
  "byteIn lo hi ch = (lo \<le> of_char ch \<and> of_char ch \<le> hi)"

text \<open>The range of the second byte of a rune, given its first.\<close>

definition secondByte :: "char \<Rightarrow> char \<Rightarrow> bool" where
  "secondByte a =
     byteIn (if a = CHR 0xE0 then 0xA0 else if a = CHR 0xF0 then 0x90 else 0x80)
       (if a = CHR 0xED then 0x9F else if a = CHR 0xF4 then 0x8F else 0xBF)"

text \<open>The number of bytes of a rune, given its first.\<close>

definition leadWidth :: "char \<Rightarrow> nat" where
  "leadWidth a =
     (if byteIn 0 0x7F a then 1 else if byteIn 0xC2 0xDF a then 2 else if byteIn 0xE0 0xEF a then 3
      else if byteIn 0xF0 0xF4 a then 4 else 0)"

definition continues :: "char \<Rightarrow> string \<Rightarrow> bool" where
  "continues a bs = (case bs of [] \<Rightarrow> True | b # cs \<Rightarrow> secondByte a b \<and> list_all (byteIn 0x80 0xBF) cs)"

text \<open>The number of bytes of the rune at the head (\<open>utf8.DecodeRune\<close>), 0 when it is not well-formed.\<close>

definition runeWidth :: "string \<Rightarrow> nat" where
  "runeWidth s =
     (case s of
        [] \<Rightarrow> 0
      | a # r \<Rightarrow>
          let bs = take (leadWidth a - 1) r
          in if length bs = leadWidth a - 1 \<and> continues a bs then leadWidth a else 0)"

fun validUtf8 :: "string \<Rightarrow> bool" where
  "validUtf8 [] = True"
| "validUtf8 (ch # cs) = (runeWidth (ch # cs) \<noteq> 0 \<and> validUtf8 (drop (runeWidth (ch # cs) - 1) cs))"

text \<open>\<open>utf8.AppendRune\<close> on a code point that is not a surrogate.\<close>

definition encodeRune :: "nat \<Rightarrow> string" where
  "encodeRune n =
     (if n < 0x80 then [char_of n]
      else if n < 0x800 then [char_of (0xC0 + n div 0x40), char_of (0x80 + n mod 0x40)]
      else if n < 0x10000 then
        [char_of (0xE0 + n div 0x1000), char_of (0x80 + n div 0x40 mod 0x40), char_of (0x80 + n mod 0x40)]
      else
        [char_of (0xF0 + n div 0x40000), char_of (0x80 + n div 0x1000 mod 0x40),
         char_of (0x80 + n div 0x40 mod 0x40), char_of (0x80 + n mod 0x40)])"

section \<open>Decoding\<close>

definition hexDigit :: "char \<Rightarrow> nat option" where
  "hexDigit ch =
     (let n = of_char ch
      in if 48 \<le> n \<and> n \<le> 57 then Some (n - 48)
         else if 97 \<le> n \<and> n \<le> 102 then Some (n - 87)
         else if 65 \<le> n \<and> n \<le> 70 then Some (n - 55) else None)"

fun hex4 :: "string \<Rightarrow> nat option" where
  "hex4 (a # b # c # d # _) =
     (case (hexDigit a, hexDigit b, hexDigit c, hexDigit d) of
        (Some w, Some x, Some y, Some z) \<Rightarrow> Some (((w * 16 + x) * 16 + y) * 16 + z)
      | _ \<Rightarrow> None)"
| "hex4 _ = None"

text \<open>The rune of a high surrogate followed by a low one, given as an escape at the head of the text.\<close>

definition surrogatePair :: "nat \<Rightarrow> string \<Rightarrow> nat option" where
  "surrogatePair n s =
     (case s of
        a # b # r \<Rightarrow>
          if 0xD800 \<le> n \<and> n < 0xDC00 \<and> a = CHR 0x5C \<and> b = CHR ''u'' then
            (case hex4 r of
               Some m \<Rightarrow> if 0xDC00 \<le> m \<and> m < 0xE000 then Some (0x10000 + (n - 0xD800) * 0x400 + (m - 0xDC00)) else None
             | None \<Rightarrow> None)
          else None
      | _ \<Rightarrow> None)"

definition escapeByte :: "char \<Rightarrow> char option" where
  "escapeByte e =
     (if e = CHR 0x22 \<or> e = CHR 0x5C \<or> e = CHR ''/'' then Some e
      else if e = CHR ''b'' then Some (CHR 0x08) else if e = CHR ''f'' then Some (CHR 0x0C)
      else if e = CHR ''n'' then Some (CHR 0x0A) else if e = CHR ''r'' then Some (CHR 0x0D)
      else if e = CHR ''t'' then Some (CHR 0x09) else None)"

definition prepend :: "string \<Rightarrow> (string \<times> string) option \<Rightarrow> (string \<times> string) option" where
  "prepend x r = map_option (\<lambda>(s, t). (x @ s, t)) r"

text \<open>The rest of a string literal after its opening quote, and what follows it.\<close>

fun unquote :: "string \<Rightarrow> (string \<times> string) option" where
  "unquote [] = None"
| "unquote (ch # cs) =
     (if ch = CHR 0x22 then Some ([], cs)
      else if ch = CHR 0x5C then
        (case cs of
           [] \<Rightarrow> None
         | e # rest \<Rightarrow>
             if e = CHR ''u'' then
               (case hex4 rest of
                  None \<Rightarrow> None
                | Some n \<Rightarrow>
                    (case surrogatePair n (drop 4 rest) of
                       Some m \<Rightarrow> prepend (encodeRune m) (unquote (drop 10 rest))
                     | None \<Rightarrow> prepend (encodeRune (if 0xD800 \<le> n \<and> n < 0xE000 then 0xFFFD else n)) (unquote (drop 4 rest))))
             else
               (case escapeByte e of
                  None \<Rightarrow> None
                | Some b \<Rightarrow> prepend [b] (unquote rest)))
      else if of_char ch < (0x20 :: nat) then None
      else if runeWidth (ch # cs) = 0 then prepend (encodeRune 0xFFFD) (unquote cs)
      else prepend (take (runeWidth (ch # cs)) (ch # cs)) (unquote (drop (runeWidth (ch # cs) - 1) cs)))"

lemma unquote_shorter: "unquote s = Some (x, r) \<Longrightarrow> length r < length s"
proof (induction s arbitrary: x r rule: unquote.induct)
  case (2 ch cs)
  show ?case
    using "2.prems" "2.IH"
    by (auto simp: prepend_def split: if_splits list.splits option.splits prod.splits) (fastforce dest: le_trans)+
qed simp

definition skipSpace :: "string \<Rightarrow> string" where
  "skipSpace s = dropWhile (\<lambda>ch. ch = CHR 0x20 \<or> ch = CHR 0x09 \<or> ch = CHR 0x0A \<or> ch = CHR 0x0D) s"

text \<open>An element of a \<open>[]string\<close>: a string, or \<open>null\<close> for the empty string.\<close>

definition readElem :: "string \<Rightarrow> (string \<times> string) option" where
  "readElem s =
     (case s of
        [] \<Rightarrow> None
      | ch # cs \<Rightarrow>
          if ch = CHR 0x22 then unquote cs
          else if hasPrefix s ''null'' then Some ([], drop 4 s) else None)"

lemma readElem_shorter: "readElem s = Some (x, r) \<Longrightarrow> length r < length s"
  by (auto simp: readElem_def split: list.splits if_splits dest!: unquote_shorter)

lemma skipSpace_length: "length (skipSpace s) \<le> length s"
  by (simp add: skipSpace_def length_dropWhile_le)

function readElems :: "string \<Rightarrow> (string list \<times> string) option" where
  "readElems s =
     (case readElem (skipSpace s) of
        None \<Rightarrow> None
      | Some (x, r) \<Rightarrow>
          (case skipSpace r of
             [] \<Rightarrow> None
           | ch # r' \<Rightarrow>
               if ch = CHR '','' then map_option (\<lambda>(xs, t). (x # xs, t)) (readElems r')
               else if ch = CHR '']'' then Some ([x], r') else None))"
  by pat_completeness auto
termination
proof (relation "measure length")
  fix s and xr :: "string \<times> string" and x r ch r'
  assume "readElem (skipSpace s) = Some xr" "(x, r) = xr" and r: "skipSpace r = ch # r'"
  then have "length r < length (skipSpace s)" by (metis readElem_shorter)
  moreover have "length r' < length r" using skipSpace_length [of r] r by simp
  ultimately show "(r', s) \<in> measure length" using skipSpace_length [of s] by simp
qed simp

declare readElems.simps [simp del]

text \<open>\<open>json.Unmarshal\<close> into a \<open>[]string\<close>; a nil slice and an empty one are not distinguished.\<close>

definition unmarshalStrings :: "string \<Rightarrow> string list option" where
  "unmarshalStrings s =
     (let s1 = skipSpace s
      in case s1 of
           [] \<Rightarrow> None
         | ch # r \<Rightarrow>
             if ch = CHR ''['' then
               (case skipSpace r of
                  [] \<Rightarrow> None
                | c2 # r2 \<Rightarrow>
                    if c2 = CHR '']'' then (if skipSpace r2 = [] then Some [] else None)
                    else
                      (case readElems r of
                         None \<Rightarrow> None
                       | Some (xs, r3) \<Rightarrow> if skipSpace r3 = [] then Some xs else None))
             else if hasPrefix s1 ''null'' \<and> skipSpace (drop 4 s1) = [] then Some [] else None)"

section \<open>Reading back\<close>

lemma hexDigit_lowerHex: "n < 16 \<Longrightarrow> hexDigit (lowerHex n) = Some n"
proof -
  have "list_all (\<lambda>n. hexDigit (lowerHex n) = Some n) [0, 1, 2, 3, 4, 5, 6, 7, 8, 9, 10, 11, 12, 13, 14, 15]"
    by (simp add: lowerHex_def hexDigit_def)
  moreover assume "n < 16"
  then have "n \<in> set [0, 1, 2, 3, 4, 5, 6, 7, 8, 9, 10, 11, 12, 13, 14, 15]" by (simp, presburger)
  ultimately show ?thesis by (simp only: list_all_iff)
qed

text \<open>What the encoder writes for an ASCII byte reads back to it, and other bytes are written as they are.\<close>

lemma unquote_jsonChar:
  assumes "byteIn 0 0x7F ch"
  shows "unquote (jsonChar ch @ rest) = prepend [ch] (unquote rest)"
proof -
  let ?n = "of_char ch :: nat"
  have lt: "?n < 256" by (rule nat_of_char_less_256)
  then have hex: "hexDigit (lowerHex (?n div 16)) = Some (?n div 16)" "hexDigit (lowerHex (?n mod 16)) = Some (?n mod 16)"
    by (simp_all add: hexDigit_lowerHex less_mult_imp_div_less)
  have zero: "hexDigit CHR ''0'' = Some 0" by (simp add: hexDigit_def)
  have "\<not> 0xD800 \<le> ?n" using lt by linarith
  then have pair: "surrogatePair ?n rest = None" by (auto simp: surrogatePair_def split: list.splits)
  have enc: "encodeRune ?n = [ch]" using assms by (simp add: encodeRune_def byteIn_def)
  have "encodeRune 60 = ''<''" "encodeRune 62 = ''>''" "encodeRune 38 = ''&''" by code_simp+
  then show ?thesis
    using assms lt by (simp add: jsonChar_def hex zero pair enc escapeByte_def runeWidth_def leadWidth_def continues_def)
qed

lemma jsonChar_high:
  assumes "\<not> byteIn 0 0x7F ch"
  shows "jsonChar ch = [ch]"
proof -
  have ne: "ch \<noteq> c" if "byteIn 0 0x7F c" for c using assms that by auto
  have "\<not> of_char ch < (32 :: nat)" using assms by (simp add: byteIn_def)
  then show ?thesis by (simp add: jsonChar_def ne byteIn_def)
qed

lemma runeWidth_append:
  assumes "runeWidth s \<noteq> 0"
  shows "runeWidth (take (runeWidth s) s @ t) = runeWidth s"
proof (cases s)
  case (Cons a r)
  let ?bs = "take (leadWidth a - 1) r"
  have w: "runeWidth s = leadWidth a" and bs: "length ?bs = leadWidth a - 1" "continues a ?bs"
    using assms by (auto simp: runeWidth_def Cons Let_def split: if_splits)
  have "take (leadWidth a) s = a # ?bs" using assms w by (cases "leadWidth a") (auto simp: Cons)
  moreover have "take (leadWidth a - 1) (?bs @ t) = ?bs" using bs(1) by simp
  ultimately show ?thesis using bs unfolding w by (simp only: runeWidth_def append_Cons list.case Let_def simp_thms if_True)
qed (use assms in \<open>simp add: runeWidth_def\<close>)

lemma continues_high: "continues a bs \<Longrightarrow> list_all (\<lambda>b. \<not> byteIn 0 0x7F b) bs"
  by (auto simp: continues_def secondByte_def byteIn_def list_all_iff split: list.splits if_splits)

lemma runeWidth_bytes:
  assumes "runeWidth (ch # cs) \<noteq> 0" "\<not> byteIn 0 0x7F ch"
  shows "list_all (\<lambda>b. \<not> byteIn 0 0x7F b) (take (runeWidth (ch # cs)) (ch # cs))"
proof -
  have w: "runeWidth (ch # cs) = leadWidth ch" and "continues ch (take (leadWidth ch - 1) cs)"
    using assms by (auto simp: runeWidth_def Let_def split: if_splits)
  with assms show ?thesis unfolding w by (cases "leadWidth ch") (auto dest: continues_high)
qed

lemma jsonChars_high: "list_all (\<lambda>b. \<not> byteIn 0 0x7F b) xs \<Longrightarrow> concat (map jsonChar xs) = xs"
  by (induction xs) (simp_all add: jsonChar_high)

lemma unquote_high:
  assumes "runeWidth (ch # cs) \<noteq> 0" "\<not> byteIn 0 0x7F ch"
  shows "unquote (take (runeWidth (ch # cs)) (ch # cs) @ t) = prepend (take (runeWidth (ch # cs)) (ch # cs)) (unquote t)"
proof -
  obtain n where w: "runeWidth (ch # cs) = Suc n" using assms(1) by (cases "runeWidth (ch # cs)") auto
  have len: "length (take n cs) = n" using assms(1) w by (auto simp: runeWidth_def Let_def split: if_splits)
  have width: "runeWidth (ch # take n cs @ t) = Suc n" using runeWidth_append [OF assms(1), of t] by (simp add: w)
  have ne: "ch \<noteq> c" if "byteIn 0 0x7F c" for c using assms(2) that by auto
  have "\<not> of_char ch < (0x20 :: nat)" using assms(2) by (simp add: byteIn_def)
  then show ?thesis using len by (simp add: w width ne byteIn_def)
qed

lemma unquote_json: "validUtf8 s \<Longrightarrow> unquote (concat (map jsonChar s) @ CHR 0x22 # rest) = Some (s, rest)"
proof (induction s rule: validUtf8.induct)
  case (2 ch cs)
  let ?w = "runeWidth (ch # cs)" and ?tail = "drop (runeWidth (ch # cs) - 1) cs"
  have IH: "unquote (concat (map jsonChar ?tail) @ CHR 0x22 # rest) = Some (?tail, rest)" and w: "?w \<noteq> 0"
    using "2.IH" "2.prems" by auto
  show ?case
  proof (cases "byteIn 0 0x7F ch")
    case True
    then have "?w = 1" by (simp add: runeWidth_def leadWidth_def continues_def)
    with True IH show ?thesis by (simp add: unquote_jsonChar prepend_def)
  next
    case False
    have split: "ch # cs = take ?w (ch # cs) @ ?tail" using w by (cases ?w) auto
    have "concat (map jsonChar (ch # cs)) = take ?w (ch # cs) @ concat (map jsonChar ?tail)"
      by (subst split) (simp only: map_append concat_append jsonChars_high [OF runeWidth_bytes [OF w False]])
    then have "unquote (concat (map jsonChar (ch # cs)) @ CHR 0x22 # rest) =
        prepend (take ?w (ch # cs)) (unquote (concat (map jsonChar ?tail) @ CHR 0x22 # rest))"
      using unquote_high [OF w False] by (simp only: append_assoc)
    also have "\<dots> = Some (take ?w (ch # cs) @ ?tail, rest)" by (simp only: IH prepend_def option.map prod.case)
    finally show ?thesis by (simp only: split [symmetric])
  qed
qed simp

lemma skipSpace_token: "byteIn 0x21 0xFF ch \<Longrightarrow> skipSpace (ch # cs) = ch # cs"
  by (auto simp: skipSpace_def byteIn_def)

lemma readElem_json: "validUtf8 x \<Longrightarrow> readElem (skipSpace (jsonString x @ rest)) = Some (x, rest)"
  using unquote_json [of x rest] by (simp add: jsonString_def skipSpace_token byteIn_def readElem_def)

lemma readElems_json:
  "xs \<noteq> [] \<Longrightarrow> list_all validUtf8 xs \<Longrightarrow> readElems (joinStrings '','' (map jsonString xs) @ CHR '']'' # rest) = Some (xs, rest)"
proof (induction xs rule: induct_list012)
  case (2 x)
  then show ?case by (subst readElems.simps) (simp add: readElem_json skipSpace_token byteIn_def)
next
  case (3 x y zs)
  have "readElems (joinStrings '','' (map jsonString (y # zs)) @ CHR '']'' # rest) = Some (y # zs, rest)"
    by (rule "3.IH"(2)) (use "3.prems" in simp_all)
  then show ?case
    using "3.prems" by (subst readElems.simps) (simp add: readElem_json skipSpace_token byteIn_def)
qed simp

text \<open>A slice of valid strings is read back from its encoding.\<close>

lemma unmarshal_jsonStrings:
  assumes "list_all validUtf8 xs"
  shows "unmarshalStrings (jsonStrings xs) = Some xs"
proof (cases xs)
  case Nil
  then show ?thesis by (simp add: unmarshalStrings_def jsonStrings_def skipSpace_token byteIn_def) (simp add: skipSpace_def)
next
  case (Cons y ys)
  have head: "\<exists>t. joinStrings '','' (map jsonString xs) @ '']'' = CHR 0x22 # t"
    by (cases ys) (simp_all add: Cons jsonString_def)
  have "readElems (joinStrings '','' (map jsonString xs) @ '']'') = Some (xs, [])"
    using readElems_json [of xs "[]"] assms Cons by simp
  with head show ?thesis
    by (auto simp: unmarshalStrings_def jsonStrings_def skipSpace_token byteIn_def) (simp add: skipSpace_def)
qed

end
