(* ===== verification/Token_Handler.thy ===== *)
theory Token_Handler
  imports Identity Go_Json
begin

text \<open>
  \<open>maas-api/internal/token/handler.go\<close>: the middleware that reads the caller's identity from the headers
  the gateway's auth policy sets, and leaves it in the request context; \<open>token/jwt.go\<close>: the test for the
  shape of a JWT. \<open>c.GetHeader\<close> is an argument. The middleware either aborts with a response or calls the
  next handler with the user in the context.
\<close>

definition HeaderUsername :: string where "HeaderUsername = ''X-MaaS-Username''"
definition HeaderGroup :: string where "HeaderGroup = ''X-MaaS-Group''"

definition parseGroupsHeader :: "string \<Rightarrow> string + string list" where
  "parseGroupsHeader header =
     (if header = [] then Inl ''header is empty''
      else
        (case unmarshalStrings header of
           None \<Rightarrow> Inl ''failed to parse header as JSON array''
         | Some groups \<Rightarrow>
             if groups = [] then Inl ''no groups found in header'' else Inr (map trimSpace groups)))"

record auth_failure =
  af_error :: string
  af_exceptionCode :: string
  af_refId :: string

datatype middleware_result = Abort int auth_failure | Next ctx_user

definition authFailure :: "string \<Rightarrow> auth_failure" where
  "authFailure refId =
     \<lparr>af_error = ''Exception thrown while generating token'', af_exceptionCode = ''AUTH_FAILURE'', af_refId = refId\<rparr>"

definition ExtractUserInfo :: "(string \<Rightarrow> string) \<Rightarrow> middleware_result" where
  "ExtractUserInfo getHeader =
     (let username = trimSpace (getHeader HeaderUsername); groupHeader = getHeader HeaderGroup
      in if username = [] then Abort 500 (authFailure ''001'')
         else if groupHeader = [] then Abort 500 (authFailure ''002'')
         else
           (case parseGroupsHeader groupHeader of
              Inl err \<Rightarrow> Abort 500 (authFailure ''003'')
            | Inr groups \<Rightarrow> Next (User \<lparr>uc_username = username, uc_groups = groups\<rparr>)))"

definition LooksLikeJWT :: "string \<Rightarrow> bool" where
  "LooksLikeJWT tokenString = (length (splitN CHR ''.'' 4 tokenString) = 3)"

section \<open>Lemmas\<close>

lemma ExtractUserInfo_Next:
  assumes "ExtractUserInfo getHeader = Next cu"
  obtains u where "cu = User u" "uc_username u = trimSpace (getHeader HeaderUsername)" "uc_username u \<noteq> []" "uc_groups u \<noteq> []"
  using assms by (auto simp: ExtractUserInfo_def parseGroupsHeader_def Let_def split: if_splits sum.splits option.splits)

text \<open>The middleware hands on exactly the identity the headers carry. When the user name header is not
  blank and the group header is the JSON encoding of a non-empty list of valid strings, the next handler
  sees that user with those groups, each trimmed; a blank user name, a missing group header, an empty
  list, or a header that is not a JSON array of strings is answered with 500 and the next handler is not
  called.\<close>

theorem middleware_identity:
  "(\<forall>gs. trimSpace (getHeader HeaderUsername) \<noteq> [] \<and> getHeader HeaderGroup = jsonStrings gs \<and> gs \<noteq> [] \<and> list_all validUtf8 gs \<longrightarrow>
      ExtractUserInfo getHeader = Next (User \<lparr>uc_username = trimSpace (getHeader HeaderUsername), uc_groups = map trimSpace gs\<rparr>)) \<and>
   (trimSpace (getHeader HeaderUsername) = [] \<or> unmarshalStrings (getHeader HeaderGroup) = None \<or>
    unmarshalStrings (getHeader HeaderGroup) = Some [] \<longrightarrow>
      (\<exists>f. ExtractUserInfo getHeader = Abort 500 f))"
proof (intro conjI allI impI)
  fix gs
  assume a: "trimSpace (getHeader HeaderUsername) \<noteq> [] \<and> getHeader HeaderGroup = jsonStrings gs \<and> gs \<noteq> [] \<and> list_all validUtf8 gs"
  then have "parseGroupsHeader (getHeader HeaderGroup) = Inr (map trimSpace gs)"
    using unmarshal_jsonStrings [of gs] by (simp add: parseGroupsHeader_def) (simp add: jsonStrings_def)
  with a show "ExtractUserInfo getHeader = Next (User \<lparr>uc_username = trimSpace (getHeader HeaderUsername), uc_groups = map trimSpace gs\<rparr>)"
    by (simp add: ExtractUserInfo_def Let_def) (simp add: jsonStrings_def)
qed (auto simp: ExtractUserInfo_def parseGroupsHeader_def Let_def)

definition sampleHeaders :: "string \<Rightarrow> string" where
  "sampleHeaders h = (if h = HeaderUsername then '' eve '' else if h = HeaderGroup then jsonStrings ['' lab'', ''a<b''] else [])"

theorem middleware_identity_witness:
  "ExtractUserInfo sampleHeaders = Next (User \<lparr>uc_username = ''eve'', uc_groups = [''lab'', ''a<b'']\<rparr>)"
proof -
  have headers: "sampleHeaders HeaderUsername = '' eve ''" "sampleHeaders HeaderGroup = jsonStrings ['' lab'', ''a<b'']"
    by (simp_all add: sampleHeaders_def HeaderUsername_def HeaderGroup_def)
  have trim: "trimSpace '' eve '' = ''eve''" "map trimSpace ['' lab'', ''a<b''] = [''lab'', ''a<b'']"
    and ok: "list_all validUtf8 ['' lab'', ''a<b'']" by code_simp+
  show ?thesis
    using spec [OF conjunct1 [OF middleware_identity [of sampleHeaders]], of "['' lab'', ''a<b'']", unfolded headers trim] ok
    by (simp only: list.simps simp_thms not_False_eq_True)
qed

end
