(* ===== verification/Subscription_Handler.thy ===== *)
theory Subscription_Handler
  imports Subscription_Selector Token_Handler
begin

text \<open>
  \<open>maas-api/internal/subscription/handler.go\<close>: the endpoint the gateway calls to select a subscription, and
  the two listings for users. A handler takes the outcome of \<open>ShouldBindJSON\<close>, the user left in the
  context and the path parameter, and returns status and body. \<open>behindMiddleware\<close> composes a handler with
  \<open>ExtractUserInfo\<close> the way the router does.
\<close>

section \<open>Handlers\<close>

record SelectRequest =
  rq_groups :: "string list"
  rq_username :: string
  rq_requestedSubscription :: string
  rq_requestedModel :: string

definition errorReply :: "string \<Rightarrow> string \<Rightarrow> string \<Rightarrow> SelectResponse" where
  "errorReply code message phase =
     \<lparr>resp_name = [], resp_namespace = [], resp_displayName = [], resp_description = [], resp_priority = 0,
      resp_modelRefs = [], resp_organizationID = [], resp_costCenter = [], resp_labels = None,
      resp_phase = phase, resp_ready = False, resp_deletionTimestamp = [], resp_error = code, resp_message = message\<rparr>"

text \<open>The chain of \<open>errors.As\<close>.\<close>

fun selectErrorReply :: "SelectError \<Rightarrow> SelectResponse" where
  "selectErrorReply NoSubscriptionError = errorReply ''not_found'' (errorString NoSubscriptionError) []"
| "selectErrorReply (SubscriptionNotFoundError s) = errorReply ''not_found'' (errorString (SubscriptionNotFoundError s)) []"
| "selectErrorReply (AccessDeniedError s) = errorReply ''access_denied'' (errorString (AccessDeniedError s)) []"
| "selectErrorReply (MultipleSubscriptionsError ss) =
     errorReply ''multiple_subscriptions'' (errorString (MultipleSubscriptionsError ss)) []"
| "selectErrorReply (ModelNotInSubscriptionError s m) =
     errorReply ''model_not_in_subscription'' (errorString (ModelNotInSubscriptionError s m)) []"
| "selectErrorReply (ModelUnhealthyError s ph r m) = errorReply ''model_unhealthy'' m ph"
| "selectErrorReply (OtherError e) =
     errorReply ''internal_error'' (''failed to select subscription: '' @ errorString (OtherError e)) []"

definition handle_SelectSubscription :: "Selector \<Rightarrow> string + SelectRequest \<Rightarrow> int \<times> SelectResponse" where
  "handle_SelectSubscription s body =
     (case body of
        Inl err \<Rightarrow> (200, errorReply ''bad_request'' (''invalid request body: '' @ err) [])
      | Inr req \<Rightarrow>
          (case Select s (rq_groups req) (rq_username req) (rq_requestedSubscription req) (rq_requestedModel req) of
             Inl err \<Rightarrow> (200, selectErrorReply err)
           | Inr response \<Rightarrow> (200, response)))"

datatype list_body = ListError (le_message: string) (le_type: string) | SubscriptionList "SubscriptionInfo list"

definition internalError :: "int \<times> list_body" where
  "internalError = (500, ListError ''Internal server error'' ''server_error'')"

definition handle_ListSubscriptions :: "Selector \<Rightarrow> ctx_user \<Rightarrow> int \<times> list_body" where
  "handle_ListSubscriptions s cu =
     (case cu of
        NoUser \<Rightarrow> internalError
      | WrongType \<Rightarrow> internalError
      | User userContext \<Rightarrow>
          (case GetAllAccessible s (uc_groups userContext) (uc_username userContext) of
             Inl err \<Rightarrow> (500, ListError ''Failed to list subscriptions'' ''server_error'')
           | Inr accessible \<Rightarrow> (200, SubscriptionList (map ResponseToSubscriptionInfo accessible))))"

definition handle_ListSubscriptionsForModel :: "Selector \<Rightarrow> ctx_user \<Rightarrow> string \<Rightarrow> int \<times> list_body" where
  "handle_ListSubscriptionsForModel s cu modelID =
     (case cu of
        NoUser \<Rightarrow> internalError
      | WrongType \<Rightarrow> internalError
      | User userContext \<Rightarrow>
          if modelID = [] then (400, ListError ''model-id is required'' ''invalid_request_error'')
          else
            (case ListAccessibleForModel s (uc_username userContext) (uc_groups userContext) modelID of
               Inl err \<Rightarrow> (500, ListError ''Failed to list subscriptions'' ''server_error'')
             | Inr subs \<Rightarrow> (200, SubscriptionList subs)))"

text \<open>A route with the middleware: its answer, or that of the handler.\<close>

definition behindMiddleware :: "(ctx_user \<Rightarrow> int \<times> 'b) \<Rightarrow> (string \<Rightarrow> string) \<Rightarrow> int \<times> (auth_failure + 'b)" where
  "behindMiddleware handler getHeader =
     (case ExtractUserInfo getHeader of
        Abort status f \<Rightarrow> (status, Inl f)
      | Next cu \<Rightarrow> (case handler cu of (status, b) \<Rightarrow> (status, Inr b)))"

section \<open>Selection\<close>

lemma selectErrorReply_error: "resp_error (selectErrorReply e) \<noteq> [] \<and> resp_name (selectErrorReply e) = [] \<and>
    resp_namespace (selectErrorReply e) = [] \<and> \<not> resp_ready (selectErrorReply e)"
  by (cases e) (simp_all add: errorReply_def)

text \<open>C12: the selection endpoint fails closed. It always answers 200, as its caller requires; an answer
  without an error code is exactly a successful selection, so the subscription it names belongs to the
  user or one of the groups and is one the selector loaded; every other answer carries an error code and
  names no subscription.\<close>

theorem select_reply_fails_closed:
  assumes "handle_SelectSubscription s body = (status, resp)"
  shows "status = 200 \<and>
    (if resp_error resp = []
     then \<exists>req sub. body = Inr req \<and> sub \<in> set (loaded s) \<and> resp = toResponse sub \<and>
            (rq_username req \<in> set (sub_users sub) \<or> (\<exists>g \<in> set (rq_groups req). trimSpace g \<in> set (sub_groups sub))) \<and>
            Select s (rq_groups req) (rq_username req) (rq_requestedSubscription req) (rq_requestedModel req) = Inr resp
     else resp_name resp = [] \<and> resp_namespace resp = [] \<and> \<not> resp_ready resp \<and>
          (\<forall>req r. body = Inr req \<longrightarrow>
             Select s (rq_groups req) (rq_username req) (rq_requestedSubscription req) (rq_requestedModel req) \<noteq> Inr r))"
proof (cases body)
  case (Inl err)
  with assms show ?thesis by (auto simp: handle_SelectSubscription_def errorReply_def)
next
  case (Inr req)
  let ?sel = "Select s (rq_groups req) (rq_username req) (rq_requestedSubscription req) (rq_requestedModel req)"
  show ?thesis
  proof (cases ?sel)
    case (Inl e)
    with assms Inr selectErrorReply_error [of e] show ?thesis by (auto simp: handle_SelectSubscription_def)
  next
    case sel: (Inr r)
    then obtain sub where sub: "sub \<in> set (loaded s)" "r = toResponse sub" "userHasAccess sub (rq_username req) (rq_groups req)"
      by (rule Select_Inr) blast
    have "resp_error r = []" by (simp add: sub(2) toResponse_def)
    moreover have "status = 200" "resp = r" using assms Inr sel by (simp_all add: handle_SelectSubscription_def)
    moreover have "rq_username req \<in> set (sub_users sub) \<or> (\<exists>g \<in> set (rq_groups req). trimSpace g \<in> set (sub_groups sub))"
      using sub(3) by (simp add: userHasAccess_iff)
    ultimately show ?thesis using sub(1,2) sel Inr by auto
  qed
qed

definition sampleRequest :: "string \<Rightarrow> string \<Rightarrow> SelectRequest" where
  "sampleRequest sub model =
     \<lparr>rq_groups = ['' team''], rq_username = ''alice'', rq_requestedSubscription = sub, rq_requestedModel = model\<rparr>"

theorem select_reply_fails_closed_witness:
  "\<exists>resp sub. handle_SelectSubscription exSelector (Inr (sampleRequest ''silver'' ''llm/m1'')) = (200, resp) \<and>
     resp_name resp = ''silver'' \<and> sub \<in> set (loaded exSelector) \<and> resp = toResponse sub"
proof -
  let ?run = "handle_SelectSubscription exSelector (Inr (sampleRequest ''silver'' ''llm/m1''))"
  obtain status resp where run: "?run = (status, resp)" by (cases ?run)
  have "resp_name (snd ?run) = ''silver''" "resp_error (snd ?run) = []" by code_simp+
  then have "resp_name resp = ''silver''" "resp_error resp = []" by (simp_all only: run snd_conv)
  with select_reply_fails_closed [OF run] run show ?thesis by auto
qed

section \<open>Listings\<close>

lemma info_of_subscription [simp]:
  "si_subscriptionIDHeader (ResponseToSubscriptionInfo (toResponse sub)) = sub_name sub"
  "si_subscriptionIDHeader (toSubscriptionInfo sub) = sub_name sub"
  by (simp_all add: ResponseToSubscriptionInfo_def toResponse_def toSubscriptionInfo_def Let_def)

text \<open>Behind the middleware the listings answer for the user of the headers only. Every subscription
  listed, by either endpoint, is one the selector loaded that names the trimmed user name or one of the
  trimmed groups of the group header, and the listing for a model holds only subscriptions with that
  model.\<close>

theorem listings_own_subscriptions:
  assumes "trimSpace (getHeader HeaderUsername) = u" "unmarshalStrings (getHeader HeaderGroup) = Some gs"
  shows "(behindMiddleware (handle_ListSubscriptions s) getHeader = (st, Inr (SubscriptionList infos)) \<longrightarrow>
            (\<forall>i \<in> set infos. \<exists>sub \<in> set (loaded s). si_subscriptionIDHeader i = sub_name sub \<and>
               userHasAccess sub u (map trimSpace gs))) \<and>
         (behindMiddleware (\<lambda>cu. handle_ListSubscriptionsForModel s cu m) getHeader = (st, Inr (SubscriptionList infos)) \<longrightarrow>
            (\<forall>i \<in> set infos. \<exists>sub \<in> set (loaded s). si_subscriptionIDHeader i = sub_name sub \<and>
               userHasAccess sub u (map trimSpace gs) \<and> hasModel sub m))"
proof -
  have mw: "(\<exists>f. ExtractUserInfo getHeader = Abort 500 f) \<or>
      ExtractUserInfo getHeader = Next (User \<lparr>uc_username = u, uc_groups = map trimSpace gs\<rparr>)"
    using assms by (auto simp: ExtractUserInfo_def parseGroupsHeader_def Let_def)
  show ?thesis
    using mw
    by (auto simp: behindMiddleware_def handle_ListSubscriptions_def handle_ListSubscriptionsForModel_def
        GetAllAccessible_def ListAccessibleForModel_def loaded_def internalError_def listedForUser_iff split: sum.splits if_splits prod.splits) blast+
qed

definition aliceHeaders :: "string \<Rightarrow> string" where
  "aliceHeaders h = (if h = HeaderUsername then ''alice'' else if h = HeaderGroup then jsonStrings ['' team''] else [])"

theorem listings_own_subscriptions_witness:
  "\<exists>infos. behindMiddleware (handle_ListSubscriptions exSelector) aliceHeaders = (200, Inr (SubscriptionList infos)) \<and> infos \<noteq> [] \<and>
     (\<forall>i \<in> set infos. \<exists>sub \<in> set (loaded exSelector). si_subscriptionIDHeader i = sub_name sub \<and>
        userHasAccess sub ''alice'' [''team''])"
proof -
  let ?run = "behindMiddleware (handle_ListSubscriptions exSelector) aliceHeaders"
  have "fst ?run = 200" "case snd ?run of Inr (SubscriptionList infos) \<Rightarrow> infos \<noteq> [] | _ \<Rightarrow> False" by code_simp+
  then obtain infos where run: "?run = (200, Inr (SubscriptionList infos))" "infos \<noteq> []"
    by (cases ?run) (auto split: sum.splits list_body.splits)
  have "trimSpace (aliceHeaders HeaderUsername) = ''alice''" "unmarshalStrings (aliceHeaders HeaderGroup) = Some ['' team'']"
    and trim: "map trimSpace ['' team''] = [''team'']" by code_simp+
  from listings_own_subscriptions [OF this(1,2), of exSelector 200 infos] run show ?thesis
    unfolding trim by auto
qed

end
