(* ===== verification/Model_Listing.thy ===== *)
theory Model_Listing
  imports Subscription_Handler
begin

text \<open>
  \<open>maas-api/internal/models\<close> (\<open>types.go\<close>, \<open>maasmodelref.go\<close>, \<open>discovery.go\<close>) and
  \<open>maas-api/internal/handlers/models.go\<close>: the listing of models. Models come from the cached MaaSModelRefs,
  are probed for access with the caller's credentials, once for every subscription of the caller, and are
  merged by id, URL and owner.

  What is outside the sources is an argument: the URL type with its functions (\<open>url_api\<close>), and \<open>network\<close>,
  which gives the outcome of every request, the behaviour of \<open>wait.ExponentialBackoffWithContext\<close>, the
  decoder of the third-party \<open>openai.Model\<close> and the order in which the goroutines of an access check append
  their results. The outcomes are indexed by the access check, the model and the attempt, so no two
  requests need to behave alike. A slice that may be nil is an option.
\<close>

section \<open>Models\<close>

record 'u url_api =
  url_Parse :: "string \<Rightarrow> 'u option"
  url_String :: "'u \<Rightarrow> string"
  url_JoinPath :: "string \<Rightarrow> string list \<Rightarrow> string option"

record openai_model =
  om_id :: string
  om_created :: int

record Details =
  dt_genAIUseCase :: string
  dt_description :: string
  dt_displayName :: string
  dt_contextWindow :: string

record ModelSubscriptionInfo =
  msi_name :: string
  msi_displayName :: string
  msi_description :: string

record 'u Model =
  md_id :: string
  md_object :: string
  md_created :: int
  md_ownedBy :: string
  md_kind :: string
  md_url :: "'u option"
  md_ready :: bool
  md_details :: "Details option"
  md_aliases :: "string list"
  md_subscriptions :: "ModelSubscriptionInfo list"

definition AnnotationGenAIUseCase :: string where "AnnotationGenAIUseCase = ''opendatahub.io/genai-use-case''"
definition AnnotationContextWindow :: string where "AnnotationContextWindow = ''opendatahub.io/context-window''"

text \<open>\<open>getCreation\<close> is \<open>GetCreationTimestamp\<close>, in Unix seconds when it is set.\<close>

definition modelDetails :: "(string \<times> string) list option \<Rightarrow> Details option" where
  "modelDetails annotations =
     (case annotations of
        None \<Rightarrow> None
      | Some as \<Rightarrow>
          let d = \<lparr>dt_genAIUseCase = strMapIndex as AnnotationGenAIUseCase,
                   dt_description = strMapIndex as AnnotationDescription,
                   dt_displayName = strMapIndex as AnnotationDisplayName,
                   dt_contextWindow = strMapIndex as AnnotationContextWindow\<rparr>
          in if dt_displayName d \<noteq> [] \<or> dt_description d \<noteq> [] \<or> dt_genAIUseCase d \<noteq> [] \<or> dt_contextWindow d \<noteq> []
             then Some d else None)"

definition maasModelRefToModel ::
  "nested_api \<Rightarrow> 'u url_api \<Rightarrow> (gomap \<Rightarrow> int option) \<Rightarrow> gomap option \<Rightarrow> 'u Model option" where
  "maasModelRefToModel api urls getCreation item =
     (case item of
        None \<Rightarrow> None
      | Some u \<Rightarrow>
          let name = getName api u;
              phase = fst (nestedString api u [''status'', ''phase'']);
              endpoint = fst (nestedString api u [''status'', ''endpoint'']);
              kind = fst (nestedString api u [''spec'', ''modelRef'', ''kind''])
          in Some \<lparr>md_id = name, md_object = ''model'',
                   md_created = (case getCreation u of None \<Rightarrow> 0 | Some t \<Rightarrow> t),
                   md_ownedBy = getNamespace api u @ ''/'' @ name,
                   md_kind = (if kind = [] then ''llmisvc'' else kind),
                   md_url = (if endpoint \<noteq> [] then url_Parse urls endpoint else None),
                   md_ready = (phase = ''Ready''), md_details = modelDetails (getAnnotations api u),
                   md_aliases = [], md_subscriptions = []\<rparr>)"

text \<open>A configured lister is its outcome: an error or the items.\<close>

definition ListFromMaaSModelRefLister ::
  "nested_api \<Rightarrow> 'u url_api \<Rightarrow> (gomap \<Rightarrow> int option) \<Rightarrow> (string + gomap option list) \<Rightarrow> string + 'u Model list" where
  "ListFromMaaSModelRefLister api urls getCreation lister =
     (case lister of
        Inl err \<Rightarrow> Inl err
      | Inr items \<Rightarrow> Inr (List.map_filter (maasModelRefToModel api urls getCreation) items))"

section \<open>Access validation\<close>

datatype authResult = authGranted | authDenied | authRetry

definition maxModelsResponseBytes :: int where "maxModelsResponseBytes = 4 * 2 ^ 20"

text \<open>\<open>io.LimitReader\<close>: at most \<open>n\<close> bytes.\<close>

fun limitedRead :: "int \<Rightarrow> string \<Rightarrow> string" where
  "limitedRead n [] = []"
| "limitedRead n (b # bs) = (if n \<le> 0 then [] else b # limitedRead (n - 1) bs)"

text \<open>A response body: its bytes, and the error after them, if any.\<close>

type_synonym body_stream = "string \<times> string option"

datatype probe = RequestError | DoError (deadline: bool) | Response int body_stream

record 'u network =
  net_do :: "nat \<Rightarrow> nat \<Rightarrow> nat \<Rightarrow> string \<Rightarrow> (string \<times> string) list \<Rightarrow> probe"
  net_backoff :: "nat \<Rightarrow> nat \<Rightarrow> nat \<Rightarrow> (nat \<Rightarrow> bool) \<Rightarrow> nat \<times> string option"
  net_decode :: "string \<Rightarrow> openai_model list option option"
  net_order :: "nat \<Rightarrow> 'u Model list list \<Rightarrow> 'u Model list list"

definition parseModelsResponse :: "'u network \<Rightarrow> body_stream \<Rightarrow> openai_model list option option" where
  "parseModelsResponse net body =
     (case body of
        (bytes, err) \<Rightarrow>
          let data = limitedRead (maxModelsResponseBytes + 1) bytes
          in if int (length data) \<le> maxModelsResponseBytes \<and> err \<noteq> None then None
             else if int (length data) > maxModelsResponseBytes then None
             else net_decode net data)"

definition fetchModels :: "'u network \<Rightarrow> string \<Rightarrow> probe \<Rightarrow> openai_model list option \<times> authResult" where
  "fetchModels net modelName outcome =
     (case outcome of
        RequestError \<Rightarrow> (None, authRetry)
      | DoError dl \<Rightarrow> if dl then (None, authDenied) else (None, authRetry)
      | Response status body \<Rightarrow>
          if 200 \<le> status \<and> status < 300 then
            (case parseModelsResponse net body of
               None \<Rightarrow> (None, authRetry)
             | Some models \<Rightarrow> (models, authGranted))
          else if status = 401 \<or> status = 403 then (None, authDenied)
          else if status = 404 then (None, authDenied)
          else if status = 405 then (Some [\<lparr>om_id = modelName, om_created = 0\<rparr>], authGranted)
          else (None, authRetry))"

definition probeHeaders :: "string \<Rightarrow> string \<Rightarrow> (string \<times> string) list" where
  "probeHeaders authHeader subscriptionHeader =
     (''Authorization'', authHeader) #
     (if subscriptionHeader \<noteq> [] then [(''X-Maas-Subscription'', subscriptionHeader)] else [])"

text \<open>The condition is called \<open>k\<close> times; the variables it assigns have the values of the last call that
  assigned them.\<close>

definition fetchModelsWithRetry ::
  "'u network \<Rightarrow> nat \<Rightarrow> nat \<Rightarrow> string \<Rightarrow> string \<Rightarrow> string \<Rightarrow> string \<Rightarrow> openai_model list option" where
  "fetchModelsWithRetry net c i authHeader subscriptionHeader modelName endpoint =
     (let call = (\<lambda>n. fetchModels net modelName (net_do net c i n endpoint (probeHeaders authHeader subscriptionHeader)));
          (k, err) = net_backoff net c i 4 (\<lambda>n. snd (call n) \<noteq> authRetry);
          result = (case filter (\<lambda>n. snd (call n) = authGranted) (rev [0..<k]) of [] \<Rightarrow> None | n # _ \<Rightarrow> fst (call n));
          lastResult = (if k = 0 then authDenied else snd (call (k - 1)))
      in if err \<noteq> None then None
         else if lastResult \<noteq> authGranted then None
         else result)"

definition discoveredToModels :: "openai_model list \<Rightarrow> 'u Model \<Rightarrow> 'u Model list" where
  "discoveredToModels discovered original =
     (if discovered = [] then [original]
      else
        let out = map (\<lambda>d. original\<lparr>md_id := om_id d, md_object := ''model'',
                      md_created := (if om_created d = 0 then md_created original else om_created d),
                      md_aliases := [], md_subscriptions := []\<rparr>)
                    (filter (\<lambda>d. om_id d \<noteq> []) discovered)
        in if out = [] then [original] else out)"

text \<open>What one model contributes.\<close>

definition checkAccess ::
  "'u url_api \<Rightarrow> 'u network \<Rightarrow> nat \<Rightarrow> string \<Rightarrow> string \<Rightarrow> nat \<times> 'u Model \<Rightarrow> 'u Model list" where
  "checkAccess urls net c authHeader subscriptionHeader im =
     (case im of
        (i, model) \<Rightarrow>
          if md_kind model = ''ExternalModel'' then (if md_ready model then [model] else [])
          else
            (case md_url model of
               None \<Rightarrow> []
             | Some u \<Rightarrow>
                 (case url_JoinPath urls (url_String urls u) [''v1'', ''models''] of
                    None \<Rightarrow> []
                  | Some endpoint \<Rightarrow>
                      (case fetchModelsWithRetry net c i authHeader subscriptionHeader (md_id model) endpoint of
                         None \<Rightarrow> []
                       | Some discovered \<Rightarrow> discoveredToModels discovered model))))"

definition FilterModelsByAccess ::
  "'u url_api \<Rightarrow> 'u network \<Rightarrow> nat \<Rightarrow> 'u Model list \<Rightarrow> string \<Rightarrow> string \<Rightarrow> 'u Model list" where
  "FilterModelsByAccess urls net c models authHeader subscriptionHeader =
     (if models = [] then models
      else concat (net_order net c
             (map (checkAccess urls net c authHeader subscriptionHeader) (enumerate 0 models))))"

section \<open>The listing\<close>

definition filterModelsBySubscription :: "'u Model list \<Rightarrow> ModelRefInfo list \<Rightarrow> 'u Model list" where
  "filterModelsBySubscription modelList modelRefs =
     (if modelRefs = [] then modelList
      else
        let allowed = map (\<lambda>ref. mr_namespace ref @ ''/'' @ mr_name ref) modelRefs
        in filter (\<lambda>model. List.member allowed (md_ownedBy model)) modelList)"

definition addSubscriptionIfNew :: "'u Model \<Rightarrow> ModelSubscriptionInfo \<Rightarrow> 'u Model" where
  "addSubscriptionIfNew model subInfo =
     (if list_ex (\<lambda>existing. msi_name existing = msi_name subInfo) (md_subscriptions model) then model
      else model\<lparr>md_subscriptions := md_subscriptions model @ [subInfo]\<rparr>)"

type_synonym model_key = "string \<times> string \<times> string"

definition modelKey :: "'u url_api \<Rightarrow> 'u Model \<Rightarrow> model_key" where
  "modelKey urls model =
     (md_id model, (case md_url model of None \<Rightarrow> [] | Some u \<Rightarrow> url_String urls u), md_ownedBy model)"

definition keyLess :: "model_key \<Rightarrow> model_key \<Rightarrow> bool" where
  "keyLess a b =
     (case (a, b) of
        ((id1, url1, owned1), (id2, url2, owned2)) \<Rightarrow>
          if id1 \<noteq> id2 then id1 < id2 else if url1 \<noteq> url2 then url1 < url2 else owned1 < owned2)"

definition subInfoFor :: "SelectResponse \<Rightarrow> ModelSubscriptionInfo" where
  "subInfoFor sub = \<lparr>msi_name = resp_name sub, msi_displayName = resp_displayName sub, msi_description = resp_description sub\<rparr>"

text \<open>The body of the inner loop, on the map \<open>modelsByKey\<close>.\<close>

definition addModel ::
  "'u url_api \<Rightarrow> ModelSubscriptionInfo \<Rightarrow> 'u Model \<Rightarrow> (model_key \<times> 'u Model) list \<Rightarrow> (model_key \<times> 'u Model) list" where
  "addModel urls subInfo model modelsByKey =
     (let key = modelKey urls model
      in case map_of modelsByKey key of
           Some existing \<Rightarrow> AList.update key (addSubscriptionIfNew existing subInfo) modelsByKey
         | None \<Rightarrow> AList.update key (model\<lparr>md_subscriptions := [subInfo]\<rparr>) modelsByKey)"

text \<open>The models that pass the access check of one subscription.\<close>

definition accessibleVia ::
  "'u url_api \<Rightarrow> 'u network \<Rightarrow> 'u Model list \<Rightarrow> string \<Rightarrow> nat \<Rightarrow> SelectResponse \<Rightarrow> 'u Model list" where
  "accessibleVia urls net models authHeader c sub =
     (let modelsToCheck = (if resp_modelRefs sub \<noteq> [] then filterModelsBySubscription models (resp_modelRefs sub) else models)
      in FilterModelsByAccess urls net c modelsToCheck authHeader (resp_name sub))"

definition addSubscription ::
  "'u url_api \<Rightarrow> 'u network \<Rightarrow> 'u Model list \<Rightarrow> string \<Rightarrow> nat \<times> SelectResponse \<Rightarrow>
     (model_key \<times> 'u Model) list \<Rightarrow> (model_key \<times> 'u Model) list" where
  "addSubscription urls net models authHeader cs modelsByKey =
     fold (addModel urls (subInfoFor (snd cs))) (accessibleVia urls net models authHeader (fst cs) (snd cs)) modelsByKey"

definition aggregateModelsFromSubscriptions ::
  "'u url_api \<Rightarrow> 'u network \<Rightarrow> 'u Model list \<Rightarrow> SelectResponse list \<Rightarrow> string \<Rightarrow> 'u Model list" where
  "aggregateModelsFromSubscriptions urls net models subscriptionsToUse authHeader =
     (let modelsByKey = fold (addSubscription urls net models authHeader) (enumerate 0 subscriptionsToUse) [];
          keys = stable_sort keyLess (map fst modelsByKey)
      in map (\<lambda>k. the (map_of modelsByKey k)) keys)"

datatype 'u models_reply =
    ModelsError (mre_status: int) (mre_message: string) (mre_type: string)
  | ModelsPage (mp_cacheControl: string) (mp_data: "'u Model list")

record 'u ModelsHandler =
  mh_selector :: "Selector option"
  mh_lister :: "(string + gomap option list) option"
  mh_api :: nested_api
  mh_urls :: "'u url_api"
  mh_creation :: "gomap \<Rightarrow> int option"
  mh_network :: "'u network"

fun handleSubscriptionSelectionError :: "SelectError \<Rightarrow> 'u models_reply" where
  "handleSubscriptionSelectionError (MultipleSubscriptionsError _) =
     ModelsError 403 ''API key has no subscription bound'' ''permission_error''"
| "handleSubscriptionSelectionError (AccessDeniedError s) =
     ModelsError 403 (errorString (AccessDeniedError s)) ''permission_error''"
| "handleSubscriptionSelectionError (SubscriptionNotFoundError s) =
     ModelsError 403 (errorString (SubscriptionNotFoundError s)) ''permission_error''"
| "handleSubscriptionSelectionError NoSubscriptionError =
     ModelsError 403 (errorString NoSubscriptionError) ''permission_error''"
| "handleSubscriptionSelectionError _ = ModelsError 500 ''Failed to select subscription'' ''server_error''"

text \<open>A response without the fields a selection would fill.\<close>

definition namedOnly :: "string \<Rightarrow> SelectResponse" where
  "namedOnly name = (errorReply [] [] [])\<lparr>resp_name := name\<rparr>"

text \<open>\<open>Inl\<close> is a reply already sent; the user context is nil exactly when no selector is configured.\<close>

definition selectSubscriptionsForListing ::
  "'u ModelsHandler \<Rightarrow> UserContext option \<Rightarrow> string \<Rightarrow> bool \<Rightarrow> 'u models_reply + SelectResponse list" where
  "selectSubscriptionsForListing h userContext requestedSubscription returnAllModels =
     (if returnAllModels then
        (case (mh_selector h, userContext) of
           (Some sel, Some u) \<Rightarrow>
             (case GetAllAccessible sel (uc_groups u) (uc_username u) of
                Inl err \<Rightarrow> Inl (ModelsError 500 ''Failed to get subscriptions'' ''server_error'')
              | Inr allSubs \<Rightarrow> Inr allSubs)
         | _ \<Rightarrow> Inl (ModelsError 500 ''Subscription system not configured'' ''server_error''))
      else
        (case (mh_selector h, userContext) of
           (Some sel, Some u) \<Rightarrow>
             (case Select sel (uc_groups u) (uc_username u) requestedSubscription [] of
                Inl err \<Rightarrow> Inl (handleSubscriptionSelectionError err)
              | Inr result \<Rightarrow> Inr [result])
         | _ \<Rightarrow> if requestedSubscription = [] then Inr [] else Inr [namedOnly requestedSubscription]))"

text \<open>The last value of the header that is not blank.\<close>

definition requestedFrom :: "string list \<Rightarrow> string" where
  "requestedFrom headerValues =
     (case find (\<lambda>v. trimSpace v \<noteq> []) (rev headerValues) of None \<Rightarrow> [] | Some v \<Rightarrow> trimSpace v)"

definition extractAndValidateAuth :: "string \<Rightarrow> string list \<Rightarrow> 'u models_reply + string \<times> string \<times> bool" where
  "extractAndValidateAuth authorization headerValues =
     (let authHeader = trimSpace authorization
      in if authHeader = [] then Inl (ModelsError 401 ''Authorization required'' ''authentication_error'')
         else
           let requestedSubscription = requestedFrom headerValues;
               isAPIKeyRequest = hasPrefix authHeader ''Bearer sk-oai-''
           in if isAPIKeyRequest \<and> requestedSubscription = []
              then Inl (ModelsError 403 ''API key has no subscription bound'' ''permission_error'')
              else Inr (authHeader, requestedSubscription, isAPIKeyRequest))"

definition getUserContextIfNeeded :: "'u ModelsHandler \<Rightarrow> ctx_user \<Rightarrow> 'u models_reply + UserContext option" where
  "getUserContextIfNeeded h cu =
     (case mh_selector h of
        None \<Rightarrow> Inr None
      | Some _ \<Rightarrow>
          (case cu of
             NoUser \<Rightarrow> Inl (ModelsError 500 ''Internal server error'' ''server_error'')
           | WrongType \<Rightarrow> Inl (ModelsError 500 ''Internal server error'' ''server_error'')
           | User u \<Rightarrow> Inr (Some u)))"

definition handle_ListLLMs :: "'u ModelsHandler \<Rightarrow> string \<Rightarrow> string list \<Rightarrow> ctx_user \<Rightarrow> 'u models_reply" where
  "handle_ListLLMs h authorization headerValues cu =
     (case extractAndValidateAuth authorization headerValues of
        Inl reply \<Rightarrow> reply
      | Inr (authHeader, requestedSubscription, isAPIKeyRequest) \<Rightarrow>
          let returnAllModels = (\<not> isAPIKeyRequest \<and> requestedSubscription = [])
          in (case getUserContextIfNeeded h cu of
                Inl reply \<Rightarrow> reply
              | Inr userContext \<Rightarrow>
                  (case selectSubscriptionsForListing h userContext requestedSubscription returnAllModels of
                     Inl reply \<Rightarrow> reply
                   | Inr subscriptionsToUse \<Rightarrow>
                       (case mh_lister h of
                          None \<Rightarrow> ModelsPage ''no-store'' []
                        | Some lister \<Rightarrow>
                            (case ListFromMaaSModelRefLister (mh_api h) (mh_urls h) (mh_creation h) lister of
                               Inl err \<Rightarrow> ModelsError 500 ''Failed to list models'' ''server_error''
                             | Inr models \<Rightarrow>
                                 ModelsPage ''no-store''
                                   (if subscriptionsToUse = []
                                    then (if mh_selector h = None
                                          then FilterModelsByAccess (mh_urls h) (mh_network h) 0 models authHeader []
                                          else [])
                                    else aggregateModelsFromSubscriptions (mh_urls h) (mh_network h) models
                                           subscriptionsToUse authHeader))))))"

end
