(* ===== verification/Model_Access.thy ===== *)
theory Model_Access
  imports Model_Listing "HOL-Library.Product_Lexorder"
begin

text \<open>
  What the model listing guarantees: a model is listed under a subscription only if the caller has that
  subscription, the subscription covers the model and the access check with its name was granted; the
  merged list is the one a direct description gives; and it does not depend on the order in which the
  goroutines finish. The locale \<open>access_network\<close> holds what is documented of the network and of the
  backoff helper: at most the given number of attempts, and any order of the results.
\<close>

section \<open>Access checks\<close>

locale access_network =
  fixes net :: "'u network"
  assumes backoff_steps: "fst (net_backoff net c i n cond) \<le> n"
    and order_perm: "mset (net_order net c blocks) = mset blocks"
begin

lemma FilterModelsByAccess_set:
  "set (FilterModelsByAccess urls net c models a s) =
     (\<Union>im \<in> set (enumerate 0 models). set (checkAccess urls net c a s im))"
proof -
  have "set (concat (net_order net c blocks)) = (\<Union>b \<in> set blocks. set b)" for blocks
    using mset_eq_setD [OF order_perm [of c blocks]] by simp
  then show ?thesis by (simp add: FilterModelsByAccess_def)
qed

lemma fetchModelsWithRetry_granted:
  assumes "fetchModelsWithRetry net c i a s m endpoint = Some d"
  shows "\<exists>n < 4. fetchModels net m (net_do net c i n endpoint (probeHeaders a s)) = (Some d, authGranted)"
proof -
  let ?call = "\<lambda>n. fetchModels net m (net_do net c i n endpoint (probeHeaders a s))"
  obtain k err where b: "net_backoff net c i 4 (\<lambda>n. snd (?call n) \<noteq> authRetry) = (k, err)" by (cases "net_backoff net c i 4 (\<lambda>n. snd (?call n) \<noteq> authRetry)")
  have k: "k \<le> 4" using backoff_steps [of c i 4 "\<lambda>n. snd (?call n) \<noteq> authRetry"] by (simp add: b)
  from assms obtain j where j: "k = Suc j" "snd (?call j) = authGranted"
    by (cases k) (auto simp: fetchModelsWithRetry_def Let_def b split: if_splits)
  then have "fst (?call j) = Some d"
    using assms by (auto simp: fetchModelsWithRetry_def Let_def b split: if_splits)
  with j k show ?thesis by (intro exI [of _ j]) (simp add: prod_eq_iff)
qed

end

text \<open>The outcomes that grant access.\<close>

lemma fetchModels_granted:
  "snd (fetchModels net m outcome) = authGranted \<Longrightarrow>
   \<exists>status body. outcome = Response status body \<and> (200 \<le> status \<and> status < 300 \<or> status = 405)"
  by (cases outcome) (auto simp: fetchModels_def split: if_splits option.splits)

definition grantedFor :: "'u url_api \<Rightarrow> 'u network \<Rightarrow> nat \<Rightarrow> string \<Rightarrow> string \<Rightarrow> 'u Model \<Rightarrow> bool" where
  "grantedFor urls net c a s orig \<longleftrightarrow>
     md_kind orig = ''ExternalModel'' \<and> md_ready orig \<or>
     (\<exists>u endpoint i n status body. md_url orig = Some u \<and> url_JoinPath urls (url_String urls u) [''v1'', ''models''] = Some endpoint \<and>
        n < 4 \<and> net_do net c i n endpoint (probeHeaders a s) = Response status body \<and>
        (200 \<le> status \<and> status < 300 \<or> status = 405))"

text \<open>A listed model stands for the model it was made from.\<close>

definition standsFor :: "'u Model \<Rightarrow> 'u Model \<Rightarrow> bool" where
  "standsFor m orig \<longleftrightarrow> md_ownedBy m = md_ownedBy orig \<and> md_kind m = md_kind orig \<and> md_url m = md_url orig \<and>
     md_ready m = md_ready orig \<and> md_details m = md_details orig"

lemma discoveredToModels_standsFor: "m \<in> set (discoveredToModels d orig) \<Longrightarrow> standsFor m orig"
  by (auto simp: discoveredToModels_def standsFor_def Let_def split: if_splits)

context access_network
begin

lemma checkAccess_granted:
  assumes "m \<in> set (checkAccess urls net c a s (i, orig))"
  shows "standsFor m orig \<and> grantedFor urls net c a s orig"
proof (cases "md_kind orig = ''ExternalModel''")
  case True
  with assms show ?thesis by (auto simp: checkAccess_def standsFor_def grantedFor_def split: if_splits)
next
  case False
  with assms obtain u endpoint d where probe: "md_url orig = Some u"
    "url_JoinPath urls (url_String urls u) [''v1'', ''models''] = Some endpoint"
    "fetchModelsWithRetry net c i a s (md_id orig) endpoint = Some d" and m: "m \<in> set (discoveredToModels d orig)"
    by (simp add: checkAccess_def split: option.split_asm) metis
  from fetchModelsWithRetry_granted [OF probe(3)] obtain n where
    n: "n < 4" "fetchModels net (md_id orig) (net_do net c i n endpoint (probeHeaders a s)) = (Some d, authGranted)" by blast
  from fetchModels_granted [of net "md_id orig" "net_do net c i n endpoint (probeHeaders a s)"] n(2)
  obtain status body where "net_do net c i n endpoint (probeHeaders a s) = Response status body"
    "200 \<le> status \<and> status < 300 \<or> status = 405" by auto
  with probe n(1) have "grantedFor urls net c a s orig" unfolding grantedFor_def by blast
  with m show ?thesis by (blast dest: discoveredToModels_standsFor)
qed

lemma FilterModelsByAccess_granted:
  assumes "m \<in> set (FilterModelsByAccess urls net c models a s)"
  obtains orig where "orig \<in> set models" "standsFor m orig" "grantedFor urls net c a s orig"
proof -
  from assms obtain i orig where "(i, orig) \<in> set (enumerate 0 models)" "m \<in> set (checkAccess urls net c a s (i, orig))"
    unfolding FilterModelsByAccess_set by auto
  moreover from this(1) have "orig \<in> set models" by (auto simp: in_set_enumerate_eq)
  ultimately show ?thesis using that checkAccess_granted by blast
qed

end

section \<open>Merging\<close>

text \<open>The first entry of every name.\<close>

fun firstByName :: "ModelSubscriptionInfo list \<Rightarrow> ModelSubscriptionInfo list" where
  "firstByName [] = []"
| "firstByName (x # xs) = x # filter (\<lambda>y. msi_name y \<noteq> msi_name x) (firstByName xs)"

lemma set_firstByName: "set (firstByName xs) \<subseteq> set xs"
  by (induction xs) auto

lemma names_without: "msi_name ` set (filter (\<lambda>y. msi_name y \<noteq> n) xs) = msi_name ` set xs - {n}"
  by auto

lemma names_firstByName: "msi_name ` set (firstByName xs) = msi_name ` set xs"
  by (induction xs) (auto simp: names_without simp del: set_filter)

lemma firstByName_Nil_iff [simp]: "firstByName xs = [] \<longleftrightarrow> xs = []"
  by (cases xs) simp_all

definition addInfo :: "ModelSubscriptionInfo \<Rightarrow> ModelSubscriptionInfo list \<Rightarrow> ModelSubscriptionInfo list" where
  "addInfo x xs = (if msi_name x \<in> msi_name ` set xs then xs else xs @ [x])"

lemma firstByName_snoc: "firstByName (xs @ [x]) = addInfo x (firstByName xs)"
proof (induction xs)
  case (Cons y ys)
  then show ?case
    by (cases "msi_name x = msi_name y")
      (simp_all add: addInfo_def names_without names_firstByName del: set_filter)
qed (simp add: addInfo_def)

lemma addInfo_idem: "addInfo x (addInfo x xs) = addInfo x xs"
  by (simp add: addInfo_def)

text \<open>The subscriptions recorded under a key.\<close>

definition recorded :: "(model_key \<times> 'u Model) list \<Rightarrow> model_key \<Rightarrow> ModelSubscriptionInfo list" where
  "recorded L k = (case map_of L k of None \<Rightarrow> [] | Some m \<Rightarrow> md_subscriptions m)"

definition merged :: "'u url_api \<Rightarrow> 'u Model set \<Rightarrow> (model_key \<times> 'u Model) list \<Rightarrow> bool" where
  "merged urls ms L \<longleftrightarrow> distinct (map fst L) \<and>
     (\<forall>k m. map_of L k = Some m \<longrightarrow> modelKey urls m = k \<and> md_subscriptions m \<noteq> [] \<and> (\<exists>m0 \<in> ms. standsFor m m0 \<and> md_id m = md_id m0))"

lemma mergedD:
  "merged urls ms L \<Longrightarrow> map_of L k = Some m \<Longrightarrow>
   modelKey urls m = k \<and> md_subscriptions m \<noteq> [] \<and> (\<exists>m0 \<in> ms. standsFor m m0 \<and> md_id m = md_id m0)"
  unfolding merged_def by blast

lemma recorded_addModel:
  "recorded (addModel urls x m L) =
     (recorded L)(modelKey urls m := addInfo x (recorded L (modelKey urls m)))"
  by (rule ext)
    (auto simp: recorded_def addModel_def Let_def update_conv' addSubscriptionIfNew_def addInfo_def list_ex_iff
      image_iff split: option.splits)

lemma standsFor_refl [simp]: "standsFor m m" "standsFor (m\<lparr>md_subscriptions := xs\<rparr>) m"
  by (simp_all add: standsFor_def)

lemma modelKey_subscriptions [simp]: "modelKey urls (m\<lparr>md_subscriptions := xs\<rparr>) = modelKey urls m"
  by (simp add: modelKey_def)

lemma addSubscriptionIfNew_keeps:
  "standsFor (addSubscriptionIfNew e x) m0 = standsFor e m0" "md_id (addSubscriptionIfNew e x) = md_id e"
  "modelKey urls (addSubscriptionIfNew e x) = modelKey urls e" "md_subscriptions (addSubscriptionIfNew e x) \<noteq> []"
  by (auto simp: addSubscriptionIfNew_def standsFor_def list_ex_iff)

lemma merged_addModel:
  assumes "merged urls ms L" "m \<in> ms"
  shows "merged urls ms (addModel urls x m L)"
proof -
  let ?key = "modelKey urls m"
  define e where "e = (case map_of L ?key of Some old \<Rightarrow> addSubscriptionIfNew old x | None \<Rightarrow> m\<lparr>md_subscriptions := [x]\<rparr>)"
  have upd: "addModel urls x m L = AList.update ?key e L"
    by (simp add: addModel_def e_def Let_def split: option.splits)
  have "modelKey urls e = ?key \<and> md_subscriptions e \<noteq> [] \<and> (\<exists>m0 \<in> ms. standsFor e m0 \<and> md_id e = md_id m0)"
  proof (cases "map_of L ?key")
    case None
    with assms(2) show ?thesis by (intro conjI bexI [of _ m]) (simp_all add: e_def)
  next
    case (Some old)
    with mergedD [OF assms(1) Some] show ?thesis by (simp only: e_def option.case addSubscriptionIfNew_keeps simp_thms)
  qed
  then show ?thesis using assms(1) unfolding merged_def upd by (simp add: update_conv' distinct_update)
qed

lemma fold_addModel:
  assumes "merged urls ms L" "set xs \<subseteq> ms"
  shows "merged urls ms (fold (addModel urls x) xs L) \<and>
    recorded (fold (addModel urls x) xs L) =
      (\<lambda>k. if k \<in> modelKey urls ` set xs then addInfo x (recorded L k) else recorded L k)"
  using assms
proof (induction xs arbitrary: L)
  case (Cons m xs)
  then show ?case
    using merged_addModel [of urls ms L m x]
    by (auto simp: recorded_addModel fun_eq_iff addInfo_idem)
qed auto

text \<open>The keys a subscription gives access to.\<close>

definition keysVia :: "'u url_api \<Rightarrow> 'u network \<Rightarrow> 'u Model list \<Rightarrow> string \<Rightarrow> nat \<times> SelectResponse \<Rightarrow> model_key set" where
  "keysVia urls net models a cs = modelKey urls ` set (accessibleVia urls net models a (fst cs) (snd cs))"

lemma fold_addSubscription:
  assumes "ms = (\<Union>cs \<in> set css. set (accessibleVia urls net models a (fst cs) (snd cs)))"
  shows "merged urls ms (fold (addSubscription urls net models a) css []) \<and>
    recorded (fold (addSubscription urls net models a) css []) =
      (\<lambda>k. firstByName (map (\<lambda>cs. subInfoFor (snd cs)) (filter (\<lambda>cs. k \<in> keysVia urls net models a cs) css)))"
proof -
  have "merged urls ms (fold (addSubscription urls net models a) ys []) \<and>
      recorded (fold (addSubscription urls net models a) ys []) =
        (\<lambda>k. firstByName (map (\<lambda>cs. subInfoFor (snd cs)) (filter (\<lambda>cs. k \<in> keysVia urls net models a cs) ys)))"
    if "set ys \<subseteq> set css" for ys
    using that
  proof (induction ys rule: rev_induct)
    case Nil
    show ?case by (simp add: merged_def recorded_def)
  next
    case (snoc cs ys)
    let ?L = "fold (addSubscription urls net models a) ys []"
    have L: "merged urls ms ?L" using snoc by simp
    have sub: "set (accessibleVia urls net models a (fst cs) (snd cs)) \<subseteq> ms" using assms snoc.prems by auto
    have step: "fold (addSubscription urls net models a) (ys @ [cs]) [] =
        fold (addModel urls (subInfoFor (snd cs))) (accessibleVia urls net models a (fst cs) (snd cs)) ?L"
      by (simp add: addSubscription_def [of urls net models a cs])
    have rec: "recorded ?L = (\<lambda>k. firstByName (map (\<lambda>cs. subInfoFor (snd cs)) (filter (\<lambda>cs. k \<in> keysVia urls net models a cs) ys)))"
      using snoc by simp
    have "recorded (fold (addSubscription urls net models a) (ys @ [cs]) []) k =
        firstByName (map (\<lambda>cs. subInfoFor (snd cs)) (filter (\<lambda>cs. k \<in> keysVia urls net models a cs) (ys @ [cs])))" for k
      unfolding step conjunct2 [OF fold_addModel [OF L sub]] rec
      by (cases "k \<in> keysVia urls net models a cs") (simp_all add: firstByName_snoc flip: keysVia_def)
    moreover have "merged urls ms (fold (addSubscription urls net models a) (ys @ [cs]) [])"
      unfolding step by (rule conjunct1 [OF fold_addModel [OF L sub]])
    ultimately show ?case by (intro conjI ext)
  qed
  then show ?thesis by blast
qed

lemma keyLess_iff: "keyLess a b \<longleftrightarrow> a < b"
  by (cases a, cases b) (auto simp: keyLess_def less_prod_def')

interpretation by_key: weak_order keyLess
  by unfold_locales (auto simp: keyLess_iff)

lemma stable_sort_keyLess: "distinct ks \<Longrightarrow> sorted_wrt (<) (stable_sort keyLess ks)"
proof -
  assume "distinct ks"
  then have "distinct (stable_sort keyLess ks)" by simp
  moreover have "sorted (stable_sort keyLess ks)"
    using by_key.sorted_stable_sort [of ks] by (simp add: keyLess_iff not_less)
  ultimately show ?thesis by (simp add: strict_sorted_iff)
qed

text \<open>The reference: every key any subscription gives access to, once and in order, with the subscriptions
  that give access to it, the first of each name.\<close>

definition referenceListing ::
  "'u url_api \<Rightarrow> 'u network \<Rightarrow> 'u Model list \<Rightarrow> SelectResponse list \<Rightarrow> string \<Rightarrow> (model_key \<times> ModelSubscriptionInfo list) list" where
  "referenceListing urls net models subs a =
     map (\<lambda>k. (k, firstByName (map (\<lambda>cs. subInfoFor (snd cs))
                     (filter (\<lambda>cs. k \<in> keysVia urls net models a cs) (enumerate 0 subs)))))
       (sorted_list_of_set (\<Union>cs \<in> set (enumerate 0 subs). keysVia urls net models a cs))"

lemma aggregate_reference:
  shows "map (\<lambda>m. (modelKey urls m, md_subscriptions m)) (aggregateModelsFromSubscriptions urls net models subs a) =
      referenceListing urls net models subs a" (is ?eq)
    and "m \<in> set (aggregateModelsFromSubscriptions urls net models subs a) \<Longrightarrow>
      \<exists>cs \<in> set (enumerate 0 subs). \<exists>m0 \<in> set (accessibleVia urls net models a (fst cs) (snd cs)). standsFor m m0 \<and> md_id m = md_id m0"
proof -
  let ?L = "fold (addSubscription urls net models a) (enumerate 0 subs) []"
  let ?subs = "\<lambda>k. filter (\<lambda>cs. k \<in> keysVia urls net models a cs) (enumerate 0 subs)"
  let ?ms = "\<Union>cs \<in> set (enumerate 0 subs). set (accessibleVia urls net models a (fst cs) (snd cs))"
  have merged: "merged urls ?ms ?L"
    and rec: "recorded ?L = (\<lambda>k. firstByName (map (\<lambda>cs. subInfoFor (snd cs)) (?subs k)))"
    using fold_addSubscription [OF refl, where css = "enumerate 0 subs" and urls = urls and net = net and models = models and a = a]
    by blast+
  have agg: "aggregateModelsFromSubscriptions urls net models subs a = map (\<lambda>k. the (map_of ?L k)) (stable_sort keyLess (map fst ?L))"
    by (simp add: aggregateModelsFromSubscriptions_def Let_def)
  have entry: "\<exists>m. map_of ?L k = Some m" if "k \<in> fst ` set ?L" for k
    using that by (metis map_of_eq_None_iff not_None_eq)
  have key: "modelKey urls (the (map_of ?L k)) = k" "md_subscriptions (the (map_of ?L k)) = recorded ?L k"
    if "k \<in> fst ` set ?L" for k
    using entry [OF that] mergedD [OF merged, of k] by (auto simp: recorded_def)
  have "k \<in> fst ` set ?L \<longleftrightarrow> recorded ?L k \<noteq> []" for k
  proof (cases "map_of ?L k")
    case None
    then have "k \<notin> fst ` set ?L" by (simp add: map_of_eq_None_iff)
    with None show ?thesis by (simp add: recorded_def)
  next
    case (Some m)
    then show ?thesis using mergedD [OF merged Some] by (simp add: recorded_def) (metis fst_conv image_eqI map_of_SomeD)
  qed
  then have mem: "k \<in> fst ` set ?L \<longleftrightarrow> (\<exists>cs \<in> set (enumerate 0 subs). k \<in> keysVia urls net models a cs)" for k
    unfolding rec by (simp add: filter_empty_conv)
  have keys: "set (map fst ?L) = (\<Union>cs \<in> set (enumerate 0 subs). keysVia urls net models a cs)"
    by (rule set_eqI) (simp only: set_map mem UN_iff)
  have "distinct (map fst ?L)" using merged by (simp add: merged_def)
  then have "stable_sort keyLess (map fst ?L) = sorted_list_of_set (set (map fst ?L))"
    by (intro strict_sorted_equal [symmetric]) (simp_all add: stable_sort_keyLess)
  then have sorted: "stable_sort keyLess (map fst ?L) = sorted_list_of_set (\<Union>cs \<in> set (enumerate 0 subs). keysVia urls net models a cs)"
    unfolding keys .
  show ?eq
    unfolding agg referenceListing_def sorted [symmetric] rec [symmetric, THEN fun_cong]
    by (simp add: key)
  show "\<exists>cs \<in> set (enumerate 0 subs). \<exists>m0 \<in> set (accessibleVia urls net models a (fst cs) (snd cs)). standsFor m m0 \<and> md_id m = md_id m0"
    if "m \<in> set (aggregateModelsFromSubscriptions urls net models subs a)"
  proof -
    from that obtain k where "k \<in> fst ` set ?L" "m = the (map_of ?L k)" unfolding agg by auto
    with entry [of k] mergedD [OF merged, of k] show ?thesis by auto
  qed
qed

section \<open>Theorems\<close>

text \<open>C14: merging the access checks of several subscriptions computes the reference listing: every model
  some subscription gives access to appears exactly once, in the order of id, URL and owner, with exactly
  the subscriptions that give access to it, in the caller's order and the first of each name.\<close>

theorem aggregate_is_reference:
  "map (\<lambda>m. (modelKey urls m, md_subscriptions m)) (aggregateModelsFromSubscriptions urls net models subs a) =
   referenceListing urls net models subs a"
  by (rule aggregate_reference)

text \<open>The listing does not depend on the scheduling of the concurrent probes: with the same outcomes
  of all requests but the results appended in any other order, the merged list has the same models with
  the same subscriptions in the same order.\<close>

theorem listing_order_independent:
  assumes "access_network net" "access_network (net\<lparr>net_order := ord\<rparr>)"
  shows "map (\<lambda>m. (modelKey urls m, md_subscriptions m)) (aggregateModelsFromSubscriptions urls (net\<lparr>net_order := ord\<rparr>) models subs a) =
    map (\<lambda>m. (modelKey urls m, md_subscriptions m)) (aggregateModelsFromSubscriptions urls net models subs a)"
proof -
  let ?net = "net\<lparr>net_order := ord\<rparr>"
  have fields: "net_do ?net = net_do net" "net_backoff ?net = net_backoff net" "net_decode ?net = net_decode net" by simp_all
  have parse: "parseModelsResponse ?net = parseModelsResponse net"
    by (rule ext) (unfold parseModelsResponse_def fields, rule refl)
  have fetch: "fetchModels ?net = fetchModels net" by (intro ext) (unfold fetchModels_def parse, rule refl)
  have retry: "fetchModelsWithRetry ?net = fetchModelsWithRetry net"
    by (intro ext) (unfold fetchModelsWithRetry_def fetch fields, rule refl)
  have check: "checkAccess urls ?net = checkAccess urls net" by (intro ext) (unfold checkAccess_def retry, rule refl)
  have "keysVia urls (net\<lparr>net_order := ord\<rparr>) models a = keysVia urls net models a"
    by (simp add: fun_eq_iff keysVia_def accessibleVia_def Let_def check
        access_network.FilterModelsByAccess_set [OF assms(1)] access_network.FilterModelsByAccess_set [OF assms(2)])
  then show ?thesis unfolding aggregate_reference(1) referenceListing_def by simp
qed

text \<open>The models of a granted check of one subscription.\<close>

lemma accessibleVia_granted:
  assumes "access_network net" "m0 \<in> set (accessibleVia urls net models a c sub)"
  obtains orig where "orig \<in> set models" "standsFor m0 orig" "grantedFor urls net c a (resp_name sub) orig"
    "resp_modelRefs sub \<noteq> [] \<Longrightarrow> \<exists>ref \<in> set (resp_modelRefs sub). md_ownedBy orig = mr_namespace ref @ ''/'' @ mr_name ref"
proof -
  from access_network.FilterModelsByAccess_granted [OF assms(1) assms(2) [unfolded accessibleVia_def Let_def]]
  obtain orig where orig: "orig \<in> set (if resp_modelRefs sub \<noteq> [] then filterModelsBySubscription models (resp_modelRefs sub) else models)"
    "standsFor m0 orig" "grantedFor urls net c a (resp_name sub) orig" .
  show ?thesis
    by (rule that [OF _ orig(2,3)]) (use orig(1) in \<open>auto simp: filterModelsBySubscription_def Let_def split: if_splits\<close>)
qed

text \<open>The subscriptions the listing uses are the caller's.\<close>

lemma GetAllAccessible_Inr:
  "GetAllAccessible s g u = Inr rs \<Longrightarrow> set rs = toResponse ` {sub \<in> set (loaded s). listedForUser u g sub}"
  by (auto simp: GetAllAccessible_def loaded_def split: sum.splits if_splits)

lemma selectSubscriptionsForListing_accessible:
  assumes "selectSubscriptionsForListing h (Some u) rs all = Inr subs" "mh_selector h = Some sel" "r \<in> set subs"
  obtains sub where "sub \<in> set (loaded sel)" "r = toResponse sub" "userHasAccess sub (uc_username u) (uc_groups u)"
proof (cases all)
  case True
  with assms(1,2) have "GetAllAccessible sel (uc_groups u) (uc_username u) = Inr subs"
    by (simp add: selectSubscriptionsForListing_def split: sum.splits)
  from GetAllAccessible_Inr [OF this] assms(3) show ?thesis unfolding listedForUser_iff by (blast intro: that)
next
  case False
  with assms(1,2) obtain r' where "Select sel (uc_groups u) (uc_username u) rs [] = Inr r'" "subs = [r']"
    by (auto simp: selectSubscriptionsForListing_def split: sum.splits)
  with assms(3) have "Select sel (uc_groups u) (uc_username u) rs [] = Inr r" by simp
  then show ?thesis by (rule Select_Inr) (rule that)
qed

text \<open>How a page with models comes about.\<close>

lemma handle_ListLLMs_page:
  fixes h :: "'u ModelsHandler"
  assumes "mh_selector h = Some sel" "handle_ListLLMs h authorization headerValues cu = ModelsPage cache ms" "ms \<noteq> []"
  obtains rs all u items models subs where "cu = User u" "mh_lister h = Some (Inr items)"
    "ListFromMaaSModelRefLister (mh_api h) (mh_urls h) (mh_creation h) (Inr items) = Inr models"
    "selectSubscriptionsForListing h (Some u) rs all = Inr subs" "cache = ''no-store''"
    "ms = aggregateModelsFromSubscriptions (mh_urls h) (mh_network h) models subs (trimSpace authorization)"
proof -
  from assms(2) obtain a rs key where auth: "(extractAndValidateAuth authorization headerValues :: 'u models_reply + _) = Inr (a, rs, key)"
    unfolding handle_ListLLMs_def by (cases "extractAndValidateAuth authorization headerValues :: 'u models_reply + _")
      (auto simp: extractAndValidateAuth_def Let_def split: if_splits)
  then have a: "a = trimSpace authorization" by (auto simp: extractAndValidateAuth_def Let_def split: if_splits)
  note page = assms(2) [unfolded handle_ListLLMs_def auth sum.case prod.case Let_def getUserContextIfNeeded_def assms(1) option.case]
  from page obtain u where u: "cu = User u" by (cases cu) simp_all
  note page1 = page [unfolded u ctx_user.case sum.case]
  from page1 obtain subs where subs: "selectSubscriptionsForListing h (Some u) rs (\<not> key \<and> rs = []) = Inr subs"
    by (cases "selectSubscriptionsForListing h (Some u) rs (\<not> key \<and> rs = [])")
      (auto simp: selectSubscriptionsForListing_def assms(1) split: if_splits sum.splits elim: handleSubscriptionSelectionError.elims)
  note page2 = page1 [unfolded subs sum.case]
  from page2 assms(3) obtain lister where lister: "mh_lister h = Some lister" by (cases "mh_lister h") simp_all
  note page3 = page2 [unfolded lister option.case]
  from page3 obtain items where items: "lister = Inr items" by (cases lister) (simp_all add: ListFromMaaSModelRefLister_def)
  obtain models where models: "ListFromMaaSModelRefLister (mh_api h) (mh_urls h) (mh_creation h) (Inr items) = Inr models"
    by (simp add: ListFromMaaSModelRefLister_def)
  note page4 = page3 [unfolded items models sum.case]
  from page4 assms(3) have "cache = ''no-store''"
    "ms = aggregateModelsFromSubscriptions (mh_urls h) (mh_network h) models subs (trimSpace authorization)"
    by (auto simp: assms(1) a split: if_splits)
  with u lister [unfolded items] models subs show ?thesis by (rule that)
qed

text \<open>C11: a model is listed only where access was granted. When a selector is configured, the answer is
  marked \<open>no-store\<close>, and every subscription a listed model is shown under is one the selector loaded that
  belongs to the caller, covers the MaaSModelRef the model stands for (if it lists models at all), and
  was granted access to it: a request with the caller's credentials and this subscription's name was
  answered with 2xx or 405, or the model is external and Ready, as those are not probed. The name,
  readiness and URL shown come from a MaaSModelRef in the cache.\<close>

theorem listed_model_granted:
  assumes "access_network (mh_network h)" "mh_selector h = Some sel"
    and "handle_ListLLMs h authorization headerValues cu = ModelsPage cache ms" "m \<in> set ms" "i \<in> set (md_subscriptions m)"
  shows "cache = ''no-store'' \<and>
    (\<exists>u items models sub orig c. cu = User u \<and> mh_lister h = Some (Inr items) \<and>
       ListFromMaaSModelRefLister (mh_api h) (mh_urls h) (mh_creation h) (Inr items) = Inr models \<and>
       sub \<in> set (loaded sel) \<and> i = subInfoFor (toResponse sub) \<and> userHasAccess sub (uc_username u) (uc_groups u) \<and>
       orig \<in> set models \<and> md_ownedBy m = md_ownedBy orig \<and>
       (sub_modelRefs sub \<noteq> [] \<longrightarrow> (\<exists>ref \<in> set (sub_modelRefs sub). md_ownedBy m = mr_namespace ref @ ''/'' @ mr_name ref)) \<and>
       grantedFor (mh_urls h) (mh_network h) c (trimSpace authorization) (sub_name sub) orig)"
proof -
  from assms(4) have "ms \<noteq> []" by auto
  from handle_ListLLMs_page [OF assms(2,3) this] obtain rs all u items models subs
    where u: "cu = User u" and lister: "mh_lister h = Some (Inr items)"
      and models: "ListFromMaaSModelRefLister (mh_api h) (mh_urls h) (mh_creation h) (Inr items) = Inr models"
      and subs: "selectSubscriptionsForListing h (Some u) rs all = Inr subs" and ms: "cache = ''no-store''"
        "ms = aggregateModelsFromSubscriptions (mh_urls h) (mh_network h) models subs (trimSpace authorization)" .
  have "(modelKey (mh_urls h) m, md_subscriptions m) \<in> set (referenceListing (mh_urls h) (mh_network h) models subs (trimSpace authorization))"
    using assms(4) unfolding ms(2) aggregate_reference(1) [symmetric] by auto
  then obtain cs where cs: "cs \<in> set (enumerate 0 subs)" "i = subInfoFor (snd cs)"
    "modelKey (mh_urls h) m \<in> keysVia (mh_urls h) (mh_network h) models (trimSpace authorization) cs"
    using assms(5) set_firstByName by (fastforce simp: referenceListing_def)
  then obtain m0 where m0: "m0 \<in> set (accessibleVia (mh_urls h) (mh_network h) models (trimSpace authorization) (fst cs) (snd cs))"
    "modelKey (mh_urls h) m = modelKey (mh_urls h) m0" by (auto simp: keysVia_def)
  obtain orig where orig: "orig \<in> set models" "standsFor m0 orig"
    "grantedFor (mh_urls h) (mh_network h) (fst cs) (trimSpace authorization) (resp_name (snd cs)) orig"
    "resp_modelRefs (snd cs) \<noteq> [] \<Longrightarrow> \<exists>ref \<in> set (resp_modelRefs (snd cs)). md_ownedBy orig = mr_namespace ref @ ''/'' @ mr_name ref"
    by (rule accessibleVia_granted [OF assms(1) m0(1)]) blast
  have owned: "md_ownedBy m = md_ownedBy orig" using m0(2) orig(2) by (simp add: modelKey_def standsFor_def)
  have "snd cs \<in> set subs" using cs(1) by (metis list.set_map imageI map_snd_enumerate)
  from selectSubscriptionsForListing_accessible [OF subs assms(2) this] obtain sub where
    sub: "sub \<in> set (loaded sel)" "snd cs = toResponse sub" "userHasAccess sub (uc_username u) (uc_groups u)" .
  have resp: "resp_name (snd cs) = sub_name sub" "resp_modelRefs (snd cs) = sub_modelRefs sub" by (simp_all add: sub(2) toResponse_def)
  show ?thesis
    using u lister models ms(1) sub cs(2) orig owned unfolding resp by (intro conjI exI [of _ sub] exI) (assumption | simp)+
qed

section \<open>A network\<close>

text \<open>URLs as their text; the backoff helper calls until the condition holds; every endpoint answers as
  \<open>answer\<close> says.\<close>

definition text_urls :: "string url_api" where
  "text_urls = \<lparr>url_Parse = Some, url_String = id, url_JoinPath = (\<lambda>base parts. Some (joinStrings ''/'' (base # parts)))\<rparr>"

definition loop_backoff :: "nat \<Rightarrow> nat \<Rightarrow> nat \<Rightarrow> (nat \<Rightarrow> bool) \<Rightarrow> nat \<times> string option" where
  "loop_backoff c i n cond =
     (case find cond [0..<n] of Some k \<Rightarrow> (Suc k, None) | None \<Rightarrow> (n, Some ''timed out waiting for the condition''))"

definition text_network :: "(string \<Rightarrow> (string \<times> string) list \<Rightarrow> int) \<Rightarrow> string network" where
  "text_network answer =
     \<lparr>net_do = (\<lambda>c i n endpoint headers. Response (answer endpoint headers) ([], None)), net_backoff = loop_backoff,
      net_decode = (\<lambda>_. Some (Some [])), net_order = (\<lambda>_ blocks. blocks)\<rparr>"

lemma loop_backoff_steps: "fst (loop_backoff c i n cond) \<le> n"
  by (auto simp: loop_backoff_def find_Some_iff split: option.splits)

interpretation text_net: access_network "text_network answer" for answer
  by unfold_locales (simp_all add: text_network_def loop_backoff_steps)

interpretation text_net_rev: access_network "(text_network answer)\<lparr>net_order := \<lambda>_. rev\<rparr>" for answer
  by unfold_locales (simp_all add: text_network_def loop_backoff_steps)

definition sampleModelRef :: "string \<Rightarrow> string \<Rightarrow> gomap" where
  "sampleModelRef ns name =
     [(''metadata'', GMap [(''name'', GStr name), (''namespace'', GStr ns)]),
      (''spec'', GMap [(''modelRef'', GMap [(''kind'', GStr ''LLMInferenceService''), (''name'', GStr name)])]),
      (''status'', GMap [(''phase'', GStr ''Ready''), (''endpoint'', GStr (''https://gw/'' @ name))])]"

definition sampleListing :: "(string \<Rightarrow> (string \<times> string) list \<Rightarrow> int) \<Rightarrow> string ModelsHandler" where
  "sampleListing answer =
     \<lparr>mh_selector = Some exSelector, mh_lister = Some (Inr [Some (sampleModelRef ''llm'' ''m1''), Some (sampleModelRef ''llm'' ''m2'')]),
      mh_api = std_nested, mh_urls = text_urls, mh_creation = (\<lambda>_. None), mh_network = text_network answer\<rparr>"

definition onlyM1 :: "string \<Rightarrow> (string \<times> string) list \<Rightarrow> int" where
  "onlyM1 endpoint headers = (if endpoint = ''https://gw/m1/v1/models'' then 405 else 403)"

definition alice :: ctx_user where
  "alice = User \<lparr>uc_username = ''alice'', uc_groups = ['' team'']\<rparr>"

theorem listed_model_granted_witness:
  "\<exists>m i sub. handle_ListLLMs (sampleListing onlyM1) ''Bearer token'' [''silver''] alice = ModelsPage ''no-store'' [m] \<and>
     i \<in> set (md_subscriptions m) \<and> sub \<in> set (loaded exSelector) \<and> i = subInfoFor (toResponse sub) \<and>
     userHasAccess sub ''alice'' ['' team'']"
proof -
  let ?h = "sampleListing onlyM1" and ?run = "handle_ListLLMs (sampleListing onlyM1) ''Bearer token'' [''silver''] alice"
  have "case ?run of ModelsPage cache [m] \<Rightarrow> md_subscriptions m \<noteq> [] | _ \<Rightarrow> False" by code_simp
  then obtain cache m where page: "?run = ModelsPage cache [m]" "md_subscriptions m \<noteq> []"
    by (auto split: models_reply.splits list.splits)
  then obtain i where run: "?run = ModelsPage cache [m]" "i \<in> set (md_subscriptions m)" by (meson last_in_set)
  have net: "access_network (mh_network ?h)" and sel: "mh_selector ?h = Some exSelector"
    using text_net.access_network_axioms by (simp_all add: sampleListing_def)
  from listed_model_granted [OF net sel run(1) _ run(2)] show ?thesis using run by (auto simp: alice_def)
qed

theorem listing_order_independent_witness:
  "map (\<lambda>m. (md_id m, map msi_name (md_subscriptions m)))
     (aggregateModelsFromSubscriptions text_urls ((text_network (\<lambda>_ _. 200))\<lparr>net_order := \<lambda>_. rev\<rparr>)
        [the (maasModelRefToModel std_nested text_urls (\<lambda>_. None) (Some (sampleModelRef ''llm'' ''m2''))),
         the (maasModelRefToModel std_nested text_urls (\<lambda>_. None) (Some (sampleModelRef ''llm'' ''m1'')))]
        [namedOnly ''gold'', namedOnly ''silver''] ''Bearer token'') =
   [(''m1'', [''gold'', ''silver'']), (''m2'', [''gold'', ''silver''])]"
proof -
  let ?ms = "[the (maasModelRefToModel std_nested text_urls (\<lambda>_. None) (Some (sampleModelRef ''llm'' ''m2''))),
         the (maasModelRefToModel std_nested text_urls (\<lambda>_. None) (Some (sampleModelRef ''llm'' ''m1'')))]"
    and ?subs = "[namedOnly ''gold'', namedOnly ''silver'']"
    and ?f = "\<lambda>p :: model_key \<times> ModelSubscriptionInfo list. (fst (fst p), map msi_name (snd p))"
  have "map (\<lambda>m. (md_id m, map msi_name (md_subscriptions m)))
      (aggregateModelsFromSubscriptions text_urls (text_network (\<lambda>_ _. 200)) ?ms ?subs ''Bearer token'') =
      [(''m1'', [''gold'', ''silver'']), (''m2'', [''gold'', ''silver''])]" by code_simp
  moreover have "map (\<lambda>m. (md_id m, map msi_name (md_subscriptions m))) xs =
      map ?f (map (\<lambda>m. (modelKey text_urls m, md_subscriptions m)) xs)" for xs
    by (simp add: modelKey_def)
  ultimately show ?thesis
    by (simp only: listing_order_independent [OF text_net.access_network_axioms text_net_rev.access_network_axioms])
qed

end
