(* ===== verification/Maas_Types.thy ===== *)
theory Maas_Types
  imports Go_Prelude
begin

text \<open>
  The custom resources of \<open>maas-controller/api/maas/v1alpha1\<close>, and what the controllers read of the
  objects of other APIs (HTTPRoute and Gateway of the Gateway API, LLMInferenceService of KServe,
  the AuthPolicy and TokenRateLimitPolicy objects of Kuadrant, which the code handles as unstructured
  data). A Go map with string keys is an association list. Of the object metadata the model keeps
  what the controllers use; a deletion timestamp is the flag whether it is set. Fields that no
  controller reads (token and metering metadata, billing rates, the status of an ExternalModel) are
  left out: they are carried along unchanged.
\<close>

section \<open>Metadata and conditions\<close>

record ObjectMeta =
  om_name :: string
  om_namespace :: string
  om_labels :: "(string \<times> string) list"
  om_annotations :: "(string \<times> string) list"
  om_finalizers :: "string list"
  om_deleting :: bool
  om_generation :: int

record Condition =
  cd_type :: string
  cd_status :: string
  cd_reason :: string
  cd_message :: string
  cd_observedGeneration :: int

text \<open>\<open>metav1.OwnerReference\<close>.\<close>

record owner_ref =
  or_apiVersion :: string
  or_kind :: string
  or_name :: string
  or_uid :: string
  or_controller :: bool
  or_blockOwnerDeletion :: bool

text \<open>\<open>types.NamespacedName\<close>: namespace and name.\<close>

type_synonym nsn = "string \<times> string"

definition nsnOf :: "ObjectMeta \<Rightarrow> nsn" where
  "nsnOf m = (om_namespace m, om_name m)"

text \<open>The one Tenant, \<open>tenant_types.go\<close>.\<close>

definition TenantInstanceName :: string where "TenantInstanceName = ''default-tenant''"

section \<open>common\_types.go\<close>

definition PhasePending :: string where "PhasePending = ''Pending''"
definition PhaseActive :: string where "PhaseActive = ''Active''"
definition PhaseDegraded :: string where "PhaseDegraded = ''Degraded''"
definition PhaseFailed :: string where "PhaseFailed = ''Failed''"

definition ReasonReconciled :: string where "ReasonReconciled = ''Reconciled''"
definition ReasonReconcileFailed :: string where "ReasonReconcileFailed = ''ReconcileFailed''"
definition ReasonPartialFailure :: string where "ReasonPartialFailure = ''PartialFailure''"
definition ReasonValid :: string where "ReasonValid = ''Valid''"
definition ReasonNotFound :: string where "ReasonNotFound = ''NotFound''"
definition ReasonGetFailed :: string where "ReasonGetFailed = ''GetFailed''"
definition ReasonAccepted :: string where "ReasonAccepted = ''Accepted''"
definition ReasonAcceptedEnforced :: string where "ReasonAcceptedEnforced = ''AcceptedEnforced''"
definition ReasonNotAccepted :: string where "ReasonNotAccepted = ''NotAccepted''"
definition ReasonNotEnforced :: string where "ReasonNotEnforced = ''NotEnforced''"
definition ReasonBackendNotReady :: string where "ReasonBackendNotReady = ''BackendNotReady''"
definition ReasonConditionsNotFound :: string where "ReasonConditionsNotFound = ''ConditionsNotFound''"
definition ReasonUnknown :: string where "ReasonUnknown = ''Unknown''"

lemmas phase_defs = PhasePending_def PhaseActive_def PhaseDegraded_def PhaseFailed_def
lemmas reason_defs = ReasonReconciled_def ReasonReconcileFailed_def ReasonPartialFailure_def
  ReasonValid_def ReasonNotFound_def ReasonGetFailed_def ReasonAccepted_def ReasonAcceptedEnforced_def
  ReasonNotAccepted_def ReasonNotEnforced_def ReasonBackendNotReady_def ReasonConditionsNotFound_def
  ReasonUnknown_def

record ResourceRefStatus =
  rs_name :: string
  rs_namespace :: string
  rs_ready :: bool
  rs_reason :: string
  rs_message :: string

section \<open>MaaSModelRef\<close>

record ModelReference =
  mr_kind :: string
  mr_name :: string

record MaaSModelSpec =
  msp_modelRef :: ModelReference
  msp_endpointOverride :: string

record MaaSModelStatus =
  mst_phase :: string
  mst_endpoint :: string
  mst_httpRouteName :: string
  mst_httpRouteNamespace :: string
  mst_httpRouteGatewayName :: string
  mst_httpRouteGatewayNamespace :: string
  mst_httpRouteHostnames :: "string list"
  mst_conditions :: "Condition list"

record MaaSModelRef =
  mod_meta :: ObjectMeta
  mod_spec :: MaaSModelSpec
  mod_status :: MaaSModelStatus

section \<open>MaaSSubscription\<close>

record TokenRateLimit =
  trl_limit :: int
  trl_window :: string

record ModelSubscriptionRef =
  msr_name :: string
  msr_namespace :: string
  msr_tokenRateLimits :: "TokenRateLimit list"

record OwnerSpec =
  own_groups :: "string list"
  own_users :: "string list"

record MaaSSubscriptionSpec =
  ssp_owner :: OwnerSpec
  ssp_modelRefs :: "ModelSubscriptionRef list"
  ssp_priority :: int

record TokenRateLimitStatus = ResourceRefStatus +
  trs_model :: string

record MaaSSubscriptionStatus =
  sst_phase :: string
  sst_conditions :: "Condition list"
  sst_modelRefStatuses :: "ResourceRefStatus list"
  sst_tokenRateLimitStatuses :: "TokenRateLimitStatus list"

record MaaSSubscription =
  sub_meta :: ObjectMeta
  sub_spec :: MaaSSubscriptionSpec
  sub_status :: MaaSSubscriptionStatus

section \<open>MaaSAuthPolicy\<close>

record ModelRef =
  ref_name :: string
  ref_namespace :: string

record SubjectSpec =
  sj_groups :: "string list"
  sj_users :: "string list"

record MaaSAuthPolicySpec =
  asp_modelRefs :: "ModelRef list"
  asp_subjects :: SubjectSpec

record AuthPolicyRefStatus = ResourceRefStatus +
  ars_model :: string
  ars_modelNamespace :: string

record MaaSAuthPolicyStatus =
  ast_phase :: string
  ast_conditions :: "Condition list"
  ast_authPolicies :: "AuthPolicyRefStatus list"

record MaaSAuthPolicy =
  ap_meta :: ObjectMeta
  ap_spec :: MaaSAuthPolicySpec
  ap_status :: MaaSAuthPolicyStatus

section \<open>Objects of other APIs\<close>

record ParentRef =
  pr_name :: string
  pr_namespace :: "string option"

record HTTPRoute =
  rt_meta :: ObjectMeta
  rt_parentRefs :: "ParentRef list"
  rt_hostnames :: "string list"
  rt_parents :: "(ParentRef \<times> Condition list) list"

record Gateway =
  gw_meta :: ObjectMeta
  gw_listenerHostnames :: "string option list"
  gw_addresses :: "(string option \<times> string) list"

record LLMInferenceService =
  llm_meta :: ObjectMeta
  llm_conditions :: "(string \<times> string) list"
  llm_addresses :: "(string option \<times> string option) list"
  llm_url :: "string option"

record ExternalModel =
  ext_apiVersion :: string
  ext_kind :: string
  ext_uid :: string
  ext_meta :: ObjectMeta
  ext_provider :: string
  ext_targetModel :: string
  ext_endpoint :: string
  ext_credentialRef :: string

text \<open>A Kuadrant policy as unstructured data; the controlling owner is its kind, namespace and name.\<close>

datatype policy_kind = AuthPolicyKind | TokenRateLimitPolicyKind

record policy =
  gp_meta :: ObjectMeta
  gp_owner :: "(string \<times> nsn) option"
  gp_spec :: gomap
  gp_status :: "goany option"

text \<open>The fields \<open>spec\<close> and \<open>status\<close> of the underlying \<open>map[string]any\<close>.\<close>

definition policyObject :: "policy \<Rightarrow> gomap" where
  "policyObject p = (''spec'', GMap (gp_spec p)) # (case gp_status p of None \<Rightarrow> [] | Some v \<Rightarrow> [(''status'', v)])"

end
