(* ===== verification/K8s_Client.thy ===== *)
theory K8s_Client
  imports Maas_Types K8s_Unstructured
begin

text \<open>
  The controllers' view of the Kubernetes API. The client of controller-runtime and the helpers of
  apimachinery are third-party: the record \<open>client\<close> holds the operations the sources call, over an
  abstract state \<open>'c\<close> of the cluster and of the faults to come, and is an argument of every
  controller definition. The locale \<open>api_server\<close> states what is documented of them: a read returns
  the stored object or an error and changes nothing, a list returns the stored objects that match its
  options, a write stores the object or reports an error (and may then have been carried out all the
  same). \<open>healthy\<close> marks states from which on no fault occurs. \<open>std_client\<close> is one such API server.
  Reads are taken to be current, and one reconciliation runs without other writers.

  A call is a function of the state that returns the new state and an error or a value; the
  combinators follow the control flow of Go (\<open>bnd\<close> is \<open>if err != nil { return err }\<close>, \<open>attempt\<close>
  hands the error on, \<open>forE\<close> is a loop whose body may return early).
\<close>

section \<open>Errors and calls\<close>

text \<open>\<open>Wrap pre e suf\<close> is \<open>fmt.Errorf\<close> with a \<open>%w\<close> between the texts.\<close>

datatype cerror =
    ApiNotFound
  | ApiNoMatch
  | ApiForbidden
  | ApiAlreadyExists
  | ApiError string
  | ErrModelNotFound
  | ErrHTTPRouteNotFound
  | ErrKindNotImplemented
  | ErrText string
  | Wrap string cerror string

fun errIs :: "cerror \<Rightarrow> cerror \<Rightarrow> bool" where
  "errIs (Wrap p e s) t \<longleftrightarrow> Wrap p e s = t \<or> errIs e t"
| "errIs e t \<longleftrightarrow> e = t"

fun errText :: "cerror \<Rightarrow> string" where
  "errText ApiNotFound = ''not found''"
| "errText ApiNoMatch = ''no matches for kind''"
| "errText ApiForbidden = ''forbidden''"
| "errText ApiAlreadyExists = ''already exists''"
| "errText (ApiError s) = s"
| "errText ErrModelNotFound = ''MaaSModelRef not found''"
| "errText ErrHTTPRouteNotFound = ''HTTPRoute not found yet''"
| "errText ErrKindNotImplemented = ''model kind not implemented''"
| "errText (ErrText s) = s"
| "errText (Wrap p e s) = p @ errText e @ s"

text \<open>The verb \<open>%q\<close> on printable text.\<close>

definition goQuote :: "string \<Rightarrow> string" where
  "goQuote s = CHR 0x22 # concat (map (\<lambda>ch. if ch = CHR 0x22 \<or> ch = CHR 0x5C then [CHR 0x5C, ch] else [ch]) s) @ [CHR 0x22]"

type_synonym ('c, 'a) call = "'c \<Rightarrow> 'c \<times> (cerror + 'a)"

definition ret :: "'a \<Rightarrow> ('c, 'a) call" where
  "ret x c = (c, Inr x)"

definition fail :: "cerror \<Rightarrow> ('c, 'a) call" where
  "fail e c = (c, Inl e)"

definition attempt :: "('c, 'a) call \<Rightarrow> (cerror + 'a \<Rightarrow> ('c, 'b) call) \<Rightarrow> ('c, 'b) call" where
  "attempt m f c = (case m c of (c', r) \<Rightarrow> f r c')"

definition bnd :: "('c, 'a) call \<Rightarrow> ('a \<Rightarrow> ('c, 'b) call) \<Rightarrow> ('c, 'b) call" where
  "bnd m f = attempt m (\<lambda>r. case r of Inl e \<Rightarrow> fail e | Inr x \<Rightarrow> f x)"

definition wrapErr :: "string \<Rightarrow> ('c, 'a) call \<Rightarrow> ('c, 'a) call" where
  "wrapErr p m = attempt m (\<lambda>r. case r of Inl e \<Rightarrow> fail (Wrap p e []) | Inr x \<Rightarrow> ret x)"

primrec forE :: "('a \<Rightarrow> ('c, unit) call) \<Rightarrow> 'a list \<Rightarrow> ('c, unit) call" where
  "forE f [] = ret ()"
| "forE f (x # xs) = bnd (f x) (\<lambda>_. forE f xs)"

text \<open>A loop that collects one result per element.\<close>

primrec mapE :: "('a \<Rightarrow> ('c, 'b) call) \<Rightarrow> 'a list \<Rightarrow> ('c, 'b list) call" where
  "mapE f [] = ret []"
| "mapE f (x # xs) = bnd (f x) (\<lambda>y. bnd (mapE f xs) (\<lambda>ys. ret (y # ys)))"

text \<open>Running a call whose first step is known.\<close>

lemma run_attempt: "m c = (c', r) \<Longrightarrow> attempt m f c = f r c'"
  by (simp add: attempt_def)

lemma run_bnd: "m c = (c', Inr x) \<Longrightarrow> bnd m f c = f x c'"
  by (simp add: bnd_def attempt_def)

lemma run_bnd_err: "m c = (c', Inl e) \<Longrightarrow> bnd m f c = (c', Inl e)"
  by (simp add: bnd_def attempt_def fail_def)

lemma run_wrapErr: "m c = (c', Inr x) \<Longrightarrow> wrapErr p m c = (c', Inr x)"
  by (simp add: wrapErr_def attempt_def ret_def)

lemma run_ret [simp]: "ret x c = (c, Inr x)"
  by (simp add: ret_def)

lemma run_fail [simp]: "fail e c = (c, Inl e)"
  by (simp add: fail_def)

lemmas run_rules = run_attempt run_bnd run_bnd_err run_wrapErr

section \<open>The client\<close>

record list_opts =
  lo_namespace :: "string option"
  lo_labels :: "(string \<times> string) list"

record 'c client =
  cl_getModel :: "nsn \<Rightarrow> ('c, MaaSModelRef) call"
  cl_getSub :: "nsn \<Rightarrow> ('c, MaaSSubscription) call"
  cl_getAuth :: "nsn \<Rightarrow> ('c, MaaSAuthPolicy) call"
  cl_getRoute :: "nsn \<Rightarrow> ('c, HTTPRoute) call"
  cl_getGateway :: "nsn \<Rightarrow> ('c, Gateway) call"
  cl_getLLM :: "nsn \<Rightarrow> ('c, LLMInferenceService) call"
  cl_getExternal :: "nsn \<Rightarrow> ('c, ExternalModel) call"
  cl_getTenant :: "nsn \<Rightarrow> ('c, gomap) call"
  cl_getPolicy :: "policy_kind \<Rightarrow> nsn \<Rightarrow> ('c, policy) call"
  cl_listModels :: "string option \<Rightarrow> string option \<Rightarrow> ('c, MaaSModelRef list) call"
  cl_listSubs :: "string option \<Rightarrow> ('c, MaaSSubscription list) call"
  cl_listAuths :: "('c, MaaSAuthPolicy list) call"
  cl_listRoutes :: "list_opts \<Rightarrow> ('c, HTTPRoute list) call"
  cl_listPolicies :: "policy_kind \<Rightarrow> list_opts \<Rightarrow> ('c, policy list) call"
  cl_updateModel :: "MaaSModelRef \<Rightarrow> ('c, unit) call"
  cl_updateSub :: "MaaSSubscription \<Rightarrow> ('c, unit) call"
  cl_updateAuth :: "MaaSAuthPolicy \<Rightarrow> ('c, unit) call"
  cl_statusModel :: "MaaSModelRef \<Rightarrow> ('c, unit) call"
  cl_statusSub :: "MaaSSubscription \<Rightarrow> ('c, unit) call"
  cl_statusAuth :: "MaaSAuthPolicy \<Rightarrow> ('c, unit) call"
  cl_createPolicy :: "policy_kind \<Rightarrow> policy \<Rightarrow> ('c, unit) call"
  cl_updatePolicy :: "policy_kind \<Rightarrow> policy \<Rightarrow> ('c, unit) call"
  cl_deletePolicy :: "policy_kind \<Rightarrow> policy \<Rightarrow> ('c, unit) call"
  lib_equalPolicy :: "policy \<Rightarrow> policy \<Rightarrow> bool"
  lib_setControllerReference :: "string \<times> nsn \<Rightarrow> (string \<times> nsn) option \<Rightarrow> cerror + (string \<times> nsn) option"
  lib_setStatusCondition :: "Condition list \<Rightarrow> Condition \<Rightarrow> Condition list"
  lib_findStatusCondition :: "Condition list \<Rightarrow> string \<Rightarrow> Condition option"
  lib_unstructured :: nested_api

section \<open>What is stored\<close>

record world =
  w_models :: "nsn \<Rightarrow> MaaSModelRef option"
  w_subs :: "nsn \<Rightarrow> MaaSSubscription option"
  w_auths :: "nsn \<Rightarrow> MaaSAuthPolicy option"
  w_routes :: "nsn \<Rightarrow> HTTPRoute option"
  w_gateways :: "nsn \<Rightarrow> Gateway option"
  w_llms :: "nsn \<Rightarrow> LLMInferenceService option"
  w_externals :: "nsn \<Rightarrow> ExternalModel option"
  w_tenants :: "nsn \<Rightarrow> gomap option"
  w_policies :: "policy_kind \<Rightarrow> nsn \<Rightarrow> policy option"

text \<open>The field indexes the code registers: the \<open>namespace/name\<close> keys of a subscription's models, and
  the name a model refers to.\<close>

definition subModelRefIndexer :: "MaaSSubscription \<Rightarrow> string list" where
  "subModelRefIndexer sub = map (\<lambda>r. msr_namespace r @ ''/'' @ msr_name r) (ssp_modelRefs (sub_spec sub))"

definition modelRefNameIndexer :: "MaaSModelRef \<Rightarrow> string list" where
  "modelRefNameIndexer model =
     (if mr_name (msp_modelRef (mod_spec model)) = [] then [] else [mr_name (msp_modelRef (mod_spec model))])"

definition matchesLabels :: "(string \<times> string) list \<Rightarrow> ObjectMeta \<Rightarrow> bool" where
  "matchesLabels ls m = list_all (\<lambda>(k, v). map_of (om_labels m) k = Some v) ls"

definition matchesOpts :: "list_opts \<Rightarrow> ObjectMeta \<Rightarrow> bool" where
  "matchesOpts lo m =
     ((case lo_namespace lo of None \<Rightarrow> True | Some ns \<Rightarrow> om_namespace m = ns) \<and> matchesLabels (lo_labels lo) m)"

definition modelListed :: "string option \<Rightarrow> string option \<Rightarrow> MaaSModelRef \<Rightarrow> bool" where
  "modelListed ns idx m =
     ((case ns of None \<Rightarrow> True | Some n \<Rightarrow> om_namespace (mod_meta m) = n) \<and>
      (case idx of None \<Rightarrow> True | Some n \<Rightarrow> List.member (modelRefNameIndexer m) n))"

definition subListed :: "string option \<Rightarrow> MaaSSubscription \<Rightarrow> bool" where
  "subListed idx s = (case idx of None \<Rightarrow> True | Some key \<Rightarrow> List.member (subModelRefIndexer s) key)"

text \<open>Every object is stored under its own namespace and name.\<close>

definition world_wf :: "world \<Rightarrow> bool" where
  "world_wf w \<longleftrightarrow>
     (\<forall>k x. w_models w k = Some x \<longrightarrow> nsnOf (mod_meta x) = k) \<and>
     (\<forall>k x. w_subs w k = Some x \<longrightarrow> nsnOf (sub_meta x) = k) \<and>
     (\<forall>k x. w_auths w k = Some x \<longrightarrow> nsnOf (ap_meta x) = k) \<and>
     (\<forall>k x. w_routes w k = Some x \<longrightarrow> nsnOf (rt_meta x) = k) \<and>
     (\<forall>g k x. w_policies w g k = Some x \<longrightarrow> nsnOf (gp_meta x) = k)"

text \<open>The effect of each write.\<close>

definition putPolicy :: "policy_kind \<Rightarrow> policy \<Rightarrow> world \<Rightarrow> world" where
  "putPolicy g p w = w\<lparr>w_policies := (w_policies w)(g := (w_policies w g)(nsnOf (gp_meta p) \<mapsto> p))\<rparr>"

text \<open>Deleting an object that carries finalizers only sets its deletion timestamp.\<close>

definition markDeleting :: "policy \<Rightarrow> policy" where
  "markDeleting p = p\<lparr>gp_meta := (gp_meta p)\<lparr>om_deleting := True\<rparr>\<rparr>"

definition afterDelete :: "policy \<Rightarrow> policy option" where
  "afterDelete p = (if om_finalizers (gp_meta p) = [] then None else Some (markDeleting p))"

definition dropPolicy :: "policy_kind \<Rightarrow> policy \<Rightarrow> world \<Rightarrow> world" where
  "dropPolicy g p w = w\<lparr>w_policies := (w_policies w)(g := (w_policies w g)
     (nsnOf (gp_meta p) := Option.bind (w_policies w g (nsnOf (gp_meta p))) afterDelete))\<rparr>"

definition putModel :: "MaaSModelRef \<Rightarrow> world \<Rightarrow> world" where
  "putModel m w = w\<lparr>w_models := (w_models w)(nsnOf (mod_meta m) \<mapsto> m)\<rparr>"

definition putSub :: "MaaSSubscription \<Rightarrow> world \<Rightarrow> world" where
  "putSub s w = w\<lparr>w_subs := (w_subs w)(nsnOf (sub_meta s) \<mapsto> s)\<rparr>"

definition putAuth :: "MaaSAuthPolicy \<Rightarrow> world \<Rightarrow> world" where
  "putAuth a w = w\<lparr>w_auths := (w_auths w)(nsnOf (ap_meta a) \<mapsto> a)\<rparr>"

lemmas write_defs = putPolicy_def dropPolicy_def putModel_def putSub_def putAuth_def

text \<open>An update of an object that waits only for its last finalizer removes it; a status update
  changes the status alone.\<close>

definition updModel :: "MaaSModelRef \<Rightarrow> world \<Rightarrow> world" where
  "updModel m w =
     (if om_deleting (mod_meta m) \<and> om_finalizers (mod_meta m) = []
      then w\<lparr>w_models := (w_models w)(nsnOf (mod_meta m) := None)\<rparr> else putModel m w)"

definition updSub :: "MaaSSubscription \<Rightarrow> world \<Rightarrow> world" where
  "updSub s w =
     (if om_deleting (sub_meta s) \<and> om_finalizers (sub_meta s) = []
      then w\<lparr>w_subs := (w_subs w)(nsnOf (sub_meta s) := None)\<rparr> else putSub s w)"

definition updAuth :: "MaaSAuthPolicy \<Rightarrow> world \<Rightarrow> world" where
  "updAuth a w =
     (if om_deleting (ap_meta a) \<and> om_finalizers (ap_meta a) = []
      then w\<lparr>w_auths := (w_auths w)(nsnOf (ap_meta a) := None)\<rparr> else putAuth a w)"

definition setModelStatus :: "MaaSModelRef \<Rightarrow> world \<Rightarrow> world" where
  "setModelStatus m w =
     (case w_models w (nsnOf (mod_meta m)) of None \<Rightarrow> w | Some x \<Rightarrow> putModel (x\<lparr>mod_status := mod_status m\<rparr>) w)"

definition setSubStatus :: "MaaSSubscription \<Rightarrow> world \<Rightarrow> world" where
  "setSubStatus s w =
     (case w_subs w (nsnOf (sub_meta s)) of None \<Rightarrow> w | Some x \<Rightarrow> putSub (x\<lparr>sub_status := sub_status s\<rparr>) w)"

definition setAuthStatus :: "MaaSAuthPolicy \<Rightarrow> world \<Rightarrow> world" where
  "setAuthStatus a w =
     (case w_auths w (nsnOf (ap_meta a)) of None \<Rightarrow> w | Some x \<Rightarrow> putAuth (x\<lparr>ap_status := ap_status a\<rparr>) w)"

section \<open>The laws of the API server\<close>

definition reads :: "('c \<Rightarrow> 'w) \<Rightarrow> ('c \<Rightarrow> bool) \<Rightarrow> ('c, 'a) call \<Rightarrow> ('w \<Rightarrow> 'a option) \<Rightarrow> bool" where
  "reads view healthy m f \<longleftrightarrow>
     (\<forall>c. view (fst (m c)) = view c \<and>
        (\<forall>x. snd (m c) = Inr x \<longrightarrow> f (view c) = Some x) \<and>
        (snd (m c) = Inl ApiNotFound \<longrightarrow> f (view c) = None) \<and>
        (healthy c \<longrightarrow> healthy (fst (m c)) \<and>
           snd (m c) = (case f (view c) of None \<Rightarrow> Inl ApiNotFound | Some x \<Rightarrow> Inr x)))"

definition lists :: "('c \<Rightarrow> 'w) \<Rightarrow> ('c \<Rightarrow> bool) \<Rightarrow> ('c, 'a list) call \<Rightarrow> ('w \<Rightarrow> 'a set) \<Rightarrow> bool" where
  "lists view healthy m f \<longleftrightarrow>
     (\<forall>c. view (fst (m c)) = view c \<and>
        (\<forall>xs. snd (m c) = Inr xs \<longrightarrow> distinct xs \<and> set xs = f (view c)) \<and>
        (healthy c \<longrightarrow> healthy (fst (m c)) \<and> (\<exists>xs. snd (m c) = Inr xs)))"

definition writes ::
  "('c \<Rightarrow> 'w) \<Rightarrow> ('c \<Rightarrow> bool) \<Rightarrow> ('c, unit) call \<Rightarrow> ('w \<Rightarrow> bool) \<Rightarrow> ('w \<Rightarrow> 'w) \<Rightarrow> bool" where
  "writes view healthy m pre f \<longleftrightarrow>
     (\<forall>c. (pre (view c) \<and> view (fst (m c)) = f (view c) \<or> view (fst (m c)) = view c \<and> (\<exists>e. snd (m c) = Inl e)) \<and>
        (healthy c \<longrightarrow> healthy (fst (m c)) \<and> (pre (view c) \<longrightarrow> snd (m c) = Inr ())))"

locale api_server =
  fixes k :: "'c client" and view :: "'c \<Rightarrow> world" and healthy :: "'c \<Rightarrow> bool"
  assumes wf: "world_wf (view c)"
    and getModel: "reads view healthy (cl_getModel k key) (\<lambda>w. w_models w key)"
    and getSub: "reads view healthy (cl_getSub k key) (\<lambda>w. w_subs w key)"
    and getAuth: "reads view healthy (cl_getAuth k key) (\<lambda>w. w_auths w key)"
    and getRoute: "reads view healthy (cl_getRoute k key) (\<lambda>w. w_routes w key)"
    and getGateway: "reads view healthy (cl_getGateway k key) (\<lambda>w. w_gateways w key)"
    and getLLM: "reads view healthy (cl_getLLM k key) (\<lambda>w. w_llms w key)"
    and getExternal: "reads view healthy (cl_getExternal k key) (\<lambda>w. w_externals w key)"
    and getTenant: "reads view healthy (cl_getTenant k key) (\<lambda>w. w_tenants w key)"
    and getPolicy: "reads view healthy (cl_getPolicy k g key) (\<lambda>w. w_policies w g key)"
    and listModels: "lists view healthy (cl_listModels k ns idx)
      (\<lambda>w. {x \<in> ran (w_models w). modelListed ns idx x})"
    and listSubs: "lists view healthy (cl_listSubs k idx) (\<lambda>w. {x \<in> ran (w_subs w). subListed idx x})"
    and listAuths: "lists view healthy (cl_listAuths k) (\<lambda>w. ran (w_auths w))"
    and listRoutes: "lists view healthy (cl_listRoutes k lo)
      (\<lambda>w. {x \<in> ran (w_routes w). matchesOpts lo (rt_meta x)})"
    and listPolicies: "lists view healthy (cl_listPolicies k g lo)
      (\<lambda>w. {x \<in> ran (w_policies w g). matchesOpts lo (gp_meta x)})"
    and updateModel: "writes view healthy (cl_updateModel k m) (\<lambda>w. w_models w (nsnOf (mod_meta m)) \<noteq> None) (updModel m)"
    and updateSub: "writes view healthy (cl_updateSub k s) (\<lambda>w. w_subs w (nsnOf (sub_meta s)) \<noteq> None) (updSub s)"
    and updateAuth: "writes view healthy (cl_updateAuth k a) (\<lambda>w. w_auths w (nsnOf (ap_meta a)) \<noteq> None) (updAuth a)"
    and statusModel: "writes view healthy (cl_statusModel k m) (\<lambda>w. w_models w (nsnOf (mod_meta m)) \<noteq> None) (setModelStatus m)"
    and statusSub: "writes view healthy (cl_statusSub k s) (\<lambda>w. w_subs w (nsnOf (sub_meta s)) \<noteq> None) (setSubStatus s)"
    and statusAuth: "writes view healthy (cl_statusAuth k a) (\<lambda>w. w_auths w (nsnOf (ap_meta a)) \<noteq> None) (setAuthStatus a)"
    and createPolicy: "writes view healthy (cl_createPolicy k g p) (\<lambda>w. w_policies w g (nsnOf (gp_meta p)) = None) (putPolicy g p)"
    and updatePolicy: "writes view healthy (cl_updatePolicy k g p) (\<lambda>w. w_policies w g (nsnOf (gp_meta p)) \<noteq> None) (putPolicy g p)"
    and deletePolicy: "writes view healthy (cl_deletePolicy k g p) (\<lambda>w. w_policies w g (nsnOf (gp_meta p)) \<noteq> None) (dropPolicy g p)"
    and equalPolicy: "lib_equalPolicy k p q \<longleftrightarrow> p = q"
    and setControllerReference: "lib_setControllerReference k o1 o2 = Inr o3 \<Longrightarrow> o3 = Some o1"
    and setControllerReference_none: "lib_setControllerReference k o1 None = Inr (Some o1)"
    and setControllerReference_same: "lib_setControllerReference k o1 (Some o1) = Inr (Some o1)"
    and setStatusCondition: "lib_findStatusCondition k (lib_setStatusCondition k cs cd) t =
      (if t = cd_type cd then Some cd else lib_findStatusCondition k cs t)"
    and unstructured: "nested_documented (lib_unstructured k)"

section \<open>Rules for calls\<close>

text \<open>\<open>stays P I m\<close>: started where \<open>P\<close> holds, the call ends where \<open>I\<close> holds, whatever it returns.
  \<open>keeps I m\<close>: the call keeps \<open>I\<close>.\<close>

definition stays :: "('c \<Rightarrow> bool) \<Rightarrow> ('c \<Rightarrow> bool) \<Rightarrow> ('c, 'a) call \<Rightarrow> bool" where
  "stays P I m \<longleftrightarrow> (\<forall>c. P c \<longrightarrow> I (fst (m c)))"

abbreviation keeps :: "('c \<Rightarrow> bool) \<Rightarrow> ('c, 'a) call \<Rightarrow> bool" where
  "keeps I m \<equiv> stays I I m"

named_theorems keeps_rules

lemma staysD: "stays P I m \<Longrightarrow> P c \<Longrightarrow> m c = (c', r) \<Longrightarrow> I c'"
  by (force simp: stays_def)

lemma stays_fst: "stays P I m \<Longrightarrow> P c \<Longrightarrow> I (fst (m c))"
  by (simp add: stays_def)

lemma stays_ret: "(\<And>c. P c \<Longrightarrow> I c) \<Longrightarrow> stays P I (ret x)"
  by (simp add: stays_def ret_def)

lemma stays_fail: "(\<And>c. P c \<Longrightarrow> I c) \<Longrightarrow> stays P I (fail e)"
  by (simp add: stays_def fail_def)

lemma keeps_ret_fail [keeps_rules]: "keeps I (ret x)" "keeps I (fail e)"
  by (simp_all add: stays_ret stays_fail)

lemma stays_wrapErr: "stays P I m \<Longrightarrow> stays P I (wrapErr p m)"
  by (auto simp: stays_def wrapErr_def attempt_def ret_def fail_def split: prod.splits sum.splits)

lemma stays_if: "(b \<Longrightarrow> stays P I m) \<Longrightarrow> (\<not> b \<Longrightarrow> stays P I n) \<Longrightarrow> stays P I (if b then m else n)"
  by simp

lemma stays_sum:
  "(\<And>e. r = Inl e \<Longrightarrow> stays P I (f e)) \<Longrightarrow> (\<And>x. r = Inr x \<Longrightarrow> stays P I (g x)) \<Longrightarrow>
   stays P I (case r of Inl e \<Rightarrow> f e | Inr x \<Rightarrow> g x)"
  by (cases r) auto

lemma stays_option:
  "(r = None \<Longrightarrow> stays P I f) \<Longrightarrow> (\<And>x. r = Some x \<Longrightarrow> stays P I (g x)) \<Longrightarrow>
   stays P I (case r of None \<Rightarrow> f | Some x \<Rightarrow> g x)"
  by (cases r) auto

lemma stays_list:
  "(r = [] \<Longrightarrow> stays P I f) \<Longrightarrow> (\<And>x xs. r = x # xs \<Longrightarrow> stays P I (g x xs)) \<Longrightarrow>
   stays P I (case r of [] \<Rightarrow> f | x # xs \<Rightarrow> g x xs)"
  by (cases r) auto

lemma stays_prod: "(\<And>x y. r = (x, y) \<Longrightarrow> stays P I (f x y)) \<Longrightarrow> stays P I (case r of (x, y) \<Rightarrow> f x y)"
  by (cases r) auto

lemma stays_Let: "(\<And>x. x = v \<Longrightarrow> stays P I (f x)) \<Longrightarrow> stays P I (let x = v in f x)"
  by simp

lemma stays_attempt: "stays P R m \<Longrightarrow> (\<And>r. stays R I (f r)) \<Longrightarrow> stays P I (attempt m f)"
  by (force simp: stays_def attempt_def split: prod.splits)

lemma keeps_attempt: "keeps I m \<Longrightarrow> (\<And>r. keeps I (f r)) \<Longrightarrow> keeps I (attempt m f)"
  by (rule stays_attempt)

lemma stays_bnd: "stays P I m \<Longrightarrow> (\<And>x. stays I I (f x)) \<Longrightarrow> stays P I (bnd m f)"
  unfolding bnd_def by (rule stays_attempt) (auto intro: stays_fail split: sum.splits)

lemma keeps_forE: "(\<And>x. x \<in> set xs \<Longrightarrow> keeps I (f x)) \<Longrightarrow> keeps I (forE f xs)"
  by (induction xs) (auto intro: stays_ret stays_bnd)

lemma keeps_mapE: "(\<And>x. x \<in> set xs \<Longrightarrow> keeps I (f x)) \<Longrightarrow> keeps I (mapE f xs)"
  by (induction xs) (auto intro!: stays_ret stays_bnd)

lemmas stays_rules = stays_ret stays_fail stays_wrapErr stays_if stays_sum stays_option stays_list
  stays_prod stays_Let
declare stays_wrapErr [keeps_rules] stays_if [keeps_rules] stays_sum [keeps_rules] stays_option [keeps_rules]
  stays_list [keeps_rules] stays_prod [keeps_rules] stays_Let [keeps_rules] keeps_attempt [keeps_rules] stays_bnd [keeps_rules]
  keeps_forE [keeps_rules] keeps_mapE [keeps_rules]

text \<open>Reads leave the stored world alone, writes have their effect or none.\<close>

lemma reads_view: "reads view healthy m f \<Longrightarrow> view (fst (m c)) = view c"
  by (simp add: reads_def)

lemma reads_keeps: "reads view healthy m f \<Longrightarrow> keeps (\<lambda>c. J (view c)) m"
  by (simp add: reads_def stays_def)

lemma lists_keeps: "lists view healthy m f \<Longrightarrow> keeps (\<lambda>c. J (view c)) m"
  by (simp add: lists_def stays_def)

lemma reads_keeps_healthy: "reads view healthy m f \<Longrightarrow> keeps (\<lambda>c. healthy c \<and> J (view c)) m"
  by (simp add: reads_def stays_def)

lemma lists_keeps_healthy: "lists view healthy m f \<Longrightarrow> keeps (\<lambda>c. healthy c \<and> J (view c)) m"
  by (simp add: lists_def stays_def)

lemma writes_cases:
  assumes "writes view healthy m pre f"
  obtains "pre (view c)" "view (fst (m c)) = f (view c)"
  | e where "view (fst (m c)) = view c" "snd (m c) = Inl e"
  using assms unfolding writes_def by blast

lemma writes_stays:
  assumes "writes view healthy m pre f"
    and "\<And>w. P w \<Longrightarrow> pre w \<Longrightarrow> J (f w)" and "\<And>w. P w \<Longrightarrow> J w"
  shows "stays (\<lambda>c. P (view c)) (\<lambda>c. J (view c)) m"
  unfolding stays_def
proof (intro allI impI)
  fix c assume "P (view c)"
  with assms(2,3) show "J (view (fst (m c)))" by (cases c rule: writes_cases [OF assms(1)]) auto
qed

text \<open>Reading, and then acting on what was read.\<close>

lemma stays_read:
  assumes "reads view healthy m f"
    and "\<And>r. stays (\<lambda>c. J (view c) \<and> (\<forall>x. r = Inr x \<longrightarrow> f (view c) = Some x) \<and>
      (r = Inl ApiNotFound \<longrightarrow> f (view c) = None)) I (g r)"
  shows "stays (\<lambda>c. J (view c)) I (attempt m g)"
  unfolding stays_def
proof (intro allI impI)
  fix c assume J: "J (view c)"
  obtain c' r where m: "m c = (c', r)" by fastforce
  with assms(1) J have "J (view c') \<and> (\<forall>x. r = Inr x \<longrightarrow> f (view c') = Some x) \<and>
      (r = Inl ApiNotFound \<longrightarrow> f (view c') = None)"
    unfolding reads_def by (metis fst_conv snd_conv)
  with stays_fst [OF assms(2)] m show "I (fst (attempt m g c))" by (simp add: attempt_def)
qed

text \<open>Fault-free calls.\<close>

lemma reads_healthy:
  "reads view healthy m f \<Longrightarrow> healthy c \<Longrightarrow>
   \<exists>c'. healthy c' \<and> view c' = view c \<and> m c = (c', case f (view c) of None \<Rightarrow> Inl ApiNotFound | Some x \<Rightarrow> Inr x)"
  unfolding reads_def by (metis prod.collapse)

lemma lists_healthy:
  "lists view healthy m f \<Longrightarrow> healthy c \<Longrightarrow>
   \<exists>c' xs. healthy c' \<and> view c' = view c \<and> m c = (c', Inr xs) \<and> distinct xs \<and> set xs = f (view c)"
  unfolding lists_def by (metis prod.collapse)

lemma writes_healthy:
  "writes view healthy m pre f \<Longrightarrow> healthy c \<Longrightarrow> pre (view c) \<Longrightarrow>
   \<exists>c'. healthy c' \<and> view c' = f (view c) \<and> m c = (c', Inr ())"
  unfolding writes_def by (metis prod.collapse sum.distinct(1))

context api_server
begin

lemmas read_keeps =
  getModel [THEN reads_keeps] getSub [THEN reads_keeps] getAuth [THEN reads_keeps]
  getRoute [THEN reads_keeps] getGateway [THEN reads_keeps] getLLM [THEN reads_keeps]
  getExternal [THEN reads_keeps] getTenant [THEN reads_keeps] getPolicy [THEN reads_keeps]
  listModels [THEN lists_keeps] listSubs [THEN lists_keeps] listAuths [THEN lists_keeps]
  listRoutes [THEN lists_keeps] listPolicies [THEN lists_keeps]

lemma stored_key:
  "w_models (view c) key = Some m \<Longrightarrow> nsnOf (mod_meta m) = key"
  "w_subs (view c) key = Some s \<Longrightarrow> nsnOf (sub_meta s) = key"
  "w_auths (view c) key = Some a \<Longrightarrow> nsnOf (ap_meta a) = key"
  "w_routes (view c) key = Some r \<Longrightarrow> nsnOf (rt_meta r) = key"
  "w_policies (view c) g key = Some p \<Longrightarrow> nsnOf (gp_meta p) = key"
  using wf [of c] unfolding world_wf_def by blast+

lemmas read_keeps_policies = read_keeps [where J = "\<lambda>w. J (w_policies w)" for J]

text \<open>Writes of the controller's own resources leave the policies alone.\<close>

lemma own_writes_keep_policies:
  "keeps (\<lambda>c. J (w_policies (view c))) (cl_updateModel k m)"
  "keeps (\<lambda>c. J (w_policies (view c))) (cl_updateSub k s)"
  "keeps (\<lambda>c. J (w_policies (view c))) (cl_updateAuth k a)"
  "keeps (\<lambda>c. J (w_policies (view c))) (cl_statusModel k m)"
  "keeps (\<lambda>c. J (w_policies (view c))) (cl_statusSub k s)"
  "keeps (\<lambda>c. J (w_policies (view c))) (cl_statusAuth k a)"
  by (rule writes_stays [where P = "\<lambda>w. J (w_policies w)" and J = "\<lambda>w. J (w_policies w)", OF updateModel]
      writes_stays [where P = "\<lambda>w. J (w_policies w)" and J = "\<lambda>w. J (w_policies w)", OF updateSub]
      writes_stays [where P = "\<lambda>w. J (w_policies w)" and J = "\<lambda>w. J (w_policies w)", OF updateAuth]
      writes_stays [where P = "\<lambda>w. J (w_policies w)" and J = "\<lambda>w. J (w_policies w)", OF statusModel]
      writes_stays [where P = "\<lambda>w. J (w_policies w)" and J = "\<lambda>w. J (w_policies w)", OF statusSub]
      writes_stays [where P = "\<lambda>w. J (w_policies w)" and J = "\<lambda>w. J (w_policies w)", OF statusAuth];
      auto simp: updModel_def updSub_def updAuth_def setModelStatus_def setSubStatus_def setAuthStatus_def
        putModel_def putSub_def putAuth_def split: option.splits)+

end

section \<open>An API server\<close>

text \<open>Objects in association lists; when \<open>db_down\<close> is set every call fails.\<close>

record db =
  db_models :: "(nsn \<times> MaaSModelRef) list"
  db_subs :: "(nsn \<times> MaaSSubscription) list"
  db_auths :: "(nsn \<times> MaaSAuthPolicy) list"
  db_routes :: "(nsn \<times> HTTPRoute) list"
  db_gateways :: "(nsn \<times> Gateway) list"
  db_llms :: "(nsn \<times> LLMInferenceService) list"
  db_externals :: "(nsn \<times> ExternalModel) list"
  db_tenants :: "(nsn \<times> gomap) list"
  db_trlps :: "(nsn \<times> policy) list"
  db_aps :: "(nsn \<times> policy) list"
  db_down :: bool

text \<open>Only the entries of well-formed lists count: the first for each key, under its own key.\<close>

definition tidy :: "('o \<Rightarrow> ObjectMeta) \<Rightarrow> (nsn \<times> 'o) list \<Rightarrow> nsn \<Rightarrow> 'o option" where
  "tidy meta xs key = (case map_of xs key of None \<Rightarrow> None | Some x \<Rightarrow> if nsnOf (meta x) = key then Some x else None)"

definition tidyList :: "('o \<Rightarrow> ObjectMeta) \<Rightarrow> (nsn \<times> 'o) list \<Rightarrow> 'o list" where
  "tidyList meta xs = List.map_filter (tidy meta xs) (remdups (map fst xs))"

definition policiesOf :: "db \<Rightarrow> policy_kind \<Rightarrow> (nsn \<times> policy) list" where
  "policiesOf d g = (case g of TokenRateLimitPolicyKind \<Rightarrow> db_trlps d | AuthPolicyKind \<Rightarrow> db_aps d)"

fun setPolicies :: "policy_kind \<Rightarrow> (nsn \<times> policy) list \<Rightarrow> db \<Rightarrow> db" where
  "setPolicies TokenRateLimitPolicyKind ps d = d\<lparr>db_trlps := ps\<rparr>"
| "setPolicies AuthPolicyKind ps d = d\<lparr>db_aps := ps\<rparr>"

definition db_view :: "db \<Rightarrow> world" where
  "db_view d =
     \<lparr>w_models = tidy mod_meta (db_models d), w_subs = tidy sub_meta (db_subs d),
      w_auths = tidy ap_meta (db_auths d), w_routes = tidy rt_meta (db_routes d),
      w_gateways = map_of (db_gateways d), w_llms = map_of (db_llms d),
      w_externals = map_of (db_externals d), w_tenants = map_of (db_tenants d),
      w_policies = (\<lambda>g. tidy gp_meta (policiesOf d g))\<rparr>"

definition down :: cerror where "down = ApiError ''connection refused''"

definition store_get :: "(db \<Rightarrow> nsn \<Rightarrow> 'o option) \<Rightarrow> nsn \<Rightarrow> (db, 'o) call" where
  "store_get f key d =
     (d, if db_down d then Inl down else case f d key of None \<Rightarrow> Inl ApiNotFound | Some x \<Rightarrow> Inr x)"

definition store_list :: "(db \<Rightarrow> 'o list) \<Rightarrow> ('o \<Rightarrow> bool) \<Rightarrow> (db, 'o list) call" where
  "store_list f P d = (d, if db_down d then Inl down else Inr (filter P (f d)))"

definition store_write :: "(db \<Rightarrow> bool) \<Rightarrow> (db \<Rightarrow> db) \<Rightarrow> (db, unit) call" where
  "store_write pre f d =
     (if db_down d then (d, Inl down) else if pre d then (f d, Inr ()) else (d, Inl ApiNotFound))"

text \<open>Setting or removing an entry.\<close>

definition put :: "nsn \<Rightarrow> 'o option \<Rightarrow> (nsn \<times> 'o) list \<Rightarrow> (nsn \<times> 'o) list" where
  "put key v xs = (case v of None \<Rightarrow> filter (\<lambda>e. fst e \<noteq> key) xs | Some x \<Rightarrow> (key, x) # filter (\<lambda>e. fst e \<noteq> key) xs)"

definition gone :: "ObjectMeta \<Rightarrow> bool" where
  "gone m = (om_deleting m \<and> om_finalizers m = [])"

definition std_setCondition :: "Condition list \<Rightarrow> Condition \<Rightarrow> Condition list" where
  "std_setCondition cs cd =
     (if list_ex (\<lambda>x. cd_type x = cd_type cd) cs
      then map (\<lambda>x. if cd_type x = cd_type cd then cd else x) cs else cs @ [cd])"

definition std_client :: "db client" where
  "std_client =
     \<lparr>cl_getModel = store_get (\<lambda>d. tidy mod_meta (db_models d)), cl_getSub = store_get (\<lambda>d. tidy sub_meta (db_subs d)),
      cl_getAuth = store_get (\<lambda>d. tidy ap_meta (db_auths d)), cl_getRoute = store_get (\<lambda>d. tidy rt_meta (db_routes d)),
      cl_getGateway = store_get (\<lambda>d. map_of (db_gateways d)), cl_getLLM = store_get (\<lambda>d. map_of (db_llms d)),
      cl_getExternal = store_get (\<lambda>d. map_of (db_externals d)), cl_getTenant = store_get (\<lambda>d. map_of (db_tenants d)),
      cl_getPolicy = (\<lambda>g. store_get (\<lambda>d. tidy gp_meta (policiesOf d g))),
      cl_listModels = (\<lambda>ns idx. store_list (\<lambda>d. tidyList mod_meta (db_models d)) (modelListed ns idx)),
      cl_listSubs = (\<lambda>idx. store_list (\<lambda>d. tidyList sub_meta (db_subs d)) (subListed idx)),
      cl_listAuths = store_list (\<lambda>d. tidyList ap_meta (db_auths d)) (\<lambda>_. True),
      cl_listRoutes = (\<lambda>lo. store_list (\<lambda>d. tidyList rt_meta (db_routes d)) (\<lambda>x. matchesOpts lo (rt_meta x))),
      cl_listPolicies = (\<lambda>g lo. store_list (\<lambda>d. tidyList gp_meta (policiesOf d g)) (\<lambda>x. matchesOpts lo (gp_meta x))),
      cl_updateModel = (\<lambda>m. store_write (\<lambda>d. tidy mod_meta (db_models d) (nsnOf (mod_meta m)) \<noteq> None)
        (\<lambda>d. d\<lparr>db_models := put (nsnOf (mod_meta m)) (if gone (mod_meta m) then None else Some m) (db_models d)\<rparr>)),
      cl_updateSub = (\<lambda>s. store_write (\<lambda>d. tidy sub_meta (db_subs d) (nsnOf (sub_meta s)) \<noteq> None)
        (\<lambda>d. d\<lparr>db_subs := put (nsnOf (sub_meta s)) (if gone (sub_meta s) then None else Some s) (db_subs d)\<rparr>)),
      cl_updateAuth = (\<lambda>a. store_write (\<lambda>d. tidy ap_meta (db_auths d) (nsnOf (ap_meta a)) \<noteq> None)
        (\<lambda>d. d\<lparr>db_auths := put (nsnOf (ap_meta a)) (if gone (ap_meta a) then None else Some a) (db_auths d)\<rparr>)),
      cl_statusModel = (\<lambda>m. store_write (\<lambda>d. tidy mod_meta (db_models d) (nsnOf (mod_meta m)) \<noteq> None)
        (\<lambda>d. d\<lparr>db_models := put (nsnOf (mod_meta m))
           (map_option (\<lambda>x. x\<lparr>mod_status := mod_status m\<rparr>) (tidy mod_meta (db_models d) (nsnOf (mod_meta m)))) (db_models d)\<rparr>)),
      cl_statusSub = (\<lambda>s. store_write (\<lambda>d. tidy sub_meta (db_subs d) (nsnOf (sub_meta s)) \<noteq> None)
        (\<lambda>d. d\<lparr>db_subs := put (nsnOf (sub_meta s))
           (map_option (\<lambda>x. x\<lparr>sub_status := sub_status s\<rparr>) (tidy sub_meta (db_subs d) (nsnOf (sub_meta s)))) (db_subs d)\<rparr>)),
      cl_statusAuth = (\<lambda>a. store_write (\<lambda>d. tidy ap_meta (db_auths d) (nsnOf (ap_meta a)) \<noteq> None)
        (\<lambda>d. d\<lparr>db_auths := put (nsnOf (ap_meta a))
           (map_option (\<lambda>x. x\<lparr>ap_status := ap_status a\<rparr>) (tidy ap_meta (db_auths d) (nsnOf (ap_meta a)))) (db_auths d)\<rparr>)),
      cl_createPolicy = (\<lambda>g p. store_write (\<lambda>d. tidy gp_meta (policiesOf d g) (nsnOf (gp_meta p)) = None)
        (\<lambda>d. setPolicies g (put (nsnOf (gp_meta p)) (Some p) (policiesOf d g)) d)),
      cl_updatePolicy = (\<lambda>g p. store_write (\<lambda>d. tidy gp_meta (policiesOf d g) (nsnOf (gp_meta p)) \<noteq> None)
        (\<lambda>d. setPolicies g (put (nsnOf (gp_meta p)) (Some p) (policiesOf d g)) d)),
      cl_deletePolicy = (\<lambda>g p. store_write (\<lambda>d. tidy gp_meta (policiesOf d g) (nsnOf (gp_meta p)) \<noteq> None)
        (\<lambda>d. setPolicies g (put (nsnOf (gp_meta p))
           (Option.bind (tidy gp_meta (policiesOf d g) (nsnOf (gp_meta p))) afterDelete) (policiesOf d g)) d)),
      lib_equalPolicy = (=),
      lib_setControllerReference = (\<lambda>o1 o2. if o2 = None \<or> o2 = Some o1 then Inr (Some o1) else Inl (ErrText ''already owned'')),
      lib_setStatusCondition = std_setCondition,
      lib_findStatusCondition = (\<lambda>cs t. find (\<lambda>x. cd_type x = t) cs),
      lib_unstructured = std_nested\<rparr>"

lemma tidy_Some: "tidy meta xs key = Some x \<longleftrightarrow> map_of xs key = Some x \<and> nsnOf (meta x) = key"
  by (auto simp: tidy_def split: option.splits)

lemma tidy_nsn: "tidy meta xs key = Some x \<Longrightarrow> nsnOf (meta x) = key"
  by (simp add: tidy_Some)

lemma map_of_without: "map_of (filter (\<lambda>e. fst e \<noteq> key) xs) = (map_of xs)(key := None)"
  by (induction xs) auto

lemma map_of_put: "map_of (put key v xs) = (map_of xs)(key := v)"
  by (cases v) (auto simp: put_def map_of_without)

lemma tidy_put: "pred_option (\<lambda>x. nsnOf (meta x) = key) v \<Longrightarrow> tidy meta (put key v xs) = (tidy meta xs)(key := v)"
  by (rule ext, cases v) (simp_all add: tidy_def map_of_put)

lemma set_tidyList: "set (tidyList meta xs) = ran (tidy meta xs)"
proof -
  have "key \<in> fst ` set xs" if "tidy meta xs key = Some x" for key x
    using that by (auto simp: tidy_Some dest: map_of_SomeD intro: image_eqI [rotated])
  then show ?thesis
    unfolding tidyList_def List.map_filter_def ran_def by (force simp: image_iff)
qed

lemma distinct_tidyList: "distinct (tidyList meta xs)"
proof -
  have "inj_on (the \<circ> tidy meta xs) {key. tidy meta xs key \<noteq> None}"
  proof (rule inj_onI)
    fix a b assume "a \<in> {key. tidy meta xs key \<noteq> None}" "b \<in> {key. tidy meta xs key \<noteq> None}"
    then obtain x y where "tidy meta xs a = Some x" "tidy meta xs b = Some y" by auto
    moreover assume "(the \<circ> tidy meta xs) a = (the \<circ> tidy meta xs) b"
    ultimately have "tidy meta xs a = Some x" "tidy meta xs b = Some x" by simp_all
    then show "a = b" by (simp add: tidy_Some)
  qed
  then show ?thesis
    unfolding tidyList_def List.map_filter_def
    by (auto simp: distinct_map intro: inj_on_subset)
qed

lemma store_get_reads: "(\<And>d. f d key = g (db_view d)) \<Longrightarrow> reads db_view (\<lambda>d. \<not> db_down d) (store_get f key) g"
  by (auto simp: reads_def store_get_def down_def split: option.splits)

lemma store_list_lists:
  "(\<And>d. f d = tidyList meta (h d)) \<Longrightarrow> (\<And>d. {x \<in> ran (tidy meta (h d)). P x} = g (db_view d)) \<Longrightarrow>
   lists db_view (\<lambda>d. \<not> db_down d) (store_list f P) g"
  by (auto simp: lists_def store_list_def set_tidyList distinct_tidyList)

lemma store_write_writes:
  "(\<And>d. pre d = pre' (db_view d)) \<Longrightarrow> (\<And>d. db_down (f d) = db_down d) \<Longrightarrow>
   (\<And>d. pre d \<Longrightarrow> db_view (f d) = g (db_view d)) \<Longrightarrow>
   writes db_view (\<lambda>d. \<not> db_down d) (store_write pre f) pre' g"
  by (simp add: writes_def store_write_def)

lemma db_view_fields [simp]:
  "w_models (db_view d) = tidy mod_meta (db_models d)" "w_subs (db_view d) = tidy sub_meta (db_subs d)"
  "w_auths (db_view d) = tidy ap_meta (db_auths d)" "w_routes (db_view d) = tidy rt_meta (db_routes d)"
  "w_gateways (db_view d) = map_of (db_gateways d)" "w_llms (db_view d) = map_of (db_llms d)"
  "w_externals (db_view d) = map_of (db_externals d)" "w_tenants (db_view d) = map_of (db_tenants d)"
  "w_policies (db_view d) = (\<lambda>g. tidy gp_meta (policiesOf d g))"
  by (simp_all add: db_view_def)

lemma policies_set: "policiesOf (setPolicies g ps d) = (policiesOf d)(g := ps)"
  by (cases g) (auto simp: fun_eq_iff policiesOf_def split: policy_kind.splits)

lemma policiesOf_update [simp]:
  "policiesOf (d\<lparr>db_models := m\<rparr>) = policiesOf d" "policiesOf (d\<lparr>db_subs := s\<rparr>) = policiesOf d"
  "policiesOf (d\<lparr>db_auths := a\<rparr>) = policiesOf d"
  by (simp_all add: fun_eq_iff policiesOf_def split: policy_kind.splits)

lemma db_view_setPolicies:
  "db_view (setPolicies g ps d) = (db_view d)\<lparr>w_policies := (\<lambda>h. if h = g then tidy gp_meta ps else tidy gp_meta (policiesOf d h))\<rparr>"
proof -
  have "(\<lambda>h. tidy gp_meta (policiesOf (setPolicies g ps d) h)) =
      (\<lambda>h. if h = g then tidy gp_meta ps else tidy gp_meta (policiesOf d h))"
    by (auto simp: policies_set)
  then show ?thesis by (cases g) (simp_all add: db_view_def)
qed

lemma down_setPolicies [simp]: "db_down (setPolicies g ps d) = db_down d"
  by (cases g) simp_all

lemma find_setCondition:
  "find (\<lambda>x. cd_type x = t) (std_setCondition cs cd) = (if t = cd_type cd then Some cd else find (\<lambda>x. cd_type x = t) cs)"
proof -
  let ?m = "map (\<lambda>x. if cd_type x = cd_type cd then cd else x)"
  have "find (\<lambda>x. cd_type x = t) (?m xs) = find (\<lambda>x. cd_type x = t) xs" if "t \<noteq> cd_type cd" for xs
    using that by (induction xs) auto
  moreover have "find (\<lambda>x. cd_type x = cd_type cd) (?m xs) = Some cd" if "list_ex (\<lambda>x. cd_type x = cd_type cd) xs" for xs
    using that by (induction xs) auto
  moreover have "find (\<lambda>x. cd_type x = t) (xs @ [cd]) = (if t = cd_type cd then Some cd else find (\<lambda>x. cd_type x = t) xs)"
    if "\<not> list_ex (\<lambda>x. cd_type x = cd_type cd) xs" for xs
    using that by (induction xs) auto
  ultimately show ?thesis by (auto simp: std_setCondition_def)
qed

lemma db_view_put:
  "pred_option (\<lambda>x. nsnOf (mod_meta x) = key) v \<Longrightarrow>
     db_view (d\<lparr>db_models := put key v (db_models d)\<rparr>) = (db_view d)\<lparr>w_models := (w_models (db_view d))(key := v)\<rparr>"
  "pred_option (\<lambda>x. nsnOf (sub_meta x) = key) u \<Longrightarrow>
     db_view (d\<lparr>db_subs := put key u (db_subs d)\<rparr>) = (db_view d)\<lparr>w_subs := (w_subs (db_view d))(key := u)\<rparr>"
  "pred_option (\<lambda>x. nsnOf (ap_meta x) = key) a \<Longrightarrow>
     db_view (d\<lparr>db_auths := put key a (db_auths d)\<rparr>) = (db_view d)\<lparr>w_auths := (w_auths (db_view d))(key := a)\<rparr>"
  "pred_option (\<lambda>x. nsnOf (gp_meta x) = key) p \<Longrightarrow>
     db_view (setPolicies g (put key p (policiesOf d g)) d) =
       (db_view d)\<lparr>w_policies := (w_policies (db_view d))(g := (w_policies (db_view d) g)(key := p))\<rparr>"
proof -
  assume p: "pred_option (\<lambda>x. nsnOf (gp_meta x) = key) p"
  have "(\<lambda>h. if h = g then tidy gp_meta (put key p (policiesOf d g)) else tidy gp_meta (policiesOf d h)) =
      (w_policies (db_view d))(g := (w_policies (db_view d) g)(key := p))"
    by (auto simp: tidy_put [OF p])
  then show "db_view (setPolicies g (put key p (policiesOf d g)) d) =
       (db_view d)\<lparr>w_policies := (w_policies (db_view d))(g := (w_policies (db_view d) g)(key := p))\<rparr>"
    by (simp add: db_view_setPolicies)
qed (simp_all add: db_view_def tidy_put)

lemma afterDelete_nsn: "afterDelete p = Some q \<Longrightarrow> nsnOf (gp_meta q) = nsnOf (gp_meta p)"
  by (auto simp: afterDelete_def markDeleting_def nsnOf_def split: if_splits)

interpretation std: api_server std_client db_view "\<lambda>d. \<not> db_down d"
proof (unfold_locales, goal_cases)
  case (1 c) show ?case by (auto simp: world_wf_def tidy_Some)
next
  case (19 m) 
  have "db_view (d\<lparr>db_models := put (nsnOf (mod_meta m)) (Some (y\<lparr>mod_status := mod_status m\<rparr>)) (db_models d)\<rparr>) = setModelStatus m (db_view d)"
    if t: "tidy mod_meta (db_models d) (nsnOf (mod_meta m)) = Some y" for d y
    using t tidy_nsn [OF t] by (simp add: setModelStatus_def putModel_def db_view_put)
  then show ?case unfolding std_client_def by (auto intro!: store_write_writes)
next
  case (20 s) 
  have "db_view (d\<lparr>db_subs := put (nsnOf (sub_meta s)) (Some (y\<lparr>sub_status := sub_status s\<rparr>)) (db_subs d)\<rparr>) = setSubStatus s (db_view d)"
    if t: "tidy sub_meta (db_subs d) (nsnOf (sub_meta s)) = Some y" for d y
    using t tidy_nsn [OF t] by (simp add: setSubStatus_def putSub_def db_view_put)
  then show ?case unfolding std_client_def by (auto intro!: store_write_writes)
next
  case (21 a) 
  have "db_view (d\<lparr>db_auths := put (nsnOf (ap_meta a)) (Some (y\<lparr>ap_status := ap_status a\<rparr>)) (db_auths d)\<rparr>) = setAuthStatus a (db_view d)"
    if t: "tidy ap_meta (db_auths d) (nsnOf (ap_meta a)) = Some y" for d y
    using t tidy_nsn [OF t] by (simp add: setAuthStatus_def putAuth_def db_view_put)
  then show ?case unfolding std_client_def by (auto intro!: store_write_writes)
next
  case (24 g p) 
  have "db_view (setPolicies g (put (nsnOf (gp_meta p)) (afterDelete y) (policiesOf d g)) d) = dropPolicy g p (db_view d)"
    if t: "tidy gp_meta (policiesOf d g) (nsnOf (gp_meta p)) = Some y" for d y
    using t tidy_nsn [OF t] afterDelete_nsn [of y]
    by (cases "afterDelete y") (simp_all add: dropPolicy_def db_view_put)
  then show ?case unfolding std_client_def by (auto intro!: store_write_writes)
qed (auto simp: std_client_def find_setCondition std_nested_documented updModel_def updSub_def updAuth_def gone_def db_view_put write_defs
    intro!: store_get_reads store_list_lists store_write_writes split: if_splits)

end
