(* ===== verification/Model_Routes.thy ===== *)
theory Model_Routes
  imports K8s_Client
begin

text \<open>
  The parts of \<open>maas-controller/pkg/controller/maas\<close> that the controllers share: \<open>helpers.go\<close>,
  \<open>annotations.go\<close>, the registry of model kinds in \<open>providers.go\<close> and the two backends
  \<open>providers_llmisvc.go\<close> and \<open>providers_external.go\<close>. A Go interface value is a constructor, and the
  factories' maps are functions of the kind. \<open>ReconcileRoute\<close> updates the status of its model argument
  on every path, so it returns the model and the error, if any.
\<close>

section \<open>helpers.go and annotations.go\<close>

definition ManagedByODHOperator :: string where
  "ManagedByODHOperator = ''opendatahub.io/managed''"

definition isManaged :: "ObjectMeta \<Rightarrow> bool" where
  "isManaged obj =
     (case map_of (om_annotations obj) ManagedByODHOperator of None \<Rightarrow> True | Some val \<Rightarrow> val \<noteq> ''false'')"

definition deletionTimestampSet :: "ObjectMeta \<Rightarrow> ObjectMeta \<Rightarrow> bool" where
  "deletionTimestampSet objectOld objectNew = (\<not> om_deleting objectOld \<and> om_deleting objectNew)"

definition validateCELValue :: "string \<Rightarrow> string \<Rightarrow> cerror option" where
  "validateCELValue value fieldName =
     (if list_ex (\<lambda>ch. List.member [CHR 0x22, CHR 0x5C] ch) value
      then Some (ErrText (fieldName @ '' '' @ goQuote value @
             '' contains characters unsafe for CEL expressions (double-quote or backslash)''))
      else None)"

definition findAllSubscriptionsForModel ::
  "'c client \<Rightarrow> string \<Rightarrow> string \<Rightarrow> ('c, MaaSSubscription list) call" where
  "findAllSubscriptionsForModel k modelNamespace modelName =
     (let modelKey = modelNamespace @ ''/'' @ modelName
      in bnd (wrapErr (''failed to list MaaSSubscriptions for model '' @ modelKey @ '': '')
                (cl_listSubs k (Some modelKey)))
           (\<lambda>allSubs. ret (filter (\<lambda>s. \<not> om_deleting (sub_meta s)) allSubs)))"

definition refersTo :: "string \<Rightarrow> string \<Rightarrow> MaaSAuthPolicy \<Rightarrow> bool" where
  "refersTo modelNamespace modelName p =
     list_ex (\<lambda>ref. ref_namespace ref = modelNamespace \<and> ref_name ref = modelName) (asp_modelRefs (ap_spec p))"

definition findAllAuthPoliciesForModel ::
  "'c client \<Rightarrow> string \<Rightarrow> string \<Rightarrow> ('c, MaaSAuthPolicy list) call" where
  "findAllAuthPoliciesForModel k modelNamespace modelName =
     bnd (wrapErr ''failed to list MaaSAuthPolicies: '' (cl_listAuths k))
       (\<lambda>allPolicies. ret (filter (\<lambda>p. \<not> om_deleting (ap_meta p) \<and> refersTo modelNamespace modelName p) allPolicies))"

definition findAnySubscriptionForModel ::
  "'c client \<Rightarrow> string \<Rightarrow> string \<Rightarrow> ('c, MaaSSubscription option) call" where
  "findAnySubscriptionForModel k modelNamespace modelName =
     attempt (findAllSubscriptionsForModel k modelNamespace modelName)
       (\<lambda>r. case r of Inl _ \<Rightarrow> ret None | Inr subs \<Rightarrow> (case subs of [] \<Rightarrow> ret None | s # _ \<Rightarrow> ret (Some s)))"

definition findAnyAuthPolicyForModel ::
  "'c client \<Rightarrow> string \<Rightarrow> string \<Rightarrow> ('c, MaaSAuthPolicy option) call" where
  "findAnyAuthPolicyForModel k modelNamespace modelName =
     attempt (findAllAuthPoliciesForModel k modelNamespace modelName)
       (\<lambda>r. case r of Inl _ \<Rightarrow> ret None | Inr ps \<Rightarrow> (case ps of [] \<Rightarrow> ret None | p # _ \<Rightarrow> ret (Some p)))"

section \<open>providers.go: the kinds of models\<close>

datatype RouteResolver = llmisvcRouteResolver | externalModelRouteResolver

definition GetRouteResolver :: "string \<Rightarrow> RouteResolver option" where
  "GetRouteResolver kind =
     (if kind = ''LLMInferenceService'' \<or> kind = ''llmisvc'' then Some llmisvcRouteResolver
      else if kind = ''ExternalModel'' then Some externalModelRouteResolver else None)"

definition llmisvcLabels :: "MaaSModelRef \<Rightarrow> (string \<times> string) list" where
  "llmisvcLabels model =
     [(''app.kubernetes.io/name'', mr_name (msp_modelRef (mod_spec model))),
      (''app.kubernetes.io/component'', ''llminferenceservice-router''),
      (''app.kubernetes.io/part-of'', ''llminferenceservice'')]"

definition llmisvc_HTTPRouteForModel :: "'c client \<Rightarrow> MaaSModelRef \<Rightarrow> ('c, string \<times> string) call" where
  "llmisvc_HTTPRouteForModel k model =
     (let llmisvcNS = om_namespace (mod_meta model); name = mr_name (msp_modelRef (mod_spec model))
      in bnd (wrapErr (''failed to list HTTPRoutes for LLMInferenceService '' @ name @ '': '')
                (cl_listRoutes k \<lparr>lo_namespace = Some llmisvcNS, lo_labels = llmisvcLabels model\<rparr>))
           (\<lambda>items. case items of
              [] \<Rightarrow> fail (Wrap [] ErrHTTPRouteNotFound ('': for LLMInferenceService '' @ name @ '' in namespace '' @ llmisvcNS))
            | route # _ \<Rightarrow> ret (om_name (rt_meta route), om_namespace (rt_meta route))))"

definition external_HTTPRouteForModel :: "MaaSModelRef \<Rightarrow> ('c, string \<times> string) call" where
  "external_HTTPRouteForModel model =
     ret (mr_name (msp_modelRef (mod_spec model)), om_namespace (mod_meta model))"

definition HTTPRouteForModel :: "'c client \<Rightarrow> RouteResolver \<Rightarrow> MaaSModelRef \<Rightarrow> ('c, string \<times> string) call" where
  "HTTPRouteForModel k resolver model =
     (case resolver of
        llmisvcRouteResolver \<Rightarrow> llmisvc_HTTPRouteForModel k model
      | externalModelRouteResolver \<Rightarrow> external_HTTPRouteForModel model)"

definition getHTTPRoute :: "'c client \<Rightarrow> string \<Rightarrow> string \<Rightarrow> ('c, HTTPRoute) call" where
  "getHTTPRoute k name ns =
     attempt (cl_getRoute k (ns, name))
       (\<lambda>r. case r of
          Inl err \<Rightarrow>
            if err = ApiNotFound then fail (Wrap [] ErrHTTPRouteNotFound ('': HTTPRoute '' @ ns @ ''/'' @ name))
            else fail (Wrap (''failed to get HTTPRoute '' @ ns @ ''/'' @ name @ '': '') err [])
        | Inr route \<Rightarrow> ret route)"

definition findHTTPRouteForModel :: "'c client \<Rightarrow> string \<Rightarrow> string \<Rightarrow> ('c, string \<times> string) call" where
  "findHTTPRouteForModel k modelNamespace modelName =
     attempt (cl_getModel k (modelNamespace, modelName))
       (\<lambda>r. case r of
          Inl err \<Rightarrow>
            if err = ApiNotFound
            then fail (Wrap [] ErrModelNotFound ('': '' @ modelNamespace @ ''/'' @ modelName))
            else fail (Wrap (''failed to get MaaSModelRef '' @ modelNamespace @ ''/'' @ modelName @ '': '') err [])
        | Inr maasModel \<Rightarrow>
            if om_deleting (mod_meta maasModel)
            then fail (Wrap [] ErrModelNotFound ('': '' @ modelNamespace @ ''/'' @ modelName @ '' (deleting)''))
            else
              (case GetRouteResolver (mr_kind (msp_modelRef (mod_spec maasModel))) of
                 None \<Rightarrow> fail (ErrText (''unknown model kind: '' @ mr_kind (msp_modelRef (mod_spec maasModel))))
               | Some resolver \<Rightarrow>
                   bnd (HTTPRouteForModel k resolver maasModel)
                     (\<lambda>(routeName, routeNS). bnd (getHTTPRoute k routeName routeNS) (\<lambda>_. ret (routeName, routeNS)))))"

section \<open>The backends\<close>

definition defaultGatewayName :: string where "defaultGatewayName = ''maas-default-gateway''"
definition defaultGatewayNamespace :: string where "defaultGatewayNamespace = ''openshift-ingress''"

record MaaSModelRefReconciler =
  mrr_GatewayName :: string
  mrr_GatewayNamespace :: string

definition gatewayName :: "MaaSModelRefReconciler \<Rightarrow> string" where
  "gatewayName r = (if mrr_GatewayName r \<noteq> [] then mrr_GatewayName r else defaultGatewayName)"

definition gatewayNamespace :: "MaaSModelRefReconciler \<Rightarrow> string" where
  "gatewayNamespace r = (if mrr_GatewayNamespace r \<noteq> [] then mrr_GatewayNamespace r else defaultGatewayNamespace)"

definition refNamespace :: "string \<Rightarrow> ParentRef \<Rightarrow> string" where
  "refNamespace routeNS p = (case pr_namespace p of None \<Rightarrow> routeNS | Some ns \<Rightarrow> ns)"

text \<open>The loop over the parent references: whether the expected gateway is among them, and the
  gateway to report (the expected one, or else the first named one).\<close>

fun gatewayLoop ::
  "string \<Rightarrow> string \<Rightarrow> string \<Rightarrow> string \<Rightarrow> string \<Rightarrow> ParentRef list \<Rightarrow> bool \<times> string \<times> string" where
  "gatewayLoop expName expNS routeNS gwName gwNS [] = (False, gwName, gwNS)"
| "gatewayLoop expName expNS routeNS gwName gwNS (p # ps) =
     (let refName = pr_name p; refNS = refNamespace routeNS p
      in if refName = expName \<and> refNS = expNS then (True, refName, refNS)
         else if gwName = [] then gatewayLoop expName expNS routeNS refName refNS ps
         else gatewayLoop expName expNS routeNS gwName gwNS ps)"

definition llmisvc_ReconcileRoute ::
  "'c client \<Rightarrow> MaaSModelRefReconciler \<Rightarrow> MaaSModelRef \<Rightarrow> ('c, MaaSModelRef \<times> cerror option) call" where
  "llmisvc_ReconcileRoute k r model =
     (let routeNS = om_namespace (mod_meta model); name = mr_name (msp_modelRef (mod_spec model))
      in attempt (cl_listRoutes k \<lparr>lo_namespace = Some routeNS, lo_labels = llmisvcLabels model\<rparr>)
           (\<lambda>res. case res of
              Inl err \<Rightarrow> ret (model, Some (Wrap (''failed to list HTTPRoutes for LLMInferenceService '' @ name @ '': '') err []))
            | Inr items \<Rightarrow>
                (case items of
                   [] \<Rightarrow> ret (model, Some (Wrap [] ErrHTTPRouteNotFound
                                ('': for LLMInferenceService '' @ name @ '' in namespace '' @ routeNS)))
                 | route # _ \<Rightarrow>
                     let routeName = om_name (rt_meta route);
                         (gatewayFound, gwName, gwNS) =
                           gatewayLoop (gatewayName r) (gatewayNamespace r) routeNS [] [] (rt_parentRefs route);
                         model' = model\<lparr>mod_status := (mod_status model)
                           \<lparr>mst_httpRouteName := routeName, mst_httpRouteNamespace := routeNS,
                            mst_httpRouteGatewayName := gwName, mst_httpRouteGatewayNamespace := gwNS,
                            mst_httpRouteHostnames := rt_hostnames route\<rparr>\<rparr>
                     in if \<not> gatewayFound
                        then ret (model', Some (ErrText (''HTTPRoute '' @ routeNS @ ''/'' @ routeName @
                               '' does not reference gateway (expected: '' @ gatewayNamespace r @ ''/'' @ gatewayName r @
                               '', found: '' @ gwNS @ ''/'' @ gwName @
                               ''). The LLMInferenceService must be configured to use '' @
                               gatewayNamespace r @ ''/'' @ gatewayName r)))
                        else ret (model', None))))"

definition HostnameAddressType :: string where "HostnameAddressType = ''Hostname''"

text \<open>The endpoint URL from the route's first host name or else from the gateway; \<open>path\<close> is what each
  kind appends.\<close>

definition gatewayEndpoint ::
  "'c client \<Rightarrow> MaaSModelRefReconciler \<Rightarrow> string \<Rightarrow> MaaSModelRef \<Rightarrow> ('c, string) call" where
  "gatewayEndpoint k r path model =
     (case mst_httpRouteHostnames (mod_status model) of
        hostname # _ \<Rightarrow> ret (''https://'' @ hostname @ ''/'' @ path)
      | [] \<Rightarrow>
          let key = gatewayNamespace r @ ''/'' @ gatewayName r
          in bnd (wrapErr (''failed to get gateway '' @ key @ '': '') (cl_getGateway k (gatewayNamespace r, gatewayName r)))
               (\<lambda>gateway.
                  case List.map_filter (\<lambda>h. h) (gw_listenerHostnames gateway) of
                    hostname # _ \<Rightarrow> ret (''https://'' @ hostname @ ''/'' @ path)
                  | [] \<Rightarrow>
                      (case find (\<lambda>(ty, _). ty = Some HostnameAddressType) (gw_addresses gateway) of
                         Some (_, value) \<Rightarrow> ret (''https://'' @ value @ ''/'' @ path)
                       | None \<Rightarrow>
                           (case gw_addresses gateway of
                              (_, value) # _ \<Rightarrow> ret (''https://'' @ value @ ''/'' @ path)
                            | [] \<Rightarrow> fail (ErrText (''unable to determine endpoint: gateway '' @ key @
                                                '' has no hostname or addresses''))))))"

definition llmisvc_GetModelEndpoint ::
  "'c client \<Rightarrow> MaaSModelRefReconciler \<Rightarrow> MaaSModelRef \<Rightarrow> ('c, string) call" where
  "llmisvc_GetModelEndpoint k r model = gatewayEndpoint k r (om_name (mod_meta model)) model"

definition getEndpointFromLLMISvc :: "LLMInferenceService \<Rightarrow> string" where
  "getEndpointFromLLMISvc llmisvc =
     (let gatewayExternalURLs = List.map_filter (\<lambda>(name, url). if name = Some ''gateway-external'' then url else None)
            (llm_addresses llmisvc)
      in case find (\<lambda>u. hasPrefix u ''https://'') gatewayExternalURLs of
           Some u \<Rightarrow> u
         | None \<Rightarrow>
             (case gatewayExternalURLs of
                u # _ \<Rightarrow> u
              | [] \<Rightarrow>
                  (case llm_addresses llmisvc of
                     (_, Some u) # _ \<Rightarrow> u
                   | _ \<Rightarrow> (case llm_url llmisvc of Some u \<Rightarrow> u | None \<Rightarrow> []))))"

definition llmisvc_Status ::
  "'c client \<Rightarrow> MaaSModelRefReconciler \<Rightarrow> MaaSModelRef \<Rightarrow> ('c, string \<times> bool) call" where
  "llmisvc_Status k r model =
     (let llmisvcNS = om_namespace (mod_meta model); name = mr_name (msp_modelRef (mod_spec model))
      in attempt (cl_getLLM k (llmisvcNS, name))
           (\<lambda>res. case res of
              Inl err \<Rightarrow>
                if err = ApiNotFound
                then fail (ErrText (''LLMInferenceService '' @ name @ '' not found in namespace '' @ llmisvcNS))
                else fail err
            | Inr llmisvc \<Rightarrow>
                if \<not> list_ex (\<lambda>(ty, st). ty = ''Ready'' \<and> st = ''True'') (llm_conditions llmisvc)
                then ret ([], False)
                else
                  let endpoint = getEndpointFromLLMISvc llmisvc
                  in if endpoint = []
                     then bnd (llmisvc_GetModelEndpoint k r model) (\<lambda>ep. ret (ep, True))
                     else ret (endpoint, True)))"

text \<open>The second loop of the external backend: has the expected gateway accepted the route?\<close>

definition gatewayAccepted :: "string \<Rightarrow> string \<Rightarrow> string \<Rightarrow> HTTPRoute \<Rightarrow> bool" where
  "gatewayAccepted expName expNS routeNS route =
     list_ex (\<lambda>(p, conds). pr_name p = expName \<and> refNamespace routeNS p = expNS \<and>
        list_ex (\<lambda>cond. cd_type cond = ''Accepted'' \<and> cd_status cond = ''True'') conds) (rt_parents route)"

definition external_ReconcileRoute ::
  "'c client \<Rightarrow> MaaSModelRefReconciler \<Rightarrow> MaaSModelRef \<Rightarrow> ('c, MaaSModelRef \<times> cerror option) call" where
  "external_ReconcileRoute k r model =
     (let name = mr_name (msp_modelRef (mod_spec model)); routeNS = om_namespace (mod_meta model)
      in attempt (cl_getExternal k (routeNS, name))
           (\<lambda>res. case res of
              Inl err \<Rightarrow>
                if err = ApiNotFound
                then ret (model, Some (ErrText (''ExternalModel '' @ name @ '' not found in namespace '' @ routeNS)))
                else ret (model, Some (Wrap (''failed to get ExternalModel '' @ name @ '': '') err []))
            | Inr _ \<Rightarrow>
                attempt (cl_getRoute k (routeNS, name))
                  (\<lambda>res2. case res2 of
                     Inl err \<Rightarrow>
                       if err = ApiNotFound
                       then ret (model\<lparr>mod_status := (mod_status model)
                              \<lparr>mst_endpoint := [], mst_httpRouteName := [], mst_httpRouteNamespace := [],
                               mst_httpRouteGatewayName := [], mst_httpRouteGatewayNamespace := [],
                               mst_httpRouteHostnames := []\<rparr>\<rparr>, None)
                       else ret (model, Some (Wrap (''failed to get HTTPRoute '' @ routeNS @ ''/'' @ name @ '': '') err []))
                   | Inr route \<Rightarrow>
                       let (gatewayFound, gwName, gwNS) =
                             gatewayLoop (gatewayName r) (gatewayNamespace r) routeNS [] [] (rt_parentRefs route)
                       in if \<not> gatewayFound
                          then ret (model, Some (ErrText (''HTTPRoute '' @ routeNS @ ''/'' @ name @
                                 '' does not reference gateway '' @ gatewayNamespace r @ ''/'' @ gatewayName r @
                                 '' (found: '' @ gwNS @ ''/'' @ gwName @ '')'')))
                          else if \<not> gatewayAccepted (gatewayName r) (gatewayNamespace r) routeNS route
                          then ret (model\<lparr>mod_status := (mod_status model)
                                 \<lparr>mst_httpRouteName := name, mst_httpRouteNamespace := routeNS\<rparr>\<rparr>, None)
                          else ret (model\<lparr>mod_status := (mod_status model)
                                 \<lparr>mst_httpRouteName := name, mst_httpRouteNamespace := routeNS,
                                  mst_httpRouteGatewayName := gwName, mst_httpRouteGatewayNamespace := gwNS,
                                  mst_httpRouteHostnames := rt_hostnames route\<rparr>\<rparr>, None))))"

definition external_GetModelEndpoint ::
  "'c client \<Rightarrow> MaaSModelRefReconciler \<Rightarrow> MaaSModelRef \<Rightarrow> ('c, string) call" where
  "external_GetModelEndpoint k r model =
     gatewayEndpoint k r (om_namespace (mod_meta model) @ ''/'' @ mr_name (msp_modelRef (mod_spec model))) model"

definition external_Status ::
  "'c client \<Rightarrow> MaaSModelRefReconciler \<Rightarrow> MaaSModelRef \<Rightarrow> ('c, string \<times> bool) call" where
  "external_Status k r model =
     (if mst_httpRouteName (mod_status model) = [] \<or> mst_httpRouteGatewayName (mod_status model) = []
      then ret ([], False)
      else bnd (external_GetModelEndpoint k r model) (\<lambda>endpoint. ret (endpoint, True)))"

datatype BackendHandler = llmisvcHandler | externalModelHandler

definition GetBackendHandler :: "string \<Rightarrow> BackendHandler option" where
  "GetBackendHandler kind =
     (if kind = ''LLMInferenceService'' \<or> kind = ''llmisvc'' then Some llmisvcHandler
      else if kind = ''ExternalModel'' then Some externalModelHandler else None)"

definition ReconcileRoute ::
  "'c client \<Rightarrow> MaaSModelRefReconciler \<Rightarrow> BackendHandler \<Rightarrow> MaaSModelRef \<Rightarrow> ('c, MaaSModelRef \<times> cerror option) call" where
  "ReconcileRoute k r h model =
     (case h of llmisvcHandler \<Rightarrow> llmisvc_ReconcileRoute k r model
      | externalModelHandler \<Rightarrow> external_ReconcileRoute k r model)"

definition handlerStatus ::
  "'c client \<Rightarrow> MaaSModelRefReconciler \<Rightarrow> BackendHandler \<Rightarrow> MaaSModelRef \<Rightarrow> ('c, string \<times> bool) call" where
  "handlerStatus k r h model =
     (case h of llmisvcHandler \<Rightarrow> llmisvc_Status k r model
      | externalModelHandler \<Rightarrow> external_Status k r model)"

definition CleanupOnDelete :: "BackendHandler \<Rightarrow> MaaSModelRef \<Rightarrow> ('c, unit) call" where
  "CleanupOnDelete h model = (case h of llmisvcHandler \<Rightarrow> ret () | externalModelHandler \<Rightarrow> ret ())"

section \<open>Lemmas\<close>

lemma isManaged_meta: "om_annotations m = om_annotations n \<Longrightarrow> isManaged m = isManaged n"
  by (simp add: isManaged_def)

text \<open>The names of the routes that the resolver of a model may return.\<close>

definition routeNames :: "world \<Rightarrow> MaaSModelRef \<Rightarrow> string set" where
  "routeNames w m =
     (case GetRouteResolver (mr_kind (msp_modelRef (mod_spec m))) of
        None \<Rightarrow> {}
      | Some llmisvcRouteResolver \<Rightarrow>
          {om_name (rt_meta x) |x. x \<in> ran (w_routes w) \<and>
             matchesOpts \<lparr>lo_namespace = Some (om_namespace (mod_meta m)), lo_labels = llmisvcLabels m\<rparr> (rt_meta x)}
      | Some externalModelRouteResolver \<Rightarrow>
          {n. n = mr_name (msp_modelRef (mod_spec m)) \<and> w_routes w (om_namespace (mod_meta m), n) \<noteq> None})"

lemma stays_resolver:
  "stays P I f \<Longrightarrow> stays P I g \<Longrightarrow>
   stays P I (case r of llmisvcRouteResolver \<Rightarrow> f | externalModelRouteResolver \<Rightarrow> g)"
  by (cases r) auto

context api_server
begin

text \<open>Looking up a route or the objects of a model changes nothing.\<close>

lemma lookup_keeps:
  "keeps (\<lambda>c. J (view c)) (findAllSubscriptionsForModel k ns n)"
  "keeps (\<lambda>c. J (view c)) (findAllAuthPoliciesForModel k ns n)"
  "keeps (\<lambda>c. J (view c)) (findAnySubscriptionForModel k ns n)"
  "keeps (\<lambda>c. J (view c)) (findAnyAuthPolicyForModel k ns n)"
  "keeps (\<lambda>c. J (view c)) (getHTTPRoute k n ns)"
  "keeps (\<lambda>c. J (view c)) (HTTPRouteForModel k res model)"
  "keeps (\<lambda>c. J (view c)) (findHTTPRouteForModel k ns n)"
proof -
  have all: "keeps (\<lambda>c. J (view c)) (findAllSubscriptionsForModel k ns n)"
    "keeps (\<lambda>c. J (view c)) (findAllAuthPoliciesForModel k ns n)"
    unfolding findAllSubscriptionsForModel_def findAllAuthPoliciesForModel_def
    by (intro keeps_rules read_keeps)+
  then show "keeps (\<lambda>c. J (view c)) (findAllSubscriptionsForModel k ns n)"
    "keeps (\<lambda>c. J (view c)) (findAllAuthPoliciesForModel k ns n)" .
  show "keeps (\<lambda>c. J (view c)) (findAnySubscriptionForModel k ns n)"
    "keeps (\<lambda>c. J (view c)) (findAnyAuthPolicyForModel k ns n)"
    unfolding findAnySubscriptionForModel_def findAnyAuthPolicyForModel_def
    by (intro keeps_rules all)+
  have route: "keeps (\<lambda>c. J (view c)) (getHTTPRoute k n ns)" for n ns
    unfolding getHTTPRoute_def by (intro keeps_rules read_keeps)+
  then show "keeps (\<lambda>c. J (view c)) (getHTTPRoute k n ns)" .
  have res: "keeps (\<lambda>c. J (view c)) (HTTPRouteForModel k res model)" for res model
    unfolding HTTPRouteForModel_def llmisvc_HTTPRouteForModel_def external_HTTPRouteForModel_def
    by (cases res) (simp_all, (intro keeps_rules read_keeps)+)
  then show "keeps (\<lambda>c. J (view c)) (HTTPRouteForModel k res model)" .
  show "keeps (\<lambda>c. J (view c)) (findHTTPRouteForModel k ns n)"
    unfolding findHTTPRouteForModel_def by (intro keeps_rules read_keeps res route)+
qed

lemma route_keeps_healthy: "keeps (\<lambda>c. healthy c \<and> J (view c)) (findHTTPRouteForModel k ns n)"
  unfolding findHTTPRouteForModel_def HTTPRouteForModel_def llmisvc_HTTPRouteForModel_def external_HTTPRouteForModel_def
    getHTTPRoute_def
  by (intro keeps_rules reads_keeps_healthy [OF getModel] reads_keeps_healthy [OF getRoute]
      lists_keeps_healthy [OF listRoutes] stays_resolver)+

lemmas lookup_keeps_policies = lookup_keeps [where J = "\<lambda>w. J (w_policies w)" for J]

lemma routeNames_stored: "rn \<in> routeNames (view c) m \<Longrightarrow> \<exists>x. w_routes (view c) (om_namespace (mod_meta m), rn) = Some x"
  using wf [of c]
  by (auto simp: routeNames_def world_wf_def matchesOpts_def ran_def nsnOf_def split: option.splits RouteResolver.splits)

text \<open>Without faults the lookup finds a route of the model in the model's own namespace.\<close>

lemma getHTTPRoute_healthy:
  assumes "healthy c" "w_routes (view c) (ns, rn) = Some x"
  shows "\<exists>c'. getHTTPRoute k rn ns c = (c', Inr x) \<and> healthy c' \<and> view c' = view c"
  using reads_healthy [OF getRoute assms(1), of "(ns, rn)"] assms(2)
  by (auto simp: getHTTPRoute_def run_attempt)

lemma HTTPRouteForModel_healthy:
  assumes "healthy c" "routeNames (view c) m \<noteq> {}"
    and "GetRouteResolver (mr_kind (msp_modelRef (mod_spec m))) = Some res"
  shows "\<exists>c' rn. HTTPRouteForModel k res m c = (c', Inr (rn, om_namespace (mod_meta m))) \<and>
    rn \<in> routeNames (view c) m \<and> healthy c' \<and> view c' = view c"
proof (cases res)
  case llmisvcRouteResolver
  let ?lo = "\<lparr>lo_namespace = Some (om_namespace (mod_meta m)), lo_labels = llmisvcLabels m\<rparr>"
  obtain c' xs where l: "healthy c'" "view c' = view c" "cl_listRoutes k ?lo c = (c', Inr xs)"
    "set xs = {x \<in> ran (w_routes (view c)). matchesOpts ?lo (rt_meta x)}"
    using lists_healthy [OF listRoutes assms(1), of ?lo] by auto
  with assms(2,3) llmisvcRouteResolver have "xs \<noteq> []" by (auto simp: routeNames_def)
  then obtain x ys where xs: "xs = x # ys" by (cases xs) auto
  with l(4) have x: "x \<in> ran (w_routes (view c))" "matchesOpts ?lo (rt_meta x)" by auto
  then have "om_name (rt_meta x) \<in> routeNames (view c) m" "om_namespace (rt_meta x) = om_namespace (mod_meta m)"
    using assms(3) llmisvcRouteResolver by (auto simp: routeNames_def matchesOpts_def)
  with l xs llmisvcRouteResolver show ?thesis
    by (auto simp: HTTPRouteForModel_def llmisvc_HTTPRouteForModel_def Let_def run_rules)
next
  case externalModelRouteResolver
  with assms show ?thesis
    by (auto simp: HTTPRouteForModel_def external_HTTPRouteForModel_def routeNames_def)
qed

lemma findHTTPRoute_healthy:
  assumes "healthy c" "w_models (view c) (ns, n) = Some m" "\<not> om_deleting (mod_meta m)" "routeNames (view c) m \<noteq> {}"
  shows "\<exists>c' rn. findHTTPRouteForModel k ns n c = (c', Inr (rn, ns)) \<and> rn \<in> routeNames (view c) m \<and>
    healthy c' \<and> view c' = view c"
proof -
  have ns: "om_namespace (mod_meta m) = ns" using wf [of c] assms(2) by (auto simp: world_wf_def nsnOf_def)
  obtain c1 where c1: "cl_getModel k (ns, n) c = (c1, Inr m)" "healthy c1" "view c1 = view c"
    using reads_healthy [OF getModel assms(1), of "(ns, n)"] assms(2) by auto
  obtain res where res: "GetRouteResolver (mr_kind (msp_modelRef (mod_spec m))) = Some res"
    using assms(4) by (auto simp: routeNames_def split: option.splits)
  obtain c2 rn where c2: "HTTPRouteForModel k res m c1 = (c2, Inr (rn, ns))" "rn \<in> routeNames (view c) m"
    "healthy c2" "view c2 = view c"
    using HTTPRouteForModel_healthy [OF c1(2) _ res] assms(4) c1(3) ns by auto
  obtain x where x: "w_routes (view c) (ns, rn) = Some x" using routeNames_stored [OF c2(2)] ns by auto
  obtain c3 where "getHTTPRoute k rn ns c2 = (c3, Inr x)" "healthy c3" "view c3 = view c"
    using getHTTPRoute_healthy [OF c2(3), of ns rn x] c2(4) x by auto
  with c1 c2 res assms(3) show ?thesis
    by (auto simp: findHTTPRouteForModel_def run_rules)
qed

end

end
