(* ===== verification/Generated_Policies.thy ===== *)
theory Generated_Policies
  imports Model_Routes "HOL-Library.AList"
begin

text \<open>
  What the three reconcilers of \<open>maas-controller/pkg/controller/maas\<close> do alike with the Kuadrant policies
  they generate and with finalizers and conditions, and the protection of policies they must not
  touch: those that opted out by the annotation \<open>opendatahub.io/managed: "false"\<close>, and those that carry
  neither the controller's label nor a name the controller generates. The finalizer helpers of
  controllerutil are plain list operations. \<open>protected_keep\<close> and the rules after it carry the
  invariant through listing, deleting, creating and updating policies.
\<close>

section \<open>Definitions\<close>

definition isNotFound :: "cerror \<Rightarrow> bool" where "isNotFound err = (err = ApiNotFound)"
definition isNoMatchError :: "cerror \<Rightarrow> bool" where "isNoMatchError err = (err = ApiNoMatch)"

text \<open>Deleting a listed policy: opted-out policies are skipped, a policy that is already gone is fine.\<close>

definition deleteListed :: "'c client \<Rightarrow> policy_kind \<Rightarrow> string \<Rightarrow> policy \<Rightarrow> ('c, unit) call" where
  "deleteListed k g what p =
     (if \<not> isManaged (gp_meta p) then ret ()
      else attempt (cl_deletePolicy k g p)
        (\<lambda>r. case r of
           Inl err \<Rightarrow> if \<not> isNotFound err
                       then fail (Wrap (what @ om_namespace (gp_meta p) @ ''/'' @ om_name (gp_meta p) @ '': '') err [])
                       else ret ()
         | Inr _ \<Rightarrow> ret ()))"

definition newMeta :: "string \<Rightarrow> string \<Rightarrow> (string \<times> string) list \<Rightarrow> (string \<times> string) list \<Rightarrow> ObjectMeta" where
  "newMeta name ns labels annotations =
     \<lparr>om_name = name, om_namespace = ns, om_labels = labels, om_annotations = annotations, om_finalizers = [],
      om_deleting = False, om_generation = 0\<rparr>"

text \<open>\<open>for k, v := range new { old[k] = v }\<close>\<close>

definition mergeMap :: "(string \<times> string) list \<Rightarrow> (string \<times> string) list \<Rightarrow> (string \<times> string) list" where
  "mergeMap old new = foldl (\<lambda>m (key, v). AList.update key v m) old new"

definition mergePolicy :: "policy \<Rightarrow> policy \<Rightarrow> policy" where
  "mergePolicy existing desired =
     existing\<lparr>gp_meta := (gp_meta existing)
        \<lparr>om_annotations := mergeMap (om_annotations (gp_meta existing)) (om_annotations (gp_meta desired)),
         om_labels := mergeMap (om_labels (gp_meta existing)) (om_labels (gp_meta desired))\<rparr>,
      gp_spec := gp_spec desired\<rparr>"

text \<open>\<open>strings.Split\<close> with a separator of one character.\<close>

definition goSplit :: "char \<Rightarrow> string \<Rightarrow> string list" where
  "goSplit ch s = splitN ch (length s + 2) s"

definition hasFinalizer :: "string \<Rightarrow> ObjectMeta \<Rightarrow> bool" where
  "hasFinalizer f m = List.member (om_finalizers m) f"

definition addFinalizer :: "string \<Rightarrow> ObjectMeta \<Rightarrow> ObjectMeta" where
  "addFinalizer f m = (if hasFinalizer f m then m else m\<lparr>om_finalizers := om_finalizers m @ [f]\<rparr>)"

definition removeFinalizer :: "string \<Rightarrow> ObjectMeta \<Rightarrow> ObjectMeta" where
  "removeFinalizer f m = m\<lparr>om_finalizers := filter (\<lambda>x. x \<noteq> f) (om_finalizers m)\<rparr>"

definition readyCondition :: "string \<Rightarrow> string \<Rightarrow> int \<Rightarrow> Condition" where
  "readyCondition phase message generation =
     (let (status, reason) =
            (if phase = PhaseActive then (''True'', ReasonReconciled)
             else if phase = PhaseDegraded then (''False'', ReasonPartialFailure)
             else if phase = PhaseFailed then (''False'', ReasonReconcileFailed)
             else (''Unknown'', ReasonUnknown))
      in \<lparr>cd_type = ''Ready'', cd_status = status, cd_reason = reason, cd_message = message,
          cd_observedGeneration = generation\<rparr>)"

section \<open>Storing a policy\<close>

lemma putPolicy_same [simp]:
  "w_models (putPolicy g p w) = w_models w" "w_subs (putPolicy g p w) = w_subs w"
  "w_auths (putPolicy g p w) = w_auths w" "w_routes (putPolicy g p w) = w_routes w"
  "w_policies (putPolicy g p w) = (w_policies w)(g := (w_policies w g)(nsnOf (gp_meta p) \<mapsto> p))"
  by (simp_all add: putPolicy_def)

lemma routeNames_putPolicy [simp]: "routeNames (putPolicy g p w) m = routeNames w m"
  by (simp add: routeNames_def cong: option.case_cong RouteResolver.case_cong)

lemma putPolicy_again: "putPolicy g p (putPolicy g p w) = putPolicy g p w"
  by (simp add: putPolicy_def)

section \<open>Merging\<close>

lemma update_stored: "map_of m key = Some v \<Longrightarrow> AList.update key v m = m"
  by (induction m) auto

lemma map_of_mergeMap:
  "map_of (mergeMap old new) key = (case map_of (rev new) key of None \<Rightarrow> map_of old key | Some v \<Rightarrow> Some v)"
  unfolding mergeMap_def
  by (induction new arbitrary: old) (auto simp: update_conv' map_of_append split: option.splits)

lemma mergeMap_same: "(\<And>key v. (key, v) \<in> set new \<Longrightarrow> map_of m key = Some v) \<Longrightarrow> mergeMap m new = m"
  unfolding mergeMap_def by (induction new) (auto simp: update_stored)

lemma mergeMap_idem:
  assumes "distinct (map fst new)"
  shows "mergeMap (mergeMap old new) new = mergeMap old new" "mergeMap new new = new"
proof -
  have r: "map_of (rev new) key = Some v" if "(key, v) \<in> set new" for key v
    using that assms by (simp add: rev_map [symmetric])
  show "mergeMap (mergeMap old new) new = mergeMap old new"
    by (rule mergeMap_same) (simp add: map_of_mergeMap r)
  show "mergeMap new new = new"
    by (rule mergeMap_same) (use assms in simp)
qed

text \<open>The policy is in step with what is desired: merging changes nothing.\<close>

definition inStep :: "policy \<Rightarrow> policy \<Rightarrow> bool" where
  "inStep desired p \<longleftrightarrow> mergePolicy p desired = p"

lemma inStep_spec: "inStep desired p \<Longrightarrow> gp_spec p = gp_spec desired"
  unfolding inStep_def mergePolicy_def by (cases p) simp

lemma mergePolicy_owner [simp]:
  "mergePolicy (p\<lparr>gp_owner := x\<rparr>) d = (mergePolicy p d)\<lparr>gp_owner := x\<rparr>"
  "mergePolicy p (d\<lparr>gp_owner := x\<rparr>) = mergePolicy p d"
  "gp_owner (mergePolicy p d) = gp_owner p"
  by (simp_all add: mergePolicy_def)

lemma inStep_owner [simp]: "inStep desired (p\<lparr>gp_owner := x\<rparr>) = inStep desired p"
  by (cases p) (auto simp: inStep_def mergePolicy_def)

lemma nsnOf_mergePolicy [simp]: "nsnOf (gp_meta (mergePolicy e d)) = nsnOf (gp_meta e)"
  by (simp add: mergePolicy_def nsnOf_def)

lemma inStep_merge:
  assumes "distinct (map fst (om_labels (gp_meta d)))" "distinct (map fst (om_annotations (gp_meta d)))"
  shows "inStep d (mergePolicy p d)" "inStep d d"
  using mergeMap_idem [OF assms(1)] mergeMap_idem [OF assms(2)] by (simp_all add: inStep_def mergePolicy_def)

lemma isManaged_mergePolicy:
  "ManagedByODHOperator \<notin> fst ` set (om_annotations (gp_meta d)) \<Longrightarrow>
   isManaged (gp_meta (mergePolicy p d)) = isManaged (gp_meta p)"
  by (simp add: isManaged_def mergePolicy_def map_of_mergeMap map_of_eq_None_iff [THEN iffD2])

section \<open>Protected policies\<close>

fun genPrefix :: "policy_kind \<Rightarrow> string" where
  "genPrefix TokenRateLimitPolicyKind = ''maas-trlp-''"
| "genPrefix AuthPolicyKind = ''maas-auth-''"

definition protectedPolicy :: "policy_kind \<Rightarrow> policy \<Rightarrow> bool" where
  "protectedPolicy g p \<longleftrightarrow>
     \<not> isManaged (gp_meta p) \<or>
     map_of (om_labels (gp_meta p)) ''app.kubernetes.io/managed-by'' \<noteq> Some ''maas-controller'' \<and>
     \<not> hasPrefix (om_name (gp_meta p)) (genPrefix g)"

text \<open>All protected policies of \<open>ps0\<close> are in \<open>ps\<close>, unchanged.\<close>

definition protectedKept ::
  "(policy_kind \<Rightarrow> nsn \<Rightarrow> policy option) \<Rightarrow> (policy_kind \<Rightarrow> nsn \<Rightarrow> policy option) \<Rightarrow> bool" where
  "protectedKept ps0 ps \<longleftrightarrow> (\<forall>g key p. ps0 g key = Some p \<and> protectedPolicy g p \<longrightarrow> ps g key = Some p)"

text \<open>The key may be written.\<close>

definition free :: "(policy_kind \<Rightarrow> nsn \<Rightarrow> policy option) \<Rightarrow> policy_kind \<Rightarrow> nsn \<Rightarrow> bool" where
  "free ps0 g key \<longleftrightarrow> (\<forall>p. ps0 g key = Some p \<longrightarrow> \<not> protectedPolicy g p)"

lemma protectedKept_refl: "protectedKept ps ps"
  by (simp add: protectedKept_def)

lemma protectedKept_free:
  "protectedKept ps0 ps \<Longrightarrow> (\<And>p. ps g key = Some p \<Longrightarrow> \<not> protectedPolicy g p) \<Longrightarrow> free ps0 g key"
  unfolding protectedKept_def free_def by blast

lemma protectedKept_upd:
  "protectedKept ps0 ps \<Longrightarrow> free ps0 g key \<Longrightarrow> protectedKept ps0 (ps(g := (ps g)(key := v)))"
  by (auto simp: protectedKept_def free_def)

lemma stays_assume: "(\<And>c. P c \<Longrightarrow> Q \<and> P' c) \<Longrightarrow> (Q \<Longrightarrow> stays P' I m) \<Longrightarrow> stays P I m"
  by (auto simp: stays_def)

context api_server
begin

lemma delete_keeps:
  "free ps0 g (nsnOf (gp_meta p)) \<Longrightarrow> keeps (\<lambda>c. protectedKept ps0 (w_policies (view c))) (cl_deletePolicy k g p)"
  by (rule writes_stays [where P = "\<lambda>w. protectedKept ps0 (w_policies w)"
        and J = "\<lambda>w. protectedKept ps0 (w_policies w)", OF deletePolicy])
    (auto simp: dropPolicy_def protectedKept_upd)

lemma put_keeps:
  assumes "free ps0 g (nsnOf (gp_meta p))"
  shows "keeps (\<lambda>c. protectedKept ps0 (w_policies (view c))) (cl_createPolicy k g p)"
    and "keeps (\<lambda>c. protectedKept ps0 (w_policies (view c))) (cl_updatePolicy k g p)"
  by (rule writes_stays [where P = "\<lambda>w. protectedKept ps0 (w_policies w)"
        and J = "\<lambda>w. protectedKept ps0 (w_policies w)", OF createPolicy]
      writes_stays [where P = "\<lambda>w. protectedKept ps0 (w_policies w)"
        and J = "\<lambda>w. protectedKept ps0 (w_policies w)", OF updatePolicy];
      auto simp: putPolicy_def protectedKept_upd assms)+

text \<open>Listing policies by the controller's label and deleting the managed ones.\<close>

lemma deleteListed_keeps:
  "(isManaged (gp_meta p) \<Longrightarrow> free ps0 g (nsnOf (gp_meta p))) \<Longrightarrow>
   keeps (\<lambda>c. protectedKept ps0 (w_policies (view c))) (deleteListed k g what p)"
  unfolding deleteListed_def by (intro keeps_rules delete_keeps) auto

lemma list_then_keeps:
  assumes "map_of (lo_labels lo) ''app.kubernetes.io/managed-by'' = Some ''maas-controller''"
    and "\<And>e. keeps (\<lambda>c. protectedKept ps0 (w_policies (view c))) (f (Inl e))"
    and "\<And>xs. (\<And>p. p \<in> set xs \<Longrightarrow> isManaged (gp_meta p) \<Longrightarrow> free ps0 g (nsnOf (gp_meta p))) \<Longrightarrow>
      keeps (\<lambda>c. protectedKept ps0 (w_policies (view c))) (f (Inr xs))"
  shows "keeps (\<lambda>c. protectedKept ps0 (w_policies (view c))) (attempt (cl_listPolicies k g lo) f)"
  unfolding stays_def
proof (intro allI impI)
  fix c assume J: "protectedKept ps0 (w_policies (view c))"
  obtain c' r where m: "cl_listPolicies k g lo c = (c', r)" by fastforce
  with listPolicies [of g lo] have v: "view c' = view c"
    and xs: "\<And>xs. r = Inr xs \<Longrightarrow> set xs = {x \<in> ran (w_policies (view c) g). matchesOpts lo (gp_meta x)}"
    unfolding lists_def by (metis fst_conv, metis snd_conv)
  have "keeps (\<lambda>c. protectedKept ps0 (w_policies (view c))) (f r)"
  proof (cases r)
    case (Inr ys)
    have "free ps0 g (nsnOf (gp_meta p))" if p: "p \<in> set ys" "isManaged (gp_meta p)" for p
    proof (rule protectedKept_free [OF J])
      fix q assume q: "w_policies (view c) g (nsnOf (gp_meta p)) = Some q"
      from p xs [OF Inr] obtain key where "w_policies (view c) g key = Some p" "matchesOpts lo (gp_meta p)"
        by (auto simp: ran_def)
      with q stored_key(5) have "q = p" "map_of (om_labels (gp_meta p)) ''app.kubernetes.io/managed-by'' = Some ''maas-controller''"
        using assms(1) by (auto simp: matchesOpts_def matchesLabels_def list_all_iff dest!: map_of_SomeD)
      with p show "\<not> protectedPolicy g q" by (simp add: protectedPolicy_def)
    qed
    with assms(3) Inr show ?thesis by blast
  qed (use assms(2) in auto)
  with J v m show "protectedKept ps0 (w_policies (view (fst (attempt (cl_listPolicies k g lo) f c))))"
    by (simp add: attempt_def stays_def)
qed

text \<open>Reading a policy under a generated name and then writing there.\<close>

lemma get_then_keeps:
  assumes "hasPrefix (snd key) (genPrefix g)"
    and "\<And>e. e \<noteq> ApiNotFound \<Longrightarrow> keeps (\<lambda>c. protectedKept ps0 (w_policies (view c))) (f (Inl e))"
    and "free ps0 g key \<Longrightarrow> keeps (\<lambda>c. protectedKept ps0 (w_policies (view c))) (f (Inl ApiNotFound))"
    and "\<And>x. nsnOf (gp_meta x) = key \<Longrightarrow> (isManaged (gp_meta x) \<Longrightarrow> free ps0 g key) \<Longrightarrow>
      keeps (\<lambda>c. protectedKept ps0 (w_policies (view c))) (f (Inr x))"
  shows "keeps (\<lambda>c. protectedKept ps0 (w_policies (view c))) (attempt (cl_getPolicy k g key) f)"
  unfolding stays_def
proof (intro allI impI)
  fix c assume J: "protectedKept ps0 (w_policies (view c))"
  obtain c' r where m: "cl_getPolicy k g key c = (c', r)" by fastforce
  with getPolicy [of g key] have v: "view c' = view c"
    and x: "\<And>x. r = Inr x \<Longrightarrow> w_policies (view c) g key = Some x"
    and nf: "r = Inl ApiNotFound \<Longrightarrow> w_policies (view c) g key = None"
    unfolding reads_def by (metis fst_conv, metis snd_conv, metis snd_conv)
  have "keeps (\<lambda>c. protectedKept ps0 (w_policies (view c))) (f r)"
  proof (cases r)
    case (Inl e)
    have "free ps0 g key" if "e = ApiNotFound"
      by (rule protectedKept_free [OF J]) (use nf Inl that in auto)
    with assms(2,3) Inl show ?thesis by (cases "e = ApiNotFound") auto
  next
    case (Inr y)
    have key: "nsnOf (gp_meta y) = key" using stored_key(5) [OF x [OF Inr]] .
    have "free ps0 g key" if "isManaged (gp_meta y)"
      by (rule protectedKept_free [OF J])
        (use x [OF Inr] that assms(1) key in \<open>auto simp: protectedPolicy_def nsnOf_def\<close>)
    with assms(4) [OF key] Inr show ?thesis by auto
  qed
  with J v m show "protectedKept ps0 (w_policies (view (fst (attempt (cl_getPolicy k g key) f c))))"
    by (simp add: attempt_def stays_def)
qed

end

section \<open>Deleting\<close>

text \<open>All managed policies that satisfy the predicate are deleted (or marked for deletion where a
  finalizer holds them).\<close>

definition sweep :: "policy_kind \<Rightarrow> (policy \<Rightarrow> bool) \<Rightarrow> world \<Rightarrow> world" where
  "sweep g P w = w\<lparr>w_policies := (w_policies w)(g := (\<lambda>key. Option.bind (w_policies w g key)
     (\<lambda>p. if P p \<and> isManaged (gp_meta p) then afterDelete p else Some p)))\<rparr>"

lemma sweep_none: "(\<And>p. p \<in> ran (w_policies w g) \<Longrightarrow> \<not> P p) \<Longrightarrow> sweep g P w = w"
proof -
  assume none: "\<And>p. p \<in> ran (w_policies w g) \<Longrightarrow> \<not> P p"
  have "Option.bind (w_policies w g key) (\<lambda>p. if P p \<and> isManaged (gp_meta p) then afterDelete p else Some p) =
      w_policies w g key" for key
    using none [OF ranI] by (cases "w_policies w g key") auto
  then show ?thesis by (simp add: sweep_def)
qed

lemma sweep_cong: "(\<And>p. p \<in> ran (w_policies w g) \<Longrightarrow> P p = Q p) \<Longrightarrow> sweep g P w = sweep g Q w"
proof -
  assume eq: "\<And>p. p \<in> ran (w_policies w g) \<Longrightarrow> P p = Q p"
  have "Option.bind (w_policies w g key) (\<lambda>p. if P p \<and> isManaged (gp_meta p) then afterDelete p else Some p) =
      Option.bind (w_policies w g key) (\<lambda>p. if Q p \<and> isManaged (gp_meta p) then afterDelete p else Some p)" for key
    using eq [OF ranI] by (cases "w_policies w g key") auto
  then show ?thesis by (simp add: sweep_def)
qed

lemma afterDelete_deleting: "afterDelete p = Some q \<Longrightarrow> om_deleting (gp_meta q)"
  by (auto simp: afterDelete_def markDeleting_def split: if_splits)

lemma sweep_leaves_deleting:
  "w_policies (sweep g P w) g key = Some p \<Longrightarrow> w_policies w g key = Some p \<and> \<not> (P p \<and> isManaged (gp_meta p)) \<or>
     om_deleting (gp_meta p)"
  by (auto simp: sweep_def bind_eq_Some_conv afterDelete_deleting split: if_splits)

context api_server
begin

lemma deleteListed_healthy:
  assumes "healthy c" "p \<in> ran (w_policies (view c) g)"
  shows "\<exists>c'. deleteListed k g what p c = (c', Inr ()) \<and> healthy c' \<and> view c' = sweep g ((=) p) (view c)"
proof -
  have key: "w_policies (view c) g (nsnOf (gp_meta p)) = Some p"
    using assms(2) stored_key(5) by (fastforce simp: ran_def)
  have other: "q \<noteq> p" if "w_policies (view c) g key' = Some q" "key' \<noteq> nsnOf (gp_meta p)" for q key'
    using stored_key(5) [OF that(1)] that(2) by auto
  show ?thesis
  proof (cases "isManaged (gp_meta p)")
    case True
    obtain c' where c': "healthy c'" "view c' = dropPolicy g p (view c)" "cl_deletePolicy k g p c = (c', Inr ())"
      using writes_healthy [OF deletePolicy assms(1), of g p] key by auto
    have "Option.bind (w_policies (view c) g key') (\<lambda>q. if p = q \<and> isManaged (gp_meta q) then afterDelete q else Some q) =
        (if key' = nsnOf (gp_meta p) then afterDelete p else w_policies (view c) g key')" for key'
      using key True other [of key'] by (cases "w_policies (view c) g key'") auto
    then have "dropPolicy g p (view c) = sweep g ((=) p) (view c)"
      using key by (simp add: dropPolicy_def sweep_def fun_upd_def)
    with c' True show ?thesis by (auto simp: deleteListed_def run_rules)
  next
    case False
    have "Option.bind (w_policies (view c) g key') (\<lambda>q. if p = q \<and> isManaged (gp_meta q) then afterDelete q else Some q) =
        w_policies (view c) g key'" for key'
      using False by (cases "w_policies (view c) g key'") auto
    then have "sweep g ((=) p) (view c) = view c" by (simp add: sweep_def)
    with False assms(1) show ?thesis by (auto simp: deleteListed_def)
  qed
qed

lemma forE_delete_healthy:
  "healthy c \<Longrightarrow> distinct xs \<Longrightarrow> set xs \<subseteq> ran (w_policies (view c) g) \<Longrightarrow>
   \<exists>c'. forE (deleteListed k g what) xs c = (c', Inr ()) \<and> healthy c' \<and> view c' = sweep g (\<lambda>p. p \<in> set xs) (view c)"
proof (induction xs arbitrary: c)
  case Nil
  then show ?case by (simp add: sweep_none)
next
  case (Cons x xs)
  obtain c1 where c1: "deleteListed k g what x c = (c1, Inr ())" "healthy c1" "view c1 = sweep g ((=) x) (view c)"
    using deleteListed_healthy [OF Cons.prems(1), of x g] Cons.prems(3) by auto
  have key: "w_policies (view c) g (nsnOf (gp_meta y)) = Some y" if "y \<in> set (x # xs)" for y
    using that Cons.prems(3) stored_key(5) by (fastforce simp: ran_def)
  have "w_policies (view c1) g (nsnOf (gp_meta y)) = Some y" if "y \<in> set xs" for y
    using that key [of y] Cons.prems(2) by (auto simp: c1(3) sweep_def)
  then have "set xs \<subseteq> ran (w_policies (view c1) g)" by (meson ranI subsetI)
  then obtain c2 where c2: "forE (deleteListed k g what) xs c1 = (c2, Inr ())" "healthy c2"
    "view c2 = sweep g (\<lambda>p. p \<in> set xs) (view c1)" using Cons.IH [OF c1(2)] Cons.prems(2) by auto
  have gone: "q \<notin> set xs" if "afterDelete x = Some q" for q
    using afterDelete_nsn [OF that] key [of q] key [of x] Cons.prems(2) by auto
  have "Option.bind (Option.bind (w_policies (view c) g key') (\<lambda>p. if x = p \<and> isManaged (gp_meta p) then afterDelete p else Some p))
        (\<lambda>p. if p \<in> set xs \<and> isManaged (gp_meta p) then afterDelete p else Some p) =
      Option.bind (w_policies (view c) g key') (\<lambda>p. if (p = x \<or> p \<in> set xs) \<and> isManaged (gp_meta p) then afterDelete p else Some p)" for key'
    using gone Cons.prems(2) by (cases "w_policies (view c) g key'"; cases "afterDelete x") auto
  then have "view c2 = sweep g (\<lambda>p. p \<in> set (x # xs)) (view c)"
    unfolding c2(3) c1(3) by (simp add: sweep_def)
  with c1 c2 show ?case by (auto simp: run_rules)
qed

lemma list_delete_healthy:
  assumes "healthy c"
  shows "\<exists>c1 xs c'. cl_listPolicies k g lo c = (c1, Inr xs) \<and> forE (deleteListed k g what) xs c1 = (c', Inr ()) \<and>
    healthy c' \<and> view c' = sweep g (\<lambda>p. matchesOpts lo (gp_meta p)) (view c)"
proof -
  obtain c1 xs where c1: "healthy c1" "view c1 = view c" "cl_listPolicies k g lo c = (c1, Inr xs)" "distinct xs"
    "set xs = {x \<in> ran (w_policies (view c) g). matchesOpts lo (gp_meta x)}"
    using lists_healthy [OF listPolicies assms, of g lo] by blast
  obtain c' where "forE (deleteListed k g what) xs c1 = (c', Inr ())" "healthy c'"
    "view c' = sweep g (\<lambda>p. p \<in> set xs) (view c)"
    using forE_delete_healthy [OF c1(1,4), of g what] c1(2,5) by auto
  moreover have "sweep g (\<lambda>p. p \<in> set xs) (view c) = sweep g (\<lambda>p. matchesOpts lo (gp_meta p)) (view c)"
    by (rule sweep_cong) (simp add: c1(5))
  ultimately show ?thesis using c1(3) by auto
qed

end

end
