(* ===== verification/Subscription_Controller.thy ===== *)
theory Subscription_Controller
  imports Generated_Policies
begin

text \<open>
  \<open>maas-controller/pkg/controller/maas/maassubscription_controller.go\<close>: the reconciler of
  MaaSSubscription objects. For every model of a subscription it aggregates the rate limits of all
  live subscriptions of that model into one Kuadrant TokenRateLimitPolicy, keeps the policy in step,
  cleans up policies of models no longer referenced, derives the phase of the subscription and marks
  subscriptions that share a priority. Log lines are left out. Setting the field \<open>spec\<close> of an
  unstructured object and writing labels and annotations cannot fail and are plain updates. The
  entries of every Go map are listed in one fixed order, the limits by key, so that equal maps are
  equal lists.
\<close>

section \<open>Limits\<close>

definition maasSubscriptionFinalizer :: string where
  "maasSubscriptionFinalizer = ''maas.opendatahub.io/subscription-cleanup''"

definition maxTokenRateLimit :: int where "maxTokenRateLimit = 1000000000"

definition maxWindowSeconds :: int where "maxWindowSeconds = 366 * 24 * 3600"

text \<open>The submatch of \<open>^[1-9]\d{0,3}(s|m|h)$\<close>.\<close>

definition windowPattern :: "string \<Rightarrow> char option" where
  "windowPattern w =
     (case rev w of
        [] \<Rightarrow> None
      | u # rnum \<Rightarrow>
          (case rev rnum of
             [] \<Rightarrow> None
           | d # ds \<Rightarrow>
               if List.member ''smh'' u \<and> isDigit d \<and> d \<noteq> CHR ''0'' \<and> list_all isDigit ds \<and> length ds \<le> 3
               then Some u else None))"

text \<open>\<open>strconv.ParseInt(s, 10, 64)\<close> of a string without a sign.\<close>

definition parseInt :: "string \<Rightarrow> int option" where
  "parseInt s = (if s = [] then None else parseUint s 0 (2 ^ 63 - 1))"

definition validateTokenRateLimit :: "int \<Rightarrow> string \<Rightarrow> cerror option" where
  "validateTokenRateLimit limit window =
     (if limit \<le> 0 then Some (ErrText (''token limit '' @ showInt limit @ '' must be positive''))
      else if limit > maxTokenRateLimit
      then Some (ErrText (''token limit '' @ showInt limit @ '' exceeds maximum allowed value '' @ showInt maxTokenRateLimit))
      else
        (case windowPattern window of
           None \<Rightarrow> Some (ErrText (''invalid window format '' @ goQuote window @
                     '': expected a positive number followed by s, m, or h (e.g. '' @ goQuote ''1h'' @ '', '' @ goQuote ''30m'' @ '')''))
         | Some unit \<Rightarrow>
             let numStr = take (length window - 1) window
             in (case parseInt numStr of
                   None \<Rightarrow> Some (ErrText (''invalid window numeric value '' @ goQuote numStr @ '': invalid syntax''))
                 | Some value \<Rightarrow>
                     let seconds = (if unit = CHR ''s'' then value
                                    else if unit = CHR ''m'' then int64 (value * 60)
                                    else int64 (value * 3600))
                     in if seconds > maxWindowSeconds
                        then Some (ErrText (''window '' @ goQuote window @ '' ('' @ showInt seconds @
                               '' seconds) exceeds maximum allowed duration ('' @ showInt maxWindowSeconds @ '' seconds)''))
                        else None)))"

section \<open>Status\<close>

definition modelKeyOf :: "ModelSubscriptionRef \<Rightarrow> string" where
  "modelKeyOf ref = msr_namespace ref @ ''/'' @ msr_name ref"

text \<open>The loops over the model references skip keys they have \<open>seen\<close>.\<close>

fun unseen :: "string list \<Rightarrow> ModelSubscriptionRef list \<Rightarrow> ModelSubscriptionRef list" where
  "unseen seen [] = []"
| "unseen seen (ref # refs) =
     (if List.member seen (modelKeyOf ref) then unseen seen refs
      else ref # unseen (modelKeyOf ref # seen) refs)"

definition validateModelRef :: "'c client \<Rightarrow> ModelSubscriptionRef \<Rightarrow> ('c, ResourceRefStatus) call" where
  "validateModelRef k ref =
     attempt (cl_getModel k (msr_namespace ref, msr_name ref))
       (\<lambda>r. case r of
          Inl err \<Rightarrow>
            if err = ApiNotFound
            then ret \<lparr>rs_name = msr_name ref, rs_namespace = msr_namespace ref, rs_ready = False,
                      rs_reason = ReasonNotFound,
                      rs_message = ''MaaSModelRef '' @ msr_namespace ref @ ''/'' @ msr_name ref @ '' not found''\<rparr>
            else ret \<lparr>rs_name = msr_name ref, rs_namespace = msr_namespace ref, rs_ready = False,
                      rs_reason = ReasonGetFailed, rs_message = ''failed to get MaaSModelRef: '' @ errText err\<rparr>
        | Inr _ \<Rightarrow> ret \<lparr>rs_name = msr_name ref, rs_namespace = msr_namespace ref, rs_ready = True,
                      rs_reason = ReasonValid, rs_message = []\<rparr>)"

definition validateModelRefs :: "'c client \<Rightarrow> MaaSSubscription \<Rightarrow> ('c, ResourceRefStatus list) call" where
  "validateModelRefs k subscription =
     mapE (validateModelRef k) (unseen [] (ssp_modelRefs (sub_spec subscription)))"

fun acceptedLoop :: "goany list \<Rightarrow> bool \<times> string" where
  "acceptedLoop [] = (False, ''Accepted condition not found'')"
| "acceptedLoop (GMap cond # cs) =
     (if mapIndex cond ''type'' = GStr ''Accepted'' then
        if mapIndex cond ''status'' = GStr ''True'' then (True, [])
        else (case as_string (mapIndex cond ''message'') of
                Some msg \<Rightarrow> (False, msg)
              | None \<Rightarrow> (False, ''Accepted condition is False''))
      else acceptedLoop cs)"
| "acceptedLoop (_ # cs) = acceptedLoop cs"

definition getTRLPAcceptedCondition :: "nested_api \<Rightarrow> policy \<Rightarrow> bool \<times> string" where
  "getTRLPAcceptedCondition api trlp =
     (case nestedMap api (policyObject trlp) [''status''] of
        (status, found, err) \<Rightarrow>
          if err \<noteq> None \<or> \<not> found then (False, ''status not available'')
          else
            (case nestedSlice api status [''conditions''] of
               (conditions, found2, err2) \<Rightarrow>
                 if err2 \<noteq> None \<or> \<not> found2 then (False, ''conditions not found'')
                 else acceptedLoop conditions))"

definition trlpName :: "string \<Rightarrow> string" where
  "trlpName modelName = ''maas-trlp-'' @ modelName"

definition trlpStatus :: "ModelSubscriptionRef \<Rightarrow> string \<Rightarrow> bool \<Rightarrow> string \<Rightarrow> string \<Rightarrow> TokenRateLimitStatus" where
  "trlpStatus ref ns ready reason message =
     \<lparr>rs_name = trlpName (msr_name ref), rs_namespace = ns, rs_ready = ready, rs_reason = reason,
      rs_message = message, trs_model = msr_name ref\<rparr>"

definition checkTRLP :: "'c client \<Rightarrow> ModelSubscriptionRef \<Rightarrow> ('c, TokenRateLimitStatus) call" where
  "checkTRLP k ref =
     attempt (findHTTPRouteForModel k (msr_namespace ref) (msr_name ref))
       (\<lambda>r. case r of
          Inl err \<Rightarrow>
            if errIs err ErrHTTPRouteNotFound \<or> errIs err ErrModelNotFound
            then ret (trlpStatus ref (msr_namespace ref) False ReasonBackendNotReady
                   (''HTTPRoute not found yet; TokenRateLimitPolicy cannot be created: '' @ errText err))
            else ret (trlpStatus ref (msr_namespace ref) False ReasonGetFailed
                   (''failed to find HTTPRoute for model: '' @ errText err))
        | Inr (_, httpRouteNS) \<Rightarrow>
            attempt (cl_getPolicy k TokenRateLimitPolicyKind (httpRouteNS, trlpName (msr_name ref)))
              (\<lambda>r2. case r2 of
                 Inl err \<Rightarrow>
                   if err = ApiNotFound
                   then ret (trlpStatus ref httpRouteNS False ReasonNotFound ''TokenRateLimitPolicy not created yet'')
                   else ret (trlpStatus ref httpRouteNS False ReasonGetFailed
                          (''failed to get TokenRateLimitPolicy: '' @ errText err))
               | Inr trlp \<Rightarrow>
                   (case getTRLPAcceptedCondition (lib_unstructured k) trlp of
                      (accepted, message) \<Rightarrow>
                        if accepted then ret (trlpStatus ref httpRouteNS True ReasonAccepted [])
                        else ret (trlpStatus ref httpRouteNS False ReasonNotAccepted message))))"

definition checkTokenRateLimitHealth ::
  "'c client \<Rightarrow> MaaSSubscription \<Rightarrow> ('c, TokenRateLimitStatus list) call" where
  "checkTokenRateLimitHealth k subscription =
     mapE (checkTRLP k) (unseen [] (ssp_modelRefs (sub_spec subscription)))"

definition deriveFinalPhase ::
  "ResourceRefStatus list \<Rightarrow> TokenRateLimitStatus list \<Rightarrow> string \<times> string" where
  "deriveFinalPhase modelStatuses trlpStatuses =
     (if modelStatuses = [] then (PhaseFailed, ''no model references specified'')
      else
        let validModelSet = map rs_name (filter rs_ready modelStatuses);
            validModels = int (length (filter rs_ready modelStatuses));
            invalidModels = int (length (filter (\<lambda>s. \<not> rs_ready s) modelStatuses));
            unhealthyTRLPs = int (length (filter (\<lambda>s. \<not> rs_ready s) trlpStatuses));
            modelsWithBackendIssues =
              int (length (filter (\<lambda>s. \<not> rs_ready s \<and> rs_reason s = ReasonBackendNotReady \<and>
                                       List.member validModelSet (trs_model s)) trlpStatuses));
            effectiveValidModels = validModels - modelsWithBackendIssues;
            effectiveInvalidModels = invalidModels + modelsWithBackendIssues;
            total = int (length modelStatuses)
        in if effectiveValidModels \<le> 0
           then (PhaseFailed, ''all '' @ showInt total @ '' model references are invalid or unavailable'')
           else if effectiveInvalidModels > 0
           then (PhaseDegraded, showInt effectiveInvalidModels @ '' of '' @ showInt total @
                   '' model references are invalid or unavailable'')
           else
             let trlpOnlyIssues = unhealthyTRLPs - modelsWithBackendIssues
             in if trlpOnlyIssues > 0
                then (PhaseDegraded, showInt trlpOnlyIssues @ '' of '' @ showInt (int (length trlpStatuses)) @
                        '' TokenRateLimitPolicies not accepted'')
                else (PhaseActive, ''successfully reconciled''))"

definition ConditionSpecPriorityDuplicate :: string where
  "ConditionSpecPriorityDuplicate = ''SpecPriorityDuplicate''"

text \<open>\<open>updateStatus\<close> never returns an error.\<close>

definition updateStatus ::
  "'c client \<Rightarrow> MaaSSubscription \<Rightarrow> string \<Rightarrow> string \<Rightarrow> MaaSSubscriptionStatus \<Rightarrow> ('c, unit) call" where
  "updateStatus k subscription phase message statusSnapshot =
     attempt (cl_getSub k (nsnOf (sub_meta subscription)))
       (\<lambda>r. let conds = sst_conditions (sub_status subscription);
                conds1 = (case r of
                            Inr latest \<Rightarrow>
                              (case lib_findStatusCondition k (sst_conditions (sub_status latest)) ConditionSpecPriorityDuplicate of
                                 Some dup \<Rightarrow> lib_setStatusCondition k conds dup
                               | None \<Rightarrow> conds)
                          | Inl _ \<Rightarrow> conds);
                conds2 = lib_setStatusCondition k conds1
                           (readyCondition phase message (om_generation (sub_meta subscription)));
                status = (sub_status subscription)\<lparr>sst_phase := phase, sst_conditions := conds2\<rparr>
            in if statusSnapshot = status then ret ()
               else attempt (cl_statusSub k (subscription\<lparr>sub_status := status\<rparr>)) (\<lambda>_. ret ()))"

section \<open>The aggregated policy\<close>

definition trlpModelLabels :: "string \<Rightarrow> string \<Rightarrow> (string \<times> string) list" where
  "trlpModelLabels modelNamespace modelName =
     [(''maas.opendatahub.io/model'', modelName), (''maas.opendatahub.io/model-namespace'', modelNamespace),
      (''app.kubernetes.io/managed-by'', ''maas-controller''), (''app.kubernetes.io/part-of'', ''maas-subscription'')]"

definition deleteModelTRLP :: "'c client \<Rightarrow> string \<Rightarrow> string \<Rightarrow> ('c, unit) call" where
  "deleteModelTRLP k modelNamespace modelName =
     attempt (cl_listPolicies k TokenRateLimitPolicyKind
                \<lparr>lo_namespace = None, lo_labels = trlpModelLabels modelNamespace modelName\<rparr>)
       (\<lambda>r. case r of
          Inl err \<Rightarrow> if isNotFound err \<or> isNoMatchError err then ret ()
                      else fail (Wrap ''failed to list TokenRateLimitPolicy for cleanup: '' err [])
        | Inr items \<Rightarrow> forE (deleteListed k TokenRateLimitPolicyKind ''failed to delete TokenRateLimitPolicy '') items)"

definition rateOf :: "TokenRateLimit \<Rightarrow> goany" where
  "rateOf trl = GMap [(''limit'', GInt (trl_limit trl)), (''window'', GStr (trl_window trl))]"

text \<open>The rates of one model reference; \<^const>\<open>None\<close> when one of its limits is invalid.\<close>

definition ratesOf :: "ModelSubscriptionRef \<Rightarrow> goany list option" where
  "ratesOf mRef =
     (if length (msr_tokenRateLimits mRef) > 0
      then if list_all (\<lambda>trl. validateTokenRateLimit (trl_limit trl) (trl_window trl) = None) (msr_tokenRateLimits mRef)
           then Some (map rateOf (msr_tokenRateLimits mRef)) else None
      else Some [GMap [(''limit'', GInt 100), (''window'', GStr ''1m'')]])"

record subInfo =
  si_sub :: MaaSSubscription
  si_mRef :: ModelSubscriptionRef
  si_rates :: "goany list"

text \<open>The first reference of a subscription to the model whose limits are all valid.\<close>

fun subInfoOf :: "string \<Rightarrow> string \<Rightarrow> MaaSSubscription \<Rightarrow> ModelSubscriptionRef list \<Rightarrow> subInfo option" where
  "subInfoOf modelNamespace modelName sub [] = None"
| "subInfoOf modelNamespace modelName sub (mRef # refs) =
     (if msr_namespace mRef \<noteq> modelNamespace \<or> msr_name mRef \<noteq> modelName
      then subInfoOf modelNamespace modelName sub refs
      else (case ratesOf mRef of
              None \<Rightarrow> subInfoOf modelNamespace modelName sub refs
            | Some rates \<Rightarrow> Some \<lparr>si_sub = sub, si_mRef = mRef, si_rates = rates\<rparr>))"

definition subInfos :: "string \<Rightarrow> string \<Rightarrow> MaaSSubscription list \<Rightarrow> subInfo list" where
  "subInfos modelNamespace modelName allSubs =
     List.map_filter (\<lambda>sub. subInfoOf modelNamespace modelName sub (ssp_modelRefs (sub_spec sub))) allSubs"

definition subRef :: "ObjectMeta \<Rightarrow> string" where
  "subRef m = om_namespace m @ ''/'' @ om_name m"

definition modelScopedRef :: "ObjectMeta \<Rightarrow> string \<Rightarrow> string \<Rightarrow> string" where
  "modelScopedRef m modelNamespace modelName = subRef m @ ''@'' @ modelNamespace @ ''/'' @ modelName"

text \<open>\<open>strings.ReplaceAll(subRef, "/", "-")\<close> and the key of a limit.\<close>

definition safeKey :: "ObjectMeta \<Rightarrow> string" where
  "safeKey m = map (\<lambda>ch. if ch = CHR ''/'' then CHR ''-'' else ch) (subRef m)"

definition limitKey :: "ObjectMeta \<Rightarrow> string \<Rightarrow> string" where
  "limitKey m modelName = safeKey m @ ''-'' @ modelName @ ''-tokens''"

definition limitPredicate :: "string \<Rightarrow> string" where
  "limitPredicate scoped =
     ''auth.identity.selected_subscription_key == '' @ [CHR 0x22] @ scoped @ [CHR 0x22] @
     '' && !request.path.endsWith('' @ [CHR 0x22] @ ''/v1/models'' @ [CHR 0x22] @ '')''"

definition limitEntry :: "subInfo \<Rightarrow> goany" where
  "limitEntry si =
     GMap [(''rates'', GSlice (si_rates si)),
           (''when'', GSlice [GMap [(''predicate'', GStr (limitPredicate
              (modelScopedRef (sub_meta (si_sub si)) (msr_namespace (si_mRef si)) (msr_name (si_mRef si)))))]]),
           (''counters'', GSlice [GMap [(''expression'', GStr ''auth.identity.userid'')]])]"

definition limitsMap :: "subInfo list \<Rightarrow> gomap" where
  "limitsMap subs =
     sort_key fst (foldl (\<lambda>m si. AList.update (limitKey (sub_meta (si_sub si)) (msr_name (si_mRef si))) (limitEntry si) m)
       [] subs)"

definition trlpSpec :: "string \<Rightarrow> subInfo list \<Rightarrow> gomap" where
  "trlpSpec httpRouteName subs =
     [(''targetRef'', GMap [(''group'', GStr ''gateway.networking.k8s.io''), (''kind'', GStr ''HTTPRoute''),
                           (''name'', GStr httpRouteName)]),
      (''limits'', GMap (limitsMap subs))]"

definition trlpLabels :: "string \<Rightarrow> string \<Rightarrow> (string \<times> string) list" where
  "trlpLabels modelNamespace modelName =
     trlpModelLabels modelNamespace modelName @ [(''app.kubernetes.io/component'', ''token-rate-limit-policy'')]"

definition trlpAnnotations :: "subInfo list \<Rightarrow> (string \<times> string) list" where
  "trlpAnnotations subs =
     [(''maas.opendatahub.io/subscriptions'', joinStrings '','' (sort (map (\<lambda>si. om_name (sub_meta (si_sub si))) subs)))]"

text \<open>The last part of \<open>reconcileTRLPForModel\<close>: create the policy or bring the existing one in step.\<close>

definition applyTRLP ::
  "'c client \<Rightarrow> HTTPRoute \<Rightarrow> string \<Rightarrow> string \<Rightarrow> policy \<Rightarrow> ('c, unit) call" where
  "applyTRLP k route modelNamespace modelName desired =
     (let owner = (''HTTPRoute'', nsnOf (rt_meta route)); key = nsnOf (gp_meta desired)
      in case lib_setControllerReference k owner (gp_owner desired) of
           Inl err \<Rightarrow> fail (Wrap (''failed to set owner reference on TokenRateLimitPolicy '' @ fst key @ ''/'' @ snd key @ '': '') err [])
         | Inr ow \<Rightarrow>
             let pol = desired\<lparr>gp_owner := ow\<rparr>
             in attempt (cl_getPolicy k TokenRateLimitPolicyKind key)
                  (\<lambda>r. case r of
                     Inl err \<Rightarrow>
                       if isNotFound err
                       then wrapErr (''failed to create TokenRateLimitPolicy for model '' @ modelName @ '': '')
                              (cl_createPolicy k TokenRateLimitPolicyKind pol)
                       else fail (Wrap ''failed to get existing TokenRateLimitPolicy: '' err [])
                   | Inr existing \<Rightarrow>
                       if \<not> isManaged (gp_meta existing) then ret ()
                       else
                         (case lib_setControllerReference k owner (gp_owner existing) of
                            Inl err \<Rightarrow> fail (Wrap (''failed to set owner reference on existing TokenRateLimitPolicy '' @
                                           fst key @ ''/'' @ snd key @ '': '') err [])
                          | Inr ow2 \<Rightarrow>
                              let snapshot = existing\<lparr>gp_owner := ow2\<rparr>; updated = mergePolicy snapshot pol
                              in if lib_equalPolicy k snapshot updated then ret ()
                                 else wrapErr (''failed to update TokenRateLimitPolicy for model '' @
                                        modelNamespace @ ''/'' @ modelName @ '': '')
                                        (cl_updatePolicy k TokenRateLimitPolicyKind updated))))"

definition desiredTRLP :: "string \<Rightarrow> string \<Rightarrow> string \<Rightarrow> string \<Rightarrow> subInfo list \<Rightarrow> policy" where
  "desiredTRLP modelNamespace modelName httpRouteName httpRouteNS subs =
     \<lparr>gp_meta = newMeta (trlpName modelName) httpRouteNS (trlpLabels modelNamespace modelName) (trlpAnnotations subs),
      gp_owner = None, gp_spec = trlpSpec httpRouteName subs, gp_status = None\<rparr>"

text \<open>From the check for remaining subscriptions on.\<close>

definition buildTRLP ::
  "'c client \<Rightarrow> string \<Rightarrow> string \<Rightarrow> string \<Rightarrow> string \<Rightarrow> MaaSSubscription list \<Rightarrow> ('c, unit) call" where
  "buildTRLP k modelNamespace modelName httpRouteName httpRouteNS allSubs =
     (if allSubs = []
      then wrapErr (''failed to delete TokenRateLimitPolicy for model '' @ modelNamespace @ ''/'' @ modelName @ '': '')
             (deleteModelTRLP k modelNamespace modelName)
      else
        bnd (wrapErr (''failed to fetch HTTPRoute '' @ httpRouteNS @ ''/'' @ httpRouteName @ '': '')
               (cl_getRoute k (httpRouteNS, httpRouteName)))
          (\<lambda>route.
             let subs = subInfos modelNamespace modelName allSubs
             in if subs = [] \<and> length allSubs > 0 then deleteModelTRLP k modelNamespace modelName
                else applyTRLP k route modelNamespace modelName
                       (desiredTRLP modelNamespace modelName httpRouteName httpRouteNS subs)))"

definition reconcileTRLPForModel :: "'c client \<Rightarrow> string \<Rightarrow> string \<Rightarrow> ('c, unit) call" where
  "reconcileTRLPForModel k modelNamespace modelName =
     (let modelKey = modelNamespace @ ''/'' @ modelName
      in bnd (wrapErr (''failed to list subscriptions for model '' @ modelKey @ '': '')
                (findAllSubscriptionsForModel k modelNamespace modelName))
           (\<lambda>allSubs.
              attempt (findHTTPRouteForModel k modelNamespace modelName)
                (\<lambda>r. case r of
                   Inl err \<Rightarrow>
                     if errIs err ErrModelNotFound \<or> allSubs = []
                     then wrapErr (''failed to clean up TokenRateLimitPolicy for missing model '' @ modelKey @ '': '')
                            (deleteModelTRLP k modelNamespace modelName)
                     else if errIs err ErrHTTPRouteNotFound then ret ()
                     else fail (Wrap (''failed to resolve HTTPRoute for model '' @ modelKey @ '': '') err [])
                 | Inr (httpRouteName, httpRouteNS) \<Rightarrow>
                     attempt (cl_getPolicy k TokenRateLimitPolicyKind (httpRouteNS, trlpName modelName))
                       (\<lambda>r2. case r2 of
                          Inr existingCheck \<Rightarrow>
                            if \<not> isManaged (gp_meta existingCheck) then ret ()
                            else buildTRLP k modelNamespace modelName httpRouteName httpRouteNS allSubs
                        | Inl err \<Rightarrow>
                            if \<not> isNotFound err
                            then fail (Wrap ''failed to check existing TokenRateLimitPolicy: '' err [])
                            else buildTRLP k modelNamespace modelName httpRouteName httpRouteNS allSubs))))"

definition staleTRLP :: "MaaSSubscription \<Rightarrow> policy \<Rightarrow> bool" where
  "staleTRLP subscription trlp =
     (let modelName = strMapIndex (om_labels (gp_meta trlp)) ''maas.opendatahub.io/model'';
          modelKey = om_namespace (gp_meta trlp) @ ''/'' @ modelName
      in modelName \<noteq> [] \<and>
         \<not> List.member (map modelKeyOf (ssp_modelRefs (sub_spec subscription))) modelKey \<and>
         List.member (goSplit (CHR '','') (strMapIndex (om_annotations (gp_meta trlp)) ''maas.opendatahub.io/subscriptions''))
           (om_name (sub_meta subscription)))"

definition cleanupStaleTRLPs :: "'c client \<Rightarrow> MaaSSubscription \<Rightarrow> ('c, unit) call" where
  "cleanupStaleTRLPs k subscription =
     attempt (cl_listPolicies k TokenRateLimitPolicyKind
                \<lparr>lo_namespace = None,
                 lo_labels = [(''app.kubernetes.io/managed-by'', ''maas-controller''),
                              (''app.kubernetes.io/part-of'', ''maas-subscription'')]\<rparr>)
       (\<lambda>r. case r of
          Inl err \<Rightarrow> if isNotFound err \<or> isNoMatchError err then ret ()
                      else fail (Wrap ''failed to list managed TokenRateLimitPolicies for stale cleanup: '' err [])
        | Inr items \<Rightarrow>
            forE (\<lambda>trlp.
                    if \<not> staleTRLP subscription trlp then ret ()
                    else
                      let modelName = strMapIndex (om_labels (gp_meta trlp)) ''maas.opendatahub.io/model''
                      in wrapErr (''failed to clean up stale TokenRateLimitPolicy for removed model '' @
                             om_namespace (gp_meta trlp) @ ''/'' @ modelName @ '': '')
                           (deleteModelTRLP k (om_namespace (gp_meta trlp)) modelName)) items)"

definition reconcileTokenRateLimitPolicies :: "'c client \<Rightarrow> MaaSSubscription \<Rightarrow> ('c, unit) call" where
  "reconcileTokenRateLimitPolicies k subscription =
     bnd (forE (\<lambda>ref. reconcileTRLPForModel k (msr_namespace ref) (msr_name ref))
            (unseen [] (ssp_modelRefs (sub_spec subscription))))
       (\<lambda>_. cleanupStaleTRLPs k subscription)"

section \<open>Reconcile\<close>

definition handleDeletion :: "'c client \<Rightarrow> MaaSSubscription \<Rightarrow> ('c, unit) call" where
  "handleDeletion k subscription =
     (if hasFinalizer maasSubscriptionFinalizer (sub_meta subscription)
      then bnd (forE (\<lambda>ref. reconcileTRLPForModel k (msr_namespace ref) (msr_name ref))
                 (unseen [] (ssp_modelRefs (sub_spec subscription))))
             (\<lambda>_. bnd (cleanupStaleTRLPs k subscription)
               (\<lambda>_. cl_updateSub k (subscription\<lparr>sub_meta := removeFinalizer maasSubscriptionFinalizer (sub_meta subscription)\<rparr>)))
      else ret ())"

text \<open>Back-propagation of \<open>BackendNotReady\<close> into the model statuses; a later entry of a Go map
  assignment wins.\<close>

definition backendNotReady :: "TokenRateLimitStatus list \<Rightarrow> string \<Rightarrow> string option" where
  "backendNotReady trlpStatuses key =
     map_option rs_message (find (\<lambda>ts. rs_reason ts = ReasonBackendNotReady \<and> rs_namespace ts @ ''/'' @ trs_model ts = key)
       (rev trlpStatuses))"

definition correctStatus :: "TokenRateLimitStatus list \<Rightarrow> ResourceRefStatus \<Rightarrow> ResourceRefStatus" where
  "correctStatus trlpStatuses ms =
     (if rs_ready ms then
        (case backendNotReady trlpStatuses (rs_namespace ms @ ''/'' @ rs_name ms) of
           Some msg \<Rightarrow> ms\<lparr>rs_ready := False, rs_reason := ReasonNotFound, rs_message := msg\<rparr>
         | None \<Rightarrow> ms)
      else ms)"

text \<open>From the TRLP health check to the end of \<open>Reconcile\<close>.\<close>

definition finishReconcile ::
  "'c client \<Rightarrow> MaaSSubscription \<Rightarrow> ResourceRefStatus list \<Rightarrow> MaaSSubscriptionStatus \<Rightarrow> ('c, unit) call" where
  "finishReconcile k subscription modelStatuses statusSnapshot =
     bnd (checkTokenRateLimitHealth k subscription)
       (\<lambda>trlpStatuses.
          let modelStatuses1 = map (correctStatus trlpStatuses) modelStatuses;
              subscription1 = subscription\<lparr>sub_status := (sub_status subscription)
                 \<lparr>sst_modelRefStatuses := modelStatuses1, sst_tokenRateLimitStatuses := trlpStatuses\<rparr>\<rparr>;
              (phase, message) = deriveFinalPhase modelStatuses1 trlpStatuses
          in updateStatus k subscription1 phase message statusSnapshot)"

definition reconcileLive :: "'c client \<Rightarrow> MaaSSubscription \<Rightarrow> ('c, unit) call" where
  "reconcileLive k subscription =
     (let statusSnapshot = sub_status subscription
      in bnd (validateModelRefs k subscription)
           (\<lambda>modelStatuses.
              let subscription1 = subscription\<lparr>sub_status := (sub_status subscription)\<lparr>sst_modelRefStatuses := modelStatuses\<rparr>\<rparr>
              in if list_ex rs_ready modelStatuses
                 then attempt (reconcileTokenRateLimitPolicies k subscription1)
                   (\<lambda>r. case r of
                      Inl err \<Rightarrow>
                        bnd (updateStatus k subscription1 PhaseFailed
                               (''failed to reconcile TokenRateLimitPolicies: '' @ errText err) statusSnapshot)
                          (\<lambda>_. fail err)
                    | Inr _ \<Rightarrow> finishReconcile k subscription1 modelStatuses statusSnapshot)
                 else attempt (cleanupStaleTRLPs k subscription1)
                   (\<lambda>r. case r of
                      Inl err \<Rightarrow>
                        bnd (updateStatus k subscription1 PhaseFailed
                               (''failed to clean up stale TokenRateLimitPolicies: '' @ errText err) statusSnapshot)
                          (\<lambda>_. fail err)
                    | Inr _ \<Rightarrow> finishReconcile k subscription1 modelStatuses statusSnapshot)))"

definition Reconcile :: "'c client \<Rightarrow> nsn \<Rightarrow> ('c, unit) call" where
  "Reconcile k req =
     attempt (cl_getSub k req)
       (\<lambda>r. case r of
          Inl err \<Rightarrow> if isNotFound err then ret () else fail err
        | Inr subscription \<Rightarrow>
            if om_deleting (sub_meta subscription) then handleDeletion k subscription
            else if \<not> hasFinalizer maasSubscriptionFinalizer (sub_meta subscription)
            then let subscription1 = subscription\<lparr>sub_meta := addFinalizer maasSubscriptionFinalizer (sub_meta subscription)\<rparr>
                 in bnd (cl_updateSub k subscription1) (\<lambda>_. reconcileLive k subscription1)
            else reconcileLive k subscription)"

section \<open>Duplicate priorities\<close>

definition conditionsSemanticallyEqual :: "Condition option \<Rightarrow> Condition option \<Rightarrow> bool" where
  "conditionsSemanticallyEqual a b =
     (case (a, b) of
        (None, None) \<Rightarrow> True
      | (Some x, Some y) \<Rightarrow>
          cd_type x = cd_type y \<and> cd_status x = cd_status y \<and> cd_reason x = cd_reason y \<and>
          cd_message x = cd_message y \<and> cd_observedGeneration x = cd_observedGeneration y
      | _ \<Rightarrow> False)"

definition byPriority :: "MaaSSubscription list \<Rightarrow> int \<Rightarrow> string list" where
  "byPriority live p = sort (map (\<lambda>s. subRef (sub_meta s)) (filter (\<lambda>s. ssp_priority (sub_spec s) = p) live))"

definition priorityPeers :: "MaaSSubscription list \<Rightarrow> MaaSSubscription \<Rightarrow> string list" where
  "priorityPeers live s = filter (\<lambda>key. key \<noteq> subRef (sub_meta s)) (byPriority live (ssp_priority (sub_spec s)))"

definition duplicateCondition :: "int \<Rightarrow> string list \<Rightarrow> int \<Rightarrow> Condition" where
  "duplicateCondition p peers gen =
     (if length peers = 0
      then \<lparr>cd_type = ConditionSpecPriorityDuplicate, cd_status = ''False'', cd_reason = ''NoDuplicatePeers'',
            cd_message = [], cd_observedGeneration = gen\<rparr>
      else \<lparr>cd_type = ConditionSpecPriorityDuplicate, cd_status = ''True'', cd_reason = ''SharedPriority'',
            cd_message = ''spec.priority '' @ showInt p @ '' is shared with: '' @ joinStrings '', '' peers,
            cd_observedGeneration = gen\<rparr>)"

text \<open>One round of the second loop; every error is logged and skipped.\<close>

definition markDuplicate :: "'c client \<Rightarrow> MaaSSubscription list \<Rightarrow> MaaSSubscription \<Rightarrow> ('c, unit) call" where
  "markDuplicate k live s =
     attempt (cl_getSub k (nsnOf (sub_meta s)))
       (\<lambda>r. case r of
          Inl _ \<Rightarrow> ret ()
        | Inr latest \<Rightarrow>
            if om_deleting (sub_meta latest) then ret ()
            else
              let desired = duplicateCondition (ssp_priority (sub_spec s)) (priorityPeers live s)
                              (om_generation (sub_meta latest));
                  conds = sst_conditions (sub_status latest);
                  cur = lib_findStatusCondition k conds ConditionSpecPriorityDuplicate
              in if conditionsSemanticallyEqual cur (Some desired) then ret ()
                 else attempt (cl_statusSub k (latest\<lparr>sub_status := (sub_status latest)
                             \<lparr>sst_conditions := lib_setStatusCondition k conds desired\<rparr>\<rparr>)) (\<lambda>_. ret ()))"

definition scanForDuplicatePriority :: "'c client \<Rightarrow> ('c, unit) call" where
  "scanForDuplicatePriority k =
     attempt (cl_listSubs k None)
       (\<lambda>r. case r of
          Inl _ \<Rightarrow> ret ()
        | Inr items \<Rightarrow>
            let live = filter (\<lambda>s. \<not> om_deleting (sub_meta s)) items
            in forE (markDuplicate k live) live)"

definition duplicatePriorityScan_Update :: "MaaSSubscription \<Rightarrow> MaaSSubscription \<Rightarrow> bool" where
  "duplicatePriorityScan_Update oldSub newSub = (ssp_priority (sub_spec oldSub) \<noteq> ssp_priority (sub_spec newSub))"

section \<open>Watches\<close>

definition mapGeneratedTRLPToParent :: "'c client \<Rightarrow> ObjectMeta \<Rightarrow> ('c, nsn list) call" where
  "mapGeneratedTRLPToParent k obj =
     (let labels = om_labels obj; modelName = strMapIndex labels ''maas.opendatahub.io/model''
      in if strMapIndex labels ''app.kubernetes.io/managed-by'' \<noteq> ''maas-controller'' then ret []
         else if modelName = [] then ret []
         else bnd (findAnySubscriptionForModel k (om_namespace obj) modelName)
                (\<lambda>sub. case sub of None \<Rightarrow> ret [] | Some s \<Rightarrow> ret [nsnOf (sub_meta s)]))"

definition mapMaaSModelRefToMaaSSubscriptions :: "'c client \<Rightarrow> MaaSModelRef \<Rightarrow> ('c, nsn list) call" where
  "mapMaaSModelRefToMaaSSubscriptions k model =
     attempt (cl_listSubs k (Some (subRef (mod_meta model))))
       (\<lambda>r. case r of
          Inl _ \<Rightarrow> ret []
        | Inr items \<Rightarrow> ret (rev (remdups (rev (map (\<lambda>s. nsnOf (sub_meta s)) items)))))"

text \<open>The keys of all subscriptions of the listed models; a model whose lookup fails is skipped.\<close>

primrec subscriptionsOfModels :: "'c client \<Rightarrow> MaaSModelRef list \<Rightarrow> ('c, nsn list) call" where
  "subscriptionsOfModels k [] = ret []"
| "subscriptionsOfModels k (m # ms) =
     attempt (cl_listSubs k (Some (subRef (mod_meta m))))
       (\<lambda>r. bnd (subscriptionsOfModels k ms)
          (\<lambda>keys. ret ((case r of Inl _ \<Rightarrow> [] | Inr items \<Rightarrow> map (\<lambda>s. nsnOf (sub_meta s)) items) @ keys)))"

definition mapHTTPRouteToMaaSSubscriptions :: "'c client \<Rightarrow> HTTPRoute \<Rightarrow> ('c, nsn list) call" where
  "mapHTTPRouteToMaaSSubscriptions k route =
     attempt (cl_listModels k (Some (om_namespace (rt_meta route))) None)
       (\<lambda>r. case r of
          Inl _ \<Rightarrow> ret []
        | Inr models \<Rightarrow>
            if models = [] then ret []
            else bnd (subscriptionsOfModels k models) (\<lambda>keys. ret (rev (remdups (rev keys)))))"

section \<open>Lemmas on limits\<close>

lemma windowPattern_iff:
  "windowPattern w = Some u \<longleftrightarrow>
     (\<exists>d ds. w = d # ds @ [u] \<and> u \<in> {CHR ''s'', CHR ''m'', CHR ''h''} \<and> isDigit d \<and> d \<noteq> CHR ''0'' \<and>
        list_all isDigit ds \<and> length ds \<le> 3)"
proof (cases w rule: rev_cases)
  case (snoc ys y)
  then show ?thesis by (cases ys) (auto simp: windowPattern_def)
qed (simp add: windowPattern_def)

text \<open>A string of at most four digits reads as a number below ten thousand.\<close>

definition digitsValue :: "string \<Rightarrow> int" where
  "digitsValue s = foldl (\<lambda>n ch. n * 10 + (of_char ch - 48)) 0 s"

lemma isDigit_value:
  assumes "isDigit ch"
  shows "0 \<le> (of_char ch - 48 :: int)" and "(of_char ch - 48 :: int) \<le> 9"
proof -
  have n: "48 \<le> (of_char ch :: nat)" "(of_char ch :: nat) \<le> 57"
    using assms by (simp_all add: isDigit_def less_eq_char_def)
  have "(of_char ch :: int) = int (of_char ch)" by (simp only: of_nat_of_char)
  with n show "0 \<le> (of_char ch - 48 :: int)" "(of_char ch - 48 :: int) \<le> 9" by linarith+
qed

lemma foldl_digits_bound:
  assumes "list_all isDigit s" "0 \<le> n" "n < N"
  shows "0 \<le> foldl (\<lambda>n ch. n * 10 + (of_char ch - 48)) n s \<and>
    foldl (\<lambda>n ch. n * 10 + (of_char ch - 48)) n s < (N :: int) * 10 ^ length s"
  using assms
proof (induction s arbitrary: n N)
  case (Cons ch s)
  have "0 \<le> n * 10 + (of_char ch - 48)" "n * 10 + (of_char ch - 48) < N * 10"
    using Cons.prems isDigit_value [of ch] by auto
  with Cons.IH [of "n * 10 + (of_char ch - 48)" "N * 10"] Cons.prems show ?case by (simp add: mult.assoc)
qed simp

lemma digitsValue_bound:
  assumes "list_all isDigit s" "length s \<le> 4"
  shows "0 \<le> digitsValue s" "digitsValue s < 10000"
proof -
  have "(10 :: int) ^ length s \<le> 10 ^ 4" using assms(2) by (intro power_increasing) simp_all
  with foldl_digits_bound [OF assms(1), of 0 1] show "0 \<le> digitsValue s" "digitsValue s < 10000"
    unfolding digitsValue_def by simp_all
qed

definition unitSeconds :: "char \<Rightarrow> int" where
  "unitSeconds u = (if u = CHR ''s'' then 1 else if u = CHR ''m'' then 60 else 3600)"

lemma parseInt_digits:
  assumes "list_all isDigit s" "s \<noteq> []" "length s \<le> 4"
  shows "parseInt s = Some (digitsValue s)"
  using assms digitsValue_bound [OF assms(1,3)] by (simp add: parseInt_def parseUint_def digitsValue_def)

lemma int64_small: "0 \<le> x \<Longrightarrow> x < 2 ^ 63 \<Longrightarrow> int64 x = x"
  by (simp add: int64_def)

text \<open>C33: the admission check for rate limits. A limit and window pass \<open>validateTokenRateLimit\<close> exactly
  when the limit is between one and one billion and the window is a number of one to four digits
  without leading zero and a unit, and spans at most 366 days; the 64-bit product of number and unit
  never wraps.\<close>

theorem validateTokenRateLimit_iff:
  "validateTokenRateLimit limit window = None \<longleftrightarrow>
     0 < limit \<and> limit \<le> 1000000000 \<and>
     (\<exists>num u. window = num @ [u] \<and> u \<in> {CHR ''s'', CHR ''m'', CHR ''h''} \<and> list_all isDigit num \<and>
        1 \<le> length num \<and> length num \<le> 4 \<and> hd num \<noteq> CHR ''0'' \<and>
        digitsValue num * unitSeconds u \<le> 366 * 24 * 3600)"
proof (cases "windowPattern window")
  case None
  have "\<not> (\<exists>num u. window = num @ [u] \<and> u \<in> {CHR ''s'', CHR ''m'', CHR ''h''} \<and> list_all isDigit num \<and>
        1 \<le> length num \<and> length num \<le> 4 \<and> hd num \<noteq> CHR ''0'')"
  proof clarify
    fix num u assume h: "window = num @ [u]" "u \<in> {CHR ''s'', CHR ''m'', CHR ''h''}" "list_all isDigit num"
      "1 \<le> length num" "length num \<le> 4" "hd num \<noteq> CHR ''0''"
    then obtain d ds where "num = d # ds" by (cases num) auto
    with h have "windowPattern window = Some u" unfolding windowPattern_iff by auto
    with None show False by simp
  qed
  with None show ?thesis by (auto simp: validateTokenRateLimit_def)
next
  case (Some u)
  then obtain d ds where w: "window = d # ds @ [u]" "u \<in> {CHR ''s'', CHR ''m'', CHR ''h''}" "isDigit d"
    "d \<noteq> CHR ''0''" "list_all isDigit ds" "length ds \<le> 3" unfolding windowPattern_iff by auto
  let ?n = "digitsValue (d # ds)"
  have n: "parseInt (d # ds) = Some ?n" "0 \<le> ?n" "?n < 10000"
    using parseInt_digits [of "d # ds"] digitsValue_bound [of "d # ds"] w by simp_all
  have small: "int64 (?n * 60) = ?n * 60" "int64 (?n * 3600) = ?n * 3600"
    using n(2,3) by (intro int64_small; simp)+
  have num: "take (length window - 1) window = d # ds" using w(1) by simp
  have "validateTokenRateLimit limit window = None \<longleftrightarrow>
     0 < limit \<and> limit \<le> 1000000000 \<and> ?n * unitSeconds u \<le> 366 * 24 * 3600"
    using w(2) n small unfolding validateTokenRateLimit_def Some num
    by (auto simp: Let_def unitSeconds_def maxTokenRateLimit_def maxWindowSeconds_def)
  moreover have "(\<exists>num u. window = num @ [u] \<and> u \<in> {CHR ''s'', CHR ''m'', CHR ''h''} \<and> list_all isDigit num \<and>
        1 \<le> length num \<and> length num \<le> 4 \<and> hd num \<noteq> CHR ''0'' \<and>
        digitsValue num * unitSeconds u \<le> 366 * 24 * 3600) \<longleftrightarrow> ?n * unitSeconds u \<le> 366 * 24 * 3600"
    using w by (auto intro!: exI [of _ "d # ds"])
  ultimately show ?thesis by (simp only:)
qed

section \<open>Protected policies\<close>

lemma trlpName_prefix: "hasPrefix (trlpName n) (genPrefix TokenRateLimitPolicyKind)"
  by (simp add: trlpName_def hasPrefix_def)

context api_server
begin

lemma deleteModelTRLP_keeps: "keeps (\<lambda>c. protectedKept ps0 (w_policies (view c))) (deleteModelTRLP k ns n)"
  unfolding deleteModelTRLP_def
proof (rule list_then_keeps)
  fix xs :: "policy list"
  assume "\<And>p. p \<in> set xs \<Longrightarrow> isManaged (gp_meta p) \<Longrightarrow> free ps0 TokenRateLimitPolicyKind (nsnOf (gp_meta p))"
  then show "keeps (\<lambda>c. protectedKept ps0 (w_policies (view c)))
      (case Inr xs of Inl err \<Rightarrow> if isNotFound err \<or> isNoMatchError err then ret ()
          else fail (Wrap ''failed to list TokenRateLimitPolicy for cleanup: '' err [])
       | Inr items \<Rightarrow> forE (deleteListed k TokenRateLimitPolicyKind ''failed to delete TokenRateLimitPolicy '') items)"
    by (auto intro!: keeps_forE deleteListed_keeps)
qed (auto simp: trlpModelLabels_def intro!: keeps_rules)

lemma cleanupStaleTRLPs_keeps: "keeps (\<lambda>c. protectedKept ps0 (w_policies (view c))) (cleanupStaleTRLPs k s)"
  unfolding cleanupStaleTRLPs_def
  by (intro keeps_rules deleteModelTRLP_keeps read_keeps_policies)+

lemma applyTRLP_keeps:
  assumes "gp_meta desired = newMeta (trlpName n) ns' ls as"
  shows "keeps (\<lambda>c. protectedKept ps0 (w_policies (view c))) (applyTRLP k route ns n desired)"
proof -
  have key: "hasPrefix (snd (nsnOf (gp_meta desired))) (genPrefix TokenRateLimitPolicyKind)"
    using trlpName_prefix [of n] by (simp add: assms nsnOf_def newMeta_def)
  show ?thesis
    unfolding applyTRLP_def
    by (intro stays_Let stays_sum keeps_ret_fail get_then_keeps)
      (use key in \<open>auto simp: isNotFound_def intro!: keeps_rules put_keeps\<close>)
qed

lemma buildTRLP_keeps: "keeps (\<lambda>c. protectedKept ps0 (w_policies (view c))) (buildTRLP k ns n rn rns subs)"
  unfolding buildTRLP_def
  by (intro keeps_rules deleteModelTRLP_keeps read_keeps_policies applyTRLP_keeps [where as = "trlpAnnotations _"])
    (simp add: desiredTRLP_def)

lemma reconcileTRLPForModel_keeps:
  "keeps (\<lambda>c. protectedKept ps0 (w_policies (view c))) (reconcileTRLPForModel k ns n)"
  unfolding reconcileTRLPForModel_def
  by (intro keeps_rules lookup_keeps_policies read_keeps_policies deleteModelTRLP_keeps buildTRLP_keeps)+

lemma updateStatus_keeps: "keeps (\<lambda>c. protectedKept ps0 (w_policies (view c))) (updateStatus k s ph msg snap)"
  unfolding updateStatus_def Let_def
  by (intro keeps_rules read_keeps_policies own_writes_keep_policies)+

lemma finishReconcile_keeps: "keeps (\<lambda>c. protectedKept ps0 (w_policies (view c))) (finishReconcile k s ms snap)"
  unfolding finishReconcile_def checkTokenRateLimitHealth_def checkTRLP_def Let_def
  by (intro keeps_rules read_keeps_policies lookup_keeps_policies updateStatus_keeps)+

lemma reconcileLive_keeps: "keeps (\<lambda>c. protectedKept ps0 (w_policies (view c))) (reconcileLive k s)"
  unfolding reconcileLive_def validateModelRefs_def validateModelRef_def reconcileTokenRateLimitPolicies_def Let_def
  by (intro keeps_rules read_keeps_policies reconcileTRLPForModel_keeps cleanupStaleTRLPs_keeps
      updateStatus_keeps finishReconcile_keeps)+

lemma scanForDuplicatePriority_keeps:
  "keeps (\<lambda>c. protectedKept ps0 (w_policies (view c))) (scanForDuplicatePriority k)"
  unfolding scanForDuplicatePriority_def markDuplicate_def
  by (intro keeps_rules read_keeps_policies own_writes_keep_policies)+

lemma Reconcile_sub_keeps: "keeps (\<lambda>c. protectedKept ps0 (w_policies (view c))) (Reconcile k req)"
  unfolding Reconcile_def handleDeletion_def Let_def
  by (intro keeps_rules read_keeps_policies own_writes_keep_policies reconcileTRLPForModel_keeps
      cleanupStaleTRLPs_keeps reconcileLive_keeps)+

end

end
