(* ===== verification/Sample_Cluster.thy ===== *)
theory Sample_Cluster
  imports Generated_Policies
begin

text \<open>
  Small objects and a small cluster, for the witnesses of the theorems about the controllers and for
  concrete runs on \<open>std_client\<close>.
\<close>

section \<open>Sample objects\<close>

definition sampleMeta :: "string \<Rightarrow> string \<Rightarrow> ObjectMeta" where
  "sampleMeta ns name = newMeta name ns [] []"

definition sampleModel :: "string \<Rightarrow> string \<Rightarrow> MaaSModelRef" where
  "sampleModel ns name =
     \<lparr>mod_meta = sampleMeta ns name,
      mod_spec = \<lparr>msp_modelRef = \<lparr>mr_kind = ''ExternalModel'', mr_name = name\<rparr>, msp_endpointOverride = []\<rparr>,
      mod_status = \<lparr>mst_phase = [], mst_endpoint = [], mst_httpRouteName = [], mst_httpRouteNamespace = [],
        mst_httpRouteGatewayName = [], mst_httpRouteGatewayNamespace = [], mst_httpRouteHostnames = [], mst_conditions = []\<rparr>\<rparr>"

definition sampleExternal :: "string \<Rightarrow> string \<Rightarrow> ExternalModel" where
  "sampleExternal ns name =
     \<lparr>ext_apiVersion = ''maas.opendatahub.io/v1alpha1'', ext_kind = ''ExternalModel'', ext_uid = ''7'',
      ext_meta = sampleMeta ns name, ext_provider = ''openai'', ext_targetModel = ''gpt'',
      ext_endpoint = ''api.openai.com'', ext_credentialRef = ''key''\<rparr>"

definition sampleRoute :: "string \<Rightarrow> string \<Rightarrow> HTTPRoute" where
  "sampleRoute ns name = \<lparr>rt_meta = sampleMeta ns name, rt_parentRefs = [], rt_hostnames = [], rt_parents = []\<rparr>"

definition sampleRef :: "string \<Rightarrow> string \<Rightarrow> (int \<times> string) list \<Rightarrow> ModelSubscriptionRef" where
  "sampleRef ns name rates =
     \<lparr>msr_name = name, msr_namespace = ns, msr_tokenRateLimits = map (\<lambda>(l, w). \<lparr>trl_limit = l, trl_window = w\<rparr>) rates\<rparr>"

definition sampleSub :: "string \<Rightarrow> int \<Rightarrow> ModelSubscriptionRef list \<Rightarrow> MaaSSubscription" where
  "sampleSub name priority refs =
     \<lparr>sub_meta = sampleMeta ''maas'' name,
      sub_spec = \<lparr>ssp_owner = \<lparr>own_groups = [''users''], own_users = []\<rparr>, ssp_modelRefs = refs, ssp_priority = priority\<rparr>,
      sub_status = \<lparr>sst_phase = [], sst_conditions = [], sst_modelRefStatuses = [], sst_tokenRateLimitStatuses = []\<rparr>\<rparr>"

definition sampleDb :: "MaaSSubscription list \<Rightarrow> (string \<times> string) list \<Rightarrow> db" where
  "sampleDb subs models =
     \<lparr>db_models = map (\<lambda>(ns, n). ((ns, n), sampleModel ns n)) models,
      db_subs = map (\<lambda>s. (nsnOf (sub_meta s), s)) subs, db_auths = [],
      db_routes = map (\<lambda>(ns, n). ((ns, n), sampleRoute ns n)) models,
      db_gateways = [], db_llms = [], db_externals = [], db_tenants = [], db_trlps = [], db_aps = [], db_down = False\<rparr>"

definition sampleAuth :: "string \<Rightarrow> string list \<Rightarrow> string list \<Rightarrow> (string \<times> string) list \<Rightarrow> MaaSAuthPolicy" where
  "sampleAuth name groups users models =
     \<lparr>ap_meta = sampleMeta ''maas'' name,
      ap_spec = \<lparr>asp_modelRefs = map (\<lambda>(ns, n). \<lparr>ref_name = n, ref_namespace = ns\<rparr>) models,
        asp_subjects = \<lparr>sj_groups = groups, sj_users = users\<rparr>\<rparr>,
      ap_status = \<lparr>ast_phase = [], ast_conditions = [], ast_authPolicies = []\<rparr>\<rparr>"

definition withAuths :: "MaaSAuthPolicy list \<Rightarrow> db \<Rightarrow> db" where
  "withAuths aps d = d\<lparr>db_auths := map (\<lambda>a. (nsnOf (ap_meta a), a)) aps\<rparr>"

definition withPolicies :: "policy_kind \<Rightarrow> policy list \<Rightarrow> db \<Rightarrow> db" where
  "withPolicies g ps d = setPolicies g (map (\<lambda>p. (nsnOf (gp_meta p), p)) ps) d"

lemma sampleDb_model:
  "tidy mod_meta (db_models (sampleDb subs [(ns, n)])) (ns, n) = Some (sampleModel ns n)"
  "tidy rt_meta (db_routes (sampleDb subs [(ns, n)])) (ns, n) = Some (sampleRoute ns n)"
  by (simp_all add: sampleDb_def tidy_def sampleModel_def sampleRoute_def sampleMeta_def newMeta_def nsnOf_def)

lemma routeNames_routes: "w_routes w = w_routes w' \<Longrightarrow> routeNames w m = routeNames w' m"
  by (simp add: routeNames_def cong: option.case_cong RouteResolver.case_cong)

lemma sampleDb_routeNames: "routeNames (db_view (sampleDb subs [(ns, n)])) (sampleModel ns n) = {n}"
  using sampleDb_model(2) [of subs ns n]
  by (auto simp: routeNames_def sampleModel_def sampleMeta_def newMeta_def GetRouteResolver_def)

end
