(* ===== verification/Subscription_Limits.thy ===== *)
theory Subscription_Limits
  imports Subscription_Controller Sample_Cluster
begin

text \<open>
  What the subscription reconciler achieves: the rate limits stored for a model, that a second run
  changes nothing, the clean-up, the phase it reports and the marking of duplicate priorities.
  The lemmas about runs are proved in the context of \<open>api_server\<close>, for states from which on no fault
  occurs; the theorems instantiate them. The sample cluster at the start serves the witnesses.
\<close>

section \<open>A sample cluster\<close>

definition acceptedStatus :: goany where
  "acceptedStatus = GMap [(''conditions'', GSlice [GMap [(''type'', GStr ''Accepted''), (''status'', GStr ''True'')]])]"

text \<open>Kuadrant accepts every stored policy.\<close>

definition acceptAll :: "db \<Rightarrow> db" where
  "acceptAll d = d\<lparr>db_trlps := map (\<lambda>(key, p). (key, p\<lparr>gp_status := Some acceptedStatus\<rparr>)) (db_trlps d)\<rparr>"

definition goldDb :: db where
  "goldDb = sampleDb [sampleSub ''gold'' 10 [sampleRef ''llm'' ''granite'' [(500, ''1m'')]],
     sampleSub ''bad'' 5 [sampleRef ''llm'' ''granite'' [(5, ''9999h'')]]] [(''llm'', ''granite'')]"

section \<open>The limits of a model\<close>

text \<open>The live subscriptions of a model, and what each of them contributes.\<close>

definition liveSubs :: "world \<Rightarrow> string \<Rightarrow> string \<Rightarrow> MaaSSubscription set" where
  "liveSubs w ns n = {s \<in> ran (w_subs w). \<not> om_deleting (sub_meta s) \<and> subListed (Some (ns @ ''/'' @ n)) s}"

definition liveInfos :: "world \<Rightarrow> string \<Rightarrow> string \<Rightarrow> subInfo set" where
  "liveInfos w ns n = {si. \<exists>s \<in> liveSubs w ns n. subInfoOf ns n s (ssp_modelRefs (sub_spec s)) = Some si}"

lemma subInfoOf_SomeD:
  "subInfoOf ns n s refs = Some si \<Longrightarrow>
   si_sub si = s \<and> msr_name (si_mRef si) = n \<and> msr_namespace (si_mRef si) = ns \<and> si_mRef si \<in> set refs"
  by (induction refs) (auto split: if_splits option.splits)

text \<open>The entry a subscription is meant to have: its rates, for requests that selected exactly this
  subscription for exactly this model, counted per user.\<close>

definition perUserLimit :: "MaaSSubscription \<Rightarrow> string \<Rightarrow> string \<Rightarrow> goany list \<Rightarrow> goany" where
  "perUserLimit s ns n rates =
     GMap [(''rates'', GSlice rates),
           (''when'', GSlice [GMap [(''predicate'', GStr (limitPredicate
              (om_namespace (sub_meta s) @ ''/'' @ om_name (sub_meta s) @ ''@'' @ ns @ ''/'' @ n)))]]),
           (''counters'', GSlice [GMap [(''expression'', GStr ''auth.identity.userid'')]])]"

lemma limitEntry_of: "subInfoOf ns n s refs = Some si \<Longrightarrow> limitEntry si = perUserLimit s ns n (si_rates si)"
  using subInfoOf_SomeD [of ns n s refs si] by (simp add: limitEntry_def perUserLimit_def modelScopedRef_def subRef_def)

lemma in_subInfos: "si \<in> set (subInfos ns n xs) \<longleftrightarrow> (\<exists>s \<in> set xs. subInfoOf ns n s (ssp_modelRefs (sub_spec s)) = Some si)"
  unfolding subInfos_def
proof (induction xs)
  case (Cons x xs)
  then show ?case by (cases "subInfoOf ns n x (ssp_modelRefs (sub_spec x))") (auto simp: map_filter_simps)
qed (simp add: map_filter_simps)

lemma set_subInfos: "set xs = liveSubs w ns n \<Longrightarrow> set (subInfos ns n xs) = liveInfos w ns n"
  by (auto simp: in_subInfos liveInfos_def)

lemma map_of_foldl_update:
  assumes "inj_on f (set xs)"
  shows "map_of (foldl (\<lambda>m x. AList.update (f x) (g x) m) [] xs) key = Some v \<longleftrightarrow>
    (\<exists>x \<in> set xs. f x = key \<and> g x = v)"
  using assms
proof (induction xs rule: rev_induct)
  case (snoc x xs)
  have IH: "map_of (foldl (\<lambda>m x. AList.update (f x) (g x) m) [] xs) key = Some v \<longleftrightarrow>
    (\<exists>x \<in> set xs. f x = key \<and> g x = v)" using snoc by (auto simp: inj_on_def)
  have "f y = f x \<Longrightarrow> y = x" if "y \<in> set xs" for y using snoc.prems that by (auto simp: inj_on_def)
  then show ?case by (auto simp: update_conv' IH split: if_splits)
qed simp

lemma distinct_foldl_update:
  "distinct (map fst m) \<Longrightarrow> distinct (map fst (foldl (\<lambda>m x. AList.update (f x) (g x) m) m xs))"
  by (induction xs arbitrary: m) (auto simp: distinct_update)

lemma map_of_sort_key: "distinct (map fst m) \<Longrightarrow> map_of (sort_key fst m) = map_of m"
  by (rule map_of_eqI) (auto simp: map_of_eq_Some_iff distinct_map intro: inj_on_subset)

definition infoKey :: "subInfo \<Rightarrow> string" where
  "infoKey si = limitKey (sub_meta (si_sub si)) (msr_name (si_mRef si))"

lemma infoKey_of: "subInfoOf ns n s refs = Some si \<Longrightarrow> infoKey si = limitKey (sub_meta s) n"
  using subInfoOf_SomeD [of ns n s refs si] by (simp add: infoKey_def)

lemma map_of_limitsMap:
  assumes "inj_on infoKey (set subs)"
  shows "map_of (limitsMap subs) key = Some v \<longleftrightarrow> (\<exists>si \<in> set subs. infoKey si = key \<and> limitEntry si = v)"
  unfolding limitsMap_def infoKey_def [symmetric]
  by (simp only: map_of_sort_key distinct_foldl_update list.map distinct.simps map_of_foldl_update [OF assms])

text \<open>The keys of one namespace's subscriptions differ.\<close>

lemma limitKey_inj:
  assumes "om_namespace m = om_namespace m'" "limitKey m n = limitKey m' n"
    "CHR ''/'' \<notin> set (om_name m)" "CHR ''/'' \<notin> set (om_name m')"
  shows "om_name m = om_name m'"
proof -
  have id: "map (\<lambda>ch. if ch = CHR ''/'' then CHR ''-'' else ch) xs = xs" if "CHR ''/'' \<notin> set xs" for xs
    using that by (induction xs) auto
  from assms show ?thesis by (simp add: limitKey_def safeKey_def subRef_def id)
qed

text \<open>The desired policy does not depend on the order in which the subscriptions are listed.\<close>

lemma distinct_subInfos: "distinct xs \<Longrightarrow> distinct (subInfos ns n xs)"
proof (induction xs)
  case (Cons x xs)
  show ?case
  proof (cases "subInfoOf ns n x (ssp_modelRefs (sub_spec x))")
    case (Some si)
    have "si \<notin> set (subInfos ns n xs)"
      using Cons.prems subInfoOf_SomeD [OF Some] by (auto simp: in_subInfos dest: subInfoOf_SomeD)
    with Cons Some show ?thesis by (simp add: subInfos_def map_filter_simps)
  qed (use Cons in \<open>simp add: subInfos_def map_filter_simps\<close>)
qed (simp add: subInfos_def map_filter_simps)

lemma set_eq_map_of:
  assumes "distinct (map fst a)" "distinct (map fst b)" "\<And>key v. map_of a key = Some v \<longleftrightarrow> map_of b key = Some v"
  shows "set a = set b"
proof (rule set_eqI)
  fix x show "x \<in> set a \<longleftrightarrow> x \<in> set b"
    using assms(3) [of "fst x" "snd x"] by (simp add: map_of_eq_Some_iff assms(1,2))
qed

lemma limitsMap_perm:
  assumes "set xs = set ys" "inj_on infoKey (set ys)"
  shows "limitsMap xs = limitsMap ys"
proof -
  let ?L = "\<lambda>xs. foldl (\<lambda>m si. AList.update (infoKey si) (limitEntry si) m) [] xs"
  have d: "distinct (map fst (?L zs))" for zs by (rule distinct_foldl_update) simp
  have "map_of (?L xs) key = Some v \<longleftrightarrow> map_of (?L ys) key = Some v" for key v
    using assms by (simp add: map_of_foldl_update)
  then have set: "set (?L xs) = set (?L ys)" by (rule set_eq_map_of [OF d d])
  have "inj_on fst (set (?L ys))" using d [of ys] by (simp add: distinct_map)
  then have "sort_key fst (?L xs) = sort_key fst (?L ys)"
    by (intro map_sorted_distinct_set_unique [of fst]) (use d set in \<open>simp_all add: distinct_map\<close>)
  then show ?thesis by (simp add: limitsMap_def infoKey_def)
qed

lemma trlpAnnotations_perm:
  assumes "set xs = set ys" "distinct xs" "distinct ys"
  shows "trlpAnnotations xs = trlpAnnotations ys"
proof -
  have "mset xs = mset ys" using assms by (simp add: set_eq_iff_mset_eq_distinct)
  then have "sort (map (\<lambda>si. om_name (sub_meta (si_sub si))) xs) = sort (map (\<lambda>si. om_name (sub_meta (si_sub si))) ys)"
    by (intro properties_for_sort) simp_all
  then show ?thesis by (simp add: trlpAnnotations_def)
qed

lemma desiredTRLP_perm:
  "set xs = set ys \<Longrightarrow> distinct xs \<Longrightarrow> distinct ys \<Longrightarrow> inj_on infoKey (set ys) \<Longrightarrow>
   desiredTRLP ns n rn rns xs = desiredTRLP ns n rn rns ys"
  using limitsMap_perm [of xs ys] trlpAnnotations_perm [of xs ys] by (simp add: desiredTRLP_def trlpSpec_def)

lemma desiredTRLP_meta:
  "nsnOf (gp_meta (desiredTRLP ns n rn rns subs)) = (rns, trlpName n)"
  "distinct (map fst (om_labels (gp_meta (desiredTRLP ns n rn rns subs))))"
  "distinct (map fst (om_annotations (gp_meta (desiredTRLP ns n rn rns subs))))"
  "ManagedByODHOperator \<notin> fst ` set (om_annotations (gp_meta (desiredTRLP ns n rn rns subs)))"
  "isManaged (gp_meta (desiredTRLP ns n rn rns subs))"
  "gp_owner (desiredTRLP ns n rn rns subs) = None"
  by (simp_all add: desiredTRLP_def newMeta_def nsnOf_def trlpLabels_def trlpModelLabels_def trlpAnnotations_def
      ManagedByODHOperator_def isManaged_def)

lemma gp_status_mergePolicy: "gp_status (mergePolicy p d) = gp_status p"
  by (simp add: mergePolicy_def)

text \<open>The labels of a policy in step name its model.\<close>

lemma inStep_labels:
  assumes "inStep (desiredTRLP ns n rn rns subs) p" "matchesLabels (trlpModelLabels ns' n') (gp_meta p)"
  shows "ns' = ns \<and> n' = n"
proof -
  let ?d = "desiredTRLP ns n rn rns subs"
  have "om_labels (gp_meta (mergePolicy p ?d)) = mergeMap (om_labels (gp_meta p)) (trlpLabels ns n)"
    by (simp add: mergePolicy_def desiredTRLP_def newMeta_def)
  moreover have "mergePolicy p ?d = p" using assms(1) by (simp add: inStep_def)
  ultimately have "om_labels (gp_meta p) = mergeMap (om_labels (gp_meta p)) (trlpLabels ns n)" by simp
  moreover have "map_of (mergeMap ls (trlpLabels ns n)) ''maas.opendatahub.io/model'' = Some n"
    "map_of (mergeMap ls (trlpLabels ns n)) ''maas.opendatahub.io/model-namespace'' = Some ns" for ls
    by (simp_all add: map_of_mergeMap trlpLabels_def trlpModelLabels_def)
  ultimately have "map_of (om_labels (gp_meta p)) ''maas.opendatahub.io/model'' = Some n"
    "map_of (om_labels (gp_meta p)) ''maas.opendatahub.io/model-namespace'' = Some ns" by metis+
  with assms(2) show ?thesis by (simp add: matchesLabels_def trlpModelLabels_def)
qed

text \<open>A stored policy that the reconciler may bring in step: managed, and not controlled by another
  object than the route.\<close>

definition adoptable :: "string \<times> nsn \<Rightarrow> policy \<Rightarrow> bool" where
  "adoptable owner p \<longleftrightarrow> isManaged (gp_meta p) \<and> (gp_owner p = None \<or> gp_owner p = Some owner)"

context api_server
begin

lemma findAllSubscriptions_healthy:
  assumes "healthy c"
  shows "\<exists>c' xs. findAllSubscriptionsForModel k ns n c = (c', Inr xs) \<and> healthy c' \<and> view c' = view c \<and>
    distinct xs \<and> set xs = liveSubs (view c) ns n"
proof -
  obtain c' xs where "healthy c'" "view c' = view c" "cl_listSubs k (Some (ns @ ''/'' @ n)) c = (c', Inr xs)"
    "distinct xs" "set xs = {x \<in> ran (w_subs (view c)). subListed (Some (ns @ ''/'' @ n)) x}"
    using lists_healthy [OF listSubs assms, of "Some (ns @ ''/'' @ n)"] by blast
  then show ?thesis
    by (auto simp: findAllSubscriptionsForModel_def Let_def run_rules liveSubs_def)
qed

lemma applyTRLP_healthy:
  fixes route :: HTTPRoute
  defines "owner \<equiv> (''HTTPRoute'', nsnOf (rt_meta route))"
  assumes "healthy c" "pred_option (adoptable owner) (w_policies (view c) TokenRateLimitPolicyKind (rns, trlpName n))"
    and d: "d = desiredTRLP ns n rn rns subs"
  shows "\<exists>c' p. applyTRLP k route ns n d c = (c', Inr ()) \<and> healthy c' \<and>
    view c' = putPolicy TokenRateLimitPolicyKind p (view c) \<and> nsnOf (gp_meta p) = (rns, trlpName n) \<and>
    inStep d p \<and> adoptable owner p \<and>
    (\<forall>p0. w_policies (view c) TokenRateLimitPolicyKind (rns, trlpName n) = Some p0 \<and> inStep d p0 \<longrightarrow> p = p0) \<and>
    (\<forall>p0. w_policies (view c) TokenRateLimitPolicyKind (rns, trlpName n) = Some p0 \<longrightarrow> gp_status p = gp_status p0)"
proof -
  let ?T = TokenRateLimitPolicyKind let ?key = "(rns, trlpName n)" let ?pol = "d\<lparr>gp_owner := Some owner\<rparr>"
  note dm = desiredTRLP_meta [of ns n rn rns subs, folded d]
  have ow: "lib_setControllerReference k owner (gp_owner d) = Inr (Some owner)"
    by (simp add: dm setControllerReference_none)
  obtain c1 where c1: "healthy c1" "view c1 = view c"
    "cl_getPolicy k ?T ?key c = (c1, case w_policies (view c) ?T ?key of None \<Rightarrow> Inl ApiNotFound | Some x \<Rightarrow> Inr x)"
    using reads_healthy [OF getPolicy assms(2), of ?T ?key] by blast
  show ?thesis
  proof (cases "w_policies (view c) ?T ?key")
    case None
    obtain c2 where "healthy c2" "view c2 = putPolicy ?T ?pol (view c1)" "cl_createPolicy k ?T ?pol c1 = (c2, Inr ())"
      using writes_healthy [OF createPolicy c1(1), of ?T ?pol] None c1(2) dm by auto
    with c1 None ow show ?thesis
      by (auto simp: applyTRLP_def Let_def run_rules isNotFound_def owner_def adoptable_def dm inStep_merge)
  next
    case (Some p0)
    have p0: "isManaged (gp_meta p0)" "gp_owner p0 = None \<or> gp_owner p0 = Some owner" "nsnOf (gp_meta p0) = ?key"
      using assms(3) Some stored_key(5) [OF Some] by (auto simp: adoptable_def)
    then have ow2: "lib_setControllerReference k owner (gp_owner p0) = Inr (Some owner)"
      by (auto simp: setControllerReference_none setControllerReference_same)
    let ?p = "mergePolicy (p0\<lparr>gp_owner := Some owner\<rparr>) ?pol"
    show ?thesis
    proof (cases "inStep d p0")
      case True
      then have eq: "?p = p0\<lparr>gp_owner := Some owner\<rparr>" by (simp add: inStep_def)
      have "putPolicy ?T p0 (view c) = view c"
        using Some p0 by (simp add: putPolicy_def fun_upd_idem)
      with True c1 Some ow ow2 eq p0 show ?thesis
        by (auto simp: applyTRLP_def Let_def run_rules owner_def adoptable_def dm equalPolicy)
    next
      case False
      then have ne: "p0\<lparr>gp_owner := Some owner\<rparr> \<noteq> ?p"
        by (metis inStep_def inStep_owner mergePolicy_owner(2))
      obtain c2 where "healthy c2" "view c2 = putPolicy ?T ?p (view c1)" "cl_updatePolicy k ?T ?p c1 = (c2, Inr ())"
        using writes_healthy [OF updatePolicy c1(1), of ?T ?p] Some c1(2) p0 by auto
      with False c1 Some ow ow2 ne p0 show ?thesis
        by (auto simp: applyTRLP_def Let_def run_rules owner_def adoptable_def dm equalPolicy inStep_merge
            isManaged_mergePolicy gp_status_mergePolicy)
    qed
  qed
qed

lemma deleteModelTRLP_healthy:
  assumes "healthy c"
  shows "\<exists>c'. deleteModelTRLP k ns n c = (c', Inr ()) \<and> healthy c' \<and>
    view c' = sweep TokenRateLimitPolicyKind (\<lambda>p. matchesLabels (trlpModelLabels ns n) (gp_meta p)) (view c)"
proof -
  let ?lo = "\<lparr>lo_namespace = None, lo_labels = trlpModelLabels ns n\<rparr>"
  obtain c1 xs c' where "cl_listPolicies k TokenRateLimitPolicyKind ?lo c = (c1, Inr xs)"
    "forE (deleteListed k TokenRateLimitPolicyKind ''failed to delete TokenRateLimitPolicy '') xs c1 = (c', Inr ())"
    "healthy c'" "view c' = sweep TokenRateLimitPolicyKind (\<lambda>p. matchesOpts ?lo (gp_meta p)) (view c)"
    using list_delete_healthy [OF assms] by blast
  then show ?thesis by (auto simp: deleteModelTRLP_def run_rules matchesOpts_def)
qed

text \<open>The keys of a model's limits, when all subscriptions live in one namespace.\<close>

lemma infoKey_inj:
  assumes "\<forall>s \<in> ran (w_subs (view c)). om_namespace (sub_meta s) = sns \<and> CHR ''/'' \<notin> set (om_name (sub_meta s))"
  shows "inj_on infoKey (liveInfos (view c) ns n)"
proof (rule inj_onI)
  fix x y assume x: "x \<in> liveInfos (view c) ns n" and y: "y \<in> liveInfos (view c) ns n" and eq: "infoKey x = infoKey y"
  obtain sx kx where sx: "w_subs (view c) kx = Some sx" "subInfoOf ns n sx (ssp_modelRefs (sub_spec sx)) = Some x"
    using x by (auto simp: liveInfos_def liveSubs_def ran_def)
  obtain sy ky where sy: "w_subs (view c) ky = Some sy" "subInfoOf ns n sy (ssp_modelRefs (sub_spec sy)) = Some y"
    using y by (auto simp: liveInfos_def liveSubs_def ran_def)
  note sx' = subInfoOf_SomeD [OF sx(2)] and sy' = subInfoOf_SomeD [OF sy(2)]
  have "om_name (sub_meta sx) = om_name (sub_meta sy)" "om_namespace (sub_meta sx) = om_namespace (sub_meta sy)"
    using eq sx' sy' assms [rule_format, OF ranI, OF sx(1)] assms [rule_format, OF ranI, OF sy(1)]
      limitKey_inj [of "sub_meta sx" "sub_meta sy" n] by (auto simp: infoKey_def)
  then have "kx = ky" using stored_key(2) [OF sx(1)] stored_key(2) [OF sy(1)] by (simp add: nsnOf_def)
  with sx sy show "x = y" by simp
qed

text \<open>A fault-free run for a model with a route and a subscription with valid limits.\<close>

lemma reconcileTRLP_runs:
  assumes h: "healthy c" and m: "w_models (view c) (ns, n) = Some m" "\<not> om_deleting (mod_meta m)"
    and rn: "routeNames (view c) m \<noteq> {}" and info: "liveInfos (view c) ns n \<noteq> {}"
    and pol: "\<forall>rn \<in> routeNames (view c) m. pred_option (adoptable (''HTTPRoute'', (ns, rn)))
      (w_policies (view c) TokenRateLimitPolicyKind (ns, trlpName n))"
  shows "\<exists>c' rn subs p. reconcileTRLPForModel k ns n c = (c', Inr ()) \<and> healthy c' \<and>
    view c' = putPolicy TokenRateLimitPolicyKind p (view c) \<and> nsnOf (gp_meta p) = (ns, trlpName n) \<and>
    rn \<in> routeNames (view c) m \<and> distinct subs \<and> set subs = liveInfos (view c) ns n \<and>
    inStep (desiredTRLP ns n rn ns subs) p \<and> adoptable (''HTTPRoute'', (ns, rn)) p \<and>
    (\<forall>p0. w_policies (view c) TokenRateLimitPolicyKind (ns, trlpName n) = Some p0 \<and>
       inStep (desiredTRLP ns n rn ns subs) p0 \<longrightarrow> p = p0) \<and>
    (\<forall>p0. w_policies (view c) TokenRateLimitPolicyKind (ns, trlpName n) = Some p0 \<longrightarrow> gp_status p = gp_status p0)"
proof -
  let ?T = TokenRateLimitPolicyKind
  obtain c1 xs where c1: "findAllSubscriptionsForModel k ns n c = (c1, Inr xs)" "healthy c1" "view c1 = view c"
    "distinct xs" "set xs = liveSubs (view c) ns n" using findAllSubscriptions_healthy [OF h] by blast
  obtain c2 rn where c2: "findHTTPRouteForModel k ns n c1 = (c2, Inr (rn, ns))" "rn \<in> routeNames (view c) m"
    "healthy c2" "view c2 = view c" using findHTTPRoute_healthy [OF c1(2), of ns n m] c1(3) m rn by auto
  obtain c3 where c3: "healthy c3" "view c3 = view c"
    "cl_getPolicy k ?T (ns, trlpName n) c2 = (c3, case w_policies (view c) ?T (ns, trlpName n) of None \<Rightarrow> Inl ApiNotFound | Some x \<Rightarrow> Inr x)"
    using reads_healthy [OF getPolicy c2(3), of ?T "(ns, trlpName n)"] c2(4) by auto
  obtain route where route: "w_routes (view c) (ns, rn) = Some route"
    using routeNames_stored [OF c2(2)] stored_key(1) [OF m(1)] by (auto simp: nsnOf_def)
  obtain c4 where c4: "cl_getRoute k (ns, rn) c3 = (c4, Inr route)" "healthy c4" "view c4 = view c"
    using reads_healthy [OF getRoute c3(1), of "(ns, rn)"] c3(2) route by auto
  define subs where "subs = subInfos ns n xs"
  have subs: "distinct subs" "set subs = liveInfos (view c) ns n"
    using c1(4,5) by (simp_all add: subs_def distinct_subInfos set_subInfos)
  have "xs \<noteq> []" "subs \<noteq> []" using info subs c1(5) by (auto simp: liveInfos_def)
  have owner: "nsnOf (rt_meta route) = (ns, rn)" using stored_key(4) [OF route] .
  have ok: "pred_option (adoptable (''HTTPRoute'', nsnOf (rt_meta route))) (w_policies (view c4) ?T (ns, trlpName n))"
    using pol c2(2) c4(3) owner by simp
  obtain c' p where run: "applyTRLP k route ns n (desiredTRLP ns n rn ns subs) c4 = (c', Inr ())" "healthy c'"
    "view c' = putPolicy ?T p (view c)" "nsnOf (gp_meta p) = (ns, trlpName n)" "inStep (desiredTRLP ns n rn ns subs) p"
    "adoptable (''HTTPRoute'', (ns, rn)) p"
    "\<forall>p0. w_policies (view c) ?T (ns, trlpName n) = Some p0 \<and> inStep (desiredTRLP ns n rn ns subs) p0 \<longrightarrow> p = p0"
    "\<forall>p0. w_policies (view c) ?T (ns, trlpName n) = Some p0 \<longrightarrow> gp_status p = gp_status p0"
    using applyTRLP_healthy [OF c4(2) ok refl, where ns = ns and rn = rn and subs = subs]
    unfolding owner c4(3) by blast
  have build: "buildTRLP k ns n rn ns xs c3 = (c', Inr ())"
    using \<open>xs \<noteq> []\<close> \<open>subs \<noteq> []\<close> c4 run(1) by (simp add: buildTRLP_def run_rules subs_def [symmetric] Let_def)
  have "reconcileTRLPForModel k ns n c = (c', Inr ())"
  proof (cases "w_policies (view c) ?T (ns, trlpName n)")
    case None
    with c1 c2 c3 build show ?thesis by (simp add: reconcileTRLPForModel_def Let_def run_rules isNotFound_def)
  next
    case (Some p0)
    with pol c2(2) have "isManaged (gp_meta p0)" by (auto simp: adoptable_def)
    with Some c1 c2 c3 build show ?thesis by (simp add: reconcileTRLPForModel_def Let_def run_rules isNotFound_def)
  qed
  with run c2(2) subs show ?thesis by metis
qed

lemma reconcileTRLP_removes:
  assumes h: "healthy c"
    and gone: "(case w_models (view c) (ns, n) of None \<Rightarrow> True | Some m \<Rightarrow> om_deleting (mod_meta m)) \<or>
      liveSubs (view c) ns n = {} \<and>
      (\<forall>rns p. w_policies (view c) TokenRateLimitPolicyKind (rns, trlpName n) = Some p \<longrightarrow> isManaged (gp_meta p))"
  shows "\<exists>c'. reconcileTRLPForModel k ns n c = (c', Inr ()) \<and> healthy c' \<and>
    view c' = sweep TokenRateLimitPolicyKind (\<lambda>p. matchesLabels (trlpModelLabels ns n) (gp_meta p)) (view c)"
proof -
  let ?T = TokenRateLimitPolicyKind
  obtain c1 xs where c1: "findAllSubscriptionsForModel k ns n c = (c1, Inr xs)" "healthy c1" "view c1 = view c"
    "set xs = liveSubs (view c) ns n" using findAllSubscriptions_healthy [OF h] by blast
  obtain c2 r where c2: "findHTTPRouteForModel k ns n c1 = (c2, r)" by fastforce
  have h2: "healthy c2 \<and> view c2 = view c"
    using staysD [OF route_keeps_healthy [where J = "\<lambda>w. w = view c"] _ c2] c1 by simp
  obtain c' where del: "deleteModelTRLP k ns n c2 = (c', Inr ())" "healthy c'"
    "view c' = sweep ?T (\<lambda>p. matchesLabels (trlpModelLabels ns n) (gp_meta p)) (view c)"
    using deleteModelTRLP_healthy [of c2 ns n] h2 by auto
  show ?thesis
  proof (cases "case w_models (view c) (ns, n) of None \<Rightarrow> True | Some m \<Rightarrow> om_deleting (mod_meta m)")
    case True
    obtain c3 where "cl_getModel k (ns, n) c1 = (c3, case w_models (view c) (ns, n) of None \<Rightarrow> Inl ApiNotFound | Some x \<Rightarrow> Inr x)"
      using reads_healthy [OF getModel c1(2), of "(ns, n)"] c1(3) by auto
    with True c2 have "\<exists>e. r = Inl e \<and> errIs e ErrModelNotFound"
      by (auto simp: findHTTPRouteForModel_def run_rules split: option.splits)
    with c1 c2 del show ?thesis by (auto simp: reconcileTRLPForModel_def Let_def run_rules)
  next
    case False
    with gone c1(4) have xs: "xs = []"
      and man: "\<And>rns p. w_policies (view c) ?T (rns, trlpName n) = Some p \<Longrightarrow> isManaged (gp_meta p)" by auto
    show ?thesis
    proof (cases r)
      case (Inl e)
      with xs c1 c2 del show ?thesis by (auto simp: reconcileTRLPForModel_def Let_def run_rules)
    next
      case (Inr q)
      obtain rn rns where q: "q = (rn, rns)" by fastforce
      obtain c3 where c3: "healthy c3" "view c3 = view c"
        "cl_getPolicy k ?T (rns, trlpName n) c2 = (c3, case w_policies (view c) ?T (rns, trlpName n) of None \<Rightarrow> Inl ApiNotFound | Some x \<Rightarrow> Inr x)"
        using reads_healthy [OF getPolicy, of c2 ?T "(rns, trlpName n)"] h2 by auto
      obtain c4 where "deleteModelTRLP k ns n c3 = (c4, Inr ())" "healthy c4"
        "view c4 = sweep ?T (\<lambda>p. matchesLabels (trlpModelLabels ns n) (gp_meta p)) (view c)"
        using deleteModelTRLP_healthy [OF c3(1), of ns n] c3(2) by auto
      with xs man [of rns] Inr q c1 c2 c3(3) show ?thesis
        by (auto simp: reconcileTRLPForModel_def Let_def run_rules buildTRLP_def isNotFound_def split: option.splits)
    qed
  qed
qed

end

text \<open>Deleting the same policies again changes nothing.\<close>

lemma sweep_again:
  assumes "\<And>p. P (markDeleting p) = P p"
  shows "sweep g P (sweep g P w) = sweep g P w"
proof -
  have "isManaged (gp_meta (markDeleting p)) = isManaged (gp_meta p)" "om_finalizers (gp_meta (markDeleting p)) = om_finalizers (gp_meta p)"
    "markDeleting (markDeleting p) = markDeleting p" for p by (simp_all add: markDeleting_def isManaged_def)
  then have "Option.bind (Option.bind x (\<lambda>p. if P p \<and> isManaged (gp_meta p) then afterDelete p else Some p))
      (\<lambda>p. if P p \<and> isManaged (gp_meta p) then afterDelete p else Some p) =
    Option.bind x (\<lambda>p. if P p \<and> isManaged (gp_meta p) then afterDelete p else Some p)" for x
    using assms by (cases x) (auto simp: afterDelete_def)
  then show ?thesis by (simp add: sweep_def)
qed

lemma lookups_putPolicy [simp]:
  "liveSubs (putPolicy g p w) ns n = liveSubs w ns n" "liveInfos (putPolicy g p w) ns n = liveInfos w ns n"
  by (simp_all add: liveSubs_def liveInfos_def)

text \<open>The entries of the field \<open>limits\<close>.\<close>

definition limitsOf :: "policy \<Rightarrow> string \<Rightarrow> goany option" where
  "limitsOf p = (case map_of (gp_spec p) ''limits'' of Some (GMap ls) \<Rightarrow> map_of ls | _ \<Rightarrow> (\<lambda>_. None))"

text \<open>Hypotheses on the cluster: all subscriptions live in one namespace (their names are Kubernetes
  names, without a slash), the model has a route, and nobody else controls its policy.\<close>

definition oneNamespace :: "world \<Rightarrow> bool" where
  "oneNamespace w \<longleftrightarrow> (\<exists>sns. \<forall>s \<in> ran (w_subs w). om_namespace (sub_meta s) = sns \<and> CHR ''/'' \<notin> set (om_name (sub_meta s)))"

definition routable :: "world \<Rightarrow> string \<Rightarrow> string \<Rightarrow> MaaSModelRef \<Rightarrow> bool" where
  "routable w ns n m \<longleftrightarrow>
     w_models w (ns, n) = Some m \<and> \<not> om_deleting (mod_meta m) \<and> routeNames w m \<noteq> {} \<and>
     (\<forall>rn \<in> routeNames w m. pred_option (adoptable (''HTTPRoute'', (ns, rn)))
        (w_policies w TokenRateLimitPolicyKind (ns, trlpName n)))"

context api_server
begin

lemma limitsOf_live:
  assumes "oneNamespace (view c)" "set subs = liveInfos (view c) ns n" "inStep (desiredTRLP ns n rn ns subs) p"
  shows "limitsOf p key = Some v \<longleftrightarrow> (\<exists>s \<in> liveSubs (view c) ns n. \<exists>si. subInfoOf ns n s (ssp_modelRefs (sub_spec s)) = Some si \<and>
          key = limitKey (sub_meta s) n \<and> v = perUserLimit s ns n (si_rates si))"
proof -
  have inj: "inj_on infoKey (set subs)"
    using assms(1) infoKey_inj unfolding oneNamespace_def assms(2) by blast
  have "gp_spec p = trlpSpec rn subs" using inStep_spec [OF assms(3)] by (simp add: desiredTRLP_def)
  then have "limitsOf p key = map_of (limitsMap subs) key" by (simp add: limitsOf_def trlpSpec_def)
  then have "limitsOf p key = Some v \<longleftrightarrow> (\<exists>si \<in> liveInfos (view c) ns n. infoKey si = key \<and> limitEntry si = v)"
    using map_of_limitsMap [OF inj] by (simp add: assms(2))
  also have "\<dots> \<longleftrightarrow> (\<exists>s \<in> liveSubs (view c) ns n. \<exists>si. subInfoOf ns n s (ssp_modelRefs (sub_spec s)) = Some si \<and>
      infoKey si = key \<and> limitEntry si = v)" unfolding liveInfos_def by blast
  also have "\<dots> \<longleftrightarrow> (\<exists>s \<in> liveSubs (view c) ns n. \<exists>si. subInfoOf ns n s (ssp_modelRefs (sub_spec s)) = Some si \<and>
      key = limitKey (sub_meta s) n \<and> v = perUserLimit s ns n (si_rates si))"
    by (intro bex_cong ex_cong1 refl) (auto simp: infoKey_of limitEntry_of)
  finally show ?thesis .
qed

lemma limits_enforced:
  assumes "healthy c" "oneNamespace (view c)"
    and "routable (view c) ns n m" "liveInfos (view c) ns n \<noteq> {}"
  shows "\<exists>c' p rn. reconcileTRLPForModel k ns n c = (c', Inr ()) \<and>
    view c' = putPolicy TokenRateLimitPolicyKind p (view c) \<and> nsnOf (gp_meta p) = (ns, trlpName n) \<and>
    rn \<in> routeNames (view c) m \<and>
    map_of (gp_spec p) ''targetRef'' = Some (GMap [(''group'', GStr ''gateway.networking.k8s.io''),
      (''kind'', GStr ''HTTPRoute''), (''name'', GStr rn)]) \<and>
    (\<forall>key v. limitsOf p key = Some v \<longleftrightarrow>
       (\<exists>s \<in> liveSubs (view c) ns n. \<exists>si. subInfoOf ns n s (ssp_modelRefs (sub_spec s)) = Some si \<and>
          key = limitKey (sub_meta s) n \<and> v = perUserLimit s ns n (si_rates si)))"
proof -
  obtain c' rn subs p where run: "reconcileTRLPForModel k ns n c = (c', Inr ())"
    "view c' = putPolicy TokenRateLimitPolicyKind p (view c)" "nsnOf (gp_meta p) = (ns, trlpName n)"
    "rn \<in> routeNames (view c) m" "set subs = liveInfos (view c) ns n" "inStep (desiredTRLP ns n rn ns subs) p"
    using reconcileTRLP_runs [OF assms(1), of ns n m] assms(3,4) unfolding routable_def by blast
  have "gp_spec p = trlpSpec rn subs" using inStep_spec [OF run(6)] by (simp add: desiredTRLP_def)
  then have "map_of (gp_spec p) ''targetRef'' = Some (GMap [(''group'', GStr ''gateway.networking.k8s.io''),
      (''kind'', GStr ''HTTPRoute''), (''name'', GStr rn)])" by (simp add: trlpSpec_def)
  with limitsOf_live [OF assms(2) run(5,6)] run(1-4) show ?thesis by blast
qed

lemma reconcileTRLP_settles:
  assumes "healthy c" "oneNamespace (view c)" "routable (view c) ns n m" "liveInfos (view c) ns n \<noteq> {}"
    and one: "routeNames (view c) m = {rn}"
  shows "\<exists>c' c''. reconcileTRLPForModel k ns n c = (c', Inr ()) \<and> reconcileTRLPForModel k ns n c' = (c'', Inr ()) \<and>
    view c'' = view c'"
proof -
  let ?T = TokenRateLimitPolicyKind
  have ok0: "w_models (view c) (ns, n) = Some m" "\<not> om_deleting (mod_meta m)" "routeNames (view c) m \<noteq> {}"
    "\<forall>rn \<in> routeNames (view c) m. pred_option (adoptable (''HTTPRoute'', (ns, rn))) (w_policies (view c) ?T (ns, trlpName n))"
    using assms(3) by (simp_all add: routable_def)
  obtain c1 subs p rn1 where run: "reconcileTRLPForModel k ns n c = (c1, Inr ())" "healthy c1"
    "view c1 = putPolicy ?T p (view c)" "nsnOf (gp_meta p) = (ns, trlpName n)" "distinct subs"
    "set subs = liveInfos (view c) ns n" "inStep (desiredTRLP ns n rn1 ns subs) p" "adoptable (''HTTPRoute'', (ns, rn1)) p"
    and rn1: "rn1 \<in> routeNames (view c) m"
    using reconcileTRLP_runs [OF assms(1) ok0(1-3) assms(4) ok0(4)] by blast
  have [simp]: "rn1 = rn" using rn1 one by simp
  have 2: "w_models (view c1) (ns, n) = Some m" "\<not> om_deleting (mod_meta m)" "routeNames (view c1) m = {rn}"
    "liveInfos (view c1) ns n \<noteq> {}" "w_policies (view c1) ?T (ns, trlpName n) = Some p"
    using assms(3,4) one run(4) by (simp_all add: run(3) routable_def)
  have ok: "\<forall>rn \<in> routeNames (view c1) m. pred_option (adoptable (''HTTPRoute'', (ns, rn))) (w_policies (view c1) ?T (ns, trlpName n))"
    using 2 run(8) by simp
  have 3: "routeNames (view c1) m \<noteq> {}" using 2(3) by simp
  obtain c2 subs' p' rn2 where again: "reconcileTRLPForModel k ns n c1 = (c2, Inr ())" "view c2 = putPolicy ?T p' (view c1)"
    "distinct subs'" "set subs' = liveInfos (view c1) ns n"
    "\<forall>p0. w_policies (view c1) ?T (ns, trlpName n) = Some p0 \<and> inStep (desiredTRLP ns n rn2 ns subs') p0 \<longrightarrow> p' = p0"
    and rn2: "rn2 \<in> routeNames (view c1) m"
    using reconcileTRLP_runs [OF run(2) 2(1,2) 3 2(4) ok] by blast
  have [simp]: "rn2 = rn" using rn2 2(3) by simp
  have "set subs = set subs'" using again(4) run(6) by (simp add: run(3))
  moreover have "inj_on infoKey (set subs')"
    using assms(2) infoKey_inj unfolding oneNamespace_def calculation [symmetric] run(6) by blast
  ultimately have "desiredTRLP ns n rn ns subs' = desiredTRLP ns n rn ns subs"
    using desiredTRLP_perm [OF _ run(5) again(3)] by simp
  then have "p' = p" using again(5) 2(5) run(7) by simp
  with again run show ?thesis by (simp add: putPolicy_again)
qed

lemma reconcileTRLP_removed_settles:
  assumes "healthy c"
    and gone: "(case w_models (view c) (ns, n) of None \<Rightarrow> True | Some m \<Rightarrow> om_deleting (mod_meta m)) \<or>
      liveSubs (view c) ns n = {} \<and>
      (\<forall>rns p. w_policies (view c) TokenRateLimitPolicyKind (rns, trlpName n) = Some p \<longrightarrow> isManaged (gp_meta p))"
  shows "\<exists>c' c''. reconcileTRLPForModel k ns n c = (c', Inr ()) \<and> reconcileTRLPForModel k ns n c' = (c'', Inr ()) \<and>
    view c'' = view c'"
proof -
  let ?T = TokenRateLimitPolicyKind and ?P = "\<lambda>p. matchesLabels (trlpModelLabels ns n) (gp_meta p)"
  obtain c1 where c1: "reconcileTRLPForModel k ns n c = (c1, Inr ())" "healthy c1" "view c1 = sweep ?T ?P (view c)"
    using reconcileTRLP_removes [OF assms] by blast
  have man: "isManaged (gp_meta p)" if "w_policies (view c1) ?T key = Some p"
    "\<And>q. w_policies (view c) ?T key = Some q \<Longrightarrow> isManaged (gp_meta q)" for key p
    using that unfolding c1(3) sweep_def
    by (auto simp: bind_eq_Some_conv afterDelete_def markDeleting_def isManaged_def split: if_splits)
  have same: "w_models (view c1) = w_models (view c)" "liveSubs (view c1) ns n = liveSubs (view c) ns n"
    by (simp_all add: c1(3) sweep_def liveSubs_def)
  have "(case w_models (view c1) (ns, n) of None \<Rightarrow> True | Some m \<Rightarrow> om_deleting (mod_meta m)) \<or>
      liveSubs (view c1) ns n = {} \<and>
      (\<forall>rns p. w_policies (view c1) ?T (rns, trlpName n) = Some p \<longrightarrow> isManaged (gp_meta p))"
    unfolding same using gone man by blast
  from reconcileTRLP_removes [OF c1(2) this] obtain c2 where "reconcileTRLPForModel k ns n c1 = (c2, Inr ())"
    "view c2 = sweep ?T ?P (view c1)" by blast
  with c1(1,3) show ?thesis by (simp add: sweep_again matchesLabels_def markDeleting_def)
qed

end


text \<open>C28: the reconciliation of one model's policy settles. Without faults, reconciling the model a second
  time succeeds and leaves the cluster exactly as the first run left it, in each of these cases: the
  subscriptions live in one namespace, one of them is live and has valid limits for the model, the model has
  exactly one candidate route, and nobody else controls its policy (whatever order the API lists the
  subscriptions in); or the model is gone or in deletion; or no live subscription refers to it, and no
  policy of its name has opted out.\<close>

theorem trlp_reconcile_idempotent:
  assumes "api_server k view healthy" "healthy c"
    and "oneNamespace (view c) \<and> routable (view c) ns n m \<and> liveInfos (view c) ns n \<noteq> {} \<and> routeNames (view c) m = {rn} \<or>
      (case w_models (view c) (ns, n) of None \<Rightarrow> True | Some m \<Rightarrow> om_deleting (mod_meta m)) \<or>
      liveSubs (view c) ns n = {} \<and>
      (\<forall>rns p. w_policies (view c) TokenRateLimitPolicyKind (rns, trlpName n) = Some p \<longrightarrow> isManaged (gp_meta p))"
  shows "\<exists>c' c''. reconcileTRLPForModel k ns n c = (c', Inr ()) \<and> reconcileTRLPForModel k ns n c' = (c'', Inr ()) \<and>
    view c'' = view c'"
  using assms(3)
proof
  assume "oneNamespace (view c) \<and> routable (view c) ns n m \<and> liveInfos (view c) ns n \<noteq> {} \<and> routeNames (view c) m = {rn}"
  then have "oneNamespace (view c)" "routable (view c) ns n m" "liveInfos (view c) ns n \<noteq> {}" "routeNames (view c) m = {rn}"
    by simp_all
  then show ?thesis by (rule api_server.reconcileTRLP_settles [OF assms(1,2)])
qed (rule api_server.reconcileTRLP_removed_settles [OF assms(1,2)])

text \<open>No limit outlives its model or its last subscription. When the model is gone or being deleted,
  or no live subscription refers to it (and no policy of its name has opted out), reconciling it
  succeeds, and afterwards every managed policy labelled for the model is deleted or marked for
  deletion; everything else is as before.\<close>

theorem trlp_removed:
  assumes "api_server k view healthy" "healthy c"
    and "(case w_models (view c) (ns, n) of None \<Rightarrow> True | Some m \<Rightarrow> om_deleting (mod_meta m)) \<or>
      liveSubs (view c) ns n = {} \<and>
      (\<forall>rns p. w_policies (view c) TokenRateLimitPolicyKind (rns, trlpName n) = Some p \<longrightarrow> isManaged (gp_meta p))"
  shows "\<exists>c'. reconcileTRLPForModel k ns n c = (c', Inr ()) \<and>
    view c' = sweep TokenRateLimitPolicyKind (\<lambda>p. matchesLabels (trlpModelLabels ns n) (gp_meta p)) (view c) \<and>
    (\<forall>key p. w_policies (view c') TokenRateLimitPolicyKind key = Some p \<and>
       matchesLabels (trlpModelLabels ns n) (gp_meta p) \<and> isManaged (gp_meta p) \<longrightarrow> om_deleting (gp_meta p))"
  using api_server.reconcileTRLP_removes [OF assms] sweep_leaves_deleting by fastforce

lemma std_oneNamespace:
  "list_all (\<lambda>s. om_namespace (sub_meta s) = sns \<and> CHR ''/'' \<notin> set (om_name (sub_meta s))) (tidyList sub_meta (db_subs d)) \<Longrightarrow>
   oneNamespace (db_view d)"
  by (auto simp: oneNamespace_def list_all_iff set_tidyList)

lemma goldDb_up: "\<not> db_down goldDb"
  by code_simp

lemma goldDb_facts:
  "oneNamespace (db_view goldDb)"
  "routeNames (db_view goldDb) (sampleModel ''llm'' ''granite'') = {''granite''}"
  "routable (db_view goldDb) ''llm'' ''granite'' (sampleModel ''llm'' ''granite'')"
  "sampleSub ''gold'' 10 [sampleRef ''llm'' ''granite'' [(500, ''1m'')]] \<in> liveSubs (db_view goldDb) ''llm'' ''granite''"
  "liveInfos (db_view goldDb) ''llm'' ''granite'' \<noteq> {}"
proof -
  show "oneNamespace (db_view goldDb)"
    by (rule std_oneNamespace [where sns = "''maas''"]) code_simp
  have m: "tidy mod_meta (db_models goldDb) (''llm'', ''granite'') = Some (sampleModel ''llm'' ''granite'')"
    "tidy rt_meta (db_routes goldDb) (''llm'', ''granite'') = Some (sampleRoute ''llm'' ''granite'')" by code_simp+
  then show rn: "routeNames (db_view goldDb) (sampleModel ''llm'' ''granite'') = {''granite''}"
    by (auto simp: routeNames_def sampleModel_def sampleMeta_def newMeta_def GetRouteResolver_def)
  have "policiesOf goldDb TokenRateLimitPolicyKind = []" "\<not> om_deleting (mod_meta (sampleModel ''llm'' ''granite''))"
    by code_simp+
  with m rn show "routable (db_view goldDb) ''llm'' ''granite'' (sampleModel ''llm'' ''granite'')"
    by (simp add: routable_def tidy_def)
  let ?gold = "sampleSub ''gold'' 10 [sampleRef ''llm'' ''granite'' [(500, ''1m'')]]"
  have "tidy sub_meta (db_subs goldDb) (''maas'', ''gold'') = Some ?gold" "\<not> om_deleting (sub_meta ?gold)"
    "subListed (Some (''llm'' @ ''/'' @ ''granite'')) ?gold" by code_simp+
  then show gold: "?gold \<in> liveSubs (db_view goldDb) ''llm'' ''granite''"
    unfolding liveSubs_def by (auto intro: ranI simp del: append_Cons append_Nil)
  have "subInfoOf ''llm'' ''granite'' ?gold (ssp_modelRefs (sub_spec ?gold)) \<noteq> None" by code_simp
  with gold show "liveInfos (db_view goldDb) ''llm'' ''granite'' \<noteq> {}" unfolding liveInfos_def by blast
qed


theorem trlp_reconcile_idempotent_witness:
  "\<exists>d' d''. reconcileTRLPForModel std_client ''llm'' ''granite'' goldDb = (d', Inr ()) \<and>
     reconcileTRLPForModel std_client ''llm'' ''granite'' d' = (d'', Inr ()) \<and> db_view d'' = db_view d'"
  by (rule trlp_reconcile_idempotent [OF std.api_server_axioms goldDb_up])
    (use goldDb_facts(1,2,3,5) in blast)

theorem trlp_removed_witness:
  "\<exists>d'. reconcileTRLPForModel std_client ''llm'' ''mistral'' goldDb = (d', Inr ()) \<and>
     db_view d' = sweep TokenRateLimitPolicyKind (\<lambda>p. matchesLabels (trlpModelLabels ''llm'' ''mistral'') (gp_meta p)) (db_view goldDb)"
proof -
  have "tidy mod_meta (db_models goldDb) (''llm'', ''mistral'') = None" "\<not> db_down goldDb" by code_simp+
  then show ?thesis
    using trlp_removed [OF std.api_server_axioms, of goldDb "''llm''" "''mistral''"] by auto
qed

section \<open>The phase\<close>

text \<open>A subscription is reported Active exactly when it references a model, every referenced model
  is valid and every TokenRateLimitPolicy is ready.\<close>

theorem deriveFinalPhase_Active_iff:
  "fst (deriveFinalPhase modelStatuses trlpStatuses) = PhaseActive \<longleftrightarrow>
     modelStatuses \<noteq> [] \<and> list_all rs_ready modelStatuses \<and> list_all rs_ready trlpStatuses"
proof -
  define b where "b = int (length (filter (\<lambda>s. \<not> rs_ready s) modelStatuses))"
  define g where "g = int (length (filter rs_ready modelStatuses))"
  define u where "u = int (length (filter (\<lambda>s. \<not> rs_ready s) trlpStatuses))"
  define i where "i = int (length (filter (\<lambda>s. \<not> rs_ready s \<and> rs_reason s = ReasonBackendNotReady \<and>
    List.member (map rs_name (filter rs_ready modelStatuses)) (trs_model s)) trlpStatuses))"
  have "fst (deriveFinalPhase modelStatuses trlpStatuses) = PhaseActive \<longleftrightarrow>
      modelStatuses \<noteq> [] \<and> 0 < g - i \<and> b + i \<le> 0 \<and> u - i \<le> 0"
    unfolding deriveFinalPhase_def b_def [symmetric] g_def [symmetric] u_def [symmetric] i_def [symmetric] Let_def
    by (simp add: phase_defs not_le not_less)
  moreover have "0 \<le> b" "0 \<le> g" "0 \<le> i" "0 \<le> u" by (simp_all add: b_def g_def i_def u_def)
  moreover have "i \<le> u" unfolding i_def u_def by (induction trlpStatuses) auto
  moreover have "b + g = int (length modelStatuses)"
    using sum_length_filter_compl [of rs_ready modelStatuses] by (simp add: b_def g_def)
  moreover have "b = 0 \<longleftrightarrow> list_all rs_ready modelStatuses" "u = 0 \<longleftrightarrow> list_all rs_ready trlpStatuses"
    by (auto simp: b_def u_def filter_empty_conv list_all_iff)
  moreover have "0 < int (length modelStatuses) \<longleftrightarrow> modelStatuses \<noteq> []" by simp
  ultimately show ?thesis by linarith
qed

text \<open>The \<open>Accepted\<close> condition is read from the status alone.\<close>

lemma accepted_status:
  assumes "nested_documented api" "gp_status p = gp_status p0" "fst (getTRLPAcceptedCondition api p0)"
  shows "fst (getTRLPAcceptedCondition api p)"
proof -
  have "ifFound (nestedMap api (policyObject p0) [''status'']) \<noteq> None"
    using assms(3) by (auto simp: getTRLPAcceptedCondition_def ifFound_def split: prod.splits if_splits)
  then have "field_of as_map (policyObject p0) ''status'' \<noteq> None" by (simp add: nested_documentedD [OF assms(1)])
  then obtain x where "gp_status p0 = Some (GMap x)"
    by (cases "gp_status p0") (auto simp: field_of_def policyObject_def elim!: as_map.elims)
  with assms(2) have "nestedMap api (policyObject q) [''status''] = (x, True, None)" if "q \<in> {p, p0}" for q
    using that by (intro nestedMap_present [OF assms(1)]) (auto simp: policyObject_def)
  with assms(3) show ?thesis by (simp add: getTRLPAcceptedCondition_def)
qed

context api_server
begin

text \<open>The stale clean-up of a subscription leaves the policies of its own models, and everything else than
  policies, alone.\<close>

lemma cleanupStale_keeps:
  assumes "healthy c" "w_policies (view c) TokenRateLimitPolicyKind key = Some p"
    and own: "\<And>ns' n'. matchesLabels (trlpModelLabels ns' n') (gp_meta p) \<Longrightarrow>
      List.member (map modelKeyOf (ssp_modelRefs (sub_spec s))) (ns' @ ''/'' @ n')"
  shows "\<exists>c'. cleanupStaleTRLPs k s c = (c', Inr ()) \<and> healthy c' \<and>
    w_policies (view c') TokenRateLimitPolicyKind key = Some p \<and> w_models (view c') = w_models (view c) \<and>
    w_subs (view c') = w_subs (view c) \<and> w_routes (view c') = w_routes (view c)"
proof -
  let ?T = TokenRateLimitPolicyKind
  let ?lo = "\<lparr>lo_namespace = None, lo_labels = [(''app.kubernetes.io/managed-by'', ''maas-controller''),
    (''app.kubernetes.io/part-of'', ''maas-subscription'')]\<rparr>"
  let ?I = "\<lambda>c'. healthy c' \<and> w_policies (view c') ?T key = Some p \<and> w_models (view c') = w_models (view c) \<and>
    w_subs (view c') = w_subs (view c) \<and> w_routes (view c') = w_routes (view c)"
  define f where "f = (\<lambda>trlp. if \<not> staleTRLP s trlp then ret ()
      else let modelName = strMapIndex (om_labels (gp_meta trlp)) ''maas.opendatahub.io/model''
           in wrapErr (''failed to clean up stale TokenRateLimitPolicy for removed model '' @
                  om_namespace (gp_meta trlp) @ ''/'' @ modelName @ '': '')
                (deleteModelTRLP k (om_namespace (gp_meta trlp)) modelName))"
  have step: "\<exists>c2. f x c1 = (c2, Inr ()) \<and> ?I c2" if "?I c1" for x c1
  proof (cases "staleTRLP s x")
    case True
    let ?n = "strMapIndex (om_labels (gp_meta x)) ''maas.opendatahub.io/model''" and ?ns = "om_namespace (gp_meta x)"
    obtain c2 where c2: "deleteModelTRLP k ?ns ?n c1 = (c2, Inr ())" "healthy c2"
      "view c2 = sweep ?T (\<lambda>q. matchesLabels (trlpModelLabels ?ns ?n) (gp_meta q)) (view c1)"
      using deleteModelTRLP_healthy [of c1 ?ns ?n] \<open>?I c1\<close> by blast
    have "\<not> matchesLabels (trlpModelLabels ?ns ?n) (gp_meta p)" using own [of ?ns ?n] True by (auto simp: staleTRLP_def Let_def)
    with c2 \<open>?I c1\<close> True show ?thesis by (auto simp: f_def Let_def run_rules sweep_def)
  qed (use that in \<open>simp add: f_def\<close>)
  have loop: "\<exists>c2. forE f xs c1 = (c2, Inr ()) \<and> ?I c2" if "?I c1" for xs c1
    using that
  proof (induction xs arbitrary: c1)
    case (Cons x xs)
    from step [OF Cons.prems, of x] obtain c2 where "f x c1 = (c2, Inr ())" "?I c2" by blast
    with Cons.IH [of c2] show ?case by (simp add: run_rules)
  qed simp
  obtain c1 xs where "healthy c1" "view c1 = view c" "cl_listPolicies k ?T ?lo c = (c1, Inr xs)"
    using lists_healthy [OF listPolicies assms(1), of ?T ?lo] by blast
  with loop [of c1 xs] assms(2) show ?thesis by (simp add: cleanupStaleTRLPs_def f_def [symmetric] run_rules)
qed

text \<open>The end of a reconciliation without faults: the derived phase is stored.\<close>

lemma updateStatus_stores:
  assumes "healthy c" "w_subs (view c) req = Some s" "sub_meta s' = sub_meta s" "snap = sub_status s"
  shows "\<exists>c' s1. updateStatus k s' phase message snap c = (c', Inr ()) \<and> w_subs (view c') req = Some s1 \<and>
    sst_phase (sub_status s1) = phase \<and> w_policies (view c') = w_policies (view c)"
proof -
  have key: "nsnOf (sub_meta s') = req" using stored_key(2) [OF assms(2)] assms(3) by simp
  obtain c1 where c1: "healthy c1" "view c1 = view c" "cl_getSub k req c = (c1, Inr s)"
    using reads_healthy [OF getSub assms(1), of req] assms(2) by auto
  define status where "status = (sub_status s')\<lparr>sst_phase := phase, sst_conditions :=
    lib_setStatusCondition k (case lib_findStatusCondition k (sst_conditions (sub_status s)) ConditionSpecPriorityDuplicate of
        Some dup \<Rightarrow> lib_setStatusCondition k (sst_conditions (sub_status s')) dup | None \<Rightarrow> sst_conditions (sub_status s'))
      (readyCondition phase message (om_generation (sub_meta s')))\<rparr>"
  have run: "updateStatus k s' phase message snap c =
      (if snap = status then (c1, Inr ()) else attempt (cl_statusSub k (s'\<lparr>sub_status := status\<rparr>)) (\<lambda>_. ret ()) c1)"
    by (simp add: updateStatus_def key attempt_def [of "cl_getSub k req"] c1(3) Let_def status_def)
  have phase: "sst_phase status = phase" by (simp add: status_def)
  show ?thesis
  proof (cases "snap = status")
    case True
    with run c1 assms(2,4) phase show ?thesis by auto
  next
    case False
    obtain c2 where "view c2 = setSubStatus (s'\<lparr>sub_status := status\<rparr>) (view c1)"
      "cl_statusSub k (s'\<lparr>sub_status := status\<rparr>) c1 = (c2, Inr ())"
      using writes_healthy [OF statusSub c1(1), of "s'\<lparr>sub_status := status\<rparr>"] c1(2) assms(2) key by auto
    with False run c1(2) assms(2,3) key phase show ?thesis
      by (auto simp: run_rules setSubStatus_def putSub_def nsnOf_def)
  qed
qed

lemma reconcile_rejected:
  assumes h: "healthy c" and one: "oneNamespace (view c)" and m: "routable (view c) ns n m"
    and info: "liveInfos (view c) ns n \<noteq> {}"
    and s: "w_subs (view c) req = Some s" "\<not> om_deleting (sub_meta s)" "hasFinalizer maasSubscriptionFinalizer (sub_meta s)"
    and ref: "ssp_modelRefs (sub_spec s) = [ref]" "msr_namespace ref = ns" "msr_name ref = n" "ratesOf ref = None"
    and p0: "w_policies (view c) TokenRateLimitPolicyKind (ns, trlpName n) = Some p0"
      "fst (getTRLPAcceptedCondition (lib_unstructured k) p0)"
  shows "\<exists>c' s' p. Reconcile k req c = (c', Inr ()) \<and> w_subs (view c') req = Some s' \<and>
    sst_phase (sub_status s') = PhaseActive \<and>
    w_policies (view c') TokenRateLimitPolicyKind (ns, trlpName n) = Some p \<and> limitsOf p (limitKey (sub_meta s) n) = None"
proof -
  let ?T = TokenRateLimitPolicyKind
  note m' = m [unfolded routable_def]
  obtain c1 where c1: "healthy c1" "view c1 = view c" "cl_getSub k req c = (c1, Inr s)"
    using reads_healthy [OF getSub h, of req] s(1) by auto
  obtain c2 where c2: "healthy c2" "view c2 = view c" "cl_getModel k (ns, n) c1 = (c2, Inr m)"
    using reads_healthy [OF getModel c1(1), of "(ns, n)"] c1(2) m' by auto
  define ms where "ms = \<lparr>rs_name = n, rs_namespace = ns, rs_ready = True, rs_reason = ReasonValid, rs_message = []\<rparr>"
  define s1 where "s1 = s\<lparr>sub_status := (sub_status s)\<lparr>sst_modelRefStatuses := [ms]\<rparr>\<rparr>"
  have rdy: "rs_ready ms" by (simp add: ms_def)
  have v: "validateModelRefs k s c1 = (c2, Inr [ms])"
    by (simp add: validateModelRefs_def ref validateModelRef_def run_rules c2(3) ms_def)
  obtain c3 rn subs p where c3: "reconcileTRLPForModel k ns n c2 = (c3, Inr ())" "healthy c3"
    "view c3 = putPolicy ?T p (view c)" "nsnOf (gp_meta p) = (ns, trlpName n)" "set subs = liveInfos (view c) ns n"
    "inStep (desiredTRLP ns n rn ns subs) p" "gp_status p = gp_status p0"
    using reconcileTRLP_runs [OF c2(1), of ns n m] m' info p0(1) unfolding c2(2) by blast
  have p3: "w_policies (view c3) ?T (ns, trlpName n) = Some p" using c3(3,4) by simp
  have own: "List.member (map modelKeyOf (ssp_modelRefs (sub_spec s1))) (ns' @ ''/'' @ n')"
    if "matchesLabels (trlpModelLabels ns' n') (gp_meta p)" for ns' n'
    using inStep_labels [OF c3(6) that] ref by (simp add: s1_def modelKeyOf_def)
  obtain c4 where c4: "cleanupStaleTRLPs k s1 c3 = (c4, Inr ())" "healthy c4" "w_policies (view c4) ?T (ns, trlpName n) = Some p"
    "w_models (view c4) = w_models (view c)" "w_subs (view c4) = w_subs (view c)" "w_routes (view c4) = w_routes (view c)"
    using cleanupStale_keeps [OF c3(2) p3 own] c3(3) by auto
  have recon: "reconcileTokenRateLimitPolicies k s1 c2 = (c4, Inr ())"
    using c3(1) c4(1) ref by (simp add: reconcileTokenRateLimitPolicies_def s1_def [symmetric] run_rules) (simp add: s1_def run_rules)
  have "routeNames (view c4) m = routeNames (view c) m" by (rule routeNames_routes) (simp add: c4(6))
  with findHTTPRoute_healthy [OF c4(2), of ns n m] c4(4) m' obtain c5 rn' where
    c5: "findHTTPRouteForModel k ns n c4 = (c5, Inr (rn', ns))" "healthy c5" "view c5 = view c4" by auto
  obtain c6 where c6: "healthy c6" "view c6 = view c4" "cl_getPolicy k ?T (ns, trlpName n) c5 = (c6, Inr p)"
    using reads_healthy [OF getPolicy c5(2), of ?T "(ns, trlpName n)"] c5(3) c4(3) by auto
  obtain msg where acc: "getTRLPAcceptedCondition (lib_unstructured k) p = (True, msg)"
    using accepted_status [OF unstructured c3(7) p0(2)] by (cases "getTRLPAcceptedCondition (lib_unstructured k) p") auto
  define ts where "ts = trlpStatus ref ns True ReasonAccepted []"
  have "checkTRLP k ref c4 = (c6, Inr ts)"
    unfolding checkTRLP_def ref(2,3) by (simp add: run_rules c5(1) c6(3) acc ts_def)
  then have check: "checkTokenRateLimitHealth k s1 c4 = (c6, Inr [ts])"
    by (simp add: checkTokenRateLimitHealth_def s1_def ref(1) run_rules)
  have same: "correctStatus [ts] ms = ms"
    by (simp add: correctStatus_def backendNotReady_def ts_def trlpStatus_def ReasonAccepted_def ReasonBackendNotReady_def)
  have active: "fst (deriveFinalPhase [ms] [ts]) = PhaseActive"
    by (simp add: deriveFinalPhase_Active_iff ms_def ts_def trlpStatus_def)
  define s2 where "s2 = s1\<lparr>sub_status := (sub_status s1)\<lparr>sst_modelRefStatuses := [ms], sst_tokenRateLimitStatuses := [ts]\<rparr>\<rparr>"
  have "w_subs (view c6) req = Some s" using s(1) c4(5) c6(2) by simp
  from updateStatus_stores [OF c6(1) this, of s2 "sub_status s" PhaseActive "snd (deriveFinalPhase [ms] [ts])"] obtain c' s' where
    c': "updateStatus k s2 PhaseActive (snd (deriveFinalPhase [ms] [ts])) (sub_status s) c6 = (c', Inr ())"
      "w_subs (view c') req = Some s'" "sst_phase (sub_status s') = PhaseActive" "w_policies (view c') = w_policies (view c6)"
    by (auto simp: s2_def s1_def)
  have "finishReconcile k s1 [ms] (sub_status s) c4 = (c', Inr ())"
    using check c'(1) active unfolding finishReconcile_def
    by (auto simp: run_rules same s2_def [symmetric] split: prod.splits)
  then have "Reconcile k req c = (c', Inr ())"
    using c1(3) s(2,3) v recon rdy
    by (simp add: Reconcile_def run_rules reconcileLive_def Let_def s1_def [symmetric])
  moreover have "limitsOf p (limitKey (sub_meta s) n) = None"
  proof (rule ccontr)
    assume "limitsOf p (limitKey (sub_meta s) n) \<noteq> None"
    then obtain v where "limitsOf p (limitKey (sub_meta s) n) = Some v" by blast
    with limitsOf_live [OF one c3(5,6)] obtain s' si where s': "s' \<in> liveSubs (view c) ns n"
      "subInfoOf ns n s' (ssp_modelRefs (sub_spec s')) = Some si" "limitKey (sub_meta s) n = limitKey (sub_meta s') n" by blast
    then obtain key where key: "w_subs (view c) key = Some s'" by (auto simp: liveSubs_def ran_def)
    from one ranI [of "w_subs (view c)", OF key] ranI [of "w_subs (view c)", OF s(1)] obtain sns where
      "om_namespace (sub_meta s) = sns" "om_namespace (sub_meta s') = sns"
      "CHR ''/'' \<notin> set (om_name (sub_meta s))" "CHR ''/'' \<notin> set (om_name (sub_meta s'))"
      unfolding oneNamespace_def by blast
    with limitKey_inj [OF _ s'(3)] stored_key(2) [OF key] stored_key(2) [OF s(1)] have "key = req" by (simp add: nsnOf_def)
    with key s(1) s'(2) ref show False by simp
  qed
  ultimately show ?thesis using c'(2-4) c4(3) c6(2) by auto
qed

end

text \<open>C36: a subscription whose limits are rejected is unlimited and reported Active. Take a subscription,
  not in deletion and with its finalizer, whose one reference has a limit that
  \<open>validateTokenRateLimit\<close> refuses, on a cluster without faults whose subscriptions live in one namespace. If
  the model has a route, another live subscription with valid limits, and an adoptable policy that Kuadrant
  has accepted, then reconciling the subscription succeeds and stores the phase Active for it, while the
  model's policy holds no limit for it.\<close>

theorem rejected_limit_is_active:
  assumes "api_server k view healthy" "healthy c" "oneNamespace (view c)"
    and "routable (view c) ns n m" "liveInfos (view c) ns n \<noteq> {}"
    and "w_subs (view c) req = Some s" "\<not> om_deleting (sub_meta s)" "hasFinalizer maasSubscriptionFinalizer (sub_meta s)"
    and "ssp_modelRefs (sub_spec s) = [ref]" "msr_namespace ref = ns" "msr_name ref = n"
    and "trl \<in> set (msr_tokenRateLimits ref)" "validateTokenRateLimit (trl_limit trl) (trl_window trl) \<noteq> None"
    and "w_policies (view c) TokenRateLimitPolicyKind (ns, trlpName n) = Some p0"
      "fst (getTRLPAcceptedCondition (lib_unstructured k) p0)"
  shows "\<exists>c' s' p. Reconcile k req c = (c', Inr ()) \<and> w_subs (view c') req = Some s' \<and>
    sst_phase (sub_status s') = PhaseActive \<and>
    w_policies (view c') TokenRateLimitPolicyKind (ns, trlpName n) = Some p \<and> limitsOf p (limitKey (sub_meta s) n) = None"
proof -
  have "ratesOf ref = None" using assms(12,13) by (auto simp: ratesOf_def list_all_iff)
  with api_server.reconcile_rejected [OF assms(1-11) _ assms(14,15)] show ?thesis by blast
qed

definition badSub :: MaaSSubscription where
  "badSub = (sampleSub ''bad'' 5 [sampleRef ''llm'' ''granite'' [(5, ''9999h'')]])
     \<lparr>sub_meta := (sampleMeta ''maas'' ''bad'')\<lparr>om_finalizers := [maasSubscriptionFinalizer]\<rparr>\<rparr>"

definition acceptedPolicy :: policy where
  "acceptedPolicy = (desiredTRLP ''llm'' ''granite'' ''granite'' ''llm'' [])\<lparr>gp_status := Some acceptedStatus\<rparr>"

definition badDb :: db where
  "badDb = withPolicies TokenRateLimitPolicyKind [acceptedPolicy]
     (sampleDb [sampleSub ''gold'' 10 [sampleRef ''llm'' ''granite'' [(500, ''1m'')]], badSub] [(''llm'', ''granite'')])"

lemma badDb_facts:
  "oneNamespace (db_view badDb)" "routable (db_view badDb) ''llm'' ''granite'' (sampleModel ''llm'' ''granite'')"
  "liveInfos (db_view badDb) ''llm'' ''granite'' \<noteq> {}" "w_subs (db_view badDb) (''maas'', ''bad'') = Some badSub"
  "w_policies (db_view badDb) TokenRateLimitPolicyKind (''llm'', trlpName ''granite'') = Some acceptedPolicy"
proof -
  show "oneNamespace (db_view badDb)"
    by (rule std_oneNamespace [where sns = "''maas''"]) code_simp
  have m: "tidy mod_meta (db_models badDb) (''llm'', ''granite'') = Some (sampleModel ''llm'' ''granite'')"
    "tidy rt_meta (db_routes badDb) (''llm'', ''granite'') = Some (sampleRoute ''llm'' ''granite'')" by code_simp+
  then have rn: "routeNames (db_view badDb) (sampleModel ''llm'' ''granite'') = {''granite''}"
    by (auto simp: routeNames_def sampleModel_def sampleMeta_def newMeta_def GetRouteResolver_def)
  have "tidy gp_meta (policiesOf badDb TokenRateLimitPolicyKind) (''llm'', trlpName ''granite'') = Some acceptedPolicy" by code_simp
  then show pol: "w_policies (db_view badDb) TokenRateLimitPolicyKind (''llm'', trlpName ''granite'') = Some acceptedPolicy" by simp
  have "adoptable o' acceptedPolicy" for o'
    using desiredTRLP_meta(5,6) [of "''llm''" "''granite''" "''granite''" "''llm''" "[]"] by (simp add: adoptable_def acceptedPolicy_def)
  moreover have "\<not> om_deleting (mod_meta (sampleModel ''llm'' ''granite''))" by code_simp
  ultimately show "routable (db_view badDb) ''llm'' ''granite'' (sampleModel ''llm'' ''granite'')"
    using m rn pol by (simp add: routable_def)
  let ?gold = "sampleSub ''gold'' 10 [sampleRef ''llm'' ''granite'' [(500, ''1m'')]]"
  have "tidy sub_meta (db_subs badDb) (''maas'', ''gold'') = Some ?gold" "\<not> om_deleting (sub_meta ?gold)"
    "subListed (Some (''llm'' @ ''/'' @ ''granite'')) ?gold" by code_simp+
  then have "?gold \<in> liveSubs (db_view badDb) ''llm'' ''granite''"
    unfolding liveSubs_def by (auto intro: ranI simp del: append_Cons append_Nil)
  moreover have "subInfoOf ''llm'' ''granite'' ?gold (ssp_modelRefs (sub_spec ?gold)) \<noteq> None" by code_simp
  ultimately show "liveInfos (db_view badDb) ''llm'' ''granite'' \<noteq> {}" unfolding liveInfos_def by blast
  have "tidy sub_meta (db_subs badDb) (''maas'', ''bad'') = Some badSub" by code_simp
  then show "w_subs (db_view badDb) (''maas'', ''bad'') = Some badSub" by simp
qed

theorem rejected_limit_is_active_witness:
  "\<exists>d' s' p. Reconcile std_client (''maas'', ''bad'') badDb = (d', Inr ()) \<and>
     w_subs (db_view d') (''maas'', ''bad'') = Some s' \<and> sst_phase (sub_status s') = PhaseActive \<and>
     w_policies (db_view d') TokenRateLimitPolicyKind (''llm'', trlpName ''granite'') = Some p \<and>
     limitsOf p (limitKey (sub_meta badSub) ''granite'') = None"
proof -
  let ?ref = "sampleRef ''llm'' ''granite'' [(5, ''9999h'')]" and ?trl = "\<lparr>trl_limit = 5, trl_window = ''9999h''\<rparr>"
  have up: "\<not> db_down badDb" and sub: "\<not> om_deleting (sub_meta badSub)" "hasFinalizer maasSubscriptionFinalizer (sub_meta badSub)"
    "ssp_modelRefs (sub_spec badSub) = [?ref]" "msr_namespace ?ref = ''llm''" "msr_name ?ref = ''granite''"
    "?trl \<in> set (msr_tokenRateLimits ?ref)" "validateTokenRateLimit (trl_limit ?trl) (trl_window ?trl) \<noteq> None"
    and acc: "fst (getTRLPAcceptedCondition (lib_unstructured std_client) acceptedPolicy)" by code_simp+
  show ?thesis
    by (rule rejected_limit_is_active [OF std.api_server_axioms up badDb_facts(1-4) sub badDb_facts(5) acc])
qed

text \<open>Two models of one name: the reconciler counts models by name only, so a missing model of the
  same name in another namespace makes the whole subscription Failed though its other model is valid.\<close>

lemma same_name_models_fail:
  "(let d = fst (Reconcile std_client (''maas'', ''s'') (sampleDb [sampleSub ''s'' 1
             [sampleRef ''a'' ''x'' [(5, ''1m'')], sampleRef ''b'' ''x'' [(5, ''1m'')]]] [(''a'', ''x'')]))
    in map_option (\<lambda>s. (sst_phase (sub_status s), map rs_ready (sst_modelRefStatuses (sub_status s))))
         (tidy sub_meta (db_subs d) (''maas'', ''s''))) = Some (PhaseFailed, [True, False])"
  by code_simp

text \<open>Limit keys join namespace and name with a dash: across namespaces they can collide.\<close>

lemma limitKey_collides:
  "limitKey (sampleMeta ''a'' ''b-c'') n = limitKey (sampleMeta ''a-b'' ''c'') n"
  by (simp add: limitKey_def safeKey_def subRef_def sampleMeta_def newMeta_def)

end
