(* ===== verification/AuthPolicy_Controller.thy ===== *)
theory AuthPolicy_Controller
  imports Generated_Policies Go_Json
begin

text \<open>
  \<open>maas-controller/pkg/controller/maas/maasauthpolicy_controller.go\<close>: the reconciler of MaaSAuthPolicy
  objects. For every model of a policy it aggregates the subjects of all live policies of that model
  into one Kuadrant AuthPolicy on the model's route: API key validation and subscription selection
  through maas-api, authentication, three authorization rules in Rego, and the response. The whole
  rule map is spelled out; its entries are listed in the order of the source. Log lines are left out,
  and setting \<open>spec\<close>, labels and annotations of an unstructured object cannot fail.
\<close>

section \<open>Configuration\<close>

record MaaSAuthPolicyReconciler =
  acr_MaaSAPINamespace :: string
  acr_TenantNamespace :: string
  acr_GatewayName :: string
  acr_ClusterAudience :: string
  acr_MetadataCacheTTL :: int
  acr_AuthzCacheTTL :: int

record oidcConfig =
  oc_IssuerURL :: string
  oc_ClientID :: string

definition defaultClusterAudience :: string where
  "defaultClusterAudience = ''https://kubernetes.default.svc''"

definition clusterAudience :: "MaaSAuthPolicyReconciler \<Rightarrow> string" where
  "clusterAudience r = (if acr_ClusterAudience r \<noteq> [] then acr_ClusterAudience r else defaultClusterAudience)"

definition authzCacheTTL :: "MaaSAuthPolicyReconciler \<Rightarrow> int" where
  "authzCacheTTL r =
     (let metadata = (if acr_MetadataCacheTTL r < 0 then 0 else acr_MetadataCacheTTL r);
          authz = (if acr_AuthzCacheTTL r < 0 then 0 else acr_AuthzCacheTTL r)
      in if authz < metadata then authz else metadata)"

definition ValidateCacheTTLs :: "MaaSAuthPolicyReconciler \<Rightarrow> cerror option" where
  "ValidateCacheTTLs r =
     (if acr_MetadataCacheTTL r < 0
      then Some (ErrText (''metadata cache TTL must be non-negative, got '' @ showInt (acr_MetadataCacheTTL r)))
      else if acr_AuthzCacheTTL r < 0
      then Some (ErrText (''authorization cache TTL must be non-negative, got '' @ showInt (acr_AuthzCacheTTL r)))
      else None)"

definition fetchOIDCConfig :: "'c client \<Rightarrow> MaaSAuthPolicyReconciler \<Rightarrow> ('c, oidcConfig option) call" where
  "fetchOIDCConfig k r =
     attempt (cl_getTenant k (acr_TenantNamespace r, TenantInstanceName))
       (\<lambda>res. case res of
          Inl err \<Rightarrow> ret None
        | Inr tenant \<Rightarrow>
            (case nestedMap (lib_unstructured k) tenant [''spec'', ''externalOIDC''] of
               (oidcSpec, found, err) \<Rightarrow>
                 if err \<noteq> None \<or> \<not> found then ret None
                 else
                   (case nestedString (lib_unstructured k) oidcSpec [''issuerUrl''] of
                      (issuerURL, _, err1) \<Rightarrow>
                        (case nestedString (lib_unstructured k) oidcSpec [''clientId''] of
                           (clientID, _, err2) \<Rightarrow>
                             if err1 \<noteq> None \<or> err2 \<noteq> None \<or> issuerURL = [] \<or> clientID = [] then ret None
                             else ret (Some \<lparr>oc_IssuerURL = issuerURL, oc_ClientID = clientID\<rparr>)))))"

section \<open>CEL expressions\<close>

definition newline :: string where "newline = [CHR 0x0A]"

definition celUserID :: string where
  "celUserID =
     ''(has(auth.metadata) && has(auth.metadata.apiKeyValidation)) '' @
     ''? auth.metadata.apiKeyValidation.userId '' @
     '': (has(auth.identity.preferred_username) ? auth.identity.preferred_username '' @
     '': (has(auth.identity.sub) ? auth.identity.sub : auth.identity.user.username))''"

definition celUsername :: string where
  "celUsername =
     ''(has(auth.metadata) && has(auth.metadata.apiKeyValidation)) '' @
     ''? auth.metadata.apiKeyValidation.username '' @
     '': (has(auth.identity.preferred_username) ? auth.identity.preferred_username '' @
     '': (has(auth.identity.sub) ? auth.identity.sub : auth.identity.user.username))''"

definition celGroups :: string where
  "celGroups =
     ''(has(auth.metadata) && has(auth.metadata.apiKeyValidation)) '' @
     ''? auth.metadata.apiKeyValidation.groups '' @
     '': (has(auth.identity.groups) ? auth.identity.groups : auth.identity.user.groups)''"

definition celSubscription :: string where
  "celSubscription =
     ''(has(auth.metadata) && has(auth.metadata.apiKeyValidation)) '' @
     ''? auth.metadata.apiKeyValidation.subscription : '' @
     ''(\"x-maas-subscription\" in request.headers ? request.headers[\"x-maas-subscription\"] : \"\")''"

definition subscriptionCacheKeySelector :: "string \<Rightarrow> string \<Rightarrow> string" where
  "subscriptionCacheKeySelector ns name =
     ''('' @ celUserID @ '') + \"|\" + ('' @ celGroups @ '').join(\",\") + \"|\" + ('' @ celSubscription @
     '') + \"|'' @ ns @ ''/'' @ name @ ''\"''"

definition authzCacheKeySelector :: "string \<Rightarrow> string \<Rightarrow> string" where
  "authzCacheKeySelector ns name =
     ''('' @ celUserID @ '') + \"|\" + ('' @ celGroups @ '').join(\",\") + \"|'' @ ns @ ''/'' @ name @
     ''\"''"

section \<open>The rules of a generated AuthPolicy\<close>

definition apiKeyValidationURL :: "MaaSAuthPolicyReconciler \<Rightarrow> string" where
  "apiKeyValidationURL r =
     ''https://maas-api.'' @ acr_MaaSAPINamespace r @ ''.svc.cluster.local:8443/internal/v1/api-keys/validate''"

definition subscriptionSelectorURL :: "MaaSAuthPolicyReconciler \<Rightarrow> string" where
  "subscriptionSelectorURL r =
     ''https://maas-api.'' @ acr_MaaSAPINamespace r @ ''.svc.cluster.local:8443/internal/v1/subscriptions/select''"

definition metadataRules :: "MaaSAuthPolicyReconciler \<Rightarrow> string \<Rightarrow> string \<Rightarrow> goany" where
  "metadataRules r ns name =
     GMap
       [(''apiKeyValidation'', GMap
         [(''when'', GSlice
           [GMap
             [(''selector'', GStr ''request.headers.authorization''),
              (''operator'', GStr ''matches''),
              (''value'', GStr ''^Bearer sk-oai-.*'')]]),
          (''http'', GMap
           [(''url'', GStr (apiKeyValidationURL r)),
            (''contentType'', GStr ''application/json''),
            (''method'', GStr ''POST''),
            (''body'', GMap
             [(''expression'', GStr ''{\"key\": request.headers.authorization.replace(\"Bearer \", \"\")}'')])]),
          (''cache'', GMap
           [(''key'', GMap [(''selector'', GStr ''request.headers.authorization.replace(\"Bearer \", \"\")'')]),
            (''ttl'', GInt (acr_MetadataCacheTTL r))]),
          (''metrics'', GBool False),
          (''priority'', GInt 0)]),
        (''subscription-info'', GMap
         [(''http'', GMap
           [(''url'', GStr (subscriptionSelectorURL r)),
            (''contentType'', GStr ''application/json''),
            (''method'', GStr ''POST''),
            (''body'', GMap
             [(''expression'', GStr (''{'' @ newline @ ''  \"groups\": '' @ celGroups @ '','' @ newline @ ''  \"username\": '' @ celUsername @
                 '','' @ newline @ ''  \"requestedSubscription\": '' @ celSubscription @ '','' @ newline @
                 ''  \"requestedModel\": \"'' @ ns @ ''/'' @ name @ ''\"'' @ newline @ ''}''))])]),
          (''cache'', GMap
           [(''key'', GMap [(''selector'', GStr (subscriptionCacheKeySelector ns name))]),
            (''ttl'', GInt (acr_MetadataCacheTTL r))]),
          (''metrics'', GBool False),
          (''priority'', GInt 1)])]"

definition authenticationMap :: "MaaSAuthPolicyReconciler \<Rightarrow> gomap" where
  "authenticationMap r =
     [(''api-keys'', GMap
         [(''plain'', GMap [(''selector'', GStr ''request.headers.authorization'')]),
          (''when'', GSlice
           [GMap
             [(''selector'', GStr ''request.headers.authorization''),
              (''operator'', GStr ''matches''),
              (''value'', GStr ''^Bearer sk-oai-.*'')]]),
          (''metrics'', GBool False),
          (''priority'', GInt 0)]),
        (''kubernetes-tokens'', GMap
         [(''kubernetesTokenReview'', GMap [(''audiences'', GSlice [GStr (clusterAudience r)])]),
          (''when'', GSlice
           [GMap
             [(''selector'', GStr ''request.url_path''),
              (''operator'', GStr ''matches''),
              (''value'', GStr ''.*/v1/models$'')],
            GMap
             [(''selector'', GStr ''request.headers.authorization''),
              (''operator'', GStr ''neq''),
              (''value'', GStr [])]]),
          (''metrics'', GBool False),
          (''priority'', GInt 1)])]"

definition jwtConfig :: "oidcConfig \<Rightarrow> goany" where
  "jwtConfig oidc = GMap [(''issuerUrl'', GStr (oc_IssuerURL oidc)), (''audiences'', GSlice [GStr (oc_ClientID oidc)])]"

definition oidcIdentities :: "oidcConfig \<Rightarrow> goany" where
  "oidcIdentities oidc =
     GMap
       [(''jwt'', jwtConfig oidc),
        (''when'', GSlice
         [GMap
           [(''selector'', GStr ''request.url_path''),
            (''operator'', GStr ''matches''),
            (''value'', GStr ''.*/v1/models$'')],
          GMap
           [(''predicate'', GStr (
               ''!request.headers.authorization.startsWith(\"Bearer sk-oai-\") && request.headers.authorization.matches(\"^Bearer [^.]+'' @
               [CHR 0x5C] @ [CHR 0x5C] @ ''.[^.]+'' @ [CHR 0x5C] @ [CHR 0x5C] @ ''.[^.]+$\")''))]]),
        (''metrics'', GBool False),
        (''priority'', GInt 2)]"

definition authValidRule :: "MaaSAuthPolicyReconciler \<Rightarrow> string \<Rightarrow> string \<Rightarrow> goany" where
  "authValidRule r ns name =
     GMap
       [(''metrics'', GBool False),
        (''priority'', GInt 0),
        (''opa'', GMap
         [(''rego'', GStr (''# API key authentication: validate the key'' @ newline @ ''allow {'' @ newline @
             ''  object.get(input.auth.metadata, \"apiKeyValidation\", {})'' @ newline @
             ''  input.auth.metadata.apiKeyValidation.valid == true'' @ newline @ ''}'' @ newline @ newline @
             ''# Kubernetes token authentication: check identity exists'' @ newline @ ''allow {'' @ newline @
             ''  object.get(input.auth.identity, \"user\", {}).username != \"\"'' @ newline @ ''}'' @ newline @ newline @
             ''# OIDC token authentication: check JWT subject exists'' @ newline @ ''allow {'' @ newline @
             ''  object.get(input.auth.identity, \"sub\", \"\") != \"\"'' @ newline @ ''}''))]),
        (''cache'', GMap
         [(''key'', GMap
           [(''selector'', GStr (''(has(auth.metadata.apiKeyValidation) ? \"api-key|\" + '' @
               ''request.headers.authorization.replace(\"Bearer \", \"\") : '' @
               ''(has(auth.identity.sub) ? \"oidc|\" + auth.identity.sub : '' @
               ''\"k8s-token|\" + auth.identity.user.username)) + \"|'' @ ns @ ''/'' @ name @ ''\"''))]),
          (''ttl'', GInt (authzCacheTTL r))])]"

definition subscriptionValidRule :: "MaaSAuthPolicyReconciler \<Rightarrow> string \<Rightarrow> string \<Rightarrow> goany" where
  "subscriptionValidRule r ns name =
     GMap
       [(''metrics'', GBool False),
        (''priority'', GInt 0),
        (''opa'', GMap
         [(''rego'', GStr (''allow {'' @ newline @ [CHR 0x09] @ ''# Subscription name must be present (selector succeeded)'' @
             newline @ [CHR 0x09] @ ''object.get(input.auth.metadata[\"subscription-info\"], \"name\", \"\") != \"\"'' @
             newline @ [CHR 0x09] @ ''# Error field must be empty (no validation errors from selector)'' @ newline @
             [CHR 0x09] @ ''object.get(input.auth.metadata[\"subscription-info\"], \"error\", \"\") == \"\"'' @ newline @
             [CHR 0x09] @ ''# Allowlist: phase must be exactly \"Active\" or \"Degraded\" (reject empty/unreconciled)'' @
             newline @ [CHR 0x09] @ ''phase := object.get(input.auth.metadata[\"subscription-info\"], \"phase\", \"\")'' @
             newline @ [CHR 0x09] @ ''any([phase == \"Active\", phase == \"Degraded\"])'' @ newline @ [CHR 0x09] @
             ''# Subscription must not be deleting'' @ newline @ [CHR 0x09] @
             ''object.get(input.auth.metadata[\"subscription-info\"], \"deletionTimestamp\", \"\") == \"\"'' @ newline @
             ''}''))]),
        (''cache'', GMap
         [(''key'', GMap [(''selector'', GStr (subscriptionCacheKeySelector ns name))]),
          (''ttl'', GInt (authzCacheTTL r))])]"

definition membershipRego :: "string list \<Rightarrow> string list \<Rightarrow> string" where
  "membershipRego allowedGroups allowedUsers =
     newline @ ''# Allowed groups and users from all MaaSAuthPolicies'' @ newline @
     ''allowed_groups := '' @ jsonStrings allowedGroups @ newline @ ''allowed_users := '' @
     jsonStrings allowedUsers @ newline @ newline @
     ''# Extract username from API key, OIDC, or K8s token'' @ newline @
     ''username := input.auth.metadata.apiKeyValidation.username'' @ newline @
     ''    { object.get(input.auth, \"metadata\", {}).apiKeyValidation.username != \"\" }'' @ newline @
     ''else := input.auth.identity.preferred_username'' @ newline @
     ''    { object.get(input.auth, \"identity\", {}).preferred_username != \"\" }'' @ newline @
     ''else := input.auth.identity.sub'' @ newline @
     ''    { object.get(input.auth, \"identity\", {}).sub != \"\" }'' @ newline @
     ''else := input.auth.identity.user.username'' @ newline @
     ''    { object.get(input.auth, \"identity\", {}).user.username != \"\" }'' @ newline @
     ''else := \"\"'' @ newline @ newline @ ''# Extract groups from API key, OIDC, or K8s token'' @
     newline @ ''groups := input.auth.metadata.apiKeyValidation.groups'' @ newline @
     ''    { object.get(input.auth, \"metadata\", {}).apiKeyValidation.groups != [] }'' @ newline @
     ''else := input.auth.identity.groups'' @ newline @
     ''    { object.get(input.auth, \"identity\", {}).groups != [] }'' @ newline @
     ''else := input.auth.identity.user.groups'' @ newline @
     ''    { object.get(input.auth, \"identity\", {}).user.groups != [] }'' @ newline @ ''else := []'' @
     newline @ newline @ ''# Allow if user is in allowed users'' @ newline @ ''allow {'' @ newline @
     ''    username == allowed_users[_]'' @ newline @ ''}'' @ newline @ newline @
     ''# Allow if any user group is in allowed groups'' @ newline @ ''allow {'' @ newline @
     ''    groups[_] == allowed_groups[_]'' @ newline @ ''}'' @ newline"

definition membershipRule ::
  "MaaSAuthPolicyReconciler \<Rightarrow> string \<Rightarrow> string \<Rightarrow> string list \<Rightarrow> string list \<Rightarrow> goany" where
  "membershipRule r ns name allowedGroups allowedUsers =
     GMap
       [(''metrics'', GBool False),
        (''priority'', GInt 0),
        (''opa'', GMap [(''rego'', GStr (membershipRego allowedGroups allowedUsers))]),
        (''cache'', GMap
         [(''key'', GMap [(''selector'', GStr (authzCacheKeySelector ns name))]),
          (''ttl'', GInt (authzCacheTTL r))])]"

definition responseRule :: "string \<Rightarrow> string \<Rightarrow> goany" where
  "responseRule ns name =
     GMap
       [(''success'', GMap
         [(''headers'', GMap
           [(''Authorization'', GMap
             [(''plain'', GMap [(''value'', GStr [])]),
              (''key'', GStr ''authorization''),
              (''metrics'', GBool False),
              (''priority'', GInt 0)]),
            (''X-MaaS-Subscription'', GMap
             [(''plain'', GMap
               [(''expression'', GStr ''(has(auth.metadata) && has(auth.metadata.apiKeyValidation)) ? auth.metadata.apiKeyValidation.subscription : \"\"'')]),
              (''metrics'', GBool False),
              (''priority'', GInt 0)])]),
          (''filters'', GMap
           [(''identity'', GMap
             [(''json'', GMap
               [(''properties'', GMap
                 [(''groups'', GMap [(''expression'', GStr ''auth.metadata.apiKeyValidation.groups'')]),
                  (''groups_str'', GMap [(''expression'', GStr ''auth.metadata.apiKeyValidation.groups.join(\",\")'')]),
                  (''userid'', GMap [(''selector'', GStr ''auth.metadata.apiKeyValidation.username'')]),
                  (''keyId'', GMap [(''selector'', GStr ''auth.metadata.apiKeyValidation.keyId'')]),
                  (''selected_subscription'', GMap
                   [(''expression'', GStr ''has(auth.metadata[\"subscription-info\"].name) ? auth.metadata[\"subscription-info\"].name : \"\"'')]),
                  (''selected_subscription_key'', GMap
                   [(''expression'', GStr (''has(auth.metadata[\"subscription-info\"].namespace) && '' @
                       ''has(auth.metadata[\"subscription-info\"].name) '' @
                       ''? auth.metadata[\"subscription-info\"].namespace + \"/\" '' @
                       ''+ auth.metadata[\"subscription-info\"].name + \"@'' @ ns @ ''/'' @ name @ ''\" : \"\"''))]),
                  (''subscription_info'', GMap
                   [(''expression'', GStr ''has(auth.metadata[\"subscription-info\"].name) ? auth.metadata[\"subscription-info\"] : {}'')]),
                  (''subscription_error'', GMap
                   [(''expression'', GStr ''has(auth.metadata[\"subscription-info\"].error) ? auth.metadata[\"subscription-info\"].error : \"\"'')]),
                  (''subscription_error_message'', GMap
                   [(''expression'', GStr ''has(auth.metadata[\"subscription-info\"].message) ? auth.metadata[\"subscription-info\"].message : \"\"'')])])]),
              (''metrics'', GBool True),
              (''priority'', GInt 0)])])]),
        (''unauthenticated'', GMap [(''code'', GInt 401), (''message'', GMap [(''value'', GStr ''Authentication required'')])]),
        (''unauthorized'', GMap
         [(''code'', GInt 403),
          (''body'', GMap
           [(''expression'', GStr ''has(auth.metadata[\"subscription-info\"].message) ? auth.metadata[\"subscription-info\"].message : \"Access denied\"'')]),
          (''headers'', GMap
           [(''x-ext-auth-reason'', GMap
             [(''expression'', GStr ''has(auth.metadata[\"subscription-info\"].error) ? auth.metadata[\"subscription-info\"].error : \"unauthorized\"'')]),
            (''content-type'', GMap [(''value'', GStr ''text/plain'')])])])]"

text \<open>\<open>rule["authentication"]\<close>: the OIDC entry is there only when the Tenant configures it.\<close>

definition authenticationRules :: "MaaSAuthPolicyReconciler \<Rightarrow> oidcConfig option \<Rightarrow> goany" where
  "authenticationRules r oidc =
     (case oidc of
        Some cfg \<Rightarrow> if oc_IssuerURL cfg \<noteq> [] then GMap (authenticationMap r @ [(''oidc-identities'', oidcIdentities cfg)])
                    else GMap (authenticationMap r)
      | None \<Rightarrow> GMap (authenticationMap r))"

definition authRules ::
  "MaaSAuthPolicyReconciler \<Rightarrow> string \<Rightarrow> string \<Rightarrow> string list \<Rightarrow> string list \<Rightarrow> gomap" where
  "authRules r ns name allowedGroups allowedUsers =
     [(''auth-valid'', authValidRule r ns name), (''subscription-valid'', subscriptionValidRule r ns name)] @
     (if length allowedGroups > 0 \<or> length allowedUsers > 0
      then [(''require-group-membership'', membershipRule r ns name allowedGroups allowedUsers)] else [])"

definition authRule ::
  "MaaSAuthPolicyReconciler \<Rightarrow> oidcConfig option \<Rightarrow> string \<Rightarrow> string \<Rightarrow> string list \<Rightarrow> string list \<Rightarrow> gomap" where
  "authRule r oidc ns name allowedGroups allowedUsers =
     [(''metadata'', metadataRules r ns name), (''authentication'', authenticationRules r oidc),
      (''authorization'', GMap (authRules r ns name allowedGroups allowedUsers)), (''response'', responseRule ns name)]"

section \<open>Aggregating the subjects\<close>

definition deduplicateAndSort :: "string list \<Rightarrow> string list" where
  "deduplicateAndSort items = (if length items = 0 then items else sort (remdups items))"

definition firstInvalid :: "string \<Rightarrow> string list \<Rightarrow> cerror option" where
  "firstInvalid fieldName values =
     (case find (\<lambda>v. validateCELValue v fieldName \<noteq> None) values of
        None \<Rightarrow> None | Some v \<Rightarrow> validateCELValue v fieldName)"

fun collectSubjects :: "MaaSAuthPolicy list \<Rightarrow> cerror + (string list \<times> string list \<times> string list)" where
  "collectSubjects [] = Inr ([], [], [])"
| "collectSubjects (ap # aps) =
     (let groups = sj_groups (asp_subjects (ap_spec ap)); users = sj_users (asp_subjects (ap_spec ap));
          bad = (case firstInvalid ''group name'' groups of Some e \<Rightarrow> Some e | None \<Rightarrow> firstInvalid ''username'' users)
      in case bad of
           Some e \<Rightarrow> Inl (Wrap (''invalid subject in MaaSAuthPolicy '' @ om_name (ap_meta ap) @ '': '') e [])
         | None \<Rightarrow>
             (case collectSubjects aps of
                Inl e \<Rightarrow> Inl e
              | Inr (names, gs, us) \<Rightarrow> Inr (om_name (ap_meta ap) # names, groups @ gs, users @ us)))"

record authPolicyRef =
  apr_Name :: string
  apr_Namespace :: string
  apr_Model :: string
  apr_ModelNamespace :: string

definition authPolicyName :: "string \<Rightarrow> string" where
  "authPolicyName modelName = ''maas-auth-'' @ modelName"

definition authModelLabels :: "string \<Rightarrow> (string \<times> string) list" where
  "authModelLabels modelName =
     [(''maas.opendatahub.io/model'', modelName), (''app.kubernetes.io/managed-by'', ''maas-controller''),
      (''app.kubernetes.io/part-of'', ''maas-auth-policy'')]"

definition desiredAuthPolicy ::
  "MaaSAuthPolicyReconciler \<Rightarrow> oidcConfig option \<Rightarrow> ModelRef \<Rightarrow> string \<Rightarrow> string \<Rightarrow>
     string list \<Rightarrow> string list \<Rightarrow> string list \<Rightarrow> policy" where
  "desiredAuthPolicy r oidc ref httpRouteName httpRouteNS policyNames allowedGroups allowedUsers =
     \<lparr>gp_meta = newMeta (authPolicyName (ref_name ref)) httpRouteNS
        (authModelLabels (ref_name ref) @ [(''app.kubernetes.io/component'', ''auth-policy'')])
        [(''maas.opendatahub.io/auth-policies'', joinStrings '','' policyNames)],
      gp_owner = None,
      gp_spec = [(''targetRef'', GMap [(''group'', GStr ''gateway.networking.k8s.io''), (''kind'', GStr ''HTTPRoute''),
                                      (''name'', GStr httpRouteName)]),
                 (''rules'', GMap (authRule r oidc (ref_namespace ref) (ref_name ref) allowedGroups allowedUsers))],
      gp_status = None\<rparr>"

section \<open>Reconciling the policies of the models\<close>

definition deleteModelAuthPolicy :: "'c client \<Rightarrow> string \<Rightarrow> string \<Rightarrow> ('c, unit) call" where
  "deleteModelAuthPolicy k modelNamespace modelName =
     attempt (cl_listPolicies k AuthPolicyKind
                \<lparr>lo_namespace = Some modelNamespace, lo_labels = authModelLabels modelName\<rparr>)
       (\<lambda>r. case r of
          Inl err \<Rightarrow> if isNotFound err \<or> isNoMatchError err then ret ()
                      else fail (Wrap ''failed to list AuthPolicies for cleanup: '' err [])
        | Inr items \<Rightarrow> forE (deleteListed k AuthPolicyKind ''failed to delete AuthPolicy '') items)"

text \<open>Create the policy or bring the existing one in step.\<close>

definition applyAuthPolicy :: "'c client \<Rightarrow> ModelRef \<Rightarrow> policy \<Rightarrow> ('c, unit) call" where
  "applyAuthPolicy k ref desired =
     (let modelKey = ref_namespace ref @ ''/'' @ ref_name ref
      in attempt (cl_getPolicy k AuthPolicyKind (nsnOf (gp_meta desired)))
           (\<lambda>r. case r of
              Inl err \<Rightarrow>
                if isNotFound err
                then wrapErr (''failed to create AuthPolicy for model '' @ modelKey @ '': '')
                       (cl_createPolicy k AuthPolicyKind desired)
                else fail (Wrap ''failed to get existing AuthPolicy: '' err [])
            | Inr existing \<Rightarrow>
                if \<not> isManaged (gp_meta existing) then ret ()
                else
                  let updated = mergePolicy existing desired
                  in if lib_equalPolicy k existing updated then ret ()
                     else wrapErr (''failed to update AuthPolicy for model '' @ modelKey @ '': '')
                            (cl_updatePolicy k AuthPolicyKind updated)))"

text \<open>The part of the loop body after the route is known.\<close>

definition buildAuthPolicy ::
  "'c client \<Rightarrow> MaaSAuthPolicyReconciler \<Rightarrow> oidcConfig option \<Rightarrow> ModelRef \<Rightarrow> string \<Rightarrow> string \<Rightarrow> ('c, authPolicyRef) call" where
  "buildAuthPolicy k r oidc ref httpRouteName httpRouteNS =
     (let modelKey = ref_namespace ref @ ''/'' @ ref_name ref
      in case validateCELValue (ref_namespace ref) ''model namespace'' of
           Some err \<Rightarrow> fail (Wrap (''invalid model namespace in modelRef '' @ modelKey @ '': '') err [])
         | None \<Rightarrow>
             (case validateCELValue (ref_name ref) ''model name'' of
                Some err \<Rightarrow> fail (Wrap (''invalid model name in modelRef '' @ modelKey @ '': '') err [])
              | None \<Rightarrow>
                  bnd (wrapErr (''failed to list auth policies for model '' @ modelKey @ '': '')
                         (findAllAuthPoliciesForModel k (ref_namespace ref) (ref_name ref)))
                    (\<lambda>allPolicies.
                       case collectSubjects allPolicies of
                         Inl err \<Rightarrow> fail err
                       | Inr (policyNames, allowedGroups, allowedUsers) \<Rightarrow>
                           bnd (applyAuthPolicy k ref
                                  (desiredAuthPolicy r oidc ref httpRouteName httpRouteNS (deduplicateAndSort policyNames)
                                     (deduplicateAndSort allowedGroups) (deduplicateAndSort allowedUsers)))
                             (\<lambda>_. ret \<lparr>apr_Name = authPolicyName (ref_name ref), apr_Namespace = httpRouteNS,
                                      apr_Model = ref_name ref, apr_ModelNamespace = ref_namespace ref\<rparr>))))"

text \<open>One round of the loop over the model references; \<^const>\<open>None\<close> where the source continues
  without a reference.\<close>

definition reconcileModelAuthPolicy ::
  "'c client \<Rightarrow> MaaSAuthPolicyReconciler \<Rightarrow> oidcConfig option \<Rightarrow> ModelRef \<Rightarrow> ('c, authPolicyRef option) call" where
  "reconcileModelAuthPolicy k r oidc ref =
     (let modelKey = ref_namespace ref @ ''/'' @ ref_name ref
      in attempt (findHTTPRouteForModel k (ref_namespace ref) (ref_name ref))
           (\<lambda>res. case res of
              Inl err \<Rightarrow>
                if errIs err ErrModelNotFound
                then bnd (wrapErr (''failed to clean up AuthPolicy for missing model '' @ modelKey @ '': '')
                            (deleteModelAuthPolicy k (ref_namespace ref) (ref_name ref))) (\<lambda>_. ret None)
                else if errIs err ErrHTTPRouteNotFound then ret None
                else fail (Wrap (''failed to resolve HTTPRoute for model '' @ modelKey @ '': '') err [])
            | Inr (httpRouteName, httpRouteNS) \<Rightarrow>
                bnd (buildAuthPolicy k r oidc ref httpRouteName httpRouteNS) (\<lambda>apr. ret (Some apr))))"

definition staleAuthPolicy :: "MaaSAuthPolicy \<Rightarrow> policy \<Rightarrow> bool" where
  "staleAuthPolicy pol ap =
     (let modelName = strMapIndex (om_labels (gp_meta ap)) ''maas.opendatahub.io/model'';
          modelKey = om_namespace (gp_meta ap) @ ''/'' @ modelName
      in modelName \<noteq> [] \<and>
         \<not> List.member (map (\<lambda>ref. ref_namespace ref @ ''/'' @ ref_name ref) (asp_modelRefs (ap_spec pol))) modelKey \<and>
         List.member (goSplit (CHR '','') (strMapIndex (om_annotations (gp_meta ap)) ''maas.opendatahub.io/auth-policies''))
           (om_name (ap_meta pol)))"

definition cleanupStaleAuthPolicies :: "'c client \<Rightarrow> MaaSAuthPolicy \<Rightarrow> ('c, unit) call" where
  "cleanupStaleAuthPolicies k pol =
     attempt (cl_listPolicies k AuthPolicyKind
                \<lparr>lo_namespace = None,
                 lo_labels = [(''app.kubernetes.io/managed-by'', ''maas-controller''),
                              (''app.kubernetes.io/part-of'', ''maas-auth-policy'')]\<rparr>)
       (\<lambda>r. case r of
          Inl err \<Rightarrow> if isNotFound err \<or> isNoMatchError err then ret ()
                      else fail (Wrap ''failed to list managed AuthPolicies for stale cleanup: '' err [])
        | Inr items \<Rightarrow>
            forE (\<lambda>ap.
                    if \<not> staleAuthPolicy pol ap then ret ()
                    else
                      let modelName = strMapIndex (om_labels (gp_meta ap)) ''maas.opendatahub.io/model''
                      in wrapErr (''failed to clean up stale AuthPolicy for removed model '' @
                             om_namespace (gp_meta ap) @ ''/'' @ modelName @ '': '')
                           (deleteModelAuthPolicy k (om_namespace (gp_meta ap)) modelName)) items)"

definition reconcileModelAuthPolicies ::
  "'c client \<Rightarrow> MaaSAuthPolicyReconciler \<Rightarrow> MaaSAuthPolicy \<Rightarrow> oidcConfig option \<Rightarrow> ('c, authPolicyRef list) call" where
  "reconcileModelAuthPolicies k r pol oidc =
     bnd (mapE (reconcileModelAuthPolicy k r oidc) (asp_modelRefs (ap_spec pol)))
       (\<lambda>refs. bnd (cleanupStaleAuthPolicies k pol) (\<lambda>_. ret (List.map_filter (\<lambda>x. x) refs)))"

section \<open>Status\<close>

primrec findMissing :: "'c client \<Rightarrow> ModelRef list \<Rightarrow> ('c, ModelRef list) call" where
  "findMissing k [] = ret []"
| "findMissing k (ref # refs) =
     attempt (cl_getModel k (ref_namespace ref, ref_name ref))
       (\<lambda>r. bnd (findMissing k refs) (\<lambda>missing. ret (case r of Inl _ \<Rightarrow> ref # missing | Inr _ \<Rightarrow> missing)))"

definition findMissingModelRefs :: "'c client \<Rightarrow> MaaSAuthPolicy \<Rightarrow> ('c, ModelRef list) call" where
  "findMissingModelRefs k pol = findMissing k (asp_modelRefs (ap_spec pol))"

definition deriveAuthPolicyPhase :: "MaaSAuthPolicy \<Rightarrow> ModelRef list \<Rightarrow> string \<times> string" where
  "deriveAuthPolicyPhase pol missingModels =
     (let totalModels = int (length (asp_modelRefs (ap_spec pol)));
          missingCount = int (length missingModels);
          validModels = totalModels - missingCount;
          aps = ast_authPolicies (ap_status pol);
          healthyPolicies = int (length (filter rs_ready aps));
          unhealthyPolicies = int (length (filter (\<lambda>s. \<not> rs_ready s) aps))
      in if validModels = 0
         then (PhaseFailed, ''all '' @ showInt totalModels @ '' model references are invalid or missing'')
         else if missingCount > 0
         then (PhaseDegraded, showInt missingCount @ '' of '' @ showInt totalModels @ '' model references are missing'')
         else if unhealthyPolicies > 0
         then (PhaseDegraded, showInt unhealthyPolicies @ '' of '' @ showInt (int (length aps)) @
                 '' AuthPolicies not accepted/enforced'')
         else if healthyPolicies = 0 then (PhaseDegraded, ''no generated AuthPolicies attached to models'')
         else (PhaseActive, ''successfully reconciled''))"

text \<open>The loop over the conditions: accepted, enforced and the message of each that is not.\<close>

fun readyStep :: "bool \<times> bool \<times> string \<times> string \<Rightarrow> goany \<Rightarrow> bool \<times> bool \<times> string \<times> string" where
  "readyStep (accepted, enforced, acceptedMsg, enforcedMsg) (GMap cond) =
     (let typ = strField cond ''type''; status = strField cond ''status''; msg = strField cond ''message''
      in if typ = ''Accepted''
         then (status = ''True'', enforced, if status = ''True'' then acceptedMsg else msg, enforcedMsg)
         else if typ = ''Enforced''
         then (accepted, status = ''True'', acceptedMsg, if status = ''True'' then enforcedMsg else msg)
         else (accepted, enforced, acceptedMsg, enforcedMsg))"
| "readyStep st _ = st"

definition getAuthPolicyReadyState :: "nested_api \<Rightarrow> policy \<Rightarrow> bool \<times> string \<times> string" where
  "getAuthPolicyReadyState api ap =
     (case nestedSlice api (policyObject ap) [''status'', ''conditions''] of
        (conditions, found, err) \<Rightarrow>
          if err \<noteq> None \<or> \<not> found \<or> length conditions = 0
          then (False, ReasonConditionsNotFound, ''status conditions not available'')
          else
            (case foldl readyStep (False, False, [], []) conditions of
               (accepted, enforced, acceptedMsg, enforcedMsg) \<Rightarrow>
                 if accepted \<and> enforced then (True, ReasonAcceptedEnforced, [])
                 else if \<not> accepted then (False, ReasonNotAccepted, acceptedMsg)
                 else (False, ReasonNotEnforced, enforcedMsg)))"

definition authPolicyRefStatus :: "'c client \<Rightarrow> authPolicyRef \<Rightarrow> ('c, AuthPolicyRefStatus) call" where
  "authPolicyRefStatus k ref =
     attempt (cl_getPolicy k AuthPolicyKind (apr_Namespace ref, apr_Name ref))
       (\<lambda>res.
          let (ready, reason, message) =
                (case res of
                   Inl err \<Rightarrow> if isNotFound err then (False, ReasonNotFound, ''AuthPolicy not created yet'')
                               else (False, ReasonGetFailed, ''failed to get AuthPolicy: '' @ errText err)
                 | Inr ap \<Rightarrow> getAuthPolicyReadyState (lib_unstructured k) ap)
          in ret \<lparr>rs_name = apr_Name ref, rs_namespace = apr_Namespace ref, rs_ready = ready, rs_reason = reason,
                 rs_message = message, ars_model = apr_Model ref, ars_modelNamespace = apr_ModelNamespace ref\<rparr>)"

definition updateAuthPolicyRefStatus ::
  "'c client \<Rightarrow> MaaSAuthPolicy \<Rightarrow> authPolicyRef list \<Rightarrow> ('c, MaaSAuthPolicy) call" where
  "updateAuthPolicyRefStatus k pol refs =
     bnd (mapE (authPolicyRefStatus k) refs)
       (\<lambda>statuses. ret (pol\<lparr>ap_status := (ap_status pol)\<lparr>ast_authPolicies := statuses\<rparr>\<rparr>))"

text \<open>The status update never returns an error.\<close>

definition AuthPolicy_updateStatus ::
  "'c client \<Rightarrow> MaaSAuthPolicy \<Rightarrow> string \<Rightarrow> string \<Rightarrow> MaaSAuthPolicyStatus \<Rightarrow> ('c, unit) call" where
  "AuthPolicy_updateStatus k pol phase message statusSnapshot =
     (let status = (ap_status pol)\<lparr>ast_phase := phase,
            ast_conditions := lib_setStatusCondition k (ast_conditions (ap_status pol))
              (readyCondition phase message (om_generation (ap_meta pol)))\<rparr>
      in if statusSnapshot = status then ret ()
         else attempt (cl_statusAuth k (pol\<lparr>ap_status := status\<rparr>)) (\<lambda>_. ret ()))"

section \<open>Reconcile\<close>

definition maasAuthPolicyFinalizer :: string where
  "maasAuthPolicyFinalizer = ''maas.opendatahub.io/authpolicy-cleanup''"

definition AuthPolicy_handleDeletion :: "'c client \<Rightarrow> MaaSAuthPolicy \<Rightarrow> ('c, unit) call" where
  "AuthPolicy_handleDeletion k pol =
     (if hasFinalizer maasAuthPolicyFinalizer (ap_meta pol)
      then bnd (forE (\<lambda>ref. deleteModelAuthPolicy k (ref_namespace ref) (ref_name ref)) (asp_modelRefs (ap_spec pol)))
             (\<lambda>_. bnd (cleanupStaleAuthPolicies k pol)
               (\<lambda>_. cl_updateAuth k (pol\<lparr>ap_meta := removeFinalizer maasAuthPolicyFinalizer (ap_meta pol)\<rparr>)))
      else ret ())"

definition AuthPolicy_reconcileLive ::
  "'c client \<Rightarrow> MaaSAuthPolicyReconciler \<Rightarrow> oidcConfig option \<Rightarrow> MaaSAuthPolicy \<Rightarrow> ('c, unit) call" where
  "AuthPolicy_reconcileLive k r oidc pol =
     (let statusSnapshot = ap_status pol
      in bnd (findMissingModelRefs k pol)
           (\<lambda>missingModels.
              attempt (reconcileModelAuthPolicies k r pol oidc)
                (\<lambda>res. case res of
                   Inl err \<Rightarrow>
                     bnd (AuthPolicy_updateStatus k pol PhaseFailed (''Failed to reconcile: '' @ errText err) statusSnapshot)
                       (\<lambda>_. fail err)
                 | Inr refs \<Rightarrow>
                     bnd (updateAuthPolicyRefStatus k pol refs)
                       (\<lambda>pol1. case deriveAuthPolicyPhase pol1 missingModels of
                          (phase, message) \<Rightarrow> AuthPolicy_updateStatus k pol1 phase message statusSnapshot))))"

definition AuthPolicy_Reconcile :: "'c client \<Rightarrow> MaaSAuthPolicyReconciler \<Rightarrow> nsn \<Rightarrow> ('c, unit) call" where
  "AuthPolicy_Reconcile k r req =
     bnd (fetchOIDCConfig k r)
       (\<lambda>oidc.
          attempt (cl_getAuth k req)
            (\<lambda>res. case res of
               Inl err \<Rightarrow> if isNotFound err then ret () else fail err
             | Inr pol \<Rightarrow>
                 if om_deleting (ap_meta pol) then AuthPolicy_handleDeletion k pol
                 else if \<not> hasFinalizer maasAuthPolicyFinalizer (ap_meta pol)
                 then let pol1 = pol\<lparr>ap_meta := addFinalizer maasAuthPolicyFinalizer (ap_meta pol)\<rparr>
                      in bnd (cl_updateAuth k pol1) (\<lambda>_. AuthPolicy_reconcileLive k r oidc pol1)
                 else AuthPolicy_reconcileLive k r oidc pol))"

section \<open>Watches\<close>

definition mapTenantToMaaSAuthPolicies :: "'c client \<Rightarrow> ('c, nsn list) call" where
  "mapTenantToMaaSAuthPolicies k =
     attempt (cl_listAuths k)
       (\<lambda>r. case r of Inl _ \<Rightarrow> ret [] | Inr items \<Rightarrow> ret (map (\<lambda>p. nsnOf (ap_meta p)) items))"

definition mapGeneratedAuthPolicyToParent :: "'c client \<Rightarrow> ObjectMeta \<Rightarrow> ('c, nsn list) call" where
  "mapGeneratedAuthPolicyToParent k obj =
     (let labels = om_labels obj; modelName = strMapIndex labels ''maas.opendatahub.io/model''
      in if strMapIndex labels ''app.kubernetes.io/managed-by'' \<noteq> ''maas-controller'' then ret []
         else if modelName = [] then ret []
         else bnd (findAnyAuthPolicyForModel k (om_namespace obj) modelName)
                (\<lambda>ap. case ap of None \<Rightarrow> ret [] | Some p \<Rightarrow> ret [nsnOf (ap_meta p)]))"

definition mapMaaSModelRefToMaaSAuthPolicies :: "'c client \<Rightarrow> MaaSModelRef \<Rightarrow> ('c, nsn list) call" where
  "mapMaaSModelRefToMaaSAuthPolicies k model =
     attempt (cl_listAuths k)
       (\<lambda>r. case r of
          Inl _ \<Rightarrow> ret []
        | Inr items \<Rightarrow> ret (map (\<lambda>p. nsnOf (ap_meta p))
            (filter (refersTo (om_namespace (mod_meta model)) (om_name (mod_meta model))) items)))"

definition mapHTTPRouteToMaaSAuthPolicies :: "'c client \<Rightarrow> HTTPRoute \<Rightarrow> ('c, nsn list) call" where
  "mapHTTPRouteToMaaSAuthPolicies k route =
     attempt (cl_listModels k (Some (om_namespace (rt_meta route))) None)
       (\<lambda>r. case r of
          Inl _ \<Rightarrow> ret []
        | Inr models \<Rightarrow>
            let modelKeysInNS = map (\<lambda>m. om_namespace (mod_meta m) @ ''/'' @ om_name (mod_meta m)) models
            in if modelKeysInNS = [] then ret []
               else attempt (cl_listAuths k)
                 (\<lambda>r2. case r2 of
                    Inl _ \<Rightarrow> ret []
                  | Inr items \<Rightarrow> ret (map (\<lambda>p. nsnOf (ap_meta p))
                      (filter (\<lambda>p. list_ex (\<lambda>ref. List.member modelKeysInNS (ref_namespace ref @ ''/'' @ ref_name ref))
                         (asp_modelRefs (ap_spec p))) items))))"

end
