(* ===== verification/AuthPolicy_Rules.thy ===== *)
theory AuthPolicy_Rules
  imports AuthPolicy_Controller Sample_Cluster
begin

text \<open>
  What the AuthPolicy reconciler achieves: the JSON lists in the generated Rego read back to the
  subjects they were made from, the generated policy admits exactly the subjects of the live
  MaaSAuthPolicies of the model, subjects that could break out of an expression are refused,
  authorization caches never outlive the metadata they rest on, and protected policies are kept.
\<close>

section \<open>Reading JSON lists of strings\<close>

text \<open>A reference reader for the lists that \<^const>\<open>jsonStrings\<close> writes.\<close>

definition hexValue :: "char \<Rightarrow> nat" where
  "hexValue ch = (if of_char ch < (58 :: nat) then of_char ch - 48 else of_char ch - 87)"

fun readBody :: "string \<Rightarrow> (string \<times> string) option" where
  "readBody [] = None"
| "readBody (ch # cs) =
     (if ch = CHR 0x22 then Some ([], cs)
      else if ch = CHR 0x5C then
        (case cs of
           [] \<Rightarrow> None
         | e # rest \<Rightarrow>
             if e = CHR ''u'' then
               (case rest of
                  _ # _ # a # b # rest' \<Rightarrow>
                    map_option (\<lambda>(s, t). (char_of (16 * hexValue a + hexValue b) # s, t)) (readBody rest')
                | _ \<Rightarrow> None)
             else
               map_option (\<lambda>(s, t). ((if e = CHR ''b'' then CHR 0x08 else if e = CHR ''f'' then CHR 0x0C
                  else if e = CHR ''n'' then CHR 0x0A else if e = CHR ''r'' then CHR 0x0D
                  else if e = CHR ''t'' then CHR 0x09 else e) # s, t)) (readBody rest))
      else map_option (\<lambda>(s, t). (ch # s, t)) (readBody cs))"

definition readString :: "string \<Rightarrow> (string \<times> string) option" where
  "readString s = (case s of ch # cs \<Rightarrow> if ch = CHR 0x22 then readBody cs else None | [] \<Rightarrow> None)"

primrec readItems :: "nat \<Rightarrow> string \<Rightarrow> (string list \<times> string) option" where
  "readItems 0 s = None"
| "readItems (Suc n) s =
     (case readString s of
        Some (x, ch # rest) \<Rightarrow>
          if ch = CHR '','' then map_option (\<lambda>(xs, t). (x # xs, t)) (readItems n rest)
          else if ch = CHR '']'' then Some ([x], rest) else None
      | _ \<Rightarrow> None)"

definition readStrings :: "string \<Rightarrow> (string list \<times> string) option" where
  "readStrings s =
     (case s of
        a # b # rest \<Rightarrow>
          if a = CHR ''['' \<and> b = CHR '']'' then Some ([], rest)
          else if a = CHR ''['' then readItems (length s) (b # rest) else None
      | _ \<Rightarrow> None)"

lemma hexValue_lowerHex: "n < 16 \<Longrightarrow> hexValue (lowerHex n) = n"
proof -
  have "list_all (\<lambda>n. hexValue (lowerHex n) = n) [0, 1, 2, 3, 4, 5, 6, 7, 8, 9, 10, 11, 12, 13, 14, 15]"
    by (simp add: lowerHex_def hexValue_def)
  moreover assume "n < 16"
  then have "n \<in> set [0, 1, 2, 3, 4, 5, 6, 7, 8, 9, 10, 11, 12, 13, 14, 15]" by (simp, presburger)
  ultimately show ?thesis by (simp only: list_all_iff)
qed

lemma readBody_jsonChar: "readBody (jsonChar ch @ rest) = map_option (\<lambda>(s, t). (ch # s, t)) (readBody rest)"
proof -
  have "(of_char ch :: nat) < 256" by (rule nat_of_char_less_256)
  then have hex: "hexValue (lowerHex (of_char ch div 16)) = of_char ch div 16"
    "hexValue (lowerHex (of_char ch mod 16)) = of_char ch mod 16"
    by (simp_all add: hexValue_lowerHex less_mult_imp_div_less)
  show ?thesis by (simp add: jsonChar_def hex)
qed

lemma readBody_json: "readBody (concat (map jsonChar s) @ CHR 0x22 # rest) = Some (s, rest)"
  by (induction s) (simp_all add: readBody_jsonChar del: readBody.simps(2), simp)

lemma readString_json: "readString (jsonString s @ rest) = Some (s, rest)"
  using readBody_json [of s rest] by (simp add: readString_def jsonString_def)

lemma readItems_json:
  "xs \<noteq> [] \<Longrightarrow> length xs \<le> n \<Longrightarrow> readItems n (joinStrings '','' (map jsonString xs) @ CHR '']'' # rest) = Some (xs, rest)"
proof (induction xs arbitrary: n)
  case (Cons x xs)
  then obtain m where n: "n = Suc m" by (cases n) auto
  show ?case
  proof (cases xs)
    case Nil
    then show ?thesis by (simp add: n readString_json)
  next
    case (Cons y ys)
    have "readItems m (joinStrings '','' (map jsonString xs) @ CHR '']'' # rest) = Some (xs, rest)"
      using Cons.IH [of m] Cons Cons.prems n by simp
    then show ?thesis by (simp add: n Cons readString_json)
  qed
qed simp

lemma readStrings_json: "readStrings (jsonStrings xs @ rest) = Some (xs, rest)"
proof (cases xs)
  case Nil
  then show ?thesis by (simp add: readStrings_def jsonStrings_def)
next
  case (Cons y ys)
  have head: "\<exists>t. joinStrings '','' (map jsonString xs) = CHR 0x22 # t"
    by (cases ys) (simp_all add: Cons jsonString_def)
  have "length xs \<le> length (joinStrings '','' (map jsonString xs))"
    by (induction xs rule: induct_list012) (simp_all add: jsonString_def)
  then have "readItems (length (jsonStrings xs @ rest)) (joinStrings '','' (map jsonString xs) @ CHR '']'' # rest) = Some (xs, rest)"
    by (intro readItems_json) (simp_all add: jsonStrings_def Cons)
  with head show ?thesis by (auto simp: readStrings_def jsonStrings_def simp del: readItems.simps)
qed

text \<open>The two lists of the generated Rego.\<close>

definition regoSubjects :: "string \<Rightarrow> (string list \<times> string list) option" where
  "regoSubjects rego =
     (case readStrings (drop (length (newline @ ''# Allowed groups and users from all MaaSAuthPolicies'' @ newline @ ''allowed_groups := '')) rego) of
        Some (gs, rest) \<Rightarrow>
          (case readStrings (drop (length (newline @ ''allowed_users := '')) rest) of
             Some (us, _) \<Rightarrow> Some (gs, us)
           | None \<Rightarrow> None)
      | None \<Rightarrow> None)"

lemma drop_prefix: "drop (length a) (a @ b) = b"
  by simp

lemma regoSubjects_membershipRego: "regoSubjects (membershipRego gs us) = Some (gs, us)"
proof -
  obtain post where rego: "membershipRego gs us =
      (newline @ ''# Allowed groups and users from all MaaSAuthPolicies'' @ newline @ ''allowed_groups := '') @
      (jsonStrings gs @ (newline @ ''allowed_users := '') @ (jsonStrings us @ post))"
    unfolding membershipRego_def by (simp only: append_assoc)
  show ?thesis
    unfolding regoSubjects_def rego
    by (simp only: drop_prefix readStrings_json option.case prod.case)
qed

section \<open>Protected policies\<close>

lemma authPolicyName_prefix: "hasPrefix (authPolicyName n) (genPrefix AuthPolicyKind)"
  by (simp add: authPolicyName_def hasPrefix_def)

context api_server
begin

lemma deleteModelAuthPolicy_keeps:
  "keeps (\<lambda>c. protectedKept ps0 (w_policies (view c))) (deleteModelAuthPolicy k ns n)"
  unfolding deleteModelAuthPolicy_def
proof (rule list_then_keeps)
  fix xs :: "policy list"
  assume "\<And>p. p \<in> set xs \<Longrightarrow> isManaged (gp_meta p) \<Longrightarrow> free ps0 AuthPolicyKind (nsnOf (gp_meta p))"
  then show "keeps (\<lambda>c. protectedKept ps0 (w_policies (view c)))
      (case Inr xs of Inl err \<Rightarrow> if isNotFound err \<or> isNoMatchError err then ret ()
          else fail (Wrap ''failed to list AuthPolicies for cleanup: '' err [])
       | Inr items \<Rightarrow> forE (deleteListed k AuthPolicyKind ''failed to delete AuthPolicy '') items)"
    by (auto intro!: keeps_forE deleteListed_keeps)
qed (auto simp: authModelLabels_def intro!: keeps_rules)

lemma cleanupStaleAuthPolicies_keeps:
  "keeps (\<lambda>c. protectedKept ps0 (w_policies (view c))) (cleanupStaleAuthPolicies k pol)"
  unfolding cleanupStaleAuthPolicies_def
  by (intro keeps_rules deleteModelAuthPolicy_keeps read_keeps_policies)+

lemma applyAuthPolicy_keeps:
  assumes "gp_meta desired = newMeta (authPolicyName n) ns' ls as"
  shows "keeps (\<lambda>c. protectedKept ps0 (w_policies (view c))) (applyAuthPolicy k ref desired)"
proof -
  have key: "hasPrefix (snd (nsnOf (gp_meta desired))) (genPrefix AuthPolicyKind)"
    using authPolicyName_prefix [of n] by (simp add: assms nsnOf_def newMeta_def)
  show ?thesis
    unfolding applyAuthPolicy_def
    by (intro stays_Let get_then_keeps)
      (use key in \<open>auto simp: isNotFound_def intro!: keeps_rules put_keeps\<close>)
qed

lemma buildAuthPolicy_keeps:
  "keeps (\<lambda>c. protectedKept ps0 (w_policies (view c))) (buildAuthPolicy k r oidc ref rn rns)"
  unfolding buildAuthPolicy_def
  by (intro keeps_rules lookup_keeps_policies applyAuthPolicy_keeps) (simp add: desiredAuthPolicy_def)

lemma reconcileModelAuthPolicy_keeps:
  "keeps (\<lambda>c. protectedKept ps0 (w_policies (view c))) (reconcileModelAuthPolicy k r oidc ref)"
  unfolding reconcileModelAuthPolicy_def
  by (intro keeps_rules lookup_keeps_policies deleteModelAuthPolicy_keeps buildAuthPolicy_keeps)+

lemma findMissing_keeps: "keeps (\<lambda>c. J (view c)) (findMissing k refs)"
proof (induction refs)
  case (Cons ref refs)
  then show ?case unfolding findMissing.simps by (intro keeps_rules read_keeps)
qed (simp only: findMissing.simps keeps_ret_fail)

lemma AuthPolicy_updateStatus_keeps:
  "keeps (\<lambda>c. protectedKept ps0 (w_policies (view c))) (AuthPolicy_updateStatus k pol ph msg snap)"
  unfolding AuthPolicy_updateStatus_def Let_def
  by (intro keeps_rules own_writes_keep_policies)+

lemma AuthPolicy_reconcileLive_keeps:
  "keeps (\<lambda>c. protectedKept ps0 (w_policies (view c))) (AuthPolicy_reconcileLive k r oidc pol)"
  unfolding AuthPolicy_reconcileLive_def findMissingModelRefs_def reconcileModelAuthPolicies_def
    updateAuthPolicyRefStatus_def authPolicyRefStatus_def
  by (intro keeps_rules findMissing_keeps [where J = "\<lambda>w. protectedKept ps0 (w_policies w)"] reconcileModelAuthPolicy_keeps
      cleanupStaleAuthPolicies_keeps AuthPolicy_updateStatus_keeps read_keeps_policies)+

lemma fetchOIDCConfig_keeps: "keeps (\<lambda>c. J (view c)) (fetchOIDCConfig k r)"
  unfolding fetchOIDCConfig_def by (intro keeps_rules read_keeps)+

lemma AuthPolicy_Reconcile_keeps:
  "keeps (\<lambda>c. protectedKept ps0 (w_policies (view c))) (AuthPolicy_Reconcile k r req)"
  unfolding AuthPolicy_Reconcile_def AuthPolicy_handleDeletion_def
  by (intro keeps_rules fetchOIDCConfig_keeps [where J = "\<lambda>w. protectedKept ps0 (w_policies w)"] read_keeps_policies
      own_writes_keep_policies deleteModelAuthPolicy_keeps cleanupStaleAuthPolicies_keeps AuthPolicy_reconcileLive_keeps)+

end

section \<open>The subjects of a model\<close>

text \<open>The live policies of a model.\<close>

definition liveAuths :: "world \<Rightarrow> string \<Rightarrow> string \<Rightarrow> MaaSAuthPolicy set" where
  "liveAuths w ns n = {p \<in> ran (w_auths w). \<not> om_deleting (ap_meta p) \<and> refersTo ns n p}"

definition groupsOf :: "MaaSAuthPolicy \<Rightarrow> string list" where
  "groupsOf p = sj_groups (asp_subjects (ap_spec p))"

definition usersOf :: "MaaSAuthPolicy \<Rightarrow> string list" where
  "usersOf p = sj_users (asp_subjects (ap_spec p))"

definition celSafe :: "string \<Rightarrow> bool" where
  "celSafe s \<longleftrightarrow> CHR 0x22 \<notin> set s \<and> CHR 0x5C \<notin> set s"

definition safeSubjects :: "MaaSAuthPolicy \<Rightarrow> bool" where
  "safeSubjects p \<longleftrightarrow> (\<forall>s \<in> set (groupsOf p) \<union> set (usersOf p). celSafe s)"

lemma validateCELValue_iff: "validateCELValue v f = None \<longleftrightarrow> celSafe v"
  by (auto simp: validateCELValue_def celSafe_def list_ex_iff)

lemma firstInvalid_iff: "firstInvalid f vs = None \<longleftrightarrow> (\<forall>v \<in> set vs. celSafe v)"
proof (cases "find (\<lambda>v. validateCELValue v f \<noteq> None) vs")
  case None
  then have "\<forall>v \<in> set vs. celSafe v" by (simp add: find_None_iff validateCELValue_iff)
  with None show ?thesis unfolding firstInvalid_def None by simp
next
  case (Some v)
  then have "v \<in> set vs" "validateCELValue v f \<noteq> None" by (auto simp: find_Some_iff)
  moreover from this have "\<not> celSafe v" by (simp add: validateCELValue_iff)
  ultimately show ?thesis unfolding firstInvalid_def Some by auto
qed

lemma collectSubjects_safe:
  "\<forall>p \<in> set ps. safeSubjects p \<Longrightarrow>
   collectSubjects ps = Inr (map (\<lambda>p. om_name (ap_meta p)) ps, concat (map groupsOf ps), concat (map usersOf ps))"
proof (induction ps)
  case (Cons p ps)
  then have "firstInvalid f (groupsOf p) = None" "firstInvalid f (usersOf p) = None" for f
    by (simp_all add: firstInvalid_iff safeSubjects_def)
  with Cons show ?case by (simp add: groupsOf_def usersOf_def)
qed simp

lemma collectSubjects_unsafe: "p \<in> set ps \<Longrightarrow> \<not> safeSubjects p \<Longrightarrow> \<exists>e. collectSubjects ps = Inl e"
proof (induction ps)
  case (Cons q qs)
  show ?case
  proof (cases "safeSubjects q")
    case True
    then have "firstInvalid f (groupsOf q) = None" "firstInvalid f (usersOf q) = None" for f
      by (simp_all add: firstInvalid_iff safeSubjects_def)
    with Cons True show ?thesis by (auto simp: groupsOf_def usersOf_def)
  next
    case False
    then have "firstInvalid ''group name'' (groupsOf q) \<noteq> None \<or> firstInvalid ''username'' (usersOf q) \<noteq> None"
      by (auto simp: firstInvalid_iff safeSubjects_def)
    then show ?thesis by (auto simp: groupsOf_def usersOf_def Let_def split: option.splits)
  qed
qed simp

lemma dedup_props:
  "set (deduplicateAndSort xs) = set xs" "sorted (deduplicateAndSort xs)" "distinct (deduplicateAndSort xs)"
  by (simp_all add: deduplicateAndSort_def)

lemma dedup_eq: "set xs = set ys \<Longrightarrow> deduplicateAndSort xs = deduplicateAndSort ys"
  by (metis dedup_props sorted_distinct_set_unique)

lemma desiredAuthPolicy_meta:
  fixes ref :: ModelRef and r :: MaaSAuthPolicyReconciler and oidc :: "oidcConfig option"
  defines "d \<equiv> \<lambda>rn rns names gs us. desiredAuthPolicy r oidc ref rn rns names gs us"
  shows "nsnOf (gp_meta (d rn rns names gs us)) = (rns, authPolicyName (ref_name ref))"
    "distinct (map fst (om_labels (gp_meta (d rn rns names gs us))))"
    "distinct (map fst (om_annotations (gp_meta (d rn rns names gs us))))"
    "ManagedByODHOperator \<notin> fst ` set (om_annotations (gp_meta (d rn rns names gs us)))"
    "isManaged (gp_meta (d rn rns names gs us))"
  by (simp_all add: d_def desiredAuthPolicy_def newMeta_def nsnOf_def authModelLabels_def ManagedByODHOperator_def isManaged_def)

context api_server
begin

lemma findAllAuthPolicies_healthy:
  assumes "healthy c"
  shows "\<exists>c' xs. findAllAuthPoliciesForModel k ns n c = (c', Inr xs) \<and> healthy c' \<and> view c' = view c \<and>
    set xs = liveAuths (view c) ns n"
proof -
  obtain c' xs where "healthy c'" "view c' = view c" "cl_listAuths k c = (c', Inr xs)" "set xs = ran (w_auths (view c))"
    using lists_healthy [OF listAuths assms] by blast
  then show ?thesis by (auto simp: findAllAuthPoliciesForModel_def run_rules liveAuths_def)
qed

lemma applyAuthPolicy_healthy:
  assumes "healthy c" "pred_option (\<lambda>p. isManaged (gp_meta p)) (w_policies (view c) AuthPolicyKind (nsnOf (gp_meta d)))"
    and d: "distinct (map fst (om_labels (gp_meta d)))" "distinct (map fst (om_annotations (gp_meta d)))"
  shows "\<exists>c' p. applyAuthPolicy k ref d c = (c', Inr ()) \<and> healthy c' \<and>
    view c' = putPolicy AuthPolicyKind p (view c) \<and> nsnOf (gp_meta p) = nsnOf (gp_meta d) \<and> inStep d p"
proof -
  let ?A = AuthPolicyKind let ?key = "nsnOf (gp_meta d)"
  obtain c1 where c1: "healthy c1" "view c1 = view c"
    "cl_getPolicy k ?A ?key c = (c1, case w_policies (view c) ?A ?key of None \<Rightarrow> Inl ApiNotFound | Some x \<Rightarrow> Inr x)"
    using reads_healthy [OF getPolicy assms(1), of ?A ?key] by blast
  show ?thesis
  proof (cases "w_policies (view c) ?A ?key")
    case None
    obtain c2 where "healthy c2" "view c2 = putPolicy ?A d (view c1)" "cl_createPolicy k ?A d c1 = (c2, Inr ())"
      using writes_healthy [OF createPolicy c1(1), of ?A d] None c1(2) by auto
    with c1 None show ?thesis
      by (auto simp: applyAuthPolicy_def Let_def run_rules isNotFound_def inStep_merge [OF d])
  next
    case (Some p0)
    have p0: "isManaged (gp_meta p0)" "nsnOf (gp_meta p0) = ?key"
      using assms(2) Some stored_key(5) [OF Some] by auto
    show ?thesis
    proof (cases "inStep d p0")
      case True
      have "view c1 = putPolicy ?A p0 (view c)" using Some p0 c1(2) by (simp add: putPolicy_def fun_upd_idem)
      moreover have "applyAuthPolicy k ref d c = (c1, Inr ())"
        using True c1 Some p0 by (simp add: applyAuthPolicy_def Let_def run_rules equalPolicy inStep_def)
      ultimately show ?thesis using True c1(1) p0(2) by blast
    next
      case False
      then have ne: "p0 \<noteq> mergePolicy p0 d" by (metis inStep_def)
      obtain c2 where "healthy c2" "view c2 = putPolicy ?A (mergePolicy p0 d) (view c1)"
        "cl_updatePolicy k ?A (mergePolicy p0 d) c1 = (c2, Inr ())"
        using writes_healthy [OF updatePolicy c1(1), of ?A "mergePolicy p0 d"] Some c1(2) p0 by auto
      with c1 Some ne p0 show ?thesis
        by (auto simp: applyAuthPolicy_def Let_def run_rules equalPolicy inStep_merge [OF d])
    qed
  qed
qed

text \<open>A fault-free round for a model with a route whose policies have safe subjects.\<close>

lemma reconcileModelAuthPolicy_runs:
  assumes h: "healthy c" and m: "w_models (view c) (ref_namespace ref, ref_name ref) = Some m" "\<not> om_deleting (mod_meta m)"
    and rn: "routeNames (view c) m \<noteq> {}"
    and pol: "pred_option (\<lambda>p. isManaged (gp_meta p)) (w_policies (view c) AuthPolicyKind (ref_namespace ref, authPolicyName (ref_name ref)))"
    and safe: "celSafe (ref_namespace ref)" "celSafe (ref_name ref)"
      "\<forall>p \<in> liveAuths (view c) (ref_namespace ref) (ref_name ref). safeSubjects p"
  shows "\<exists>c' rn names gs us p apr. reconcileModelAuthPolicy k r oidc ref c = (c', Inr (Some apr)) \<and> healthy c' \<and>
    view c' = putPolicy AuthPolicyKind p (view c) \<and> nsnOf (gp_meta p) = (ref_namespace ref, authPolicyName (ref_name ref)) \<and>
    rn \<in> routeNames (view c) m \<and> inStep (desiredAuthPolicy r oidc ref rn (ref_namespace ref) names gs us) p \<and>
    sorted gs \<and> distinct gs \<and> set gs = (\<Union>p \<in> liveAuths (view c) (ref_namespace ref) (ref_name ref). set (groupsOf p)) \<and>
    sorted us \<and> distinct us \<and> set us = (\<Union>p \<in> liveAuths (view c) (ref_namespace ref) (ref_name ref). set (usersOf p))"
proof -
  let ?ns = "ref_namespace ref" let ?n = "ref_name ref"
  obtain c1 rn where c1: "findHTTPRouteForModel k ?ns ?n c = (c1, Inr (rn, ?ns))" "rn \<in> routeNames (view c) m"
    "healthy c1" "view c1 = view c" using findHTTPRoute_healthy [OF h m rn] by blast
  obtain c2 xs where c2: "findAllAuthPoliciesForModel k ?ns ?n c1 = (c2, Inr xs)" "healthy c2" "view c2 = view c"
    "set xs = liveAuths (view c) ?ns ?n" using findAllAuthPolicies_healthy [OF c1(3), of ?ns ?n] c1(4) by auto
  define names where "names = deduplicateAndSort (map (\<lambda>p. om_name (ap_meta p)) xs)"
  define gs where "gs = deduplicateAndSort (concat (map groupsOf xs))"
  define us where "us = deduplicateAndSort (concat (map usersOf xs))"
  define d where "d = desiredAuthPolicy r oidc ref rn ?ns names gs us"
  note dm = desiredAuthPolicy_meta [of r oidc ref rn ?ns names gs us, folded d_def]
  have col: "collectSubjects xs = Inr (map (\<lambda>p. om_name (ap_meta p)) xs, concat (map groupsOf xs), concat (map usersOf xs))"
    using safe(3) c2(4) by (intro collectSubjects_safe) simp
  have ok: "pred_option (\<lambda>p. isManaged (gp_meta p)) (w_policies (view c2) AuthPolicyKind (nsnOf (gp_meta d)))"
    using pol c2(3) dm(1) by simp
  obtain c3 p where c3: "applyAuthPolicy k ref d c2 = (c3, Inr ())" "healthy c3" "view c3 = putPolicy AuthPolicyKind p (view c)"
    "nsnOf (gp_meta p) = nsnOf (gp_meta d)" "inStep d p"
    using applyAuthPolicy_healthy [OF c2(2) ok dm(2,3), of ref] c2(3) by auto
  have "\<exists>apr. reconcileModelAuthPolicy k r oidc ref c = (c3, Inr (Some apr))"
    using c1 c2(1) c3(1) col safe(1,2)
    by (simp add: reconcileModelAuthPolicy_def buildAuthPolicy_def validateCELValue_iff [THEN iffD2] Let_def run_rules
        names_def gs_def us_def d_def)
  moreover have "sorted gs" "distinct gs" "set gs = (\<Union>p \<in> liveAuths (view c) ?ns ?n. set (groupsOf p))"
    "sorted us" "distinct us" "set us = (\<Union>p \<in> liveAuths (view c) ?ns ?n. set (usersOf p))"
    by (simp_all add: gs_def us_def dedup_props c2(4))
  ultimately show ?thesis using c1(2) c3 dm(1) unfolding d_def by metis
qed

text \<open>With or without faults: an unsafe subject stops the round before anything is written.\<close>

lemma buildAuthPolicy_unsafe:
  assumes p: "p \<in> liveAuths (view c) (ref_namespace ref) (ref_name ref)" "\<not> safeSubjects p"
  shows "view (fst (buildAuthPolicy k r oidc ref rn rns c)) = view c \<and> (\<exists>e. snd (buildAuthPolicy k r oidc ref rn rns c) = Inl e)"
proof -
  let ?ns = "ref_namespace ref" let ?n = "ref_name ref"
  obtain c1 res where l: "cl_listAuths k c = (c1, res)" by fastforce
  with listAuths have v: "view c1 = view c" and xs: "\<And>xs. res = Inr xs \<Longrightarrow> set xs = ran (w_auths (view c))"
    unfolding lists_def by (metis fst_conv, metis snd_conv)
  show ?thesis
  proof (cases res)
    case (Inl e)
    with l v show ?thesis
      by (auto simp: buildAuthPolicy_def findAllAuthPoliciesForModel_def Let_def bnd_def wrapErr_def attempt_def split: option.splits)
  next
    case (Inr ys)
    let ?live = "filter (\<lambda>p. \<not> om_deleting (ap_meta p) \<and> refersTo ?ns ?n p) ys"
    have "p \<in> set ?live" using p(1) xs [OF Inr] by (simp add: liveAuths_def)
    then obtain e where "collectSubjects ?live = Inl e" using collectSubjects_unsafe p(2) by blast
    with l v Inr show ?thesis
      by (auto simp: buildAuthPolicy_def findAllAuthPoliciesForModel_def Let_def bnd_def wrapErr_def attempt_def split: option.splits)
  qed
qed

end

section \<open>Theorems\<close>

text \<open>The model has a route, and its AuthPolicy is absent or managed; its name can stand in a CEL string.\<close>

definition authRoutable :: "world \<Rightarrow> ModelRef \<Rightarrow> MaaSModelRef \<Rightarrow> bool" where
  "authRoutable w ref m \<longleftrightarrow>
     w_models w (ref_namespace ref, ref_name ref) = Some m \<and> \<not> om_deleting (mod_meta m) \<and> routeNames w m \<noteq> {} \<and>
     pred_option (\<lambda>p. isManaged (gp_meta p)) (w_policies w AuthPolicyKind (ref_namespace ref, authPolicyName (ref_name ref))) \<and>
     celSafe (ref_namespace ref) \<and> celSafe (ref_name ref)"

text \<open>The Rego text of the membership rule.\<close>

definition policyRego :: "policy \<Rightarrow> goany option" where
  "policyRego p =
     nested_lookup (gp_spec p) [''rules'', ''authorization'', ''require-group-membership'', ''opa'', ''rego'']"

lemma policyRego_desired:
  assumes "inStep (desiredAuthPolicy r oidc ref rn rns names gs us) p" "gs \<noteq> [] \<or> us \<noteq> []"
  shows "policyRego p = Some (GStr (membershipRego gs us))"
proof -
  have "gp_spec p = gp_spec (desiredAuthPolicy r oidc ref rn rns names gs us)" using inStep_spec [OF assms(1)] .
  with assms(2) show ?thesis
    by (simp add: policyRego_def desiredAuthPolicy_def authRule_def authRules_def membershipRule_def)
qed

text \<open>C4: the generated AuthPolicy admits exactly the declared subjects. When no fault occurs, a round
  for a model with a route whose live MaaSAuthPolicies declare safe subjects (at least one) stores one
  AuthPolicy on the model's route; the two JSON lists in its membership rule read back to exactly the
  groups and the users of all live policies of the model, each once and in order, and nothing else in
  the cluster changes.\<close>

theorem authpolicy_subjects_exact:
  assumes "api_server k view healthy" "healthy c" "authRoutable (view c) ref m"
    and "\<forall>p \<in> liveAuths (view c) (ref_namespace ref) (ref_name ref). safeSubjects p"
    and "\<exists>p \<in> liveAuths (view c) (ref_namespace ref) (ref_name ref). groupsOf p \<noteq> [] \<or> usersOf p \<noteq> []"
  shows "\<exists>c' p rego gs us apr. reconcileModelAuthPolicy k r oidc ref c = (c', Inr (Some apr)) \<and>
    view c' = putPolicy AuthPolicyKind p (view c) \<and> nsnOf (gp_meta p) = (ref_namespace ref, authPolicyName (ref_name ref)) \<and>
    policyRego p = Some (GStr rego) \<and> regoSubjects rego = Some (gs, us) \<and>
    sorted gs \<and> distinct gs \<and> set gs = (\<Union>p \<in> liveAuths (view c) (ref_namespace ref) (ref_name ref). set (groupsOf p)) \<and>
    sorted us \<and> distinct us \<and> set us = (\<Union>p \<in> liveAuths (view c) (ref_namespace ref) (ref_name ref). set (usersOf p))"
proof -
  let ?live = "liveAuths (view c) (ref_namespace ref) (ref_name ref)"
  have ok: "w_models (view c) (ref_namespace ref, ref_name ref) = Some m" "\<not> om_deleting (mod_meta m)" "routeNames (view c) m \<noteq> {}"
    "pred_option (\<lambda>p. isManaged (gp_meta p)) (w_policies (view c) AuthPolicyKind (ref_namespace ref, authPolicyName (ref_name ref)))"
    "celSafe (ref_namespace ref)" "celSafe (ref_name ref)"
    using assms(3) by (simp_all add: authRoutable_def)
  obtain c' rn names gs us p apr where run: "reconcileModelAuthPolicy k r oidc ref c = (c', Inr (Some apr))"
    "view c' = putPolicy AuthPolicyKind p (view c)" "nsnOf (gp_meta p) = (ref_namespace ref, authPolicyName (ref_name ref))"
    and step: "inStep (desiredAuthPolicy r oidc ref rn (ref_namespace ref) names gs us) p"
    and gs: "sorted gs" "distinct gs" "set gs = (\<Union>p \<in> ?live. set (groupsOf p))"
    and us: "sorted us" "distinct us" "set us = (\<Union>p \<in> ?live. set (usersOf p))"
    using api_server.reconcileModelAuthPolicy_runs [OF assms(1,2) ok assms(4), where r = r and oidc = oidc]
    by (elim exE conjE) (rule that; assumption)
  from assms(5) gs(3) us(3) have "gs \<noteq> [] \<or> us \<noteq> []" by (metis UN_I empty_iff empty_set last_in_set)
  with policyRego_desired [OF step] have "policyRego p = Some (GStr (membershipRego gs us))" by blast
  with run gs us regoSubjects_membershipRego [of gs us] show ?thesis by blast
qed

text \<open>C30: no injection through subject names. If a live MaaSAuthPolicy of the model declares a group or
  user with a double quote or a backslash, the round ends with an error and leaves the cluster as it
  was, whatever faults occur.\<close>

theorem unsafe_subject_rejected:
  assumes "api_server k view healthy" "p \<in> liveAuths (view c) (ref_namespace ref) (ref_name ref)" "\<not> safeSubjects p"
  shows "view (fst (buildAuthPolicy k r oidc ref rn rns c)) = view c \<and> (\<exists>e. snd (buildAuthPolicy k r oidc ref rn rns c) = Inl e)"
  by (rule api_server.buildAuthPolicy_unsafe [OF assms])

text \<open>The lifetime of a rule's cache.\<close>

definition cacheTTL :: "goany \<Rightarrow> goany option" where
  "cacheTTL rule = (case rule of GMap m \<Rightarrow> nested_lookup m [''cache'', ''ttl''] | _ \<Rightarrow> None)"

text \<open>Authorization decisions never outlive the metadata they rest on. Every authorization rule of a
  generated AuthPolicy is cached for the same time, which is never negative and at most the configured
  lifetime of the metadata cache (and of the authorization cache).\<close>

theorem authz_cache_bounded:
  "map (\<lambda>e. cacheTTL (snd e)) (authRules r ns n gs us) = replicate (length (authRules r ns n gs us)) (Some (GInt (authzCacheTTL r))) \<and>
   2 \<le> length (authRules r ns n gs us) \<and> 0 \<le> authzCacheTTL r \<and>
   authzCacheTTL r \<le> max 0 (acr_MetadataCacheTTL r) \<and> authzCacheTTL r \<le> max 0 (acr_AuthzCacheTTL r)"
  by (auto simp: authRules_def cacheTTL_def authValidRule_def subscriptionValidRule_def membershipRule_def
      authzCacheTTL_def Let_def)

definition authDb :: db where
  "authDb = withAuths [sampleAuth ''research'' [''lab'', ''staff''] [''eve''] [(''llm'', ''granite'')],
     sampleAuth ''admins'' [''staff''] [] [(''llm'', ''granite'')]] (sampleDb [] [(''llm'', ''granite'')])"

definition authReconciler :: MaaSAuthPolicyReconciler where
  "authReconciler = \<lparr>acr_MaaSAPINamespace = ''opendatahub'', acr_TenantNamespace = ''models-as-a-service'',
     acr_GatewayName = ''maas-default-gateway'', acr_ClusterAudience = [], acr_MetadataCacheTTL = 60, acr_AuthzCacheTTL = 60\<rparr>"

definition graniteRef :: ModelRef where
  "graniteRef = \<lparr>ref_name = ''granite'', ref_namespace = ''llm''\<rparr>"

lemma std_liveAuths: "liveAuths (db_view d) ns n = {p \<in> set (tidyList ap_meta (db_auths d)). \<not> om_deleting (ap_meta p) \<and> refersTo ns n p}"
  by (simp add: liveAuths_def set_tidyList)

lemma authDb_live:
  "liveAuths (db_view authDb) ''llm'' ''granite'' =
     {sampleAuth ''research'' [''lab'', ''staff''] [''eve''] [(''llm'', ''granite'')],
      sampleAuth ''admins'' [''staff''] [] [(''llm'', ''granite'')]}"
proof -
  have "tidyList ap_meta (db_auths authDb) =
      [sampleAuth ''research'' [''lab'', ''staff''] [''eve''] [(''llm'', ''granite'')],
       sampleAuth ''admins'' [''staff''] [] [(''llm'', ''granite'')]]" by code_simp
  then show ?thesis
    unfolding std_liveAuths
    by (auto simp: sampleAuth_def sampleMeta_def newMeta_def refersTo_def)
qed

lemma authDb_routable: "authRoutable (db_view authDb) graniteRef (sampleModel ''llm'' ''granite'')"
proof -
  have "db_routes authDb = db_routes (sampleDb [] [(''llm'', ''granite'')])" by (simp add: authDb_def withAuths_def)
  then have "routeNames (db_view authDb) (sampleModel ''llm'' ''granite'') = {''granite''}"
    using routeNames_routes [of "db_view authDb" "db_view (sampleDb [] [(''llm'', ''granite'')])"]
    by (simp add: sampleDb_routeNames)
  moreover have "tidy mod_meta (db_models authDb) (''llm'', ''granite'') = Some (sampleModel ''llm'' ''granite'')"
    "policiesOf authDb AuthPolicyKind = []" "\<not> om_deleting (mod_meta (sampleModel ''llm'' ''granite''))" by code_simp+
  ultimately show ?thesis
    by (simp add: authRoutable_def graniteRef_def tidy_def celSafe_def)
qed

lemma authDb_safe:
  "\<forall>p \<in> liveAuths (db_view authDb) (ref_namespace graniteRef) (ref_name graniteRef). safeSubjects p"
  "\<exists>p \<in> liveAuths (db_view authDb) (ref_namespace graniteRef) (ref_name graniteRef). groupsOf p \<noteq> [] \<or> usersOf p \<noteq> []"
  by (simp_all add: graniteRef_def authDb_live sampleAuth_def safeSubjects_def groupsOf_def usersOf_def celSafe_def)

lemma authDb_up: "\<not> db_down authDb"
  by code_simp

theorem authpolicy_subjects_exact_witness:
  "\<exists>d' p rego apr. reconcileModelAuthPolicy std_client authReconciler None graniteRef authDb = (d', Inr (Some apr)) \<and>
     db_view d' = putPolicy AuthPolicyKind p (db_view authDb) \<and> policyRego p = Some (GStr rego) \<and>
     regoSubjects rego = Some ([''lab'', ''staff''], [''eve''])"
proof -
  obtain d' p rego gs us apr where run: "reconcileModelAuthPolicy std_client authReconciler None graniteRef authDb = (d', Inr (Some apr))"
    "db_view d' = putPolicy AuthPolicyKind p (db_view authDb)" "policyRego p = Some (GStr rego)" "regoSubjects rego = Some (gs, us)"
    and gs: "sorted gs" "distinct gs" "set gs = (\<Union>p \<in> liveAuths (db_view authDb) (ref_namespace graniteRef) (ref_name graniteRef). set (groupsOf p))"
    and us: "sorted us" "distinct us" "set us = (\<Union>p \<in> liveAuths (db_view authDb) (ref_namespace graniteRef) (ref_name graniteRef). set (usersOf p))"
    using authpolicy_subjects_exact [OF std.api_server_axioms authDb_up authDb_routable authDb_safe, where r = authReconciler and oidc = None]
    by (elim exE conjE) (rule that; assumption)
  have sets: "set gs = set [''lab'', ''staff'']" "set us = set [''eve'']"
    unfolding gs us by (auto simp: graniteRef_def authDb_live sampleAuth_def groupsOf_def usersOf_def)
  have "sorted [''lab'', ''staff'']" by code_simp
  then have "gs = [''lab'', ''staff'']"
    by (rule sorted_distinct_set_unique [OF gs(1,2)]) (use sets in simp_all)
  moreover have "us = [''eve'']" by (rule sorted_distinct_set_unique [OF us(1,2)]) (use sets in simp_all)
  ultimately show ?thesis using run by blast
qed

definition injectDb :: db where
  "injectDb = withAuths [sampleAuth ''evil'' [[CHR 0x22, CHR '']'']] [] [(''llm'', ''granite'')]] (sampleDb [] [(''llm'', ''granite'')])"

theorem unsafe_subject_rejected_witness:
  "db_view (fst (buildAuthPolicy std_client authReconciler None graniteRef ''granite'' ''llm'' injectDb)) = db_view injectDb \<and>
   (\<exists>e. snd (buildAuthPolicy std_client authReconciler None graniteRef ''granite'' ''llm'' injectDb) = Inl e)"
proof (rule unsafe_subject_rejected [OF std.api_server_axioms])
  let ?evil = "sampleAuth ''evil'' [[CHR 0x22, CHR '']'']] [] [(''llm'', ''granite'')]"
  have "tidyList ap_meta (db_auths injectDb) = [?evil]" by code_simp
  then show "?evil \<in> liveAuths (db_view injectDb) (ref_namespace graniteRef) (ref_name graniteRef)"
    unfolding std_liveAuths by (auto simp: sampleAuth_def sampleMeta_def newMeta_def refersTo_def graniteRef_def)
  show "\<not> safeSubjects ?evil" by (simp add: sampleAuth_def safeSubjects_def groupsOf_def celSafe_def)
qed

end
