(* ===== verification/ModelRef_Controller.thy ===== *)
theory ModelRef_Controller
  imports Generated_Policies
begin

text \<open>
  \<open>maas-controller/pkg/controller/maas/maasmodelref_controller.go\<close>: the reconciler of MaaSModelRef
  objects. It validates the route and the backend of a model through the handler of its kind, reports
  phase and endpoint, and on deletion removes the generated policies before it lets the object go.
  Log lines are left out. Errors that are only logged end in \<open>ret ()\<close>.
\<close>

section \<open>Status\<close>

definition maasModelFinalizer :: string where
  "maasModelFinalizer = ''maas.opendatahub.io/model-cleanup''"

definition modelCondition :: "string \<Rightarrow> string \<Rightarrow> string \<Rightarrow> int \<Rightarrow> Condition" where
  "modelCondition phase message reason generation =
     (let (status, condReason) =
            (if phase \<noteq> ''Ready''
             then (''False'', if reason \<noteq> [] then reason else if phase = ''Failed'' then ''ReconcileFailed'' else ''BackendNotReady'')
             else (''True'', ''Reconciled''))
      in \<lparr>cd_type = ''Ready'', cd_status = status, cd_reason = condReason, cd_message = message,
          cd_observedGeneration = generation\<rparr>)"

text \<open>The status update never returns an error.\<close>

definition updateStatusWithReason ::
  "'c client \<Rightarrow> MaaSModelRef \<Rightarrow> string \<Rightarrow> string \<Rightarrow> string \<Rightarrow> MaaSModelStatus \<Rightarrow> ('c, unit) call" where
  "updateStatusWithReason k model phase message reason statusSnapshot =
     (let status = (mod_status model)\<lparr>mst_phase := phase,
            mst_conditions := lib_setStatusCondition k (mst_conditions (mod_status model))
              (modelCondition phase message reason (om_generation (mod_meta model)))\<rparr>
      in if statusSnapshot = status then ret ()
         else attempt (cl_statusModel k (model\<lparr>mod_status := status\<rparr>)) (\<lambda>_. ret ()))"

definition ModelRef_updateStatus ::
  "'c client \<Rightarrow> MaaSModelRef \<Rightarrow> string \<Rightarrow> string \<Rightarrow> MaaSModelStatus \<Rightarrow> ('c, unit) call" where
  "ModelRef_updateStatus k model phase message statusSnapshot =
     updateStatusWithReason k model phase message [] statusSnapshot"

definition setEndpoint :: "string \<Rightarrow> MaaSModelRef \<Rightarrow> MaaSModelRef" where
  "setEndpoint ep model = model\<lparr>mod_status := (mod_status model)\<lparr>mst_endpoint := ep\<rparr>\<rparr>"

section \<open>Deletion\<close>

fun kindName :: "policy_kind \<Rightarrow> string" where
  "kindName AuthPolicyKind = ''AuthPolicy''"
| "kindName TokenRateLimitPolicyKind = ''TokenRateLimitPolicy''"

definition generatedOpts :: "string \<Rightarrow> string \<Rightarrow> list_opts" where
  "generatedOpts modelNamespace modelName =
     \<lparr>lo_namespace = Some modelNamespace,
      lo_labels = [(''maas.opendatahub.io/model'', modelName), (''app.kubernetes.io/managed-by'', ''maas-controller'')]\<rparr>"

definition deleteGeneratedPoliciesByLabel ::
  "'c client \<Rightarrow> string \<Rightarrow> string \<Rightarrow> policy_kind \<Rightarrow> ('c, unit) call" where
  "deleteGeneratedPoliciesByLabel k modelNamespace modelName kind =
     attempt (cl_listPolicies k kind (generatedOpts modelNamespace modelName))
       (\<lambda>r. case r of
          Inl err \<Rightarrow>
            if isNotFound err \<or> isNoMatchError err then ret ()
            else fail (Wrap (''failed to list '' @ kindName kind @ '' resources for model '' @ modelName @ '': '') err [])
        | Inr items \<Rightarrow> forE (deleteListed k kind (''failed to delete '' @ kindName kind @ '' '')) items)"

definition ModelRef_handleDeletion :: "'c client \<Rightarrow> MaaSModelRef \<Rightarrow> ('c, unit) call" where
  "ModelRef_handleDeletion k model =
     (if hasFinalizer maasModelFinalizer (mod_meta model)
      then bnd (deleteGeneratedPoliciesByLabel k (om_namespace (mod_meta model)) (om_name (mod_meta model)) AuthPolicyKind)
        (\<lambda>_. bnd (deleteGeneratedPoliciesByLabel k (om_namespace (mod_meta model)) (om_name (mod_meta model)) TokenRateLimitPolicyKind)
          (\<lambda>_. bnd (case GetBackendHandler (mr_kind (msp_modelRef (mod_spec model))) of
                      Some handler \<Rightarrow> CleanupOnDelete handler model
                    | None \<Rightarrow> ret ())
            (\<lambda>_. cl_updateModel k (model\<lparr>mod_meta := removeFinalizer maasModelFinalizer (mod_meta model)\<rparr>))))
      else ret ())"

section \<open>Reconcile\<close>

text \<open>From the call of \<open>handler.Status\<close> on.\<close>

definition reportStatus ::
  "'c client \<Rightarrow> MaaSModelRefReconciler \<Rightarrow> BackendHandler \<Rightarrow> MaaSModelRef \<Rightarrow> MaaSModelStatus \<Rightarrow> ('c, unit) call" where
  "reportStatus k r handler model statusSnapshot =
     attempt (handlerStatus k r handler model)
       (\<lambda>res. case res of
          Inl err \<Rightarrow>
            if errIs err ErrKindNotImplemented
            then updateStatusWithReason k (setEndpoint [] model) ''Failed''
                   (''kind not implemented: '' @ mr_kind (msp_modelRef (mod_spec model))) ''Unsupported'' statusSnapshot
            else bnd (ModelRef_updateStatus k (setEndpoint [] model) ''Failed''
                        (''Failed to update model status: '' @ errText err) statusSnapshot)
                   (\<lambda>_. fail err)
        | Inr (endpoint, ready) \<Rightarrow>
            if ready
            then ModelRef_updateStatus k
                   (setEndpoint (if msp_endpointOverride (mod_spec model) \<noteq> [] then msp_endpointOverride (mod_spec model)
                                 else endpoint) model)
                   ''Ready'' ''Successfully reconciled'' statusSnapshot
            else ModelRef_updateStatus k (setEndpoint [] model) ''Pending'' ''Waiting for backend to become ready'' statusSnapshot)"

definition ModelRef_reconcileLive ::
  "'c client \<Rightarrow> MaaSModelRefReconciler \<Rightarrow> MaaSModelRef \<Rightarrow> ('c, unit) call" where
  "ModelRef_reconcileLive k r model =
     (let statusSnapshot = mod_status model; kind = mr_kind (msp_modelRef (mod_spec model))
      in case GetBackendHandler kind of
           None \<Rightarrow> ModelRef_updateStatus k model ''Failed'' (''unknown kind: '' @ kind) statusSnapshot
         | Some handler \<Rightarrow>
             bnd (ReconcileRoute k r handler model)
               (\<lambda>(model1, res).
                  case res of
                    Some err \<Rightarrow>
                      if errIs err ErrKindNotImplemented
                      then updateStatusWithReason k model1 ''Failed'' (''kind not implemented: '' @ kind) ''Unsupported'' statusSnapshot
                      else if errIs err ErrHTTPRouteNotFound
                      then ModelRef_updateStatus k (setEndpoint [] model1) ''Pending'' ''Waiting for HTTPRoute to be created'' statusSnapshot
                      else bnd (ModelRef_updateStatus k model1 ''Failed'' (''Failed to reconcile HTTPRoute: '' @ errText err) statusSnapshot)
                             (\<lambda>_. fail err)
                  | None \<Rightarrow> reportStatus k r handler model1 statusSnapshot))"

definition ModelRef_Reconcile :: "'c client \<Rightarrow> MaaSModelRefReconciler \<Rightarrow> nsn \<Rightarrow> ('c, unit) call" where
  "ModelRef_Reconcile k r req =
     attempt (cl_getModel k req)
       (\<lambda>res. case res of
          Inl err \<Rightarrow> if isNotFound err then ret () else fail err
        | Inr model \<Rightarrow>
            if om_deleting (mod_meta model) then ModelRef_handleDeletion k model
            else if \<not> hasFinalizer maasModelFinalizer (mod_meta model)
            then let model1 = model\<lparr>mod_meta := addFinalizer maasModelFinalizer (mod_meta model)\<rparr>
                 in bnd (cl_updateModel k model1) (\<lambda>_. ModelRef_reconcileLive k r model1)
            else ModelRef_reconcileLive k r model)"

section \<open>Watches\<close>

fun llmisvcReadyStatusLoop :: "(string \<times> string) list \<Rightarrow> string" where
  "llmisvcReadyStatusLoop [] = []"
| "llmisvcReadyStatusLoop ((ty, st) # cs) = (if ty = ''Ready'' then st else llmisvcReadyStatusLoop cs)"

definition llmisvcReadyStatus :: "LLMInferenceService \<Rightarrow> string" where
  "llmisvcReadyStatus obj = llmisvcReadyStatusLoop (llm_conditions obj)"

definition llmisvcReadyChangedPredicate_Update :: "LLMInferenceService \<Rightarrow> LLMInferenceService \<Rightarrow> bool" where
  "llmisvcReadyChangedPredicate_Update oldObj newObj = (llmisvcReadyStatus oldObj \<noteq> llmisvcReadyStatus newObj)"

definition mapHTTPRouteToMaaSModelRefs :: "'c client \<Rightarrow> HTTPRoute \<Rightarrow> ('c, nsn list) call" where
  "mapHTTPRouteToMaaSModelRefs k route =
     attempt (cl_listModels k (Some (om_namespace (rt_meta route))) None)
       (\<lambda>r. case r of Inl _ \<Rightarrow> ret [] | Inr models \<Rightarrow> ret (map (\<lambda>m. nsnOf (mod_meta m)) models))"

definition mapLLMISvcToMaaSModelRefs :: "'c client \<Rightarrow> LLMInferenceService \<Rightarrow> ('c, nsn list) call" where
  "mapLLMISvcToMaaSModelRefs k llmisvc =
     attempt (cl_listModels k None (Some (om_name (llm_meta llmisvc))))
       (\<lambda>r. case r of
          Inl _ \<Rightarrow> ret []
        | Inr models \<Rightarrow> ret (map (\<lambda>m. nsnOf (mod_meta m))
            (filter (\<lambda>m. mr_kind (msp_modelRef (mod_spec m)) = ''LLMInferenceService'' \<and>
                         om_namespace (mod_meta m) = om_namespace (llm_meta llmisvc)) models)))"

section \<open>Protected policies\<close>

context api_server
begin

lemma deleteGenerated_keeps:
  "keeps (\<lambda>c. protectedKept ps0 (w_policies (view c))) (deleteGeneratedPoliciesByLabel k ns n g)"
  unfolding deleteGeneratedPoliciesByLabel_def
proof (rule list_then_keeps)
  fix xs :: "policy list"
  assume "\<And>p. p \<in> set xs \<Longrightarrow> isManaged (gp_meta p) \<Longrightarrow> free ps0 g (nsnOf (gp_meta p))"
  then show "keeps (\<lambda>c. protectedKept ps0 (w_policies (view c)))
      (case Inr xs of Inl err \<Rightarrow> if isNotFound err \<or> isNoMatchError err then ret ()
          else fail (Wrap (''failed to list '' @ kindName g @ '' resources for model '' @ n @ '': '') err [])
       | Inr items \<Rightarrow> forE (deleteListed k g (''failed to delete '' @ kindName g @ '' '')) items)"
    by (auto intro!: keeps_forE deleteListed_keeps)
qed (auto simp: generatedOpts_def intro!: keeps_rules)

lemma updateStatusWithReason_keeps:
  "keeps (\<lambda>c. J (w_policies (view c))) (updateStatusWithReason k m ph msg reason snap)"
  unfolding updateStatusWithReason_def by (intro keeps_rules own_writes_keep_policies)+

lemma gatewayEndpoint_keeps: "keeps (\<lambda>c. J (view c)) (gatewayEndpoint k r path m)"
  unfolding gatewayEndpoint_def by (intro keeps_rules read_keeps)+

lemma backend_keeps:
  "keeps (\<lambda>c. J (view c)) (ReconcileRoute k r h m)"
  "keeps (\<lambda>c. J (view c)) (handlerStatus k r h m)"
proof -
  show "keeps (\<lambda>c. J (view c)) (ReconcileRoute k r h m)"
    unfolding ReconcileRoute_def llmisvc_ReconcileRoute_def external_ReconcileRoute_def
    by (cases h) (simp_all only: BackendHandler.case, (intro keeps_rules read_keeps)+)
  show "keeps (\<lambda>c. J (view c)) (handlerStatus k r h m)"
    unfolding handlerStatus_def llmisvc_Status_def external_Status_def llmisvc_GetModelEndpoint_def external_GetModelEndpoint_def
    by (cases h) (simp_all only: BackendHandler.case, (intro keeps_rules read_keeps gatewayEndpoint_keeps)+)
qed

lemmas backend_keeps_policies = backend_keeps [where J = "\<lambda>w. J (w_policies w)" for J]

lemma ModelRef_Reconcile_keeps:
  "keeps (\<lambda>c. protectedKept ps0 (w_policies (view c))) (ModelRef_Reconcile k r req)"
proof -
  have live: "keeps (\<lambda>c. protectedKept ps0 (w_policies (view c))) (ModelRef_reconcileLive k r m)" for m
    unfolding ModelRef_reconcileLive_def reportStatus_def ModelRef_updateStatus_def
    by (intro keeps_rules backend_keeps_policies updateStatusWithReason_keeps [where J = "protectedKept ps0"])+
  have cleanup: "keeps (\<lambda>c. protectedKept ps0 (w_policies (view c))) (CleanupOnDelete h m)" for h and m :: MaaSModelRef
    unfolding CleanupOnDelete_def by (cases h) (simp_all only: BackendHandler.case keeps_ret_fail)
  show ?thesis
    unfolding ModelRef_Reconcile_def ModelRef_handleDeletion_def
    by (intro keeps_rules read_keeps_policies own_writes_keep_policies deleteGenerated_keeps cleanup live)+
qed

end

end
