(* ===== verification/ModelRef_Ready.thy ===== *)
theory ModelRef_Ready
  imports ModelRef_Controller Sample_Cluster
begin

text \<open>
  What the MaaSModelRef reconciler achieves: a model becomes Ready only when its backend is ready and its
  route is attached to the gateway, whatever faults occur, and a deleted model takes its generated
  policies with it. \<open>finds\<close> describes what a call that only reads returns.
\<close>

section \<open>Calls that only read\<close>

definition finds :: "('c \<Rightarrow> world) \<Rightarrow> world \<Rightarrow> ('c, 'a) call \<Rightarrow> ('a \<Rightarrow> bool) \<Rightarrow> bool" where
  "finds view w m Q \<longleftrightarrow>
     (\<forall>c. view c = w \<longrightarrow> view (fst (m c)) = w \<and> (\<forall>x. snd (m c) = Inr x \<longrightarrow> Q x))"

lemma finds_ret: "Q x \<Longrightarrow> finds view w (ret x) Q"
  by (simp add: finds_def)

lemma finds_fail: "finds view w (fail e) Q"
  by (simp add: finds_def)

lemma finds_attempt:
  "finds view w m Q \<Longrightarrow> (\<And>x. Q x \<Longrightarrow> finds view w (f (Inr x)) R) \<Longrightarrow> (\<And>e. finds view w (f (Inl e)) R) \<Longrightarrow>
   finds view w (attempt m f) R"
  unfolding finds_def attempt_def
  by (intro allI impI, case_tac "m c", case_tac b) auto

lemma finds_bnd: "finds view w m Q \<Longrightarrow> (\<And>x. Q x \<Longrightarrow> finds view w (f x) R) \<Longrightarrow> finds view w (bnd m f) R"
  unfolding bnd_def by (erule finds_attempt) (auto intro: finds_fail)

lemma finds_wrapErr: "finds view w m Q \<Longrightarrow> finds view w (wrapErr p m) Q"
  unfolding wrapErr_def by (erule finds_attempt) (auto intro: finds_fail finds_ret)

lemma reads_finds: "reads view healthy m f \<Longrightarrow> finds view w m (\<lambda>x. f w = Some x)"
  unfolding reads_def finds_def by blast

lemma lists_finds: "lists view healthy m f \<Longrightarrow> finds view w m (\<lambda>xs. \<forall>x \<in> set xs. x \<in> f w)"
  unfolding lists_def finds_def by blast

lemma keeps_finds:
  assumes "\<And>J. keeps (\<lambda>c. J (view c)) m"
  shows "finds view w m (\<lambda>_. True)"
  using assms [of "\<lambda>v. v = w"] by (simp add: stays_def finds_def)

lemma stays_finds:
  "finds view w m Q \<Longrightarrow>
   (\<And>x. Q x \<Longrightarrow> stays (\<lambda>c. view c = w) I (f (Inr x))) \<Longrightarrow> (\<And>e. stays (\<lambda>c. view c = w) I (f (Inl e))) \<Longrightarrow>
   stays (\<lambda>c. view c = w) I (attempt m f)"
  unfolding stays_def finds_def attempt_def
  by (intro allI impI, case_tac "m c", case_tac b) auto

lemma stays_finds_bnd:
  "finds view w m Q \<Longrightarrow> (\<And>c. view c = w \<Longrightarrow> I c) \<Longrightarrow> (\<And>x. Q x \<Longrightarrow> stays (\<lambda>c. view c = w) I (f x)) \<Longrightarrow>
   stays (\<lambda>c. view c = w) I (bnd m f)"
  unfolding bnd_def by (erule stays_finds) (auto intro: stays_fail)

section \<open>When a model is Ready\<close>

definition attached :: "MaaSModelRefReconciler \<Rightarrow> string \<Rightarrow> HTTPRoute \<Rightarrow> bool" where
  "attached r ns route \<longleftrightarrow>
     (\<exists>p \<in> set (rt_parentRefs route). pr_name p = gatewayName r \<and> refNamespace ns p = gatewayNamespace r)"

lemma gatewayLoop_found:
  "gatewayLoop en ens ns gn gns ps = (True, a, b) \<Longrightarrow> (\<exists>p \<in> set ps. pr_name p = en \<and> refNamespace ns p = ens) \<and> a = en \<and> b = ens"
  by (induction ps arbitrary: gn gns) (auto simp: Let_def split: if_splits)

text \<open>The backend of a model of each kind.\<close>

definition backendReady :: "world \<Rightarrow> MaaSModelRefReconciler \<Rightarrow> MaaSModelRef \<Rightarrow> bool" where
  "backendReady w r m =
     (let ns = om_namespace (mod_meta m); name = mr_name (msp_modelRef (mod_spec m))
      in case GetBackendHandler (mr_kind (msp_modelRef (mod_spec m))) of
           None \<Rightarrow> False
         | Some llmisvcHandler \<Rightarrow>
             (\<exists>llm. w_llms w (ns, name) = Some llm \<and> (''Ready'', ''True'') \<in> set (llm_conditions llm)) \<and>
             (\<exists>route \<in> ran (w_routes w). matchesOpts \<lparr>lo_namespace = Some ns, lo_labels = llmisvcLabels m\<rparr> (rt_meta route) \<and>
                attached r ns route)
         | Some externalModelHandler \<Rightarrow>
             w_externals w (ns, name) \<noteq> None \<and>
             (\<exists>route. w_routes w (ns, name) = Some route \<and> attached r ns route \<and>
                (mst_httpRouteGatewayName (mod_status m) = [] \<longrightarrow>
                   gatewayAccepted (gatewayName r) (gatewayNamespace r) ns route)))"

definition routeOk :: "world \<Rightarrow> MaaSModelRefReconciler \<Rightarrow> BackendHandler \<Rightarrow> MaaSModelRef \<Rightarrow> MaaSModelRef \<Rightarrow> bool" where
  "routeOk w r h m m' =
     (let ns = om_namespace (mod_meta m); name = mr_name (msp_modelRef (mod_spec m))
      in mod_meta m' = mod_meta m \<and> mod_spec m' = mod_spec m \<and>
         (case h of
            llmisvcHandler \<Rightarrow>
              (\<exists>route \<in> ran (w_routes w). matchesOpts \<lparr>lo_namespace = Some ns, lo_labels = llmisvcLabels m\<rparr> (rt_meta route) \<and>
                attached r ns route)
          | externalModelHandler \<Rightarrow>
              w_externals w (ns, name) \<noteq> None \<and>
              (mst_httpRouteName (mod_status m') \<noteq> [] \<and> mst_httpRouteGatewayName (mod_status m') \<noteq> [] \<longrightarrow>
                (\<exists>route. w_routes w (ns, name) = Some route \<and> attached r ns route \<and>
                   (mst_httpRouteGatewayName (mod_status m) = [] \<longrightarrow>
                      gatewayAccepted (gatewayName r) (gatewayNamespace r) ns route)))))"

definition statusOk :: "world \<Rightarrow> BackendHandler \<Rightarrow> MaaSModelRef \<Rightarrow> bool" where
  "statusOk w h m =
     (case h of
        llmisvcHandler \<Rightarrow>
          (\<exists>llm. w_llms w (om_namespace (mod_meta m), mr_name (msp_modelRef (mod_spec m))) = Some llm \<and>
             (''Ready'', ''True'') \<in> set (llm_conditions llm))
      | externalModelHandler \<Rightarrow>
          mst_httpRouteName (mod_status m) \<noteq> [] \<and> mst_httpRouteGatewayName (mod_status m) \<noteq> [])"

lemma backendReady_parts:
  "GetBackendHandler (mr_kind (msp_modelRef (mod_spec m))) = Some h \<Longrightarrow> routeOk w r h m m' \<Longrightarrow> statusOk w h m' \<Longrightarrow>
   backendReady w r m"
  by (cases h) (auto simp: backendReady_def routeOk_def statusOk_def Let_def)

context api_server
begin

lemma ReconcileRoute_finds:
  "finds view w (ReconcileRoute k r h m) (\<lambda>(m', res). res = None \<longrightarrow> routeOk w r h m m')"
proof (cases h)
  case llmisvcHandler
  show ?thesis
    unfolding llmisvcHandler ReconcileRoute_def BackendHandler.case llmisvc_ReconcileRoute_def Let_def
    by (rule finds_attempt [OF lists_finds [OF listRoutes]])
      (auto simp: routeOk_def attached_def Let_def intro!: finds_ret dest!: gatewayLoop_found split: list.splits prod.splits)
next
  case externalModelHandler
  show ?thesis
    unfolding externalModelHandler ReconcileRoute_def BackendHandler.case external_ReconcileRoute_def Let_def
    by (rule finds_attempt [OF reads_finds [OF getExternal]])
      (auto simp: routeOk_def attached_def Let_def intro!: finds_attempt [OF reads_finds [OF getRoute]] finds_ret
        dest!: gatewayLoop_found split: prod.splits)
qed

lemma handlerStatus_finds: "finds view w (handlerStatus k r h m) (\<lambda>(ep, ready). ready \<longrightarrow> statusOk w h m)"
proof (cases h)
  case llmisvcHandler
  have ep: "finds view w (llmisvc_GetModelEndpoint k r m) (\<lambda>_. True)"
    unfolding llmisvc_GetModelEndpoint_def by (intro keeps_finds gatewayEndpoint_keeps)
  show ?thesis
    unfolding llmisvcHandler handlerStatus_def BackendHandler.case llmisvc_Status_def Let_def
    by (rule finds_attempt [OF reads_finds [OF getLLM]])
      (auto simp: statusOk_def list_ex_iff intro!: finds_ret finds_fail finds_bnd [OF ep])
next
  case externalModelHandler
  have ep: "finds view w (external_GetModelEndpoint k r m) (\<lambda>_. True)"
    unfolding external_GetModelEndpoint_def by (intro keeps_finds gatewayEndpoint_keeps)
  show ?thesis
    unfolding externalModelHandler handlerStatus_def BackendHandler.case external_Status_def
    by (auto simp: statusOk_def intro!: finds_ret finds_bnd [OF ep])
qed

end

text \<open>The stored model is not Ready.\<close>

definition notReady :: "nsn \<Rightarrow> world \<Rightarrow> bool" where
  "notReady key w \<longleftrightarrow> (\<forall>m. w_models w key = Some m \<longrightarrow> mst_phase (mod_status m) \<noteq> ''Ready'')"

lemma notReady_setModelStatus:
  "notReady key w \<Longrightarrow> mst_phase (mod_status m) \<noteq> ''Ready'' \<Longrightarrow> notReady key (setModelStatus m w)"
  by (auto simp: notReady_def setModelStatus_def putModel_def split: option.splits)

lemma setEndpoint_simps [simp]:
  "mod_meta (setEndpoint ep m) = mod_meta m" "mod_spec (setEndpoint ep m) = mod_spec m"
  by (simp_all add: setEndpoint_def)

context api_server
begin

lemma updateStatus_notReady:
  "ph \<noteq> ''Ready'' \<Longrightarrow> keeps (\<lambda>c. notReady key (view c)) (updateStatusWithReason k m ph msg reason snap)"
  unfolding updateStatusWithReason_def Let_def
  by (intro keeps_rules writes_stays [OF statusModel, where P = "notReady key" and J = "notReady key"])
    (auto intro: notReady_setModelStatus)

lemma not_backend_not_ready:
  assumes nr: "notReady key w" and nb: "\<not> backendReady w r m"
  shows "stays (\<lambda>c. view c = w) (\<lambda>c. notReady key (view c)) (ModelRef_reconcileLive k r m)"
proof -
  have upd: "stays (\<lambda>c. view c = w) (\<lambda>c. notReady key (view c)) (updateStatusWithReason k m' ph msg reason snap)"
    if "ph \<noteq> ''Ready''" for m' ph msg reason snap
    using updateStatus_notReady [OF that] nr by (auto simp: stays_def)
  have Failed: "''Failed'' \<noteq> ''Ready''" "''Pending'' \<noteq> ''Ready''" by simp_all
  have upds: "stays (\<lambda>c. view c = w) (\<lambda>c. notReady key (view c)) (bnd (updateStatusWithReason k m' ''Failed'' msg reason snap) (\<lambda>_. fail e))"
    for m' msg reason snap e
    by (intro stays_bnd upd [OF Failed(1)] keeps_ret_fail)
  show ?thesis
  proof (cases "GetBackendHandler (mr_kind (msp_modelRef (mod_spec m)))")
    case None
    then show ?thesis
      unfolding ModelRef_reconcileLive_def Let_def ModelRef_updateStatus_def by (simp add: upd [OF Failed(1)])
  next
    case (Some h)
    have status: "stays (\<lambda>c. view c = w) (\<lambda>c. notReady key (view c)) (reportStatus k r h m1 snap)" if "routeOk w r h m m1" for m1 snap
    proof -
      have "\<not> statusOk w h m1" using backendReady_parts [OF Some that] nb by blast
      then show ?thesis
        unfolding reportStatus_def ModelRef_updateStatus_def
        by (intro stays_finds [OF handlerStatus_finds]) (auto intro!: stays_if upd upds)
    qed
    have "stays (\<lambda>c. view c = w) (\<lambda>c. notReady key (view c))
        (bnd (ReconcileRoute k r h m)
          (\<lambda>(model1, res). case res of
             Some err \<Rightarrow> if errIs err ErrKindNotImplemented
               then updateStatusWithReason k model1 ''Failed'' (''kind not implemented: '' @ mr_kind (msp_modelRef (mod_spec m))) ''Unsupported'' (mod_status m)
               else if errIs err ErrHTTPRouteNotFound
               then ModelRef_updateStatus k (setEndpoint [] model1) ''Pending'' ''Waiting for HTTPRoute to be created'' (mod_status m)
               else bnd (ModelRef_updateStatus k model1 ''Failed'' (''Failed to reconcile HTTPRoute: '' @ errText err) (mod_status m)) (\<lambda>_. fail err)
           | None \<Rightarrow> reportStatus k r h model1 (mod_status m)))"
      unfolding ModelRef_updateStatus_def
      by (intro stays_finds_bnd [OF ReconcileRoute_finds] stays_prod stays_option stays_if upd upds status)
        (use nr in auto)
    then show ?thesis unfolding ModelRef_reconcileLive_def Let_def Some option.case .
  qed
qed

lemma delete_keeps_models: "keeps (\<lambda>c. J (w_models (view c))) (cl_deletePolicy k g p)"
  by (rule writes_stays [OF deletePolicy, where P = "\<lambda>w. J (w_models w)" and J = "\<lambda>w. J (w_models w)"])
    (simp_all add: dropPolicy_def)

lemma deleteGenerated_keeps_models: "keeps (\<lambda>c. J (w_models (view c))) (deleteGeneratedPoliciesByLabel k ns n g)"
  unfolding deleteGeneratedPoliciesByLabel_def deleteListed_def
  by (intro keeps_rules delete_keeps_models read_keeps [where J = "\<lambda>w. J (w_models w)"])+

end

lemma notReady_updModel:
  "notReady key w \<Longrightarrow> mst_phase (mod_status m) \<noteq> ''Ready'' \<Longrightarrow> notReady key (updModel m w)"
  by (auto simp: notReady_def updModel_def putModel_def split: if_splits)

lemma backendReady_updModel: "mod_spec m' = mod_spec m \<Longrightarrow> mod_status m' = mod_status m \<Longrightarrow>
    om_namespace (mod_meta m') = om_namespace (mod_meta m) \<Longrightarrow> backendReady (updModel m1 w) r m' = backendReady w r m"
  by (auto simp: backendReady_def updModel_def putModel_def llmisvcLabels_def Let_def split: option.splits BackendHandler.splits)

lemma addFinalizer_namespace [simp]: "om_namespace (addFinalizer f m) = om_namespace m"
  by (simp add: addFinalizer_def)

context api_server
begin

lemma handleDeletion_notReady:
  assumes "mst_phase (mod_status m) \<noteq> ''Ready''"
  shows "keeps (\<lambda>c. notReady key (view c)) (ModelRef_handleDeletion k m)"
proof -
  have del: "keeps (\<lambda>c. notReady key (view c)) (deleteGeneratedPoliciesByLabel k ns n g)" for ns n g
    using deleteGenerated_keeps_models [where J = "\<lambda>ms. \<forall>m. ms key = Some m \<longrightarrow> mst_phase (mod_status m) \<noteq> ''Ready''"]
    by (simp add: notReady_def)
  have upd: "keeps (\<lambda>c. notReady key (view c)) (cl_updateModel k (m\<lparr>mod_meta := x\<rparr>))" for x
    by (rule writes_stays [OF updateModel, where P = "notReady key" and J = "notReady key"])
      (simp_all add: notReady_updModel assms)
  have cleanup: "keeps (\<lambda>c. notReady key (view c)) (CleanupOnDelete h m')" for h and m' :: MaaSModelRef
    unfolding CleanupOnDelete_def by (cases h) (simp_all only: BackendHandler.case keeps_ret_fail)
  show ?thesis unfolding ModelRef_handleDeletion_def by (intro keeps_rules del upd cleanup)
qed

lemma reconcile_not_ready:
  assumes m: "w_models w key = Some m" "mst_phase (mod_status m) \<noteq> ''Ready''" and nb: "\<not> backendReady w r m"
  shows "stays (\<lambda>c. view c = w) (\<lambda>c. notReady key (view c)) (ModelRef_Reconcile k r key)"
proof -
  have nr: "notReady key w" using m by (simp add: notReady_def)
  have live: "stays (\<lambda>c. view c = w) (\<lambda>c. notReady key (view c)) (ModelRef_reconcileLive k r m)"
    by (rule not_backend_not_ready [OF nr nb])
  have del: "stays (\<lambda>c. view c = w) (\<lambda>c. notReady key (view c)) (ModelRef_handleDeletion k m)"
    using handleDeletion_notReady [OF m(2), of key] nr by (auto simp: stays_def)
  let ?m1 = "m\<lparr>mod_meta := addFinalizer maasModelFinalizer (mod_meta m)\<rparr>"
  have fin: "stays (\<lambda>c. view c = w) (\<lambda>c. notReady key (view c)) (bnd (cl_updateModel k ?m1) (\<lambda>_. ModelRef_reconcileLive k r ?m1))"
    unfolding stays_def
  proof (intro allI impI)
    fix c assume c: "view c = w"
    obtain c1 res where u: "cl_updateModel k ?m1 c = (c1, res)" by fastforce
    have v: "view c1 = updModel ?m1 w \<or> view c1 = w \<and> (\<exists>e. res = Inl e)"
      using updateModel [of ?m1] u c unfolding writes_def by (metis fst_conv snd_conv)
    have nr1: "notReady key (updModel ?m1 w)" by (simp add: notReady_updModel nr m(2))
    have nb1: "\<not> backendReady (updModel ?m1 w) r ?m1" using nb backendReady_updModel [of ?m1 m] by simp
    have "notReady key (view (fst (ModelRef_reconcileLive k r ?m1 c1)))" if "view c1 = updModel ?m1 w"
      using stays_fst [OF not_backend_not_ready [OF nr1 nb1]] that by simp
    with u v nr nr1 show "notReady key (view (fst (bnd (cl_updateModel k ?m1) (\<lambda>_. ModelRef_reconcileLive k r ?m1) c)))"
      by (cases res) (auto simp: bnd_def attempt_def)
  qed
  show ?thesis
    unfolding ModelRef_Reconcile_def
    by (intro stays_finds [OF reads_finds [OF getModel]]) (use m(1) nr live del fin in \<open>auto simp: Let_def intro: stays_ret stays_fail\<close>)
qed

text \<open>Without faults a model that is being deleted takes its policies with it.\<close>

lemma deleteGenerated_healthy:
  assumes "healthy c"
  shows "\<exists>c'. deleteGeneratedPoliciesByLabel k ns n g c = (c', Inr ()) \<and> healthy c' \<and>
    view c' = sweep g (\<lambda>p. matchesOpts (generatedOpts ns n) (gp_meta p)) (view c)"
proof -
  obtain c1 xs c' where "cl_listPolicies k g (generatedOpts ns n) c = (c1, Inr xs)"
    "forE (deleteListed k g (''failed to delete '' @ kindName g @ '' '')) xs c1 = (c', Inr ())"
    "healthy c'" "view c' = sweep g (\<lambda>p. matchesOpts (generatedOpts ns n) (gp_meta p)) (view c)"
    using list_delete_healthy [OF assms] by blast
  then show ?thesis by (auto simp: deleteGeneratedPoliciesByLabel_def run_rules)
qed

lemma deletion_cleans:
  fixes m :: MaaSModelRef
  defines "P \<equiv> \<lambda>p. matchesOpts (generatedOpts (om_namespace (mod_meta m)) (om_name (mod_meta m))) (gp_meta p)"
  assumes h: "healthy c" and m: "w_models (view c) key = Some m" "om_deleting (mod_meta m)" "hasFinalizer maasModelFinalizer (mod_meta m)"
  shows "\<exists>c'. ModelRef_Reconcile k r key c = (c', Inr ()) \<and>
    view c' = updModel (m\<lparr>mod_meta := removeFinalizer maasModelFinalizer (mod_meta m)\<rparr>)
      (sweep TokenRateLimitPolicyKind P (sweep AuthPolicyKind P (view c)))"
proof -
  let ?m = "m\<lparr>mod_meta := removeFinalizer maasModelFinalizer (mod_meta m)\<rparr>"
  have key: "nsnOf (mod_meta m) = key" using stored_key(1) [OF m(1)] .
  obtain c1 where c1: "cl_getModel k key c = (c1, Inr m)" "healthy c1" "view c1 = view c"
    using reads_healthy [OF getModel h, of key] m(1) by auto
  obtain c2 where c2: "deleteGeneratedPoliciesByLabel k (om_namespace (mod_meta m)) (om_name (mod_meta m)) AuthPolicyKind c1 = (c2, Inr ())"
    "healthy c2" "view c2 = sweep AuthPolicyKind P (view c)"
    using deleteGenerated_healthy [OF c1(2)] c1(3) unfolding P_def by metis
  obtain c3 where c3: "deleteGeneratedPoliciesByLabel k (om_namespace (mod_meta m)) (om_name (mod_meta m)) TokenRateLimitPolicyKind c2 = (c3, Inr ())"
    "healthy c3" "view c3 = sweep TokenRateLimitPolicyKind P (sweep AuthPolicyKind P (view c))"
    using deleteGenerated_healthy [OF c2(2)] c2(3) unfolding P_def by metis
  have "w_models (view c3) (nsnOf (mod_meta ?m)) \<noteq> None"
    using m(1) key by (simp add: c3(3) sweep_def nsnOf_def removeFinalizer_def)
  then obtain c4 where c4: "cl_updateModel k ?m c3 = (c4, Inr ())" "view c4 = updModel ?m (view c3)"
    using writes_healthy [OF updateModel c3(2), of ?m] by auto
  have "(case GetBackendHandler (mr_kind (msp_modelRef (mod_spec m))) of Some h \<Rightarrow> CleanupOnDelete h m | None \<Rightarrow> ret ()) c3 = (c3, Inr ())"
    by (auto simp: CleanupOnDelete_def split: option.splits BackendHandler.splits)
  with c1(1) c2(1) c3 c4 m show ?thesis
    by (auto simp: ModelRef_Reconcile_def ModelRef_handleDeletion_def run_attempt run_bnd)
qed

end

section \<open>Theorems\<close>

text \<open>C15: a model becomes Ready only when it can serve. If a reconciliation, with whatever faults, turns a
  model that was not Ready into a Ready one, then its backend is there and ready (for an
  LLMInferenceService the condition Ready is True) and its route references the configured gateway;
  for an external model whose status named no gateway before, the gateway has accepted the route.\<close>

theorem model_ready_sound:
  assumes "api_server k view healthy" "w_models (view c) key = Some m" "mst_phase (mod_status m) \<noteq> ''Ready''"
    and "ModelRef_Reconcile k r key c = (c', res)" "w_models (view c') key = Some m'" "mst_phase (mod_status m') = ''Ready''"
  shows "backendReady (view c) r m"
proof (rule ccontr)
  assume nb: "\<not> backendReady (view c) r m"
  have "notReady key (view c')"
    using staysD [OF api_server.reconcile_not_ready [OF assms(1-3) nb] refl assms(4)] by simp
  with assms(5,6) show False by (simp add: notReady_def)
qed

text \<open>C29: deleting a model removes its policies first. When no fault occurs, reconciling a model that is
  being deleted and carries the finalizer deletes the managed generated policies of both kinds in its
  namespace and then removes the finalizer; afterwards no managed generated policy of the model is
  left that is not itself being deleted.\<close>

theorem model_deletion_cleans:
  assumes "api_server k view healthy" "healthy c" "w_models (view c) key = Some m"
    and "om_deleting (mod_meta m)" "hasFinalizer maasModelFinalizer (mod_meta m)"
  shows "\<exists>c'. ModelRef_Reconcile k r key c = (c', Inr ()) \<and>
    (\<forall>m'. w_models (view c') key = Some m' \<longrightarrow> \<not> hasFinalizer maasModelFinalizer (mod_meta m')) \<and>
    (\<forall>g key' p. w_policies (view c') g key' = Some p \<and> isManaged (gp_meta p) \<and>
       matchesOpts (generatedOpts (om_namespace (mod_meta m)) (om_name (mod_meta m))) (gp_meta p) \<longrightarrow> om_deleting (gp_meta p))"
proof -
  let ?P = "\<lambda>p. matchesOpts (generatedOpts (om_namespace (mod_meta m)) (om_name (mod_meta m))) (gp_meta p)"
  let ?m = "m\<lparr>mod_meta := removeFinalizer maasModelFinalizer (mod_meta m)\<rparr>"
  obtain c' where run: "ModelRef_Reconcile k r key c = (c', Inr ())"
    and v: "view c' = updModel ?m (sweep TokenRateLimitPolicyKind ?P (sweep AuthPolicyKind ?P (view c)))"
    using api_server.deletion_cleans [OF assms] by blast
  have key: "nsnOf (mod_meta ?m) = key"
    using api_server.stored_key(1) [OF assms(1,3)] by (simp add: nsnOf_def removeFinalizer_def)
  have "\<not> hasFinalizer maasModelFinalizer (mod_meta m')" if "w_models (view c') key = Some m'" for m'
    using that key by (auto simp: v updModel_def putModel_def hasFinalizer_def removeFinalizer_def split: if_splits)
  moreover have "om_deleting (gp_meta p)" if "w_policies (view c') g key' = Some p" "isManaged (gp_meta p)" "?P p" for g key' p
  proof (cases g)
    case AuthPolicyKind
    with that sweep_leaves_deleting [of AuthPolicyKind ?P "view c" key' p] show ?thesis
      by (auto simp: v updModel_def putModel_def sweep_def split: if_splits)
  next
    case TokenRateLimitPolicyKind
    with that sweep_leaves_deleting [of TokenRateLimitPolicyKind ?P "sweep AuthPolicyKind ?P (view c)" key' p] show ?thesis
      by (auto simp: v updModel_def putModel_def split: if_splits)
  qed
  ultimately show ?thesis using run by blast
qed

section \<open>A sample model\<close>

definition modelReconciler :: MaaSModelRefReconciler where
  "modelReconciler = \<lparr>mrr_GatewayName = [], mrr_GatewayNamespace = []\<rparr>"

definition gatewayParent :: ParentRef where
  "gatewayParent = \<lparr>pr_name = ''maas-default-gateway'', pr_namespace = Some ''openshift-ingress''\<rparr>"

text \<open>The route of the model, accepted by the gateway or not.\<close>

definition gatewayRoute :: "string \<Rightarrow> HTTPRoute" where
  "gatewayRoute accepted =
     (sampleRoute ''llm'' ''granite'')\<lparr>rt_parentRefs := [gatewayParent], rt_hostnames := [''maas.example.com''],
        rt_parents := [(gatewayParent, [\<lparr>cd_type = ''Accepted'', cd_status = accepted, cd_reason = [], cd_message = [],
           cd_observedGeneration = 1\<rparr>])]\<rparr>"

definition externalDb :: "string \<Rightarrow> db \<Rightarrow> db" where
  "externalDb accepted d =
     d\<lparr>db_routes := [((''llm'', ''granite''), gatewayRoute accepted)],
       db_externals := [((''llm'', ''granite''), sampleExternal ''llm'' ''granite'')]\<rparr>"

definition readyDb :: db where
  "readyDb = externalDb ''True'' (sampleDb [] [(''llm'', ''granite'')])"

theorem model_ready_sound_witness:
  "backendReady (db_view readyDb) modelReconciler (sampleModel ''llm'' ''granite'')"
proof -
  let ?run = "ModelRef_Reconcile std_client modelReconciler (''llm'', ''granite'') readyDb"
  have "map_option (\<lambda>m. mst_phase (mod_status m)) (tidy mod_meta (db_models (fst ?run)) (''llm'', ''granite'')) = Some ''Ready''"
    by code_simp
  moreover obtain d' res where run: "?run = (d', res)" by (cases ?run)
  ultimately obtain m' where m': "w_models (db_view d') (''llm'', ''granite'') = Some m'" "mst_phase (mod_status m') = ''Ready''"
    by (auto simp only: fst_conv map_option_eq_Some db_view_fields)
  have m: "w_models (db_view readyDb) (''llm'', ''granite'') = Some (sampleModel ''llm'' ''granite'')"
    "mst_phase (mod_status (sampleModel ''llm'' ''granite'')) \<noteq> ''Ready''"
    by (simp_all add: readyDb_def externalDb_def sampleDb_def tidy_def sampleModel_def sampleMeta_def newMeta_def nsnOf_def)
  show ?thesis
    by (rule model_ready_sound [OF std.api_server_axioms m run m'])
qed

text \<open>What a reconciliation of an external model stores when the gateway has not accepted its route.\<close>

lemma gatewayLoop_attached:
  "\<exists>p \<in> set ps. pr_name p = en \<and> refNamespace ns p = ens \<Longrightarrow> gatewayLoop en ens ns gn gns ps = (True, en, ens)"
  by (induction ps arbitrary: gn gns) (auto simp: Let_def)

context api_server
begin

lemma updateStatusWithReason_stores:
  assumes "healthy c" "w_models (view c) key = Some m" "mod_meta m1 = mod_meta m" "snap = mod_status m"
  shows "\<exists>c' m'. updateStatusWithReason k m1 phase message reason snap c = (c', Inr ()) \<and> w_models (view c') key = Some m' \<and>
    mst_phase (mod_status m') = phase \<and> mst_httpRouteGatewayName (mod_status m') = mst_httpRouteGatewayName (mod_status m1)"
proof -
  have key: "nsnOf (mod_meta m1) = key" using stored_key(1) [OF assms(2)] assms(3) by simp
  define status where "status = (mod_status m1)\<lparr>mst_phase := phase,
    mst_conditions := lib_setStatusCondition k (mst_conditions (mod_status m1))
      (modelCondition phase message reason (om_generation (mod_meta m1)))\<rparr>"
  have run: "updateStatusWithReason k m1 phase message reason snap c =
      (if snap = status then (c, Inr ()) else attempt (cl_statusModel k (m1\<lparr>mod_status := status\<rparr>)) (\<lambda>_. ret ()) c)"
    by (simp add: updateStatusWithReason_def Let_def status_def)
  have st: "mst_phase status = phase" "mst_httpRouteGatewayName status = mst_httpRouteGatewayName (mod_status m1)"
    by (simp_all add: status_def)
  show ?thesis
  proof (cases "snap = status")
    case True
    with run assms(2,4) st show ?thesis by auto
  next
    case False
    obtain c2 where "view c2 = setModelStatus (m1\<lparr>mod_status := status\<rparr>) (view c)"
      "cl_statusModel k (m1\<lparr>mod_status := status\<rparr>) c = (c2, Inr ())"
      using writes_healthy [OF statusModel assms(1), of "m1\<lparr>mod_status := status\<rparr>"] assms(2) key by auto
    with False run assms(2,3) key st show ?thesis
      by (auto simp: run_rules setModelStatus_def putModel_def nsnOf_def)
  qed
qed

lemma unaccepted_route:
  fixes m :: MaaSModelRef
  defines "ns \<equiv> om_namespace (mod_meta m)" and "name \<equiv> mr_name (msp_modelRef (mod_spec m))"
    and "gw \<equiv> mst_httpRouteGatewayName (mod_status m)"
  assumes h: "healthy c" and m: "w_models (view c) key = Some m" "\<not> om_deleting (mod_meta m)" "hasFinalizer maasModelFinalizer (mod_meta m)"
    and kind: "mr_kind (msp_modelRef (mod_spec m)) = ''ExternalModel''" "name \<noteq> []"
    and ext: "w_externals (view c) (ns, name) \<noteq> None" and route: "w_routes (view c) (ns, name) = Some route"
    and att: "attached r ns route" and acc: "\<not> gatewayAccepted (gatewayName r) (gatewayNamespace r) ns route"
    and host: "gw \<noteq> [] \<Longrightarrow> mst_httpRouteHostnames (mod_status m) \<noteq> []"
  shows "\<exists>c' m'. ModelRef_Reconcile k r key c = (c', Inr ()) \<and> w_models (view c') key = Some m' \<and>
    mst_phase (mod_status m') = (if gw = [] then ''Pending'' else ''Ready'') \<and> mst_httpRouteGatewayName (mod_status m') = gw"
proof -
  obtain c1 where c1: "healthy c1" "view c1 = view c" "cl_getModel k key c = (c1, Inr m)"
    using reads_healthy [OF getModel h, of key] m(1) by auto
  obtain c2 e where c2: "healthy c2" "view c2 = view c" "cl_getExternal k (ns, name) c1 = (c2, Inr e)"
    using reads_healthy [OF getExternal c1(1), of "(ns, name)"] c1(2) ext by auto
  obtain c3 where c3: "healthy c3" "view c3 = view c" "cl_getRoute k (ns, name) c2 = (c3, Inr route)"
    using reads_healthy [OF getRoute c2(1), of "(ns, name)"] c2(2) route by auto
  define m1 where "m1 = m\<lparr>mod_status := (mod_status m)\<lparr>mst_httpRouteName := name, mst_httpRouteNamespace := ns\<rparr>\<rparr>"
  have loop: "gatewayLoop (gatewayName r) (gatewayNamespace r) ns [] [] (rt_parentRefs route) = (True, gatewayName r, gatewayNamespace r)"
    using att unfolding attached_def by (rule gatewayLoop_attached)
  have handler: "GetBackendHandler (mr_kind (msp_modelRef (mod_spec m))) = Some externalModelHandler"
    by (simp add: kind GetBackendHandler_def)
  have "external_ReconcileRoute k r m c1 = (c3, Inr (m1, None))"
    unfolding external_ReconcileRoute_def ns_def [symmetric] name_def [symmetric]
    by (simp add: Let_def run_rules c2(3) c3(3) loop acc m1_def)
  then have recon: "ModelRef_Reconcile k r key c = reportStatus k r externalModelHandler m1 (mod_status m) c3"
    using c1(3) m(2,3) handler by (simp add: ModelRef_Reconcile_def run_rules ModelRef_reconcileLive_def Let_def ReconcileRoute_def)
  have m1: "mod_meta m1 = mod_meta m" "mst_httpRouteGatewayName (mod_status m1) = gw" "mst_httpRouteName (mod_status m1) = name"
    "mst_httpRouteHostnames (mod_status m1) = mst_httpRouteHostnames (mod_status m)" "mod_spec m1 = mod_spec m"
    by (simp_all add: m1_def gw_def)
  have m3: "w_models (view c3) key = Some m" using m(1) c3(2) by simp
  have stored: "\<exists>c' m'. updateStatusWithReason k (setEndpoint ep m1) phase message reason (mod_status m) c3 = (c', Inr ()) \<and>
      w_models (view c') key = Some m' \<and> mst_phase (mod_status m') = phase \<and> mst_httpRouteGatewayName (mod_status m') = gw"
    for ep phase message reason
    using updateStatusWithReason_stores [OF c3(1) m3, of "setEndpoint ep m1" "mod_status m"] m1 by (simp add: setEndpoint_def)
  show ?thesis
  proof (cases "gw = []")
    case True
    then have "external_Status k r m1 c3 = (c3, Inr ([], False))" by (simp add: external_Status_def m1)
    with stored [of "[]" "''Pending''" "''Waiting for backend to become ready''" "[]"] True show ?thesis
      unfolding recon reportStatus_def ModelRef_updateStatus_def
      by (simp only: handlerStatus_def BackendHandler.case run_attempt sum.case prod.case if_False if_True simp_thms)
  next
    case False
    from host [OF False] obtain hn hs where "mst_httpRouteHostnames (mod_status m) = hn # hs" by (meson neq_Nil_conv)
    then obtain ep where "external_GetModelEndpoint k r m1 c3 = (c3, Inr ep)"
      by (simp add: external_GetModelEndpoint_def gatewayEndpoint_def m1)
    then have "external_Status k r m1 c3 = (c3, Inr (ep, True))" using False kind by (simp add: external_Status_def m1 run_rules)
    with stored [of "if msp_endpointOverride (mod_spec m1) \<noteq> [] then msp_endpointOverride (mod_spec m1) else ep" "''Ready''"
        "''Successfully reconciled''" "[]"] False show ?thesis
      unfolding recon reportStatus_def ModelRef_updateStatus_def
      by (simp only: handlerStatus_def BackendHandler.case run_attempt sum.case prod.case if_False if_True simp_thms)
  qed
qed

end

text \<open>C39: a route the gateway no longer accepts leaves an external model Ready. The handler does not clear
  the gateway recorded in the status of the model, and readiness is judged by that record. Take a live
  external model with its finalizer, whose ExternalModel exists and whose route references the gateway but
  is not accepted by it, on a cluster without faults: when the status names a gateway (and a host, which an
  accepted route leaves there) from earlier, the reconciliation stores the phase Ready and keeps the record;
  when it names none, the phase is Pending.\<close>

theorem withdrawn_route_stays_ready:
  assumes "api_server k view healthy" "healthy c" "w_models (view c) key = Some m" "\<not> om_deleting (mod_meta m)"
    and "hasFinalizer maasModelFinalizer (mod_meta m)" "mr_kind (msp_modelRef (mod_spec m)) = ''ExternalModel''"
    and "mr_name (msp_modelRef (mod_spec m)) \<noteq> []"
    and "w_externals (view c) (om_namespace (mod_meta m), mr_name (msp_modelRef (mod_spec m))) \<noteq> None"
    and "w_routes (view c) (om_namespace (mod_meta m), mr_name (msp_modelRef (mod_spec m))) = Some route"
    and "attached r (om_namespace (mod_meta m)) route"
    and "\<not> gatewayAccepted (gatewayName r) (gatewayNamespace r) (om_namespace (mod_meta m)) route"
    and "mst_httpRouteGatewayName (mod_status m) \<noteq> [] \<Longrightarrow> mst_httpRouteHostnames (mod_status m) \<noteq> []"
  shows "\<exists>c' m'. ModelRef_Reconcile k r key c = (c', Inr ()) \<and> w_models (view c') key = Some m' \<and>
    mst_phase (mod_status m') = (if mst_httpRouteGatewayName (mod_status m) = [] then ''Pending'' else ''Ready'') \<and>
    mst_httpRouteGatewayName (mod_status m') = mst_httpRouteGatewayName (mod_status m)"
  by (rule api_server.unaccepted_route [OF assms(1-12)])

definition acceptedModel :: MaaSModelRef where
  "acceptedModel = (sampleModel ''llm'' ''granite'')
     \<lparr>mod_meta := (sampleMeta ''llm'' ''granite'')\<lparr>om_finalizers := [maasModelFinalizer]\<rparr>,
      mod_status := (mod_status (sampleModel ''llm'' ''granite''))\<lparr>mst_phase := ''Ready'',
        mst_httpRouteGatewayName := ''maas-default-gateway'', mst_httpRouteHostnames := [''maas.example.com'']\<rparr>\<rparr>"

definition withdrawnDb :: db where
  "withdrawnDb = (externalDb ''False'' (sampleDb [] [(''llm'', ''granite'')]))\<lparr>db_models := [((''llm'', ''granite''), acceptedModel)]\<rparr>"

theorem withdrawn_route_stays_ready_witness:
  "\<exists>d' m'. ModelRef_Reconcile std_client modelReconciler (''llm'', ''granite'') withdrawnDb = (d', Inr ()) \<and>
     w_models (db_view d') (''llm'', ''granite'') = Some m' \<and> mst_phase (mod_status m') = ''Ready''"
proof -
  have meta: "om_namespace (mod_meta acceptedModel) = ''llm''" "mr_name (msp_modelRef (mod_spec acceptedModel)) = ''granite''"
    "mst_httpRouteGatewayName (mod_status acceptedModel) = ''maas-default-gateway''"
    "mst_httpRouteHostnames (mod_status acceptedModel) = [''maas.example.com'']"
    by code_simp+
  have db: "tidy mod_meta (db_models withdrawnDb) (''llm'', ''granite'') = Some acceptedModel"
    "map_of (db_externals withdrawnDb) (''llm'', ''granite'') \<noteq> None"
    "tidy rt_meta (db_routes withdrawnDb) (''llm'', ''granite'') = Some (gatewayRoute ''False'')" by code_simp+
  have up: "\<not> db_down withdrawnDb" and m: "\<not> om_deleting (mod_meta acceptedModel)" "hasFinalizer maasModelFinalizer (mod_meta acceptedModel)"
    "mr_kind (msp_modelRef (mod_spec acceptedModel)) = ''ExternalModel''"
    and acc: "\<not> gatewayAccepted (gatewayName modelReconciler) (gatewayNamespace modelReconciler) ''llm'' (gatewayRoute ''False'')" by code_simp+
  have "gatewayParent \<in> set (rt_parentRefs (gatewayRoute ''False''))" "pr_name gatewayParent = gatewayName modelReconciler"
    "refNamespace ''llm'' gatewayParent = gatewayNamespace modelReconciler" by code_simp+
  then have att: "attached modelReconciler ''llm'' (gatewayRoute ''False'')" unfolding attached_def by blast
  show ?thesis
    using withdrawn_route_stays_ready [OF std.api_server_axioms up _ m, of "(''llm'', ''granite'')" "gatewayRoute ''False''" modelReconciler]
      db acc att unfolding meta by (simp add: db_view_fields) blast
qed

definition deletingDb :: db where
  "deletingDb =
     withPolicies AuthPolicyKind
       [\<lparr>gp_meta = newMeta ''maas-auth-granite'' ''llm''
            [(''maas.opendatahub.io/model'', ''granite''), (''app.kubernetes.io/managed-by'', ''maas-controller'')] [],
         gp_owner = None, gp_spec = [], gp_status = None\<rparr>]
       ((sampleDb [] [])\<lparr>db_models := [((''llm'', ''granite''), (sampleModel ''llm'' ''granite'')\<lparr>mod_meta :=
          (sampleMeta ''llm'' ''granite'')\<lparr>om_deleting := True, om_finalizers := [maasModelFinalizer]\<rparr>\<rparr>)]\<rparr>)"

theorem model_deletion_cleans_witness:
  "\<exists>d'. ModelRef_Reconcile std_client modelReconciler (''llm'', ''granite'') deletingDb = (d', Inr ()) \<and>
     (\<forall>g key' p. w_policies (db_view d') g key' = Some p \<and> isManaged (gp_meta p) \<and>
        matchesOpts (generatedOpts ''llm'' ''granite'') (gp_meta p) \<longrightarrow> om_deleting (gp_meta p))"
proof -
  let ?m = "(sampleModel ''llm'' ''granite'')\<lparr>mod_meta :=
      (sampleMeta ''llm'' ''granite'')\<lparr>om_deleting := True, om_finalizers := [maasModelFinalizer]\<rparr>\<rparr>"
  have "tidy mod_meta (db_models deletingDb) (''llm'', ''granite'') = Some ?m" and up: "\<not> db_down deletingDb"
    and meta: "om_namespace (mod_meta ?m) = ''llm''" "om_name (mod_meta ?m) = ''granite''" by code_simp+
  then have m: "w_models (db_view deletingDb) (''llm'', ''granite'') = Some ?m" by (simp only: db_view_fields)
  have del: "om_deleting (mod_meta ?m)" "hasFinalizer maasModelFinalizer (mod_meta ?m)" by (simp_all add: hasFinalizer_def)
  from model_deletion_cleans [OF std.api_server_axioms up m del, of modelReconciler] show ?thesis
    unfolding meta by (elim exE conjE) (intro exI conjI; assumption)
qed

end
