(* ===== verification/External_Model.thy ===== *)
theory External_Model
  imports Sample_Cluster
begin

text \<open>
  \<open>maas-controller/pkg/reconciler/externalmodel\<close> (\<open>reconciler.go\<close>, \<open>resources.go\<close>): the reconciler that
  creates, for an ExternalModel, the Service, the ServiceEntry, the DestinationRule (only with TLS) and the
  HTTPRoute that lead to the external provider. The four resources are built in full. The operations of
  the client it calls are a record of their own, with the laws of \<open>reads\<close> and \<open>writes\<close> over a world of
  these resources; an update keeps what the server does not let a client change (a set deletion
  timestamp), and completes a deletion when it leaves no finalizer.
\<close>

section \<open>Objects\<close>

record 'a object =
  ob_meta :: ObjectMeta
  ob_owners :: "owner_ref list"
  ob_spec :: 'a

text \<open>A Service; \<open>svs_other\<close> stands for all further fields of a stored spec.\<close>

record ServiceSpec =
  svs_type :: string
  svs_externalName :: string
  svs_ports :: "(int \<times> int) list"
  svs_other :: gomap

datatype route_match = PathPrefix string | HeaderExact string string

record route_rule =
  rr_matches :: "route_match list"
  rr_backendRefs :: "(string \<times> int) list"
  rr_setHeaders :: "(string \<times> string) list"
  rr_timeout :: string

record HTTPRouteSpec =
  hr_parentRefs :: "(string \<times> string) list"
  hr_rules :: "route_rule list"

datatype istio_kind = ServiceEntry | DestinationRule

record 'c ext_client =
  xc_getExternal :: "nsn \<Rightarrow> ('c, ExternalModel) call"
  xc_getService :: "nsn \<Rightarrow> ('c, ServiceSpec object) call"
  xc_createService :: "ServiceSpec object \<Rightarrow> ('c, unit) call"
  xc_updateService :: "ServiceSpec object \<Rightarrow> ('c, unit) call"
  xc_getObject :: "istio_kind \<Rightarrow> nsn \<Rightarrow> ('c, gomap object) call"
  xc_createObject :: "istio_kind \<Rightarrow> gomap object \<Rightarrow> ('c, unit) call"
  xc_updateObject :: "istio_kind \<Rightarrow> gomap object \<Rightarrow> ('c, unit) call"
  xc_deleteObject :: "istio_kind \<Rightarrow> gomap object \<Rightarrow> ('c, unit) call"
  xc_getRoute :: "nsn \<Rightarrow> ('c, HTTPRouteSpec object) call"
  xc_createRoute :: "HTTPRouteSpec object \<Rightarrow> ('c, unit) call"
  xc_updateRoute :: "HTTPRouteSpec object \<Rightarrow> ('c, unit) call"
  xl_setControllerReference :: "ExternalModel \<Rightarrow> owner_ref list \<Rightarrow> cerror + owner_ref list"

section \<open>Annotations\<close>

definition annotationPort :: string where "annotationPort = ''maas.opendatahub.io/port''"
definition annotationTLS :: string where "annotationTLS = ''maas.opendatahub.io/tls''"

text \<open>\<open>strconv.ParseInt(s, 10, 32)\<close> and \<open>strconv.ParseBool\<close>.\<close>

definition digitsOnly :: "string \<Rightarrow> int option" where
  "digitsOnly s =
     (if s \<noteq> [] \<and> list_all (\<lambda>ch. 48 \<le> (of_char ch :: int) \<and> of_char ch \<le> (57 :: int)) s
      then Some (foldl (\<lambda>n ch. 10 * n + (of_char ch - 48)) 0 s) else None)"

definition parseInt32 :: "string \<Rightarrow> int option" where
  "parseInt32 s =
     (let v = (case s of
                 [] \<Rightarrow> None
               | ch # cs \<Rightarrow> if ch = CHR ''-'' then map_option uminus (digitsOnly cs)
                            else if ch = CHR ''+'' then digitsOnly cs else digitsOnly s)
      in case v of
           None \<Rightarrow> None
         | Some n \<Rightarrow> if - (2 ^ 31) \<le> n \<and> n < 2 ^ 31 then Some n else None)"

definition portOf :: "(string \<times> string) list \<Rightarrow> cerror + int" where
  "portOf annotations =
     (case map_of annotations annotationPort of
        None \<Rightarrow> Inr 443
      | Some portStr \<Rightarrow>
          (case parseInt32 portStr of
             None \<Rightarrow> Inl (ErrText (''invalid port '' @ goQuote portStr))
           | Some p \<Rightarrow>
               if p < 1 \<or> p > 65535 then Inl (ErrText (''port '' @ showInt p @ '' out of range (1-65535)''))
               else Inr p))"

definition getTLSInfo :: "ExternalModel \<Rightarrow> cerror + bool \<times> int" where
  "getTLSInfo extModel =
     (let annotations = om_annotations (ext_meta extModel)
      in case portOf annotations of
           Inl err \<Rightarrow> Inl err
         | Inr port \<Rightarrow>
             (case map_of annotations annotationTLS of
                None \<Rightarrow> Inr (True, port)
              | Some tlsStr \<Rightarrow>
                  (case parseBool tlsStr of
                     None \<Rightarrow> Inl (ErrText (''invalid tls value '' @ goQuote tlsStr))
                   | Some tls \<Rightarrow> Inr (tls, port))))"

section \<open>Resources\<close>

definition commonLabels :: "string \<Rightarrow> (string \<times> string) list" where
  "commonLabels modelName =
     [(''app.kubernetes.io/managed-by'', ''maas-external-model-reconciler''),
      (''maas.opendatahub.io/external-model'', modelName)]"

definition buildService :: "string \<Rightarrow> string \<Rightarrow> string \<Rightarrow> int \<Rightarrow> (string \<times> string) list \<Rightarrow> ServiceSpec object" where
  "buildService endpoint name ns port labels =
     \<lparr>ob_meta = newMeta name ns labels [], ob_owners = [],
      ob_spec = \<lparr>svs_type = ''ExternalName'', svs_externalName = endpoint, svs_ports = [(port, port)], svs_other = []\<rparr>\<rparr>"

definition buildServiceEntry ::
  "string \<Rightarrow> string \<Rightarrow> string \<Rightarrow> int \<Rightarrow> bool \<Rightarrow> (string \<times> string) list \<Rightarrow> gomap object" where
  "buildServiceEntry endpoint name ns port tls labels =
     (let protocol = (if tls then ''HTTPS'' else ''HTTP''); portName = (if tls then ''https'' else ''http'')
      in \<lparr>ob_meta = newMeta name ns labels [], ob_owners = [],
          ob_spec = [(''hosts'', GSlice [GStr endpoint]), (''location'', GStr ''MESH_EXTERNAL''), (''resolution'', GStr ''DNS''),
            (''ports'', GSlice [GMap [(''number'', GInt port), (''name'', GStr portName), (''protocol'', GStr protocol)]])]\<rparr>)"

definition buildDestinationRule :: "string \<Rightarrow> string \<Rightarrow> string \<Rightarrow> (string \<times> string) list \<Rightarrow> gomap object" where
  "buildDestinationRule endpoint name ns labels =
     \<lparr>ob_meta = newMeta name ns labels [], ob_owners = [],
      ob_spec = [(''host'', GStr endpoint), (''trafficPolicy'', GMap [(''tls'', GMap [(''mode'', GStr ''SIMPLE'')])])]\<rparr>"

definition buildHTTPRoute ::
  "string \<Rightarrow> string \<Rightarrow> string \<Rightarrow> string \<Rightarrow> int \<Rightarrow> string \<Rightarrow> string \<Rightarrow> (string \<times> string) list \<Rightarrow> HTTPRouteSpec object" where
  "buildHTTPRoute endpoint name targetModel ns port gwName gwNamespace labels =
     (let rule = (\<lambda>match. \<lparr>rr_matches = [match], rr_backendRefs = [(name, port)], rr_setHeaders = [(''Host'', endpoint)],
                    rr_timeout = ''300s''\<rparr>)
      in \<lparr>ob_meta = newMeta name ns labels [], ob_owners = [],
          ob_spec = \<lparr>hr_parentRefs = [(gwName, gwNamespace)],
            hr_rules = [rule (PathPrefix (''/'' @ ns @ ''/'' @ name)), rule (HeaderExact ''X-Gateway-Model-Name'' targetModel)]\<rparr>\<rparr>)"

section \<open>The reconciler\<close>

record ExternalReconciler =
  er_GatewayName :: string
  er_GatewayNamespace :: string

definition ext_gatewayName :: "ExternalReconciler \<Rightarrow> string" where
  "ext_gatewayName r = (if er_GatewayName r \<noteq> [] then er_GatewayName r else ''maas-default-gateway'')"

definition ext_gatewayNamespace :: "ExternalReconciler \<Rightarrow> string" where
  "ext_gatewayNamespace r = (if er_GatewayNamespace r \<noteq> [] then er_GatewayNamespace r else ''openshift-ingress'')"

definition setUnstructuredOwner :: "ExternalModel \<Rightarrow> gomap object \<Rightarrow> gomap object" where
  "setUnstructuredOwner owner obj =
     obj\<lparr>ob_owners := [\<lparr>or_apiVersion = ext_apiVersion owner, or_kind = ext_kind owner, or_name = om_name (ext_meta owner),
            or_uid = ext_uid owner, or_controller = True, or_blockOwnerDeletion = True\<rparr>]\<rparr>"

definition istioKindName :: "istio_kind \<Rightarrow> string" where
  "istioKindName g = (case g of ServiceEntry \<Rightarrow> ''ServiceEntry'' | DestinationRule \<Rightarrow> ''DestinationRule'')"

definition deleteIfExists :: "'c ext_client \<Rightarrow> istio_kind \<Rightarrow> string \<Rightarrow> string \<Rightarrow> ('c, unit) call" where
  "deleteIfExists k g name ns =
     attempt (xc_getObject k g (ns, name))
       (\<lambda>r. case r of
          Inl err \<Rightarrow>
            if isNotFound err then ret ()
            else fail (Wrap (''failed to get '' @ istioKindName g @ '' '' @ ns @ ''/'' @ name @ '': '') err [])
        | Inr obj \<Rightarrow>
            attempt (xc_deleteObject k g obj)
              (\<lambda>d. case d of
                 Inl err \<Rightarrow>
                   if isNotFound err then ret ()
                   else fail (Wrap (''failed to delete '' @ istioKindName g @ '' '' @ ns @ ''/'' @ name @ '': '') err [])
               | Inr _ \<Rightarrow> ret ()))"

text \<open>\<open>equality.Semantic.DeepEqual\<close> of two maps.\<close>

definition sameMap :: "(string \<times> string) list \<Rightarrow> (string \<times> string) list \<Rightarrow> bool" where
  "sameMap a b = list_all (\<lambda>e. map_of a (fst e) = map_of b (fst e)) (a @ b)"

lemma sameMap_iff: "sameMap a b \<longleftrightarrow> map_of a = map_of b"
proof
  assume s: "sameMap a b"
  show "map_of a = map_of b"
  proof
    fix x
    show "map_of a x = map_of b x"
    proof (cases "x \<in> fst ` set (a @ b)")
      case True
      with s show ?thesis by (auto simp: sameMap_def list_all_iff)
    next
      case False
      then show ?thesis by (metis UnI1 UnI2 image_Un map_of_eq_None_iff set_append)
    qed
  qed
qed (simp add: sameMap_def list_all_iff)

definition applyService :: "'c ext_client \<Rightarrow> ServiceSpec object \<Rightarrow> ('c, unit) call" where
  "applyService k desired =
     attempt (xc_getService k (nsnOf (ob_meta desired)))
       (\<lambda>r. case r of
          Inl err \<Rightarrow> if isNotFound err then xc_createService k desired else fail err
        | Inr existing \<Rightarrow>
            let specChanged = (ob_spec existing \<noteq> ob_spec desired);
                ownerChanged = (ob_owners existing \<noteq> ob_owners desired);
                labelsChanged = (\<not> sameMap (om_labels (ob_meta existing)) (om_labels (ob_meta desired)))
            in if specChanged \<or> ownerChanged \<or> labelsChanged
               then xc_updateService k (existing\<lparr>ob_spec := ob_spec desired,
                      ob_meta := (ob_meta existing)\<lparr>om_labels := om_labels (ob_meta desired)\<rparr>,
                      ob_owners := ob_owners desired\<rparr>)
               else ret ())"

definition applyUnstructured :: "'c ext_client \<Rightarrow> istio_kind \<Rightarrow> gomap object \<Rightarrow> ('c, unit) call" where
  "applyUnstructured k g desired =
     attempt (xc_getObject k g (nsnOf (ob_meta desired)))
       (\<lambda>r. case r of
          Inl err \<Rightarrow> if isNotFound err then xc_createObject k g desired else fail err
        | Inr existing \<Rightarrow> xc_updateObject k g desired)"

definition applyHTTPRoute :: "'c ext_client \<Rightarrow> HTTPRouteSpec object \<Rightarrow> ('c, unit) call" where
  "applyHTTPRoute k desired =
     attempt (xc_getRoute k (nsnOf (ob_meta desired)))
       (\<lambda>r. case r of
          Inl err \<Rightarrow> if isNotFound err then xc_createRoute k desired else fail err
        | Inr existing \<Rightarrow>
            xc_updateRoute k (existing\<lparr>ob_spec := ob_spec desired,
              ob_meta := (ob_meta existing)\<lparr>om_labels := om_labels (ob_meta desired)\<rparr>,
              ob_owners := ob_owners desired\<rparr>))"

text \<open>\<open>SetControllerReference\<close> on a new object.\<close>

definition withController :: "'c ext_client \<Rightarrow> ExternalModel \<Rightarrow> 'a object \<Rightarrow> cerror + 'a object" where
  "withController k owner obj =
     map_sum id (\<lambda>os. obj\<lparr>ob_owners := os\<rparr>) (xl_setControllerReference k owner (ob_owners obj))"

text \<open>The four steps for a live model with readable annotations.\<close>

definition reconcileExternal ::
  "'c ext_client \<Rightarrow> ExternalReconciler \<Rightarrow> ExternalModel \<Rightarrow> bool \<Rightarrow> int \<Rightarrow> ('c, unit) call" where
  "reconcileExternal k r extModel tls port =
     (let ns = om_namespace (ext_meta extModel); name = om_name (ext_meta extModel); endpoint = ext_endpoint extModel;
          labels = commonLabels name
      in case withController k extModel (buildService endpoint name ns port labels) of
           Inl err \<Rightarrow> fail (Wrap ''failed to set owner on Service: '' err [])
         | Inr svc \<Rightarrow>
             bnd (wrapErr ''failed to create Service: '' (applyService k svc))
               (\<lambda>_. bnd (wrapErr ''failed to create ServiceEntry: ''
                          (applyUnstructured k ServiceEntry
                             (setUnstructuredOwner extModel (buildServiceEntry endpoint name ns port tls labels))))
                 (\<lambda>_. bnd (if tls
                            then wrapErr ''failed to create DestinationRule: ''
                                   (applyUnstructured k DestinationRule
                                      (setUnstructuredOwner extModel (buildDestinationRule endpoint name ns labels)))
                            else wrapErr ''failed to delete stale DestinationRule: '' (deleteIfExists k DestinationRule name ns))
                   (\<lambda>_. case withController k extModel
                               (buildHTTPRoute endpoint name (ext_targetModel extModel) ns port (ext_gatewayName r)
                                  (ext_gatewayNamespace r) labels) of
                          Inl err \<Rightarrow> fail (Wrap ''failed to set owner on HTTPRoute: '' err [])
                        | Inr hr \<Rightarrow> wrapErr ''failed to create HTTPRoute: '' (applyHTTPRoute k hr)))))"

definition External_Reconcile :: "'c ext_client \<Rightarrow> ExternalReconciler \<Rightarrow> nsn \<Rightarrow> ('c, unit) call" where
  "External_Reconcile k r req =
     attempt (xc_getExternal k req)
       (\<lambda>res. case res of
          Inl err \<Rightarrow> if isNotFound err then ret () else fail err
        | Inr extModel \<Rightarrow>
            if om_deleting (ext_meta extModel) then ret ()
            else
              (case getTLSInfo extModel of
                 Inl err \<Rightarrow> fail (Wrap ''invalid ExternalModel annotations: '' err [])
               | Inr (tls, port) \<Rightarrow> reconcileExternal k r extModel tls port))"

end
