(* ===== verification/External_Routes.thy ===== *)
theory External_Routes
  imports External_Model
begin

text \<open>
  What the reconciler of ExternalModels achieves: after a run without faults the four resources are
  stored as built from the model, with a port in range, and nothing else has changed. The locale
  \<open>ext_server\<close> states the laws of the API server for these resources; \<open>ext_std\<close> is an instance of it.
\<close>

section \<open>The API server\<close>

record ext_world =
  xw_externals :: "nsn \<Rightarrow> ExternalModel option"
  xw_services :: "nsn \<Rightarrow> ServiceSpec object option"
  xw_objects :: "istio_kind \<Rightarrow> nsn \<Rightarrow> gomap object option"
  xw_routes :: "nsn \<Rightarrow> HTTPRouteSpec object option"

definition keyed :: "('o \<Rightarrow> ObjectMeta) \<Rightarrow> (nsn \<Rightarrow> 'o option) \<Rightarrow> bool" where
  "keyed meta m \<longleftrightarrow> (\<forall>key x. m key = Some x \<longrightarrow> nsnOf (meta x) = key)"

lemma keyedD: "keyed meta m \<Longrightarrow> m key = Some x \<Longrightarrow> nsnOf (meta x) = key"
  unfolding keyed_def by blast

text \<open>An update of an object that is being deleted cannot undo that, and completes the deletion when it
  leaves no finalizer.\<close>

definition updated :: "'a object \<Rightarrow> 'a object \<Rightarrow> 'a object option" where
  "updated ob old =
     (if om_deleting (ob_meta old) \<and> om_finalizers (ob_meta ob) = [] then None
      else Some (ob\<lparr>ob_meta := (ob_meta ob)\<lparr>om_deleting := om_deleting (ob_meta old)\<rparr>\<rparr>))"

definition deleted :: "'a object \<Rightarrow> 'a object option" where
  "deleted old =
     (if om_finalizers (ob_meta old) = [] then None
      else Some (old\<lparr>ob_meta := (ob_meta old)\<lparr>om_deleting := True\<rparr>\<rparr>))"

definition storeUpd :: "'a object \<Rightarrow> (nsn \<Rightarrow> 'a object option) \<Rightarrow> nsn \<Rightarrow> 'a object option" where
  "storeUpd ob m = m(nsnOf (ob_meta ob) := Option.bind (m (nsnOf (ob_meta ob))) (updated ob))"

definition storeDel :: "'a object \<Rightarrow> (nsn \<Rightarrow> 'a object option) \<Rightarrow> nsn \<Rightarrow> 'a object option" where
  "storeDel ob m = m(nsnOf (ob_meta ob) := Option.bind (m (nsnOf (ob_meta ob))) deleted)"

definition setObjects :: "istio_kind \<Rightarrow> ((nsn \<Rightarrow> gomap object option) \<Rightarrow> nsn \<Rightarrow> gomap object option) \<Rightarrow> ext_world \<Rightarrow> ext_world" where
  "setObjects g f w = w\<lparr>xw_objects := (xw_objects w)(g := f (xw_objects w g))\<rparr>"

definition stored :: "(nsn \<Rightarrow> 'a object option) \<Rightarrow> 'a object \<Rightarrow> bool" where
  "stored m ob \<longleftrightarrow> m (nsnOf (ob_meta ob)) \<noteq> None"

definition controls :: "ExternalModel \<Rightarrow> owner_ref \<Rightarrow> bool" where
  "controls m ref \<longleftrightarrow> or_name ref = om_name (ext_meta m) \<and> or_uid ref = ext_uid m \<and> or_controller ref"

locale ext_server =
  fixes k :: "'c ext_client" and view :: "'c \<Rightarrow> ext_world" and healthy :: "'c \<Rightarrow> bool"
  assumes keyed: "keyed ext_meta (xw_externals (view c))" "keyed ob_meta (xw_services (view c))"
      "keyed ob_meta (xw_objects (view c) g)" "keyed ob_meta (xw_routes (view c))"
    and getExternal: "reads view healthy (xc_getExternal k key) (\<lambda>w. xw_externals w key)"
    and getService: "reads view healthy (xc_getService k key) (\<lambda>w. xw_services w key)"
    and getObject: "reads view healthy (xc_getObject k g key) (\<lambda>w. xw_objects w g key)"
    and getRoute: "reads view healthy (xc_getRoute k key) (\<lambda>w. xw_routes w key)"
    and createService: "writes view healthy (xc_createService k s) (\<lambda>w. \<not> stored (xw_services w) s)
      (\<lambda>w. w\<lparr>xw_services := (xw_services w)(nsnOf (ob_meta s) \<mapsto> s)\<rparr>)"
    and updateService: "writes view healthy (xc_updateService k s) (\<lambda>w. stored (xw_services w) s)
      (\<lambda>w. w\<lparr>xw_services := storeUpd s (xw_services w)\<rparr>)"
    and createObject: "writes view healthy (xc_createObject k g x) (\<lambda>w. \<not> stored (xw_objects w g) x)
      (setObjects g (\<lambda>m. m(nsnOf (ob_meta x) \<mapsto> x)))"
    and updateObject: "writes view healthy (xc_updateObject k g x) (\<lambda>w. stored (xw_objects w g) x) (setObjects g (storeUpd x))"
    and deleteObject: "writes view healthy (xc_deleteObject k g x) (\<lambda>w. stored (xw_objects w g) x) (setObjects g (storeDel x))"
    and createRoute: "writes view healthy (xc_createRoute k h) (\<lambda>w. \<not> stored (xw_routes w) h)
      (\<lambda>w. w\<lparr>xw_routes := (xw_routes w)(nsnOf (ob_meta h) \<mapsto> h)\<rparr>)"
    and updateRoute: "writes view healthy (xc_updateRoute k h) (\<lambda>w. stored (xw_routes w) h)
      (\<lambda>w. w\<lparr>xw_routes := storeUpd h (xw_routes w)\<rparr>)"
    and setControllerReference: "\<exists>ref. xl_setControllerReference k m [] = Inr [ref] \<and> controls m ref"

text \<open>A stored object that is as desired; annotations, finalizers and status are its own.\<close>

definition implements :: "'a object \<Rightarrow> 'a object \<Rightarrow> bool" where
  "implements ob desired \<longleftrightarrow> ob_spec ob = ob_spec desired \<and> ob_owners ob = ob_owners desired \<and>
     map_of (om_labels (ob_meta ob)) = map_of (om_labels (ob_meta desired)) \<and>
     nsnOf (ob_meta ob) = nsnOf (ob_meta desired) \<and> \<not> om_deleting (ob_meta ob)"

text \<open>No object is being deleted under the key.\<close>

definition settled :: "(nsn \<Rightarrow> 'a object option) \<Rightarrow> nsn \<Rightarrow> bool" where
  "settled m key \<longleftrightarrow> pred_option (\<lambda>ob. \<not> om_deleting (ob_meta ob)) (m key)"

lemma not_deleting_update:
  assumes "\<not> om_deleting (ob_meta ob)"
  shows "ob\<lparr>ob_meta := (ob_meta ob)\<lparr>om_deleting := False\<rparr>\<rparr> = ob"
proof -
  have "(ob_meta ob)\<lparr>om_deleting := False\<rparr> = ob_meta ob" using assms by (cases "ob_meta ob") simp
  then show ?thesis by simp
qed

lemma storeUpd_settled:
  "settled m (nsnOf (ob_meta ob)) \<Longrightarrow> stored m ob \<Longrightarrow> \<not> om_deleting (ob_meta ob) \<Longrightarrow> storeUpd ob m = m(nsnOf (ob_meta ob) \<mapsto> ob)"
  by (auto simp: storeUpd_def updated_def settled_def stored_def fun_eq_iff not_deleting_update)

text \<open>An existing object brought to the desired spec, labels and owners.\<close>

definition adopted :: "'a object \<Rightarrow> 'a object \<Rightarrow> 'a object" where
  "adopted old d = old\<lparr>ob_spec := ob_spec d, ob_meta := (ob_meta old)\<lparr>om_labels := om_labels (ob_meta d)\<rparr>, ob_owners := ob_owners d\<rparr>"

lemma adopted:
  assumes "keyed ob_meta m" "settled m (nsnOf (ob_meta d))" "m (nsnOf (ob_meta d)) = Some old"
  shows "implements (adopted old d) d" "stored m (adopted old d)"
    "storeUpd (adopted old d) m = m(nsnOf (ob_meta d) \<mapsto> adopted old d)"
proof -
  have "nsnOf (ob_meta old) = nsnOf (ob_meta d)" by (rule keyedD [OF assms(1,3)])
  then have key: "nsnOf (ob_meta (adopted old d)) = nsnOf (ob_meta d)" by (simp add: adopted_def nsnOf_def)
  have live: "\<not> om_deleting (ob_meta (adopted old d))" using assms(2,3) by (simp add: settled_def adopted_def)
  from key live show "implements (adopted old d) d" by (simp add: implements_def) (simp add: adopted_def)
  from key assms(3) show st: "stored m (adopted old d)" by (simp add: stored_def)
  from storeUpd_settled [OF _ st live] key assms(2) show "storeUpd (adopted old d) m = m(nsnOf (ob_meta d) \<mapsto> adopted old d)" by simp
qed

context ext_server
begin

lemma applyService_healthy:
  assumes "healthy c" "settled (xw_services (view c)) (nsnOf (ob_meta d))" "\<not> om_deleting (ob_meta d)"
  shows "\<exists>c' ob. applyService k d c = (c', Inr ()) \<and> healthy c' \<and> implements ob d \<and>
    view c' = (view c)\<lparr>xw_services := (xw_services (view c))(nsnOf (ob_meta d) \<mapsto> ob)\<rparr>"
proof -
  let ?key = "nsnOf (ob_meta d)"
  from reads_healthy [OF getService assms(1), of ?key] obtain c1 where c1: "healthy c1" "view c1 = view c"
    "xc_getService k ?key c = (c1, case xw_services (view c) ?key of None \<Rightarrow> Inl ApiNotFound | Some x \<Rightarrow> Inr x)" by blast
  show ?thesis
  proof (cases "xw_services (view c) ?key")
    case None
    with writes_healthy [OF createService c1(1), of d] c1(2) obtain c2 where "healthy c2" "xc_createService k d c1 = (c2, Inr ())"
      "view c2 = (view c)\<lparr>xw_services := (xw_services (view c))(?key \<mapsto> d)\<rparr>" by (auto simp: stored_def)
    with None c1 assms(3) show ?thesis
      by (intro exI [of _ c2] exI [of _ d]) (simp add: applyService_def run_attempt isNotFound_def implements_def)
  next
    case (Some old)
    note ad = adopted [OF keyed(2) assms(2) Some]
    have key: "nsnOf (ob_meta old) = ?key" by (rule keyedD [OF keyed(2) Some])
    have live: "\<not> om_deleting (ob_meta old)" using assms(2) Some by (simp add: settled_def)
    show ?thesis
    proof (cases "ob_spec old \<noteq> ob_spec d \<or> ob_owners old \<noteq> ob_owners d \<or> \<not> sameMap (om_labels (ob_meta old)) (om_labels (ob_meta d))")
      case True
      from writes_healthy [OF updateService c1(1)] ad(2) c1(2) obtain c2 where "healthy c2" "xc_updateService k (adopted old d) c1 = (c2, Inr ())"
        "view c2 = (view c1)\<lparr>xw_services := storeUpd (adopted old d) (xw_services (view c1))\<rparr>" by metis
      with True Some c1 ad show ?thesis
        by (intro exI [of _ c2] exI [of _ "adopted old d"]) (simp add: applyService_def run_attempt Let_def flip: adopted_def)
    next
      case False
      with key live have "implements old d" by (simp add: implements_def sameMap_iff)
      moreover have "view c1 = (view c)\<lparr>xw_services := (xw_services (view c))(?key \<mapsto> old)\<rparr>"
        using Some c1(2) by (simp add: fun_upd_idem)
      ultimately show ?thesis using False Some c1
        by (intro exI [of _ c1] exI [of _ old]) (simp add: applyService_def run_attempt Let_def)
    qed
  qed
qed

lemma applyUnstructured_healthy:
  assumes "healthy c" "settled (xw_objects (view c) g) (nsnOf (ob_meta d))" "\<not> om_deleting (ob_meta d)"
  shows "\<exists>c'. applyUnstructured k g d c = (c', Inr ()) \<and> healthy c' \<and>
    view c' = setObjects g (\<lambda>m. m(nsnOf (ob_meta d) \<mapsto> d)) (view c)"
proof -
  let ?key = "nsnOf (ob_meta d)"
  from reads_healthy [OF getObject assms(1), of g ?key] obtain c1 where c1: "healthy c1" "view c1 = view c"
    "xc_getObject k g ?key c = (c1, case xw_objects (view c) g ?key of None \<Rightarrow> Inl ApiNotFound | Some x \<Rightarrow> Inr x)" by blast
  show ?thesis
  proof (cases "xw_objects (view c) g ?key")
    case None
    with writes_healthy [OF createObject c1(1), of g d] c1(2) obtain c2 where "healthy c2" "xc_createObject k g d c1 = (c2, Inr ())"
      "view c2 = setObjects g (\<lambda>m. m(?key \<mapsto> d)) (view c)" by (auto simp: stored_def)
    with None c1 show ?thesis by (intro exI [of _ c2]) (simp add: applyUnstructured_def run_attempt isNotFound_def)
  next
    case (Some old)
    then have st: "stored (xw_objects (view c1) g) d" using c1(2) by (simp add: stored_def)
    from writes_healthy [OF updateObject c1(1), of g d] st obtain c2 where c2: "healthy c2" "xc_updateObject k g d c1 = (c2, Inr ())"
      "view c2 = setObjects g (storeUpd d) (view c1)" by blast
    have "storeUpd d (xw_objects (view c) g) = (xw_objects (view c) g)(?key \<mapsto> d)"
      using storeUpd_settled [OF assms(2)] st c1(2) assms(3) by simp
    with c2 Some c1 show ?thesis
      by (intro exI [of _ c2]) (simp add: applyUnstructured_def run_attempt setObjects_def)
  qed
qed

lemma deleteIfExists_healthy:
  assumes "healthy c"
  shows "\<exists>c'. deleteIfExists k g name ns c = (c', Inr ()) \<and> healthy c' \<and>
    view c' = setObjects g (\<lambda>m. m((ns, name) := Option.bind (m (ns, name)) deleted)) (view c)"
proof -
  let ?key = "(ns, name)"
  from reads_healthy [OF getObject assms, of g ?key] obtain c1 where c1: "healthy c1" "view c1 = view c"
    "xc_getObject k g ?key c = (c1, case xw_objects (view c) g ?key of None \<Rightarrow> Inl ApiNotFound | Some x \<Rightarrow> Inr x)" by blast
  show ?thesis
  proof (cases "xw_objects (view c) g ?key")
    case None
    then have "setObjects g (\<lambda>m. m(?key := Option.bind (m ?key) deleted)) (view c) = view c"
      by (simp add: setObjects_def fun_upd_idem)
    with None c1 show ?thesis by (intro exI [of _ c1]) (simp add: deleteIfExists_def run_attempt isNotFound_def)
  next
    case (Some old)
    have key: "nsnOf (ob_meta old) = ?key" by (rule keyedD [OF keyed(3) Some])
    then have "stored (xw_objects (view c1) g) old" using Some c1(2) by (simp add: stored_def)
    from writes_healthy [OF deleteObject c1(1) this] obtain c2 where c2: "healthy c2" "xc_deleteObject k g old c1 = (c2, Inr ())"
      "view c2 = setObjects g (storeDel old) (view c1)" by blast
    have "storeDel old = (\<lambda>m. m(?key := Option.bind (m ?key) deleted))" by (rule ext) (simp add: storeDel_def key)
    with c2 Some c1 show ?thesis by (intro exI [of _ c2]) (simp add: deleteIfExists_def run_attempt)
  qed
qed

lemma applyHTTPRoute_healthy:
  assumes "healthy c" "settled (xw_routes (view c)) (nsnOf (ob_meta d))" "\<not> om_deleting (ob_meta d)"
  shows "\<exists>c' ob. applyHTTPRoute k d c = (c', Inr ()) \<and> healthy c' \<and> implements ob d \<and>
    view c' = (view c)\<lparr>xw_routes := (xw_routes (view c))(nsnOf (ob_meta d) \<mapsto> ob)\<rparr>"
proof -
  let ?key = "nsnOf (ob_meta d)"
  from reads_healthy [OF getRoute assms(1), of ?key] obtain c1 where c1: "healthy c1" "view c1 = view c"
    "xc_getRoute k ?key c = (c1, case xw_routes (view c) ?key of None \<Rightarrow> Inl ApiNotFound | Some x \<Rightarrow> Inr x)" by blast
  show ?thesis
  proof (cases "xw_routes (view c) ?key")
    case None
    with writes_healthy [OF createRoute c1(1), of d] c1(2) obtain c2 where "healthy c2" "xc_createRoute k d c1 = (c2, Inr ())"
      "view c2 = (view c)\<lparr>xw_routes := (xw_routes (view c))(?key \<mapsto> d)\<rparr>" by (auto simp: stored_def)
    with None c1 assms(3) show ?thesis
      by (intro exI [of _ c2] exI [of _ d]) (simp add: applyHTTPRoute_def run_attempt isNotFound_def implements_def)
  next
    case (Some old)
    note ad = adopted [OF keyed(4) assms(2) Some]
    from writes_healthy [OF updateRoute c1(1)] ad(2) c1(2) obtain c2 where "healthy c2" "xc_updateRoute k (adopted old d) c1 = (c2, Inr ())"
      "view c2 = (view c1)\<lparr>xw_routes := storeUpd (adopted old d) (xw_routes (view c1))\<rparr>" by metis
    with Some c1 ad show ?thesis
      by (intro exI [of _ c2] exI [of _ "adopted old d"]) (simp add: applyHTTPRoute_def run_attempt flip: adopted_def)
  qed
qed

end

section \<open>A run without faults\<close>

lemma portOf_range: "portOf as = Inr p \<Longrightarrow> 1 \<le> p \<and> p \<le> 65535"
  by (auto simp: portOf_def split: option.splits if_splits)

lemma getTLSInfo_range: "getTLSInfo m = Inr (tls, port) \<Longrightarrow> 1 \<le> port \<and> port \<le> 65535"
  by (auto simp: getTLSInfo_def Let_def dest!: portOf_range split: sum.splits option.splits)

text \<open>The world after the four steps.\<close>

definition externalWorld ::
  "ExternalModel \<Rightarrow> bool \<Rightarrow> int \<Rightarrow> ServiceSpec object \<Rightarrow> HTTPRouteSpec object \<Rightarrow> ext_world \<Rightarrow> ext_world" where
  "externalWorld m tls port svc hr w =
     (let ns = om_namespace (ext_meta m); name = om_name (ext_meta m); key = (ns, name); labels = commonLabels name;
          se = setUnstructuredOwner m (buildServiceEntry (ext_endpoint m) name ns port tls labels);
          dr = setUnstructuredOwner m (buildDestinationRule (ext_endpoint m) name ns labels)
      in w\<lparr>xw_services := (xw_services w)(key \<mapsto> svc),
           xw_objects := (\<lambda>g. case g of
               ServiceEntry \<Rightarrow> (xw_objects w ServiceEntry)(key \<mapsto> se)
             | DestinationRule \<Rightarrow> (xw_objects w DestinationRule)
                 (key := (if tls then Some dr else Option.bind (xw_objects w DestinationRule key) deleted))),
           xw_routes := (xw_routes w)(key \<mapsto> hr)\<rparr>)"

text \<open>The objects under a key are not being deleted.\<close>

definition quiet :: "ext_world \<Rightarrow> nsn \<Rightarrow> bool" where
  "quiet w key \<longleftrightarrow> settled (xw_services w) key \<and> (\<forall>g. settled (xw_objects w g) key) \<and> settled (xw_routes w) key"

context ext_server
begin

lemma withController_ok:
  assumes "ob_owners ob = []"
  obtains ref where "withController k m ob = Inr (ob\<lparr>ob_owners := [ref]\<rparr>)" "controls m ref"
  using setControllerReference [of m] assms by (auto simp: withController_def)

lemma reconcileExternal_healthy:
  assumes c: "healthy c" and quiet: "quiet (view c) (om_namespace (ext_meta m), om_name (ext_meta m))"
  shows "\<exists>c' ref ref' svc hr. reconcileExternal k r m tls port c = (c', Inr ()) \<and> healthy c' \<and> controls m ref \<and> controls m ref' \<and>
    implements svc ((buildService (ext_endpoint m) (om_name (ext_meta m)) (om_namespace (ext_meta m)) port
      (commonLabels (om_name (ext_meta m))))\<lparr>ob_owners := [ref]\<rparr>) \<and>
    implements hr ((buildHTTPRoute (ext_endpoint m) (om_name (ext_meta m)) (ext_targetModel m) (om_namespace (ext_meta m)) port
      (ext_gatewayName r) (ext_gatewayNamespace r) (commonLabels (om_name (ext_meta m))))\<lparr>ob_owners := [ref']\<rparr>) \<and>
    view c' = externalWorld m tls port svc hr (view c)"
proof -
  define ns name labels where "ns = om_namespace (ext_meta m)" and "name = om_name (ext_meta m)" and "labels = commonLabels name"
  note names = ns_def [symmetric] name_def [symmetric]
  let ?svc = "buildService (ext_endpoint m) name ns port labels"
    and ?se = "setUnstructuredOwner m (buildServiceEntry (ext_endpoint m) name ns port tls labels)"
    and ?dr = "setUnstructuredOwner m (buildDestinationRule (ext_endpoint m) name ns labels)"
    and ?hr = "buildHTTPRoute (ext_endpoint m) name (ext_targetModel m) ns port (ext_gatewayName r) (ext_gatewayNamespace r) labels"
  have q: "settled (xw_services (view c)) (ns, name)" "settled (xw_objects (view c) g) (ns, name)"
    "settled (xw_routes (view c)) (ns, name)" for g
    using quiet by (simp_all add: quiet_def names)
  note meta = buildService_def buildServiceEntry_def buildDestinationRule_def buildHTTPRoute_def setUnstructuredOwner_def
    newMeta_def nsnOf_def Let_def
  obtain ref where ref: "withController k m ?svc = Inr (?svc\<lparr>ob_owners := [ref]\<rparr>)" "controls m ref"
    by (rule withController_ok [of ?svc m]) (simp_all add: meta)
  obtain ref' where ref': "withController k m ?hr = Inr (?hr\<lparr>ob_owners := [ref']\<rparr>)" "controls m ref'"
    by (rule withController_ok [of ?hr m]) (simp_all add: meta)
  from applyService_healthy [OF c, of "?svc\<lparr>ob_owners := [ref]\<rparr>"] q(1) obtain c1 svc where
    c1: "applyService k (?svc\<lparr>ob_owners := [ref]\<rparr>) c = (c1, Inr ())" "healthy c1" "implements svc (?svc\<lparr>ob_owners := [ref]\<rparr>)"
      "view c1 = (view c)\<lparr>xw_services := (xw_services (view c))((ns, name) \<mapsto> svc)\<rparr>"
    by (auto simp: meta)
  from applyUnstructured_healthy [OF c1(2), of ServiceEntry ?se] q(2) [of ServiceEntry] obtain c2 where
    c2: "applyUnstructured k ServiceEntry ?se c1 = (c2, Inr ())" "healthy c2"
      "view c2 = setObjects ServiceEntry (\<lambda>m. m((ns, name) \<mapsto> ?se)) (view c1)"
    by (auto simp: meta c1(4))
  let ?step = "if tls then wrapErr ''failed to create DestinationRule: '' (applyUnstructured k DestinationRule ?dr)
    else wrapErr ''failed to delete stale DestinationRule: '' (deleteIfExists k DestinationRule name ns)"
  have "\<exists>c3. ?step c2 = (c3, Inr ()) \<and> healthy c3 \<and> view c3 = setObjects DestinationRule
      (\<lambda>m. m((ns, name) := (if tls then Some ?dr else Option.bind (m (ns, name)) deleted))) (view c2)"
  proof (cases tls)
    case True
    from applyUnstructured_healthy [OF c2(2), of DestinationRule ?dr] q(2) [of DestinationRule] True show ?thesis
      by (auto simp: meta c1(4) c2(3) setObjects_def run_wrapErr)
  next
    case False
    from deleteIfExists_healthy [OF c2(2), of DestinationRule name ns] False show ?thesis by (auto simp: run_wrapErr)
  qed
  then obtain c3 where c3: "?step c2 = (c3, Inr ())" "healthy c3" "view c3 = setObjects DestinationRule
      (\<lambda>m. m((ns, name) := (if tls then Some ?dr else Option.bind (m (ns, name)) deleted))) (view c2)" by blast
  from applyHTTPRoute_healthy [OF c3(2), of "?hr\<lparr>ob_owners := [ref']\<rparr>"] q(3) obtain c4 hr where
    c4: "applyHTTPRoute k (?hr\<lparr>ob_owners := [ref']\<rparr>) c3 = (c4, Inr ())" "healthy c4" "implements hr (?hr\<lparr>ob_owners := [ref']\<rparr>)"
      "view c4 = (view c3)\<lparr>xw_routes := (xw_routes (view c3))((ns, name) \<mapsto> hr)\<rparr>"
    by (auto simp: meta c1(4) c2(3) c3(3) setObjects_def)
  have "reconcileExternal k r m tls port c = (c4, Inr ())"
    unfolding reconcileExternal_def Let_def names labels_def [symmetric] ref(1) ref'(1) sum.case
    by (simp add: run_bnd run_wrapErr c1(1) c2(1) c3(1) c4(1) del: if_split)
  moreover have "view c4 = externalWorld m tls port svc hr (view c)"
    by (simp add: externalWorld_def names labels_def [symmetric] c1(4) c2(3) c3(3) c4(4) setObjects_def fun_eq_iff Let_def split: istio_kind.split)
  ultimately show ?thesis
    using c4(2,3) c1(3) ref(2) ref'(2) unfolding names labels_def [symmetric] by blast
qed

end

section \<open>An instance\<close>

text \<open>A world and the flag whether the server is down; entries under a foreign key are not seen.\<close>

definition ownKey :: "('o \<Rightarrow> ObjectMeta) \<Rightarrow> (nsn \<Rightarrow> 'o option) \<Rightarrow> nsn \<Rightarrow> 'o option" where
  "ownKey meta m key = (case m key of None \<Rightarrow> None | Some x \<Rightarrow> if nsnOf (meta x) = key then Some x else None)"

definition seen :: "ext_world \<times> bool \<Rightarrow> ext_world" where
  "seen st =
     \<lparr>xw_externals = ownKey ext_meta (xw_externals (fst st)), xw_services = ownKey ob_meta (xw_services (fst st)),
      xw_objects = (\<lambda>g. ownKey ob_meta (xw_objects (fst st) g)), xw_routes = ownKey ob_meta (xw_routes (fst st))\<rparr>"

definition ext_get :: "(ext_world \<Rightarrow> 'o option) \<Rightarrow> (ext_world \<times> bool, 'o) call" where
  "ext_get f st =
     (st, if snd st then Inl down else case f (seen st) of None \<Rightarrow> Inl ApiNotFound | Some x \<Rightarrow> Inr x)"

definition ext_write :: "(ext_world \<Rightarrow> bool) \<Rightarrow> (ext_world \<Rightarrow> ext_world) \<Rightarrow> (ext_world \<times> bool, unit) call" where
  "ext_write pre f st =
     (if snd st then (st, Inl down) else if pre (seen st) then ((f (seen st), snd st), Inr ()) else (st, Inl ApiNotFound))"

definition ext_std :: "(ext_world \<times> bool) ext_client" where
  "ext_std =
     \<lparr>xc_getExternal = (\<lambda>key. ext_get (\<lambda>w. xw_externals w key)), xc_getService = (\<lambda>key. ext_get (\<lambda>w. xw_services w key)),
      xc_createService = (\<lambda>s. ext_write (\<lambda>w. \<not> stored (xw_services w) s)
        (\<lambda>w. w\<lparr>xw_services := (xw_services w)(nsnOf (ob_meta s) \<mapsto> s)\<rparr>)),
      xc_updateService = (\<lambda>s. ext_write (\<lambda>w. stored (xw_services w) s) (\<lambda>w. w\<lparr>xw_services := storeUpd s (xw_services w)\<rparr>)),
      xc_getObject = (\<lambda>g key. ext_get (\<lambda>w. xw_objects w g key)),
      xc_createObject = (\<lambda>g x. ext_write (\<lambda>w. \<not> stored (xw_objects w g) x) (setObjects g (\<lambda>m. m(nsnOf (ob_meta x) \<mapsto> x)))),
      xc_updateObject = (\<lambda>g x. ext_write (\<lambda>w. stored (xw_objects w g) x) (setObjects g (storeUpd x))),
      xc_deleteObject = (\<lambda>g x. ext_write (\<lambda>w. stored (xw_objects w g) x) (setObjects g (storeDel x))),
      xc_getRoute = (\<lambda>key. ext_get (\<lambda>w. xw_routes w key)),
      xc_createRoute = (\<lambda>h. ext_write (\<lambda>w. \<not> stored (xw_routes w) h) (\<lambda>w. w\<lparr>xw_routes := (xw_routes w)(nsnOf (ob_meta h) \<mapsto> h)\<rparr>)),
      xc_updateRoute = (\<lambda>h. ext_write (\<lambda>w. stored (xw_routes w) h) (\<lambda>w. w\<lparr>xw_routes := storeUpd h (xw_routes w)\<rparr>)),
      xl_setControllerReference = (\<lambda>m os. if list_ex or_controller os then Inl (ErrText ''already owned'')
        else Inr (os @ [\<lparr>or_apiVersion = ''maas.opendatahub.io/v1alpha1'', or_kind = ''ExternalModel'', or_name = om_name (ext_meta m),
               or_uid = ext_uid m, or_controller = True, or_blockOwnerDeletion = True\<rparr>]))\<rparr>"

definition wf_ext :: "ext_world \<Rightarrow> bool" where
  "wf_ext w \<longleftrightarrow> keyed ext_meta (xw_externals w) \<and> keyed ob_meta (xw_services w) \<and> (\<forall>g. keyed ob_meta (xw_objects w g)) \<and>
     keyed ob_meta (xw_routes w)"

lemma ownKey_keyed: "keyed meta (ownKey meta m)"
  unfolding keyed_def ownKey_def by (auto split: option.splits if_splits)

lemma ownKey_id: "keyed meta m \<Longrightarrow> ownKey meta m = m"
  by (rule ext) (auto simp: ownKey_def dest: keyedD split: option.splits)

lemma wf_seen: "wf_ext (seen st)"
  by (simp add: wf_ext_def seen_def ownKey_keyed)

lemma seen_wf: "wf_ext w \<Longrightarrow> seen (w, b) = w"
  by (simp add: wf_ext_def seen_def ownKey_id)

lemma ext_get_reads: "reads seen (\<lambda>st. \<not> snd st) (ext_get f) f"
  by (auto simp: reads_def ext_get_def down_def split: option.splits)

lemma ext_write_writes:
  "(\<And>w. wf_ext w \<Longrightarrow> pre w \<Longrightarrow> wf_ext (f w)) \<Longrightarrow> writes seen (\<lambda>st. \<not> snd st) (ext_write pre f) pre f"
  by (simp add: writes_def ext_write_def wf_seen seen_wf)

lemma keyed_upd: "keyed meta m \<Longrightarrow> pred_option (\<lambda>x. nsnOf (meta x) = key) v \<Longrightarrow> keyed meta (m(key := v))"
  unfolding keyed_def by (auto simp: pred_option_def)

lemma keyed_store:
  "keyed ob_meta m \<Longrightarrow> keyed ob_meta (m(nsnOf (ob_meta ob) \<mapsto> ob))"
  "keyed ob_meta m \<Longrightarrow> keyed ob_meta (storeUpd ob m)" "keyed ob_meta m \<Longrightarrow> keyed ob_meta (storeDel ob m)"
proof -
  assume m: "keyed ob_meta m"
  show "keyed ob_meta (m(nsnOf (ob_meta ob) \<mapsto> ob))" by (rule keyed_upd [OF m]) simp
  show "keyed ob_meta (storeUpd ob m)" unfolding storeUpd_def
    by (rule keyed_upd [OF m], cases "m (nsnOf (ob_meta ob))") (simp_all add: updated_def nsnOf_def)
  show "keyed ob_meta (storeDel ob m)" unfolding storeDel_def
  proof (rule keyed_upd [OF m])
    show "pred_option (\<lambda>x. nsnOf (ob_meta x) = nsnOf (ob_meta ob)) (Option.bind (m (nsnOf (ob_meta ob))) deleted)"
    proof (cases "m (nsnOf (ob_meta ob))")
      case (Some old)
      from keyedD [OF m Some] Some show ?thesis by (simp add: deleted_def nsnOf_def)
    qed simp
  qed
qed

interpretation ext: ext_server ext_std seen "\<lambda>st. \<not> snd st"
  by unfold_locales
    (simp_all add: ext_std_def seen_def ownKey_keyed controls_def ext_get_reads,
      (rule ext_write_writes; simp add: wf_ext_def setObjects_def keyed_store)+)

section \<open>Theorems\<close>

text \<open>C26: reconciling a live ExternalModel without faults succeeds and leaves exactly its four resources
  as they should be. The Service and the HTTPRoute are stored with the spec and labels built from the
  model, its controller reference, and whatever annotations and finalizers they had; the ServiceEntry is
  stored as built; the DestinationRule is stored as built with TLS and deleted without; every other
  resource is unchanged. The port is in the range 1 to 65535. (The resources are assumed not to be in
  deletion when the run starts.) All four are in the model's own namespace, and the route matches the
  path \<open>/<namespace>/<name>\<close> or the model in a header: the README of the package describes an earlier design, with resources in the
  gateway's namespace, the path \<open>/external/<provider>/\<close> and a finalizer, which the code does not follow.\<close>

theorem external_resources_exact:
  assumes "ext_server k view healthy" "healthy c"
    and "xw_externals (view c) (ns, name) = Some m" "\<not> om_deleting (ext_meta m)" "getTLSInfo m = Inr (tls, port)"
    and "quiet (view c) (ns, name)"
  shows "\<exists>c' ref ref' svc hr. External_Reconcile k r (ns, name) c = (c', Inr ()) \<and> view c' = externalWorld m tls port svc hr (view c) \<and>
    implements svc ((buildService (ext_endpoint m) name ns port (commonLabels name))\<lparr>ob_owners := [ref]\<rparr>) \<and>
    implements hr ((buildHTTPRoute (ext_endpoint m) name (ext_targetModel m) ns port
      (ext_gatewayName r) (ext_gatewayNamespace r) (commonLabels name))\<lparr>ob_owners := [ref']\<rparr>) \<and>
    controls m ref \<and> controls m ref' \<and> 1 \<le> port \<and> port \<le> 65535"
proof -
  have key: "om_namespace (ext_meta m) = ns" "om_name (ext_meta m) = name"
    using keyedD [OF ext_server.keyed(1) [OF assms(1)] assms(3)] by (simp_all add: nsnOf_def)
  from reads_healthy [OF ext_server.getExternal [OF assms(1)] assms(2), of "(ns, name)"] obtain c1 where
    c1: "healthy c1" "view c1 = view c" "xc_getExternal k (ns, name) c = (c1, Inr m)" unfolding assms(3) by auto
  have run: "External_Reconcile k r (ns, name) c = reconcileExternal k r m tls port c1"
    using c1(3) assms(4,5) by (simp add: External_Reconcile_def run_attempt)
  from ext_server.reconcileExternal_healthy [OF assms(1) c1(1), of m r tls port] assms(6) getTLSInfo_range [OF assms(5)]
  show ?thesis unfolding run key c1(2) by blast
qed

definition sampleExtWorld :: "ExternalModel \<Rightarrow> ext_world" where
  "sampleExtWorld m =
     \<lparr>xw_externals = [nsnOf (ext_meta m) \<mapsto> m], xw_services = Map.empty,
      xw_objects = (\<lambda>g. case g of ServiceEntry \<Rightarrow> Map.empty
        | DestinationRule \<Rightarrow> [(''llm'', ''gpt'') \<mapsto> \<lparr>ob_meta = sampleMeta ''llm'' ''gpt'', ob_owners = [], ob_spec = [(''host'', GStr ''db.internal'')]\<rparr>]),
      xw_routes = Map.empty\<rparr>"

definition plainModel :: ExternalModel where
  "plainModel = (sampleExternal ''llm'' ''gpt'')\<lparr>ext_meta := newMeta ''gpt'' ''llm'' [] [(annotationTLS, ''f''), (annotationPort, ''8080'')]\<rparr>"

theorem external_resources_exact_witness:
  "\<exists>st' svc hr. External_Reconcile ext_std \<lparr>er_GatewayName = [], er_GatewayNamespace = []\<rparr> (''llm'', ''gpt'')
      (sampleExtWorld plainModel, False) = (st', Inr ()) \<and>
     seen st' = externalWorld plainModel False 8080 svc hr (sampleExtWorld plainModel)"
proof -
  let ?st = "(sampleExtWorld plainModel, False)"
  have meta: "ext_meta plainModel = newMeta ''gpt'' ''llm'' [] [(annotationTLS, ''f''), (annotationPort, ''8080'')]"
    by (simp add: plainModel_def)
  have "wf_ext (sampleExtWorld plainModel)"
    by (auto simp: wf_ext_def keyed_def sampleExtWorld_def meta newMeta_def sampleMeta_def nsnOf_def split: istio_kind.splits if_splits)
  then have seen: "seen ?st = sampleExtWorld plainModel" by (rule seen_wf)
  have m: "xw_externals (seen ?st) (''llm'', ''gpt'') = Some plainModel" and live: "\<not> om_deleting (ext_meta plainModel)"
    unfolding seen by (simp_all add: sampleExtWorld_def meta newMeta_def nsnOf_def)
  have tls: "getTLSInfo plainModel = Inr (False, 8080)" by code_simp
  have quiet: "quiet (seen ?st) (''llm'', ''gpt'')"
    unfolding seen by (auto simp: quiet_def settled_def sampleExtWorld_def sampleMeta_def newMeta_def split: istio_kind.splits)
  have up: "\<not> snd ?st" by simp
  from external_resources_exact [OF ext.ext_server_axioms up m live tls quiet,
      where r = "\<lparr>er_GatewayName = [], er_GatewayNamespace = []\<rparr>"]
  show ?thesis unfolding seen by blast
qed

text \<open>The clean-up of a stale DestinationRule goes by name alone: a rule of that name that nobody created
  for the model, without any owner, is deleted when an ExternalModel without TLS is reconciled.\<close>

lemma foreign_rule_deleted:
  "(let st = (sampleExtWorld plainModel, False);
        st' = fst (External_Reconcile ext_std \<lparr>er_GatewayName = [], er_GatewayNamespace = []\<rparr> (''llm'', ''gpt'') st);
        rule = (\<lambda>s. map_option ob_owners (xw_objects (seen s) DestinationRule (''llm'', ''gpt'')))
    in (rule st, rule st')) = (Some [], None)"
  by code_simp

end
