(* ===== verification/Manager_Namespace.thy ===== *)
theory Manager_Namespace
  imports Generated_Policies
begin

text \<open>
  The namespace of the subscriptions, \<open>maas-controller/cmd/manager/main.go\<close>: it is created at start-up and
  kept alive while the manager runs, also when it is found half deleted. The polling helpers of
  apimachinery's \<open>wait\<close> package are the record \<open>wait_api\<close>; the locale \<open>wait_lib\<close> says what is documented of
  them in terms of \<open>rounds\<close>, the locale \<open>ns_server\<close> what the API server does with namespaces, and
  \<open>ns_cluster\<close> adds the namespace controller that finishes deletions.
\<close>

section \<open>Clients\<close>

text \<open>\<open>nc_get\<close> returns the phase of a namespace.\<close>

record 'c ns_client =
  nc_get :: "string \<Rightarrow> ('c, string) call"
  nc_create :: "string \<Rightarrow> (string \<times> string) list \<Rightarrow> ('c, unit) call"

text \<open>\<open>PollUntilContextTimeout\<close> with interval, timeout, immediate start and condition, and
  \<open>ExponentialBackoffWithContext\<close> with steps, duration, factor and condition.\<close>

record 'c wait_api =
  wt_poll :: "int \<Rightarrow> int \<Rightarrow> bool \<Rightarrow> ('c, bool) call \<Rightarrow> ('c, unit) call"
  wt_backoff :: "nat \<Rightarrow> int \<Rightarrow> int \<Rightarrow> ('c, bool) call \<Rightarrow> ('c, unit) call"

definition isForbidden :: "cerror \<Rightarrow> bool" where "isForbidden err = (err = ApiForbidden)"
definition isAlreadyExists :: "cerror \<Rightarrow> bool" where "isAlreadyExists err = (err = ApiAlreadyExists)"

definition NamespaceActive :: string where "NamespaceActive = ''Active''"
definition NamespaceTerminating :: string where "NamespaceTerminating = ''Terminating''"

definition activePhase :: "string \<Rightarrow> bool" where
  "activePhase phase \<longleftrightarrow> phase = NamespaceActive \<or> phase = []"

section \<open>main.go: the subscription namespace\<close>

definition terminationPoll :: "'c ns_client \<Rightarrow> string \<Rightarrow> ('c, bool) call" where
  "terminationPoll k namespace =
     attempt (nc_get k namespace)
       (\<lambda>r. case r of
          Inl pollErr \<Rightarrow>
            if isNotFound pollErr then ret True
            else if isForbidden pollErr then ret True
            else fail (Wrap ''error checking namespace status during deletion wait: '' pollErr [])
        | Inr phase \<Rightarrow> if activePhase phase then ret True else ret False)"

text \<open>The two results: the error to return, and whether to go on with the creation.\<close>

definition resolveNamespaceAfterTerminationWait :: "string \<Rightarrow> cerror + string \<Rightarrow> cerror option \<times> bool" where
  "resolveNamespaceAfterTerminationWait namespace final =
     (case final of
        Inl finalErr \<Rightarrow>
          if isForbidden finalErr then (None, False)
          else if isNotFound finalErr then (None, True)
          else (Some (Wrap (''unable to verify namespace '' @ goQuote namespace @ '' after termination wait: '') finalErr []), False)
      | Inr phase \<Rightarrow>
          if activePhase phase then (None, False)
          else if phase = NamespaceTerminating
          then (Some (ErrText (''namespace '' @ goQuote namespace @ '' is still terminating after wait; retry after it is fully deleted'')), False)
          else (Some (ErrText (''namespace '' @ goQuote namespace @ '' exists in unexpected state after termination wait (phase='' @
            goQuote phase @ '')'')), False))"

definition namespaceLabels :: "(string \<times> string) list" where
  "namespaceLabels =
     [(''opendatahub.io/generated-namespace'', ''true''),
      (''app.kubernetes.io/managed-by'', ''maas-controller''),
      (''app.kubernetes.io/part-of'', ''maas-controller'')]"

definition createStep :: "'c ns_client \<Rightarrow> string \<Rightarrow> ('c, bool) call" where
  "createStep k namespace =
     attempt (nc_create k namespace namespaceLabels)
       (\<lambda>r. case r of
          Inr _ \<Rightarrow> ret True
        | Inl err \<Rightarrow>
            if isAlreadyExists err then
              attempt (nc_get k namespace)
                (\<lambda>g. case g of Inl _ \<Rightarrow> ret False | Inr phase \<Rightarrow> if activePhase phase then ret True else ret False)
            else if isForbidden err
            then fail (Wrap (''service account lacks permission to create namespace '' @ goQuote namespace @
              '' '' @ [CHR 0xE2, CHR 0x80, CHR 0x94] @
              '' either pre-create the namespace or grant 'create' on namespaces to the controller service account: '') err [])
            else ret False)"

text \<open>The part after the look at an existing namespace, with the error of the lookup.\<close>

definition createMissing :: "'c ns_client \<Rightarrow> 'c wait_api \<Rightarrow> string \<Rightarrow> cerror \<Rightarrow> ('c, unit) call" where
  "createMissing k w namespace err =
     (if isForbidden err then ret ()
      else if \<not> isNotFound err
      then fail (Wrap (''unable to check if namespace '' @ goQuote namespace @ '' exists: '') err [])
      else wt_backoff w 5 (1 * Second) 2 (createStep k namespace))"

definition ensureSubscriptionNamespaceWithClient :: "'c ns_client \<Rightarrow> 'c wait_api \<Rightarrow> string \<Rightarrow> ('c, unit) call" where
  "ensureSubscriptionNamespaceWithClient k w namespace =
     attempt (nc_get k namespace)
       (\<lambda>r. case r of
          Inl err \<Rightarrow> createMissing k w namespace err
        | Inr phase \<Rightarrow>
            if phase = NamespaceTerminating then
              attempt (wt_poll w (2 * Second) (90 * Second) True (terminationPoll k namespace))
                (\<lambda>p. case p of
                   Inl pollErr \<Rightarrow>
                     fail (Wrap (''failed waiting for terminating namespace '' @ goQuote namespace @ '' to be deleted: '') pollErr [])
                 | Inr _ \<Rightarrow>
                     attempt (nc_get k namespace)
                       (\<lambda>final. case resolveNamespaceAfterTerminationWait namespace final of
                          (doneErr, fallThrough) \<Rightarrow>
                            if fallThrough then
                              (case final of
                                 Inl finalErr \<Rightarrow> createMissing k w namespace finalErr
                               | Inr _ \<Rightarrow> fail (ErrText (''unable to check if namespace '' @ goQuote namespace @ '' exists: %!w(<nil>)'')))
                            else (case doneErr of Some e \<Rightarrow> fail e | None \<Rightarrow> ret ())))
            else ret ())"

definition checkSubscriptionNamespaceReady :: "'c ns_client \<Rightarrow> string \<Rightarrow> ('c, unit) call" where
  "checkSubscriptionNamespaceReady k namespace =
     attempt (nc_get k namespace)
       (\<lambda>r. case r of
          Inl err \<Rightarrow>
            if isNotFound err then fail (ErrText (''subscription namespace '' @ goQuote namespace @ '' does not exist''))
            else if isForbidden err then ret ()
            else fail (Wrap (''subscription namespace '' @ goQuote namespace @ '' ready check: '') err [])
        | Inr phase \<Rightarrow>
            if phase = NamespaceTerminating
            then fail (ErrText (''subscription namespace '' @ goQuote namespace @ '' is terminating''))
            else if activePhase phase then ret ()
            else fail (ErrText (''subscription namespace '' @ goQuote namespace @ '' is not ready (phase='' @ goQuote phase @ '')'')))"

text \<open>The monitor: one run at the start and one at every tick until its context is done; \<open>tick\<close> is what
  happens to the cluster between two runs, \<open>n\<close> the number of ticks before the end.\<close>

record subscriptionNamespaceMonitor =
  nm_namespace :: string
  nm_interval :: int
  nm_needLeaderElection :: bool

definition NeedLeaderElection :: "subscriptionNamespaceMonitor \<Rightarrow> bool" where
  "NeedLeaderElection m = nm_needLeaderElection m"

definition monitorRun :: "'c ns_client \<Rightarrow> 'c wait_api \<Rightarrow> subscriptionNamespaceMonitor \<Rightarrow> ('c, unit) call" where
  "monitorRun k w m = attempt (ensureSubscriptionNamespaceWithClient k w (nm_namespace m)) (\<lambda>_. ret ())"

fun monitorTicks ::
  "'c ns_client \<Rightarrow> 'c wait_api \<Rightarrow> ('c \<Rightarrow> 'c) \<Rightarrow> subscriptionNamespaceMonitor \<Rightarrow> nat \<Rightarrow> ('c, unit) call" where
  "monitorTicks k w tick m 0 = ret ()"
| "monitorTicks k w tick m (Suc n) = (\<lambda>c. bnd (monitorRun k w m) (\<lambda>_. monitorTicks k w tick m n) (tick c))"

definition monitorStart ::
  "'c ns_client \<Rightarrow> 'c wait_api \<Rightarrow> ('c \<Rightarrow> 'c) \<Rightarrow> subscriptionNamespaceMonitor \<Rightarrow> nat \<Rightarrow> ('c, unit) call" where
  "monitorStart k w tick m n =
     (if nm_interval m \<le> 0
      then fail (ErrText (''subscription namespace maintain interval must be positive, got '' @ durationString (nm_interval m)))
      else bnd (monitorRun k w m) (\<lambda>_. monitorTicks k w tick m n))"

section \<open>Waiting\<close>

text \<open>A condition tried up to \<open>n\<close> times, with pauses.\<close>

fun rounds :: "cerror \<Rightarrow> ('c \<Rightarrow> 'c) \<Rightarrow> nat \<Rightarrow> ('c, bool) call \<Rightarrow> ('c, unit) call" where
  "rounds e pause 0 cond c = (c, Inl e)"
| "rounds e pause (Suc n) cond c =
     (case cond c of
        (c', Inl err) \<Rightarrow> (c', Inl err)
      | (c', Inr True) \<Rightarrow> (c', Inr ())
      | (c', Inr False) \<Rightarrow> rounds e pause n cond (pause c'))"

lemma rounds_Inr: "rounds e pause n cond c = (c', Inr ()) \<Longrightarrow> \<exists>c0. cond c0 = (c', Inr True)"
  by (induction n arbitrary: c) (auto split: prod.splits sum.splits bool.splits)

lemma rounds_now: "cond c = (c', Inr True) \<Longrightarrow> 0 < n \<Longrightarrow> rounds e pause n cond c = (c', Inr ())"
  by (cases n) simp_all

text \<open>What apimachinery documents of the two helpers. Both repeat the condition until it returns true or an
  error or the context ends. Polling with an immediate start invokes it at least once, whatever the state of
  the context; how often it does within the timeout is not fixed. The backoff never invokes it more
  than the given number of steps, and at least once when the context is not done, which is what \<open>calm\<close>
  stands for.\<close>

locale wait_lib =
  fixes w :: "'c wait_api" and pause :: "'c \<Rightarrow> 'c" and calm :: "'c \<Rightarrow> bool"
  assumes poll: "\<exists>e n. 0 < n \<and> wt_poll w interval timeout True cond c = rounds e pause n cond c"
    and backoff: "\<exists>e n. n \<le> steps \<and> wt_backoff w steps d factor cond c = rounds e pause n cond c"
    and backoff_calm: "calm c \<Longrightarrow> 0 < steps \<Longrightarrow> \<exists>e n. 0 < n \<and> wt_backoff w steps d factor cond c = rounds e pause n cond c"

locale ns_server =
  fixes k :: "'c ns_client" and view :: "'c \<Rightarrow> string \<Rightarrow> string option" and healthy :: "'c \<Rightarrow> bool"
  assumes getNamespace: "reads view healthy (nc_get k ns) (\<lambda>v. v ns)"
    and createNamespace: "writes view healthy (nc_create k ns ls) (\<lambda>v. v ns = None) (\<lambda>v. v(ns \<mapsto> NamespaceActive))"
begin

lemma get_Inr: "nc_get k ns c = (c', Inr p) \<Longrightarrow> view c' ns = Some p"
  using getNamespace [of ns] unfolding reads_def by (metis fst_conv snd_conv)

lemma create_Inr: "nc_create k ns ls c = (c', Inr ()) \<Longrightarrow> view c' ns = Some NamespaceActive"
  using createNamespace [of ns ls] unfolding writes_def by (metis fst_conv snd_conv fun_upd_same Inl_Inr_False)

lemma createStep_True: "createStep k ns c = (c', Inr True) \<Longrightarrow> \<exists>p. view c' ns = Some p \<and> activePhase p"
  by (auto simp: createStep_def attempt_def ret_def fail_def activePhase_def split: prod.splits sum.splits if_splits dest!: get_Inr create_Inr)

end

lemma active_not_terminating: "activePhase p \<Longrightarrow> p \<noteq> NamespaceTerminating"
  by (auto simp: activePhase_def NamespaceActive_def NamespaceTerminating_def)

lemma createMissing_active:
  assumes "ns_server k view healthy" "wait_lib w pause calm" "createMissing k w ns err c = (c', Inr ())" "\<not> isForbidden err"
  shows "\<exists>p. view c' ns = Some p \<and> activePhase p"
proof -
  from assms(3,4) have "wt_backoff w 5 (1 * Second) 2 (createStep k ns) c = (c', Inr ())"
    by (auto simp: createMissing_def split: if_splits)
  with wait_lib.backoff [OF assms(2)] rounds_Inr obtain c1 where "createStep k ns c1 = (c', Inr True)" by metis
  then show ?thesis by (rule ns_server.createStep_True [OF assms(1)])
qed

text \<open>C25: The namespace is ensured only for good reason: whatever faults occur and whatever others do
  meanwhile, when \<open>ensureSubscriptionNamespaceWithClient\<close> reports success and reading the namespace is not
  forbidden (in which case it is taken for granted), the namespace exists at the end and is not in deletion.\<close>

theorem namespace_ensured:
  assumes "ns_server k view healthy" "wait_lib w pause calm" "\<forall>c e. snd (nc_get k ns c) = Inl e \<longrightarrow> \<not> isForbidden e"
    and "ensureSubscriptionNamespaceWithClient k w ns c = (c', Inr ())"
  shows "\<exists>phase. view c' ns = Some phase \<and> phase \<noteq> NamespaceTerminating"
proof -
  note create = createMissing_active [OF assms(1,2)]
  obtain c1 r where get: "nc_get k ns c = (c1, r)" by fastforce
  show ?thesis
  proof (cases r)
    case (Inl err)
    then have "createMissing k w ns err c1 = (c', Inr ())"
      using get assms(4) by (simp add: ensureSubscriptionNamespaceWithClient_def attempt_def)
    moreover have "\<not> isForbidden err" using assms(3) get Inl by (metis snd_conv)
    ultimately show ?thesis using create active_not_terminating by blast
  next
    case (Inr phase)
    show ?thesis
    proof (cases "phase = NamespaceTerminating")
      case False
      with get Inr assms(4) have "c' = c1" by (simp add: ensureSubscriptionNamespaceWithClient_def attempt_def ret_def)
      with ns_server.get_Inr [OF assms(1) get [unfolded Inr]] False show ?thesis by auto
    next
      case True
      obtain c2 p where poll: "wt_poll w (2 * Second) (90 * Second) True (terminationPoll k ns) c1 = (c2, p)" by fastforce
      obtain c3 f where final: "nc_get k ns c2 = (c3, f)" by fastforce
      from assms(4) get Inr True poll obtain u where p: "p = Inr u"
        by (cases p) (auto simp: ensureSubscriptionNamespaceWithClient_def attempt_def fail_def)
      show ?thesis
      proof (cases f)
        case (Inl err)
        with assms(3) final have nf: "\<not> isForbidden err" by (metis snd_conv)
        with assms(4) get Inr True poll p final Inl have "createMissing k w ns err c3 = (c', Inr ())"
          by (auto simp: ensureSubscriptionNamespaceWithClient_def attempt_def fail_def resolveNamespaceAfterTerminationWait_def split: if_splits)
        from create [OF this nf] active_not_terminating show ?thesis by blast
      next
        case (Inr ph)
        with assms(4) get True poll p final \<open>r = Inr phase\<close> have "c' = c3 \<and> activePhase ph"
          by (auto simp: ensureSubscriptionNamespaceWithClient_def attempt_def fail_def ret_def resolveNamespaceAfterTerminationWait_def split: if_splits)
        with ns_server.get_Inr [OF assms(1) final [unfolded Inr]] active_not_terminating show ?thesis by blast
      qed
    qed
  qed
qed

section \<open>A cluster that finishes deletions\<close>

text \<open>After \<open>remaining\<close> more pauses, namespaces in deletion are gone at the next one.\<close>

definition dropTerminating :: "(string \<Rightarrow> string option) \<Rightarrow> string \<Rightarrow> string option" where
  "dropTerminating v n = (if v n = Some NamespaceTerminating then None else v n)"

locale ns_cluster = ns_server k view healthy + wait_lib w pause healthy
  for k :: "'c ns_client" and view :: "'c \<Rightarrow> string \<Rightarrow> string option" and healthy :: "'c \<Rightarrow> bool" and w :: "'c wait_api" and pause :: "'c \<Rightarrow> 'c" +
  fixes remaining :: "'c \<Rightarrow> nat"
  assumes pause: "healthy c \<Longrightarrow> healthy (pause c) \<and> remaining (pause c) = remaining c - 1 \<and>
      view (pause c) = (if remaining c = 0 then dropTerminating (view c) else view c)"
    and get_remaining: "remaining (fst (nc_get k ns c)) = remaining c"
begin

lemma get_healthy:
  assumes "healthy c"
  obtains c1 where "nc_get k ns c = (c1, case view c ns of None \<Rightarrow> Inl ApiNotFound | Some p \<Rightarrow> Inr p)" "healthy c1"
    "view c1 = view c" "remaining c1 = remaining c"
  using reads_healthy [OF getNamespace assms, of ns] get_remaining [of ns c] by (metis fst_conv)

lemma createMissing_healthy:
  assumes "healthy c" "view c ns = None"
  shows "\<exists>c'. createMissing k w ns ApiNotFound c = (c', Inr ()) \<and> healthy c' \<and> view c' = (view c)(ns \<mapsto> NamespaceActive)"
proof -
  from writes_healthy [OF createNamespace assms(1), of ns] assms(2) obtain c' where c': "healthy c'"
    "view c' = (view c)(ns \<mapsto> NamespaceActive)" "nc_create k ns namespaceLabels c = (c', Inr ())" by blast
  from c'(3) have "createStep k ns c = (c', Inr True)" by (simp add: createStep_def attempt_def ret_def)
  then have "rounds e pause n (createStep k ns) c = (c', Inr ())" if "0 < n" for e n using that by (rule rounds_now)
  with backoff_calm [OF assms(1), of 5 "1 * Second" 2 "createStep k ns"] c' show ?thesis
    by (auto simp: createMissing_def isForbidden_def isNotFound_def)
qed

lemma poll_step:
  assumes "healthy c" "view c ns = Some NamespaceTerminating"
  obtains c1 where "rounds e pause (Suc n) (terminationPoll k ns) c = rounds e pause n (terminationPoll k ns) c1" "healthy c1"
    "remaining c1 = remaining c - 1" "view c1 = (if remaining c = 0 then dropTerminating (view c) else view c)"
proof -
  obtain c1 where c1: "nc_get k ns c = (c1, Inr NamespaceTerminating)" "healthy c1" "view c1 = view c" "remaining c1 = remaining c"
    using get_healthy [OF assms(1), of ns] assms(2) by auto
  have "\<not> activePhase NamespaceTerminating" using active_not_terminating by blast
  with c1(1) have "rounds e pause (Suc n) (terminationPoll k ns) c = rounds e pause n (terminationPoll k ns) (pause c1)"
    by (simp add: terminationPoll_def attempt_def ret_def)
  with that [of "pause c1"] pause [OF c1(2)] c1(3,4) show ?thesis by simp
qed

lemma poll_gone:
  assumes "healthy c" "view c ns = Some NamespaceTerminating" "remaining c < n"
  shows "\<exists>c'. rounds e pause (Suc n) (terminationPoll k ns) c = (c', Inr ()) \<and> healthy c' \<and> view c' = dropTerminating (view c)"
  using assms
proof (induction n arbitrary: c)
  case (Suc n)
  obtain c1 where c1: "rounds e pause (Suc (Suc n)) (terminationPoll k ns) c = rounds e pause (Suc n) (terminationPoll k ns) c1"
    "healthy c1" "remaining c1 = remaining c - 1" "view c1 = (if remaining c = 0 then dropTerminating (view c) else view c)"
    by (rule poll_step [OF Suc.prems(1,2)])
  show ?case
  proof (cases "remaining c")
    case 0
    with c1(4) Suc.prems(2) have v: "view c1 = dropTerminating (view c)" "view c1 ns = None" by (simp_all add: dropTerminating_def)
    with get_healthy [OF c1(2), of ns] obtain c2 where "nc_get k ns c1 = (c2, Inl ApiNotFound)" "healthy c2"
      "view c2 = dropTerminating (view c)" by auto
    then show ?thesis unfolding c1(1) by (simp add: terminationPoll_def attempt_def ret_def isNotFound_def)
  next
    case (Suc m)
    with c1(3,4) have "view c1 = view c" "remaining c1 < n" using Suc.prems(3) by auto
    with Suc.IH [OF c1(2)] Suc.prems(2) show ?thesis unfolding c1(1) by simp
  qed
qed simp

lemma poll_timeout:
  assumes "healthy c" "view c ns = Some NamespaceTerminating" "n \<le> Suc (remaining c)"
  shows "snd (rounds e pause n (terminationPoll k ns) c) = Inl e"
  using assms
proof (induction n arbitrary: c)
  case (Suc n)
  obtain c1 where c1: "rounds e pause (Suc n) (terminationPoll k ns) c = rounds e pause n (terminationPoll k ns) c1"
    "healthy c1" "remaining c1 = remaining c - 1" "view c1 = (if remaining c = 0 then dropTerminating (view c) else view c)"
    by (rule poll_step [OF Suc.prems(1,2)])
  show ?case
  proof (cases n)
    case 0
    then show ?thesis unfolding c1(1) by simp
  next
    case (Suc m)
    with c1(3,4) Suc.prems(2,3) have "view c1 ns = Some NamespaceTerminating" "n \<le> Suc (remaining c1)" by simp_all
    with Suc.IH [OF c1(2)] show ?thesis unfolding c1(1) by blast
  qed
qed simp

end

text \<open>C24: A namespace caught in deletion is brought back if its deletion is over in time. Let the cluster
  be without faults and finish the deletion at the pause after the next \<open>remaining c\<close> ones, and let \<open>n\<close> be the
  number of tries that \<open>PollUntilContextTimeout\<close> makes every two seconds within its 90 seconds (there is
  always such a number). If one of the tries comes after the end of the deletion,
  \<open>ensureSubscriptionNamespaceWithClient\<close> returns successfully with the namespace created anew, no other
  live namespace changed, and the readiness probe passing again; if none does, it returns the error of the
  polling, wrapped.\<close>

theorem terminating_namespace_recreated:
  assumes "ns_cluster k view healthy w pause remaining" "healthy c" "view c ns = Some NamespaceTerminating"
    and tries: "wt_poll w (2 * Second) (90 * Second) True (terminationPoll k ns) (fst (nc_get k ns c)) =
      rounds e pause n (terminationPoll k ns) (fst (nc_get k ns c))"
  shows "if remaining c + 1 < n
    then \<exists>c'. ensureSubscriptionNamespaceWithClient k w ns c = (c', Inr ()) \<and>
      view c' = (dropTerminating (view c))(ns \<mapsto> NamespaceActive) \<and> snd (checkSubscriptionNamespaceReady k ns c') = Inr ()
    else snd (ensureSubscriptionNamespaceWithClient k w ns c) =
      Inl (Wrap (''failed waiting for terminating namespace '' @ goQuote ns @ '' to be deleted: '') e [])"
proof (cases "remaining c + 1 < n")
  case False
  obtain c1 where c1: "nc_get k ns c = (c1, Inr NamespaceTerminating)" "healthy c1" "view c1 = view c" "remaining c1 = remaining c"
    using ns_cluster.get_healthy [OF assms(1,2), of ns] assms(3) by auto
  with ns_cluster.poll_timeout [OF assms(1) c1(2), of ns n e] assms(3) False tries
  have "snd (wt_poll w (2 * Second) (90 * Second) True (terminationPoll k ns) c1) = Inl e" by simp
  with False c1(1) show ?thesis
    by (auto simp: ensureSubscriptionNamespaceWithClient_def attempt_def fail_def split: prod.splits)
next
  case True
  note get = ns_cluster.get_healthy [OF assms(1)]
  obtain c1 where c1: "nc_get k ns c = (c1, Inr NamespaceTerminating)" "healthy c1" "view c1 = view c" "remaining c1 = remaining c"
    using get [OF assms(2), of ns] assms(3) by auto
  obtain m where m: "n = Suc m" "remaining c1 < m" using True c1(4) by (cases n) auto
  with ns_cluster.poll_gone [OF assms(1) c1(2) _ m(2), of ns e] assms(3) c1 tries obtain c2 where
    c2: "wt_poll w (2 * Second) (90 * Second) True (terminationPoll k ns) c1 = (c2, Inr ())" "healthy c2" "view c2 = dropTerminating (view c)"
    by auto
  have gone: "view c2 ns = None" using c2(3) assms(3) by (simp add: dropTerminating_def)
  with get [OF c2(2), of ns] obtain c3 where c3: "nc_get k ns c2 = (c3, Inl ApiNotFound)" "healthy c3" "view c3 = view c2" by auto
  with ns_cluster.createMissing_healthy [OF assms(1) c3(2), of ns] gone obtain c' where
    c': "createMissing k w ns ApiNotFound c3 = (c', Inr ())" "healthy c'" "view c' = (view c3)(ns \<mapsto> NamespaceActive)" by auto
  have "ensureSubscriptionNamespaceWithClient k w ns c = (c', Inr ())"
    using c1(1) c2(1) c3(1) c'(1)
    by (simp add: ensureSubscriptionNamespaceWithClient_def attempt_def resolveNamespaceAfterTerminationWait_def isForbidden_def isNotFound_def)
  moreover obtain c4 where "nc_get k ns c' = (c4, Inr NamespaceActive)" using get [OF c'(2), of ns] c'(3) by auto
  then have "snd (checkSubscriptionNamespaceReady k ns c') = Inr ()"
    by (simp add: checkSubscriptionNamespaceReady_def attempt_def activePhase_def NamespaceTerminating_def NamespaceActive_def ret_def)
  ultimately show ?thesis using True c'(3) c3(3) c2(3) by auto
qed

section \<open>The monitor\<close>

context ns_cluster
begin

lemma ensure_present:
  assumes "healthy c" "view c ns = None \<or> (\<exists>p. view c ns = Some p \<and> activePhase p)"
  shows "\<exists>c'. ensureSubscriptionNamespaceWithClient k w ns c = (c', Inr ()) \<and> healthy c' \<and> (\<exists>p. view c' ns = Some p \<and> activePhase p)"
proof -
  obtain c1 where c1: "nc_get k ns c = (c1, case view c ns of None \<Rightarrow> Inl ApiNotFound | Some p \<Rightarrow> Inr p)" "healthy c1" "view c1 = view c"
    using get_healthy [OF assms(1), of ns] by blast
  show ?thesis
  proof (cases "view c ns")
    case None
    with createMissing_healthy [OF c1(2), of ns] c1 show ?thesis
      by (auto simp: ensureSubscriptionNamespaceWithClient_def attempt_def activePhase_def)
  next
    case (Some p)
    with assms(2) active_not_terminating have "activePhase p" "p \<noteq> NamespaceTerminating" by auto
    with c1 Some show ?thesis by (auto simp: ensureSubscriptionNamespaceWithClient_def attempt_def ret_def)
  qed
qed

lemma monitor_restores:
  assumes "healthy c" "view c (nm_namespace m) = None \<or> (\<exists>p. view c (nm_namespace m) = Some p \<and> activePhase p)" "0 < nm_interval m"
    and "\<And>c. healthy c \<Longrightarrow> healthy (tick c) \<and>
      (view (tick c) (nm_namespace m) = None \<or> (\<exists>p. view (tick c) (nm_namespace m) = Some p \<and> activePhase p))"
  shows "\<exists>c'. monitorStart k w tick m n c = (c', Inr ()) \<and> (\<exists>p. view c' (nm_namespace m) = Some p \<and> activePhase p)"
proof -
  have run: "\<exists>c'. monitorRun k w m c = (c', Inr ()) \<and> healthy c' \<and> (\<exists>p. view c' (nm_namespace m) = Some p \<and> activePhase p)"
    if "healthy c" "view c (nm_namespace m) = None \<or> (\<exists>p. view c (nm_namespace m) = Some p \<and> activePhase p)" for c
    using ensure_present [OF that] by (auto simp: monitorRun_def attempt_def ret_def)
  have ticks: "\<exists>c'. monitorTicks k w tick m n c = (c', Inr ()) \<and> (\<exists>p. view c' (nm_namespace m) = Some p \<and> activePhase p)"
    if "healthy c" "\<exists>p. view c (nm_namespace m) = Some p \<and> activePhase p" for c
    using that
  proof (induction n arbitrary: c)
    case (Suc n)
    from run [of "tick c"] assms(4) [OF Suc.prems(1)] obtain c1 where "monitorRun k w m (tick c) = (c1, Inr ())" "healthy c1"
      "\<exists>p. view c1 (nm_namespace m) = Some p \<and> activePhase p" by blast
    with Suc.IH [of c1] show ?case by (simp add: bnd_def attempt_def)
  qed (simp add: ret_def)
  from run [OF assms(1,2)] obtain c1 where "monitorRun k w m c = (c1, Inr ())" "healthy c1"
    "\<exists>p. view c1 (nm_namespace m) = Some p \<and> activePhase p" by blast
  with ticks [of c1] assms(3) show ?thesis by (simp add: monitorStart_def bnd_def attempt_def)
qed

end

text \<open>The namespace comes back while the manager runs: on a cluster without faults, however often others
  delete the namespace between the ticks, every run of the monitor leaves it there and active.\<close>

theorem monitor_keeps_namespace:
  assumes "ns_cluster k view healthy w pause remaining" "healthy c" "0 < nm_interval m"
    and "view c (nm_namespace m) = None \<or> (\<exists>p. view c (nm_namespace m) = Some p \<and> activePhase p)"
    and "\<And>c. healthy c \<Longrightarrow> healthy (tick c) \<and>
      (view (tick c) (nm_namespace m) = None \<or> (\<exists>p. view (tick c) (nm_namespace m) = Some p \<and> activePhase p))"
  shows "\<exists>c'. monitorStart k w tick m n c = (c', Inr ()) \<and> (\<exists>p. view c' (nm_namespace m) = Some p \<and> activePhase p)"
  by (rule ns_cluster.monitor_restores [OF assms(1,2,4,3,5)])

section \<open>An instance\<close>

record ns_db =
  nd_phases :: "string \<Rightarrow> string option"
  nd_left :: nat
  nd_up :: bool

definition std_ns :: "ns_db ns_client" where
  "std_ns =
     \<lparr>nc_get = (\<lambda>ns d. (d, if \<not> nd_up d then Inl (ApiError ''down'')
        else case nd_phases d ns of None \<Rightarrow> Inl ApiNotFound | Some p \<Rightarrow> Inr p)),
      nc_create = (\<lambda>ns ls d. if \<not> nd_up d then (d, Inl (ApiError ''down''))
        else if nd_phases d ns \<noteq> None then (d, Inl ApiAlreadyExists)
        else (d\<lparr>nd_phases := (nd_phases d)(ns \<mapsto> NamespaceActive)\<rparr>, Inr ()))\<rparr>"

definition nd_pause :: "ns_db \<Rightarrow> ns_db" where
  "nd_pause d = d\<lparr>nd_phases := (if nd_left d = 0 then dropTerminating (nd_phases d) else nd_phases d), nd_left := nd_left d - 1\<rparr>"

definition std_wait :: "ns_db wait_api" where
  "std_wait =
     \<lparr>wt_poll = (\<lambda>interval timeout now cond. rounds (ErrText ''context deadline exceeded'') nd_pause (max 1 (nat (timeout div interval))) cond),
      wt_backoff = (\<lambda>steps d factor cond. rounds (ErrText ''timed out waiting for the condition'') nd_pause steps cond)\<rparr>"

interpretation sn: ns_cluster std_ns nd_phases nd_up std_wait nd_pause nd_left
proof (unfold_locales, goal_cases)
  case (3 interval timeout cond c)
  have "0 < max 1 (nat (timeout div interval))" by simp
  then show ?case unfolding std_wait_def wait_api.simps by blast
qed (auto simp: std_ns_def std_wait_def nd_pause_def reads_def writes_def split: option.splits)

definition dyingNamespace :: ns_db where
  "dyingNamespace = \<lparr>nd_phases = [''maas'' \<mapsto> NamespaceTerminating, ''llm'' \<mapsto> NamespaceActive], nd_left = 3, nd_up = True\<rparr>"

definition emptyCluster :: ns_db where
  "emptyCluster = \<lparr>nd_phases = Map.empty, nd_left = 0, nd_up = True\<rparr>"

theorem namespace_ensured_witness:
  "\<exists>d' phase. ensureSubscriptionNamespaceWithClient std_ns std_wait ''maas'' emptyCluster = (d', Inr ()) \<and>
     nd_phases d' ''maas'' = Some phase \<and> phase \<noteq> NamespaceTerminating"
proof -
  obtain d' where run: "ensureSubscriptionNamespaceWithClient std_ns std_wait ''maas'' emptyCluster = (d', Inr ())"
    using sn.ensure_present [of emptyCluster "''maas''"] by (auto simp: emptyCluster_def)
  have "\<forall>c e. snd (nc_get std_ns ''maas'' c) = Inl e \<longrightarrow> \<not> isForbidden e"
    by (auto simp: std_ns_def isForbidden_def split: option.splits if_splits)
  from namespace_ensured [OF sn.ns_server_axioms sn.wait_lib_axioms this run] run show ?thesis by blast
qed

theorem terminating_namespace_recreated_witness:
  "\<exists>d'. ensureSubscriptionNamespaceWithClient std_ns std_wait ''maas'' dyingNamespace = (d', Inr ()) \<and>
     nd_phases d' = [''maas'' \<mapsto> NamespaceActive, ''llm'' \<mapsto> NamespaceActive]"
proof -
  have up: "nd_up dyingNamespace" "nd_phases dyingNamespace ''maas'' = Some NamespaceTerminating" "nd_left dyingNamespace + 1 < 45"
    by (simp_all add: dyingNamespace_def)
  have tries: "wt_poll std_wait (2 * Second) (90 * Second) True (terminationPoll std_ns ''maas'') c =
      rounds (ErrText ''context deadline exceeded'') nd_pause 45 (terminationPoll std_ns ''maas'') c" for c
    by (simp add: std_wait_def)
  have "(dropTerminating (nd_phases dyingNamespace))(''maas'' \<mapsto> NamespaceActive) = [''maas'' \<mapsto> NamespaceActive, ''llm'' \<mapsto> NamespaceActive]"
    by (auto simp: fun_eq_iff dropTerminating_def dyingNamespace_def NamespaceActive_def NamespaceTerminating_def)
  with terminating_namespace_recreated [OF sn.ns_cluster_axioms up(1,2) tries] up(3) show ?thesis by auto
qed

definition sampleMonitor :: subscriptionNamespaceMonitor where
  "sampleMonitor = \<lparr>nm_namespace = ''maas'', nm_interval = 30 * Second, nm_needLeaderElection = False\<rparr>"

theorem monitor_keeps_namespace_witness:
  "\<exists>d'. monitorStart std_ns std_wait (\<lambda>d. d\<lparr>nd_phases := (nd_phases d)(''maas'' := None)\<rparr>) sampleMonitor 2 emptyCluster = (d', Inr ()) \<and> (\<exists>p. nd_phases d' ''maas'' = Some p \<and> activePhase p)"
proof -
  have m: "nm_namespace sampleMonitor = ''maas''" "0 < nm_interval sampleMonitor" by (simp_all add: sampleMonitor_def)
  show ?thesis
    using monitor_keeps_namespace [OF sn.ns_cluster_axioms, of emptyCluster sampleMonitor
        "\<lambda>d. d\<lparr>nd_phases := (nd_phases d)(''maas'' := None)\<rparr>" 2] m by (simp add: emptyCluster_def)
qed

end
