(* ===== verification/Tenant_Types.thy ===== *)
theory Tenant_Types
  imports Generated_Policies Go_Crypto
begin

text \<open>
  What the two halves of the Tenant code share: the Tenant resource of
  \<open>maas-controller/api/maas/v1alpha1/tenant_types.go\<close>, the constants of
  \<open>maas-controller/pkg/platform/tenantreconcile/constants.go\<close>, and the objects the platform consists of.
  The code handles these as \<open>unstructured.Unstructured\<close>: the record keeps apart what its accessors read
  and set (kind, metadata, owners) from the other top-level fields, a \<open>map[string]any\<close>.
\<close>

section \<open>Kinds and objects\<close>

text \<open>\<open>schema.GroupVersionKind\<close>.\<close>

type_synonym gvk = "string \<times> string \<times> string"

definition kindOf :: "gvk \<Rightarrow> string" where
  "kindOf g = snd (snd g)"

record Unstructured =
  uo_gvk :: gvk
  uo_meta :: ObjectMeta
  uo_owners :: "owner_ref list"
  uo_resourceVersion :: string
  uo_managedFields :: "goany list"
  uo_body :: gomap

definition uo_name :: "Unstructured \<Rightarrow> string" where
  "uo_name u = om_name (uo_meta u)"

definition uo_namespace :: "Unstructured \<Rightarrow> string" where
  "uo_namespace u = om_namespace (uo_meta u)"

definition setNamespace :: "string \<Rightarrow> Unstructured \<Rightarrow> Unstructured" where
  "setNamespace ns u = u\<lparr>uo_meta := (uo_meta u)\<lparr>om_namespace := ns\<rparr>\<rparr>"

definition setLabels :: "(string \<times> string) list \<Rightarrow> Unstructured \<Rightarrow> Unstructured" where
  "setLabels ls u = u\<lparr>uo_meta := (uo_meta u)\<lparr>om_labels := ls\<rparr>\<rparr>"

definition setAnnotations :: "(string \<times> string) list \<Rightarrow> Unstructured \<Rightarrow> Unstructured" where
  "setAnnotations as u = u\<lparr>uo_meta := (uo_meta u)\<lparr>om_annotations := as\<rparr>\<rparr>"

text \<open>The accessors of apimachinery's \<open>unstructured\<close> package for nested fields, and its converter
  between unstructured and typed objects; of a Deployment the code reads and changes the fields below.\<close>

record Deployment =
  dp_meta :: ObjectMeta
  dp_replicas :: "int option"
  dp_templateAnnotations :: "(string \<times> string) list"
  dp_observedGeneration :: int
  dp_updatedReplicas :: int
  dp_availableReplicas :: int
  dp_other :: gomap

record uns_api =
  un_setNestedField :: "gomap \<Rightarrow> goany \<Rightarrow> string list \<Rightarrow> cerror + gomap"
  un_nestedString :: "gomap \<Rightarrow> string list \<Rightarrow> string nested_result"
  un_nestedBool :: "gomap \<Rightarrow> string list \<Rightarrow> bool nested_result"
  un_stringData :: "Unstructured \<Rightarrow> cerror + (string \<times> string) list"
  un_toDeployment :: "Unstructured \<Rightarrow> cerror + Deployment"
  un_fromDeployment :: "Deployment \<Rightarrow> cerror + Unstructured"

text \<open>Going on after a step that may fail, with the prefix of its error.\<close>

definition andThen :: "string \<Rightarrow> cerror + 'a \<Rightarrow> ('a \<Rightarrow> cerror + 'b) \<Rightarrow> cerror + 'b" where
  "andThen p r f = (case r of Inl e \<Rightarrow> Inl (if p = [] then e else Wrap p e []) | Inr x \<Rightarrow> f x)"

lemma andThen_Inr [simp]: "andThen p (Inr x) f = f x"
  by (simp add: andThen_def)

lemma andThen_InrE: "andThen p r f = Inr y \<Longrightarrow> (\<And>x. r = Inr x \<Longrightarrow> f x = Inr y \<Longrightarrow> thesis) \<Longrightarrow> thesis"
  by (cases r) (simp_all add: andThen_def)

section \<open>tenant\_types.go\<close>

definition TenantKind :: string where "TenantKind = ''Tenant''"

definition GroupVersionString :: string where "GroupVersionString = ''maas.opendatahub.io/v1alpha1''"

record TenantGatewayRef =
  gr_namespace :: string
  gr_name :: string

record TenantExternalOIDCConfig =
  oi_issuerURL :: string
  oi_clientID :: string
  oi_ttl :: int

record TenantMetricsConfig =
  mc_captureOrganization :: "bool option"
  mc_captureUser :: "bool option"
  mc_captureGroup :: "bool option"
  mc_captureModelUsage :: "bool option"

record TenantTelemetryConfig =
  tl_enabled :: "bool option"
  tl_metrics :: "TenantMetricsConfig option"

text \<open>\<open>tsp_apiKeys\<close>: the field \<open>maxExpirationDays\<close> of the optional key configuration.\<close>

record TenantSpec =
  tsp_gatewayRef :: TenantGatewayRef
  tsp_apiKeys :: "int option option"
  tsp_externalOIDC :: "TenantExternalOIDCConfig option"
  tsp_telemetry :: "TenantTelemetryConfig option"

record TenantStatus =
  tst_phase :: string
  tst_conditions :: "Condition list"

record Tenant =
  tn_meta :: ObjectMeta
  tn_uid :: string
  tn_spec :: TenantSpec
  tn_status :: TenantStatus

abbreviation tn_gateway :: "Tenant \<Rightarrow> TenantGatewayRef" where
  "tn_gateway t \<equiv> tsp_gatewayRef (tn_spec t)"

section \<open>constants.go\<close>

definition OptionalAPIGroups :: "string list" where "OptionalAPIGroups = [''perses.dev'']"

definition isOptionalAPIGroup :: "string \<Rightarrow> bool" where
  "isOptionalAPIGroup g = List.member OptionalAPIGroups g"

definition ComponentName :: string where "ComponentName = ''modelsasservice''"
definition LabelODHAppPrefix :: string where "LabelODHAppPrefix = ''app.opendatahub.io''"
definition LabelK8sPartOf :: string where "LabelK8sPartOf = ''app.kubernetes.io/part-of''"
definition LabelTenantName :: string where "LabelTenantName = ''maas.opendatahub.io/tenant-name''"
definition LabelTenantNamespace :: string where "LabelTenantNamespace = ''maas.opendatahub.io/tenant-namespace''"
definition DefaultGatewayNamespace :: string where "DefaultGatewayNamespace = ''openshift-ingress''"
definition DefaultGatewayName :: string where "DefaultGatewayName = ''maas-default-gateway''"
definition GatewayDefaultAuthPolicyName :: string where "GatewayDefaultAuthPolicyName = ''gateway-default-auth''"
definition GatewayTokenRateLimitDefaultDenyPolicyName :: string where
  "GatewayTokenRateLimitDefaultDenyPolicyName = ''gateway-default-deny''"
definition MaaSAPIAuthPolicyName :: string where "MaaSAPIAuthPolicyName = ''maas-api-auth-policy''"
definition GatewayDestinationRuleName :: string where "GatewayDestinationRuleName = ''maas-api-backend-tls''"
definition TelemetryPolicyName :: string where "TelemetryPolicyName = ''maas-telemetry''"
definition IstioTelemetryName :: string where "IstioTelemetryName = ''latency-per-subscription''"
definition MaaSParametersConfigMapName :: string where "MaaSParametersConfigMapName = ''maas-parameters''"
definition MaaSAPIDeploymentName :: string where "MaaSAPIDeploymentName = ''maas-api''"
definition MaaSDBSecretName :: string where "MaaSDBSecretName = ''maas-db-config''"
definition MaaSDBSecretKey :: string where "MaaSDBSecretKey = ''DB_CONNECTION_URL''"
definition MonitoringNamespace :: string where "MonitoringNamespace = ''openshift-monitoring''"
definition ClusterMonitoringConfigName :: string where "ClusterMonitoringConfigName = ''cluster-monitoring-config''"
definition ConditionDependenciesAvailable :: string where "ConditionDependenciesAvailable = ''DependenciesAvailable''"
definition ConditionMaaSPrerequisitesAvailable :: string where
  "ConditionMaaSPrerequisitesAvailable = ''MaaSPrerequisitesAvailable''"
definition ConditionDeploymentsAvailable :: string where "ConditionDeploymentsAvailable = ''DeploymentsAvailable''"
definition ConditionTypeDegraded :: string where "ConditionTypeDegraded = ''Degraded''"
definition ReadyConditionType :: string where "ReadyConditionType = ''Ready''"

definition ImageParamKeys :: "(string \<times> string) list" where
  "ImageParamKeys =
     [(''maas-api-image'', ''RELATED_IMAGE_ODH_MAAS_API_IMAGE''),
      (''maas-controller-image'', ''RELATED_IMAGE_ODH_MAAS_CONTROLLER_IMAGE''),
      (''payload-processing-image'', ''RELATED_IMAGE_ODH_AI_GATEWAY_PAYLOAD_PROCESSING_IMAGE''),
      (''maas-api-key-cleanup-image'', ''RELATED_IMAGE_UBI_MINIMAL_IMAGE'')]"

definition GVKConfigMap :: gvk where "GVKConfigMap = ([], ''v1'', ''ConfigMap'')"
definition GVKDeployment :: gvk where "GVKDeployment = (''apps'', ''v1'', ''Deployment'')"
definition GVKAuthPolicy :: gvk where "GVKAuthPolicy = (''kuadrant.io'', ''v1'', ''AuthPolicy'')"
definition GVKTokenRateLimitPolicy :: gvk where
  "GVKTokenRateLimitPolicy = (''kuadrant.io'', ''v1alpha1'', ''TokenRateLimitPolicy'')"
definition GVKDestinationRule :: gvk where "GVKDestinationRule = (''networking.istio.io'', ''v1'', ''DestinationRule'')"
definition GVKTelemetryPolicy :: gvk where "GVKTelemetryPolicy = (''extensions.kuadrant.io'', ''v1alpha1'', ''TelemetryPolicy'')"
definition GVKIstioTelemetry :: gvk where "GVKIstioTelemetry = (''telemetry.istio.io'', ''v1'', ''Telemetry'')"
definition GVKAuthConfig :: gvk where "GVKAuthConfig = (''authorino.kuadrant.io'', ''v1beta3'', ''AuthConfig'')"
definition GVKAuthorino :: gvk where "GVKAuthorino = (''operator.authorino.kuadrant.io'', ''v1beta1'', ''Authorino'')"

end
