(* ===== verification/Tenant_Render.thy ===== *)
theory Tenant_Render
  imports Tenant_Types
begin

text \<open>
  \<open>maas-controller/pkg/platform/tenantreconcile/postrender.go\<close>: what is done to the rendered manifests
  before they are applied. The accessors for nested fields and the converters between unstructured and
  typed objects are third-party, an argument \<open>uns_api\<close>; \<open>nested_set_documented\<close> states what is documented
  of setting a field. Log output is left out.
\<close>

section \<open>Quoting\<close>

definition dq :: "string \<Rightarrow> string" where "dq s = CHR 0x22 # s @ [CHR 0x22]"
definition sq :: "string \<Rightarrow> string" where "sq s = CHR 0x27 # s @ [CHR 0x27]"

section \<open>postrender.go\<close>

definition configureAuthPolicy :: "uns_api \<Rightarrow> Unstructured \<Rightarrow> string \<Rightarrow> string \<Rightarrow> cerror + Unstructured" where
  "configureAuthPolicy api resource gwNamespace gwName =
     (let r = setNamespace gwNamespace resource
      in andThen ''failed to set spec.targetRef.name on AuthPolicy: ''
           (un_setNestedField api (uo_body r) (GStr gwName) [''spec'', ''targetRef'', ''name''])
           (\<lambda>b. Inr (r\<lparr>uo_body := b\<rparr>)))"

definition configureTokenRateLimitPolicy :: "uns_api \<Rightarrow> Unstructured \<Rightarrow> string \<Rightarrow> string \<Rightarrow> cerror + Unstructured" where
  "configureTokenRateLimitPolicy api resource gwNamespace gwName =
     (let r = setNamespace gwNamespace resource
      in andThen ''failed to set spec.targetRef.name on TokenRateLimitPolicy: ''
           (un_setNestedField api (uo_body r) (GStr gwName) [''spec'', ''targetRef'', ''name''])
           (\<lambda>b. Inr (r\<lparr>uo_body := b\<rparr>)))"

definition configureDestinationRule :: "Unstructured \<Rightarrow> string \<Rightarrow> Unstructured" where
  "configureDestinationRule resource gwNamespace = setNamespace gwNamespace resource"

definition isMaaSAPIAuthPolicy :: "Unstructured \<Rightarrow> bool" where
  "isMaaSAPIAuthPolicy r \<longleftrightarrow> uo_gvk r = GVKAuthPolicy \<and> uo_name r = MaaSAPIAuthPolicyName"

text \<open>A loop that changes the first element with a property and returns; \<open>None\<close> when there is none.\<close>

fun changeFirst :: "('a \<Rightarrow> bool) \<Rightarrow> ('a \<Rightarrow> 'e + 'a) \<Rightarrow> 'a list \<Rightarrow> ('e + 'a list) option" where
  "changeFirst P f [] = None"
| "changeFirst P f (x # xs) =
     (if P x then Some (map_sum id (\<lambda>y. y # xs) (f x)) else map_option (map_sum id ((#) x)) (changeFirst P f xs))"

definition setManagedFalseAnnotation :: "Unstructured list \<Rightarrow> Unstructured list" where
  "setManagedFalseAnnotation resources =
     (case changeFirst isMaaSAPIAuthPolicy
             (\<lambda>r. Inr (setAnnotations (AList.update ''opendatahub.io/managed'' ''false'' (om_annotations (uo_meta r))) r)
                :: cerror + Unstructured) resources of
        Some (Inr rs) \<Rightarrow> rs
      | _ \<Rightarrow> resources)"

definition notApiKey :: string where
  "notApiKey = ''!request.headers.authorization.startsWith('' @ dq ''Bearer sk-oai-'' @ '')''"

definition jwtPredicate :: string where
  "jwtPredicate =
     notApiKey @ '' && request.headers.authorization.matches('' @
     dq (''^Bearer [^.]+'' @ [CHR 0x5C, CHR 0x5C] @ ''.[^.]+'' @ [CHR 0x5C, CHR 0x5C] @ ''.[^.]+$'') @ '')''"

definition usernameExpr :: string where
  "usernameExpr = ''has(auth.identity.preferred_username) ? auth.identity.preferred_username : (has(auth.identity.sub) ? auth.identity.sub : auth.identity.user.username)''"

definition groupsExpr :: string where
  "groupsExpr =
     ''has(auth.identity.groups) ? '' @
     ''(size(auth.identity.groups) > 0 ? '' @
     sq (''['' @ dq ''system:authenticated'' @ '','' @ [CHR 0x22]) @ '' + auth.identity.groups.join('' @ sq (dq '','') @ '') + '' @
     sq (CHR 0x22 # '']'') @ '' : '' @
     sq (''['' @ dq ''system:authenticated'' @ '']'') @ '') : '' @
     sq (''['' @ [CHR 0x22]) @ '' + auth.identity.user.groups.join('' @ sq (dq '','') @ '') + '' @ sq (CHR 0x22 # '']'')"

definition whenPredicate :: "string \<Rightarrow> goany" where
  "whenPredicate p = GSlice [GMap [(''predicate'', GStr p)]]"

definition oidcIdentities :: "TenantExternalOIDCConfig \<Rightarrow> goany" where
  "oidcIdentities oidc =
     (let ttl = (if oi_ttl oidc = 0 then 300 else oi_ttl oidc)
      in GMap [(''when'', whenPredicate jwtPredicate),
               (''jwt'', GMap [(''issuerUrl'', GStr (oi_issuerURL oidc)), (''ttl'', GInt ttl)]),
               (''priority'', GInt 1)])"

definition oidcClientBound :: "TenantExternalOIDCConfig \<Rightarrow> goany" where
  "oidcClientBound oidc =
     GMap [(''when'', whenPredicate jwtPredicate),
           (''patternMatching'', GMap [(''patterns'', GSlice [GMap [(''selector'', GStr ''auth.identity.azp''),
              (''operator'', GStr ''eq''), (''value'', GStr (oi_clientID oidc))]])]),
           (''priority'', GInt 1)]"

definition oidcPatches :: "TenantExternalOIDCConfig \<Rightarrow> (string \<times> goany \<times> string list) list" where
  "oidcPatches oidc =
     [(''failed to set oidc-identities: '', oidcIdentities oidc,
        [''spec'', ''rules'', ''authentication'', ''oidc-identities'']),
      (''failed to set openshift-identities priority: '', GInt 2,
        [''spec'', ''rules'', ''authentication'', ''openshift-identities'', ''priority'']),
      (''failed to set openshift-identities when: '', whenPredicate notApiKey,
        [''spec'', ''rules'', ''authentication'', ''openshift-identities'', ''when'']),
      (''failed to set oidc-client-bound: '', oidcClientBound oidc,
        [''spec'', ''rules'', ''authorization'', ''oidc-client-bound'']),
      (''failed to set X-MaaS-Username-OC: '', GMap [(''expression'', GStr usernameExpr)],
        [''spec'', ''rules'', ''response'', ''success'', ''headers'', ''X-MaaS-Username-OC'', ''plain'']),
      (''failed to set X-MaaS-Group-OC: '', GMap [(''expression'', GStr groupsExpr)],
        [''spec'', ''rules'', ''response'', ''success'', ''headers'', ''X-MaaS-Group-OC'', ''plain''])]"

fun setFields :: "uns_api \<Rightarrow> (string \<times> goany \<times> string list) list \<Rightarrow> gomap \<Rightarrow> cerror + gomap" where
  "setFields api [] m = Inr m"
| "setFields api ((msg, v, path) # ps) m = andThen msg (un_setNestedField api m v path) (setFields api ps)"

definition patchAuthPolicyWithOIDC :: "uns_api \<Rightarrow> TenantExternalOIDCConfig \<Rightarrow> Unstructured \<Rightarrow> cerror + Unstructured" where
  "patchAuthPolicyWithOIDC api oidc resource =
     andThen [] (setFields api (oidcPatches oidc) (uo_body resource)) (\<lambda>b. Inr (resource\<lparr>uo_body := b\<rparr>))"

definition configureExternalOIDC :: "uns_api \<Rightarrow> Tenant \<Rightarrow> Unstructured list \<Rightarrow> cerror + Unstructured list" where
  "configureExternalOIDC api tenant resources =
     (case tsp_externalOIDC (tn_spec tenant) of
        None \<Rightarrow> Inr resources
      | Some oidc \<Rightarrow>
          (case changeFirst isMaaSAPIAuthPolicy (patchAuthPolicyWithOIDC api oidc) resources of
             Some r \<Rightarrow> r
           | None \<Rightarrow> Inl (ErrText (''rendered resources are missing AuthPolicy '' @ goQuote MaaSAPIAuthPolicyName @
               '' while spec.externalOIDC is configured '' @ [CHR 0xE2, CHR 0x80, CHR 0x94] @
               '' refusing to deploy without OIDC rules''))))"

definition isTelemetryEnabled :: "TenantTelemetryConfig option \<Rightarrow> bool" where
  "isTelemetryEnabled t =
     (case t of None \<Rightarrow> False | Some tc \<Rightarrow> (case tl_enabled tc of None \<Rightarrow> False | Some b \<Rightarrow> b))"

definition buildTelemetryLabels :: "TenantTelemetryConfig option \<Rightarrow> gomap" where
  "buildTelemetryLabels config =
     (let metrics = Option.bind config tl_metrics;
          flag = (\<lambda>sel dflt. case Option.bind metrics sel of None \<Rightarrow> dflt | Some b \<Rightarrow> b);
          captureOrganization = flag mc_captureOrganization True;
          captureUser = flag mc_captureUser False;
          captureGroup = flag mc_captureGroup False;
          captureModelUsage = flag mc_captureModelUsage True
      in [(''subscription'', GStr ''auth.identity.selected_subscription''),
          (''cost_center'', GStr ''auth.identity.subscription_info.costCenter'')] @
         (if captureOrganization then [(''organization_id'', GStr ''auth.identity.subscription_info.organizationId'')] else []) @
         (if captureUser then [(''user'', GStr ''auth.identity.userid'')] else []) @
         (if captureGroup then [(''group'', GStr ''auth.identity.group'')] else []) @
         (if captureModelUsage then [(''model'', GStr (''responseBodyJSON('' @ dq ''/model'' @ '')''))] else []))"

definition observabilityLabels :: "Tenant \<Rightarrow> (string \<times> string) list" where
  "observabilityLabels tenant =
     [(''app.kubernetes.io/part-of'', ''maas-observability''),
      (LabelTenantName, om_name (tn_meta tenant)),
      (LabelTenantNamespace, om_namespace (tn_meta tenant))]"

definition newObject :: "gvk \<Rightarrow> ObjectMeta \<Rightarrow> gomap \<Rightarrow> Unstructured" where
  "newObject g m b =
     \<lparr>uo_gvk = g, uo_meta = m, uo_owners = [], uo_resourceVersion = [], uo_managedFields = [], uo_body = b\<rparr>"

definition telemetryPolicy :: "Tenant \<Rightarrow> Unstructured" where
  "telemetryPolicy tenant =
     newObject (''extensions.kuadrant.io'', ''v1alpha1'', ''TelemetryPolicy'')
       (newMeta TelemetryPolicyName (gr_namespace (tn_gateway tenant)) (observabilityLabels tenant) [])
       [(''spec'', GMap
          [(''targetRef'', GMap [(''group'', GStr ''gateway.networking.k8s.io''), (''kind'', GStr ''Gateway''),
              (''name'', GStr (gr_name (tn_gateway tenant)))]),
           (''metrics'', GMap [(''default'', GMap [(''labels'', GMap (buildTelemetryLabels (tsp_telemetry (tn_spec tenant))))])])])]"

definition configureTelemetryPolicyResources :: "Tenant \<Rightarrow> Unstructured list \<Rightarrow> Unstructured list" where
  "configureTelemetryPolicyResources tenant resources =
     (if \<not> isTelemetryEnabled (tsp_telemetry (tn_spec tenant)) then resources else resources @ [telemetryPolicy tenant])"

definition istioTelemetry :: "Tenant \<Rightarrow> Unstructured" where
  "istioTelemetry tenant =
     newObject (''telemetry.istio.io'', ''v1'', ''Telemetry'')
       (newMeta IstioTelemetryName (gr_namespace (tn_gateway tenant)) (observabilityLabels tenant) [])
       [(''spec'', GMap
          [(''selector'', GMap [(''matchLabels'', GMap [(''gateway.networking.k8s.io/gateway-name'',
              GStr (gr_name (tn_gateway tenant)))])]),
           (''metrics'', GSlice [GMap
              [(''providers'', GSlice [GMap [(''name'', GStr ''prometheus'')]]),
               (''overrides'', GSlice [GMap
                  [(''match'', GMap [(''metric'', GStr ''REQUEST_DURATION''), (''mode'', GStr ''CLIENT_AND_SERVER'')]),
                   (''tagOverrides'', GMap [(''subscription'', GMap [(''operation'', GStr ''UPSERT''),
                      (''value'', GStr (''request.headers['' @ dq ''x-maas-subscription'' @ '']''))])])]])]])])]"

definition configureIstioTelemetryResources :: "Tenant \<Rightarrow> Unstructured list \<Rightarrow> Unstructured list" where
  "configureIstioTelemetryResources tenant resources =
     (if \<not> isTelemetryEnabled (tsp_telemetry (tn_spec tenant)) then resources else resources @ [istioTelemetry tenant])"

text \<open>One line \<open>key=value\<close> of the hashed text, and of \<open>params.env\<close>.\<close>

definition paramLine :: "string \<times> string \<Rightarrow> string" where
  "paramLine kv = fst kv @ ''='' @ snd kv @ [CHR 0x0A]"

definition hashInput :: "(string \<times> string) list \<Rightarrow> string" where
  "hashInput data = concat (map (\<lambda>k. paramLine (k, strMapIndex data k)) (sort (map fst data)))"

definition hashConfigMapData :: "(string \<times> string) list \<Rightarrow> string" where
  "hashConfigMapData data = hexEncodeToString (Sum256 (hashInput data))"

definition isParametersConfigMap :: "Unstructured \<Rightarrow> bool" where
  "isParametersConfigMap r \<longleftrightarrow> uo_gvk r = GVKConfigMap \<and> uo_name r = MaaSParametersConfigMapName"

definition isMaaSAPIDeployment :: "Unstructured \<Rightarrow> bool" where
  "isMaaSAPIDeployment r \<longleftrightarrow> uo_gvk r = GVKDeployment \<and> uo_name r = MaaSAPIDeploymentName"

definition hashAnnotation :: string where
  "hashAnnotation = LabelODHAppPrefix @ ''/maas-config-hash''"

definition annotateDeployment :: "uns_api \<Rightarrow> string \<Rightarrow> Unstructured \<Rightarrow> cerror + Unstructured" where
  "annotateDeployment api configHash r =
     andThen ''failed to convert Deployment: '' (un_toDeployment api r)
       (\<lambda>dep. andThen ''failed to convert Deployment back to unstructured: ''
          (un_fromDeployment api (dep\<lparr>dp_templateAnnotations := AList.update hashAnnotation configHash (dp_templateAnnotations dep)\<rparr>)) Inr)"

definition configureConfigHashAnnotation :: "uns_api \<Rightarrow> Unstructured list \<Rightarrow> cerror + Unstructured list" where
  "configureConfigHashAnnotation api resources =
     (case find isParametersConfigMap resources of
        None \<Rightarrow> Inr resources
      | Some cm \<Rightarrow>
          andThen ''failed to convert ConfigMap: '' (un_stringData api cm)
            (\<lambda>data. case changeFirst isMaaSAPIDeployment (annotateDeployment api (hashConfigMapData data)) resources of
               None \<Rightarrow> Inr resources
             | Some r \<Rightarrow> r))"

definition optedOut :: "Unstructured \<Rightarrow> bool" where
  "optedOut r \<longleftrightarrow> strMapIndex (om_annotations (uo_meta r)) ''opendatahub.io/managed'' = ''false''"

fun filterConfigure :: "uns_api \<Rightarrow> string \<Rightarrow> string \<Rightarrow> Unstructured list \<Rightarrow> cerror + Unstructured list" where
  "filterConfigure api gwNamespace gwName [] = Inr []"
| "filterConfigure api gwNamespace gwName (resource # resources) =
     (if optedOut resource then filterConfigure api gwNamespace gwName resources
      else
        let g = uo_gvk resource;
            r = (if g = GVKAuthPolicy \<and> uo_name resource = GatewayDefaultAuthPolicyName
                 then configureAuthPolicy api resource gwNamespace gwName
                 else if g = GVKTokenRateLimitPolicy \<and> uo_name resource = GatewayTokenRateLimitDefaultDenyPolicyName
                 then configureTokenRateLimitPolicy api resource gwNamespace gwName
                 else if g = GVKDestinationRule \<and> uo_name resource = GatewayDestinationRuleName
                 then Inr (configureDestinationRule resource gwNamespace)
                 else Inr resource)
        in andThen [] r (\<lambda>x. andThen [] (filterConfigure api gwNamespace gwName resources) (\<lambda>xs. Inr (x # xs))))"

definition PostRender :: "uns_api \<Rightarrow> Tenant \<Rightarrow> Unstructured list \<Rightarrow> cerror + Unstructured list" where
  "PostRender api tenant resources =
     andThen [] (filterConfigure api (gr_namespace (tn_gateway tenant)) (gr_name (tn_gateway tenant)) resources)
       (\<lambda>filtered. andThen [] (configureExternalOIDC api tenant (setManagedFalseAnnotation filtered))
         (\<lambda>rs. configureConfigHashAnnotation api
            (configureIstioTelemetryResources tenant (configureTelemetryPolicyResources tenant rs))))"

section \<open>Setting nested fields\<close>

text \<open>What apimachinery documents of \<open>SetNestedField\<close>: a field that was set reads back, and no field
  outside its path changes.\<close>

definition apart :: "string list \<Rightarrow> string list \<Rightarrow> bool" where
  "apart p q \<longleftrightarrow> \<not> prefix p q \<and> \<not> prefix q p"

definition nested_set_documented :: "uns_api \<Rightarrow> bool" where
  "nested_set_documented api \<longleftrightarrow>
     (\<forall>m v p m'. p \<noteq> [] \<and> un_setNestedField api m v p = Inr m' \<longrightarrow>
        nested_lookup m' p = Some v \<and> (\<forall>q. apart p q \<longrightarrow> nested_lookup m' q = nested_lookup m q))"

lemma setNestedD:
  assumes "nested_set_documented api" "un_setNestedField api m v p = Inr m'" "p \<noteq> []"
  shows "nested_lookup m' p = Some v" "apart p q \<Longrightarrow> nested_lookup m' q = nested_lookup m q"
  using assms unfolding nested_set_documented_def by blast+

lemma setFields_frame:
  assumes "nested_set_documented api"
  shows "setFields api ps m = Inr m' \<Longrightarrow> list_all (\<lambda>(msg, v, p). p \<noteq> [] \<and> apart p q) ps \<Longrightarrow>
    nested_lookup m' q = nested_lookup m q"
proof (induction ps arbitrary: m)
  case (Cons x ps)
  obtain msg v p where x: "x = (msg, v, p)" by (cases x)
  from Cons.prems(1) obtain m1 where m1: "un_setNestedField api m v p = Inr m1" "setFields api ps m1 = Inr m'"
    unfolding x setFields.simps by (rule andThen_InrE)
  from Cons.IH [OF m1(2)] Cons.prems(2) setNestedD(2) [OF assms m1(1), of q] show ?case by (simp add: x)
qed simp

lemma setFields_lookup:
  assumes "nested_set_documented api"
  shows "setFields api ps m = Inr m' \<Longrightarrow> sorted_wrt (\<lambda>x y. apart (snd (snd y)) (snd (snd x))) ps \<Longrightarrow>
    list_all (\<lambda>(msg, v, p). p \<noteq> []) ps \<Longrightarrow> (msg, v, p) \<in> set ps \<Longrightarrow> nested_lookup m' p = Some v"
proof (induction ps arbitrary: m)
  case (Cons x ps)
  obtain msg' v' p' where x: "x = (msg', v', p')" by (cases x)
  from Cons.prems(1) obtain m1 where m1: "un_setNestedField api m v' p' = Inr m1" "setFields api ps m1 = Inr m'"
    unfolding x setFields.simps by (rule andThen_InrE)
  show ?case
  proof (cases "(msg, v, p) \<in> set ps")
    case True
    with Cons.IH [OF m1(2)] Cons.prems(2,3) show ?thesis by simp
  next
    case False
    with Cons.prems(4) x have eq: "v = v'" "p = p'" by simp_all
    have "list_all (\<lambda>(msg, v, q). q \<noteq> [] \<and> apart q p') ps"
      using Cons.prems(2,3) by (auto simp: x list_all_iff)
    from setFields_frame [OF assms m1(2) this] setNestedD(1) [OF assms m1(1)] Cons.prems(3)
    show ?thesis by (simp add: eq x)
  qed
qed simp

lemma nested_lookup_append:
  "nested_lookup m p = Some (GMap m') \<Longrightarrow> p \<noteq> [] \<Longrightarrow> q \<noteq> [] \<Longrightarrow> nested_lookup m (p @ q) = nested_lookup m' q"
proof (induction m p rule: nested_lookup.induct)
  case (2 m k)
  then show ?case by (cases q) simp_all
next
  case (3 m k k' ks)
  then show ?case by (auto split: option.splits goany.splits)
qed simp

text \<open>An implementation.\<close>

fun setNested :: "goany \<Rightarrow> gomap \<Rightarrow> string list \<Rightarrow> cerror + gomap" where
  "setNested v m [] = Inl (ErrText ''no path'')"
| "setNested v m [k] = Inr (AList.update k v m)"
| "setNested v m (k # ks) =
     (case map_of m k of
        None \<Rightarrow> andThen [] (setNested v [] ks) (\<lambda>m'. Inr (AList.update k (GMap m') m))
      | Some (GMap m0) \<Rightarrow> andThen [] (setNested v m0 ks) (\<lambda>m'. Inr (AList.update k (GMap m') m))
      | Some _ \<Rightarrow> Inl (ErrText ''value cannot be set because it is not a map''))"

lemma nested_lookup_Cons:
  "ks \<noteq> [] \<Longrightarrow> nested_lookup m (k # ks) = (case map_of m k of Some (GMap m') \<Rightarrow> nested_lookup m' ks | _ \<Rightarrow> None)"
  by (cases ks) (simp, hypsubst, rule nested_lookup.simps(3))

lemma nested_lookup_empty: "ks \<noteq> [] \<Longrightarrow> nested_lookup [] ks = None"
  by (cases ks; cases "tl ks") (simp_all add: nested_lookup_Cons)

lemma setNested_correct:
  "setNested v m p = Inr m' \<Longrightarrow>
   nested_lookup m' p = Some v \<and> (\<forall>q. apart p q \<longrightarrow> nested_lookup m' q = nested_lookup m q)"
proof (induction v m p arbitrary: m' rule: setNested.induct)
  case (2 v m k)
  then have m': "m' = AList.update k v m" by simp
  have "nested_lookup m' q = nested_lookup m q" if "apart [k] q" for q
  proof (cases q)
    case (Cons j js)
    with that have "j \<noteq> k" by (auto simp: apart_def)
    with Cons show ?thesis by (cases js) (simp_all add: m' update_conv')
  qed (use that in \<open>simp add: apart_def\<close>)
  then show ?case by (simp add: m' update_conv')
next
  case (3 v m k k' ks)
  obtain m0 m1 where m0: "setNested v m0 (k' # ks) = Inr m1" "m' = AList.update k (GMap m1) m"
    "map_of m k = None \<and> m0 = [] \<or> map_of m k = Some (GMap m0)"
    using 3(3) by (auto split: option.splits goany.splits elim!: andThen_InrE)
  from m0(3) have ih: "nested_lookup m1 (k' # ks) = Some v \<and> (\<forall>q. apart (k' # ks) q \<longrightarrow> nested_lookup m1 q = nested_lookup m0 q)"
    using 3(1) [of m1] 3(2) [of "GMap m0" m0 m1] m0(1) by auto
  have "nested_lookup m' q = nested_lookup m q" if "apart (k # k' # ks) q" for q
  proof (cases q)
    case (Cons j js)
    show ?thesis
    proof (cases "j = k")
      case True
      with that Cons have a: "apart (k' # ks) js" by (simp add: apart_def)
      then have "js \<noteq> []" by (auto simp: apart_def)
      with ih a m0(3) show ?thesis by (auto simp: Cons True m0(2) update_conv' nested_lookup_Cons nested_lookup_empty)
    next
      case False
      then show ?thesis by (cases js) (simp_all add: Cons m0(2) update_conv' nested_lookup_Cons)
    qed
  qed (use that in \<open>simp add: apart_def\<close>)
  with ih show ?case by (simp add: m0(2) update_conv')
qed simp

section \<open>External identity provider\<close>

lemma changeFirst_split:
  "changeFirst P f xs = Some (Inr ys) \<Longrightarrow>
   \<exists>pre x y post. xs = pre @ x # post \<and> ys = pre @ y # post \<and> (\<forall>z \<in> set pre. \<not> P z) \<and> P x \<and> f x = Inr y"
proof (induction xs arbitrary: ys)
  case (Cons z zs)
  show ?case
  proof (cases "P z")
    case True
    with Cons.prems obtain y where "f z = Inr y" "ys = y # zs" by (cases "f z") auto
    with True show ?thesis by (intro exI [of _ "[]"]) auto
  next
    case False
    with Cons.prems obtain ys' where ys': "changeFirst P f zs = Some (Inr ys')" "ys = z # ys'"
      by (cases "changeFirst P f zs"; cases "the (changeFirst P f zs)") auto
    from Cons.IH [OF ys'(1)] obtain pre x y post where "zs = pre @ x # post" "ys' = pre @ y # post"
      "\<forall>z \<in> set pre. \<not> P z" "P x" "f x = Inr y" by blast
    with False ys'(2) show ?thesis by (intro exI [of _ "z # pre"]) auto
  qed
qed simp

lemma changeFirst_keeps: "changeFirst P f xs = Some (Inr ys) \<Longrightarrow> x \<in> set xs \<Longrightarrow> \<not> P x \<Longrightarrow> x \<in> set ys"
  by (drule changeFirst_split) auto

lemma map_sum_Inl: "map_sum id f z = Inl e \<longleftrightarrow> z = Inl e"
  by (cases z) simp_all

lemma changeFirst_None: "changeFirst P f xs = None \<longleftrightarrow> (\<forall>x \<in> set xs. \<not> P x)"
  by (induction xs) auto

lemma oidcPatches_apart:
  "sorted_wrt (\<lambda>x y. apart (snd (snd y)) (snd (snd x))) (oidcPatches oidc)"
  "list_all (\<lambda>(msg, v, p). p \<noteq> []) (oidcPatches oidc)"
  by (simp_all add: oidcPatches_def apart_def)

lemma in_oidcPatches:
  "(''failed to set oidc-identities: '', oidcIdentities oidc, [''spec'', ''rules'', ''authentication'', ''oidc-identities''])
    \<in> set (oidcPatches oidc)"
  "(''failed to set oidc-client-bound: '', oidcClientBound oidc, [''spec'', ''rules'', ''authorization'', ''oidc-client-bound''])
    \<in> set (oidcPatches oidc)"
  "(''failed to set openshift-identities priority: '', GInt 2,
    [''spec'', ''rules'', ''authentication'', ''openshift-identities'', ''priority'']) \<in> set (oidcPatches oidc)"
  by (simp_all add: oidcPatches_def)

lemma patchAuthPolicyWithOIDC_meta:
  assumes "patchAuthPolicyWithOIDC api oidc r = Inr u"
  obtains b where "setFields api (oidcPatches oidc) (uo_body r) = Inr b" "u = r\<lparr>uo_body := b\<rparr>"
  using assms unfolding patchAuthPolicyWithOIDC_def by (auto elim!: andThen_InrE)

lemma patchAuthPolicyWithOIDC_sets:
  assumes "nested_set_documented api" "patchAuthPolicyWithOIDC api oidc r = Inr u" "(msg, v, p) \<in> set (oidcPatches oidc)"
  shows "nested_lookup (uo_body u) p = Some v"
  using assms(2) by (rule patchAuthPolicyWithOIDC_meta) (use setFields_lookup [OF assms(1) _ oidcPatches_apart assms(3)] in simp)

text \<open>The first maas-api AuthPolicy is marked as not managed by the operator.\<close>

lemma setManagedFalse_first:
  assumes "setManagedFalseAnnotation rs = pre @ r # post" "\<forall>z \<in> set pre. \<not> isMaaSAPIAuthPolicy z" "isMaaSAPIAuthPolicy r"
  shows "optedOut r"
proof -
  let ?f = "\<lambda>r. Inr (setAnnotations (AList.update ''opendatahub.io/managed'' ''false'' (om_annotations (uo_meta r))) r)
    :: cerror + Unstructured"
  have opt: "optedOut y" and kept: "isMaaSAPIAuthPolicy y = isMaaSAPIAuthPolicy x" if "?f x = Inr y" for x y
    using that by (auto simp: optedOut_def isMaaSAPIAuthPolicy_def uo_name_def setAnnotations_def strMapIndex_def update_conv')
  show ?thesis
  proof (cases "changeFirst isMaaSAPIAuthPolicy ?f rs")
    case None
    then have "setManagedFalseAnnotation rs = rs" by (simp add: setManagedFalseAnnotation_def)
    with None assms(1,3) show ?thesis by (auto simp: changeFirst_None)
  next
    case (Some x)
    show ?thesis
    proof (cases x)
      case (Inl e)
      have "changeFirst isMaaSAPIAuthPolicy ?f xs \<noteq> Some (Inl e)" for xs
        by (induction xs) (auto simp: map_sum_Inl)
      with Some Inl show ?thesis by simp
    next
      case (Inr ys)
      with Some have ys: "setManagedFalseAnnotation rs = ys" by (simp add: setManagedFalseAnnotation_def)
      from changeFirst_split [OF Some [unfolded Inr]] obtain pre' y' y post' where
        y: "ys = pre' @ y # post'" "\<forall>z \<in> set pre'. \<not> isMaaSAPIAuthPolicy z" "isMaaSAPIAuthPolicy y'" "?f y' = Inr y" by blast
      from kept [OF y(4)] y(3) have "isMaaSAPIAuthPolicy y" by simp
      with y(1,2) ys assms have "r = y" by (auto simp: append_eq_append_conv2 Cons_eq_append_conv append_eq_Cons_conv)
      with opt [OF y(4)] show ?thesis by simp
    qed
  qed
qed

lemma PostRender_steps:
  assumes "PostRender api t rs = Inr out"
  obtains filtered patched where "filterConfigure api (gr_namespace (tn_gateway t)) (gr_name (tn_gateway t)) rs = Inr filtered"
    "configureExternalOIDC api t (setManagedFalseAnnotation filtered) = Inr patched"
    "configureConfigHashAnnotation api (configureIstioTelemetryResources t (configureTelemetryPolicyResources t patched)) = Inr out"
  using assms unfolding PostRender_def by (auto elim!: andThen_InrE)

lemma telemetry_appends:
  "set rs \<subseteq> set (configureIstioTelemetryResources t (configureTelemetryPolicyResources t rs))"
  by (auto simp: configureIstioTelemetryResources_def configureTelemetryPolicyResources_def)

lemma configHash_keeps:
  assumes "configureConfigHashAnnotation api rs = Inr out" "u \<in> set rs" "\<not> isMaaSAPIDeployment u"
  shows "u \<in> set out"
proof (cases "find isParametersConfigMap rs")
  case None
  with assms show ?thesis by (simp add: configureConfigHashAnnotation_def)
next
  case (Some cm)
  with assms(1) obtain data where "(case changeFirst isMaaSAPIDeployment (annotateDeployment api (hashConfigMapData data)) rs of
      None \<Rightarrow> Inr rs | Some r \<Rightarrow> r) = Inr out"
    by (auto simp: configureConfigHashAnnotation_def elim!: andThen_InrE)
  with assms(2,3) show ?thesis by (auto dest: changeFirst_keeps split: option.splits)
qed

text \<open>C20: a tenant with an external identity provider never gets a platform without its rules. When the
  steps after rendering succeed, the result contains the AuthPolicy of maas-api, marked so that the
  operator leaves it alone; it accepts tokens of the configured issuer that look like a JWT, before the
  OpenShift identities, and lets through only those of the configured client.\<close>

theorem external_oidc_enforced:
  assumes "nested_set_documented api" "tsp_externalOIDC (tn_spec t) = Some oidc" "PostRender api t rs = Inr out"
  shows "\<exists>u \<in> set out. isMaaSAPIAuthPolicy u \<and> optedOut u \<and>
    (let rules = (\<lambda>path. nested_lookup (uo_body u) ([''spec'', ''rules''] @ path))
     in rules [''authentication'', ''oidc-identities'', ''jwt'', ''issuerUrl''] = Some (GStr (oi_issuerURL oidc)) \<and>
        rules [''authentication'', ''oidc-identities'', ''when''] = Some (whenPredicate jwtPredicate) \<and>
        rules [''authentication'', ''oidc-identities'', ''priority''] = Some (GInt 1) \<and>
        rules [''authentication'', ''openshift-identities'', ''priority''] = Some (GInt 2) \<and>
        rules [''authorization'', ''oidc-client-bound'', ''when''] = Some (whenPredicate jwtPredicate) \<and>
        rules [''authorization'', ''oidc-client-bound'', ''patternMatching'', ''patterns''] =
          Some (GSlice [GMap [(''selector'', GStr ''auth.identity.azp''), (''operator'', GStr ''eq''), (''value'', GStr (oi_clientID oidc))]]))"
proof -
  from PostRender_steps [OF assms(3)] obtain filtered patched where
    ps: "configureExternalOIDC api t (setManagedFalseAnnotation filtered) = Inr patched"
      "configureConfigHashAnnotation api (configureIstioTelemetryResources t (configureTelemetryPolicyResources t patched)) = Inr out" .
  from ps(1) assms(2) have "changeFirst isMaaSAPIAuthPolicy (patchAuthPolicyWithOIDC api oidc) (setManagedFalseAnnotation filtered) =
      Some (Inr patched)" by (simp add: configureExternalOIDC_def split: option.splits)
  from changeFirst_split [OF this] obtain pre r u post where
    r: "setManagedFalseAnnotation filtered = pre @ r # post" "patched = pre @ u # post"
      "\<forall>z \<in> set pre. \<not> isMaaSAPIAuthPolicy z" "isMaaSAPIAuthPolicy r" "patchAuthPolicyWithOIDC api oidc r = Inr u" by blast
  note sets = patchAuthPolicyWithOIDC_sets [OF assms(1) r(5)]
  have look: "nested_lookup (uo_body u) [''spec'', ''rules'', ''authentication'', ''oidc-identities''] = Some (oidcIdentities oidc)"
    "nested_lookup (uo_body u) [''spec'', ''rules'', ''authorization'', ''oidc-client-bound''] = Some (oidcClientBound oidc)"
    "nested_lookup (uo_body u) [''spec'', ''rules'', ''authentication'', ''openshift-identities'', ''priority''] = Some (GInt 2)"
    by (rule sets [OF in_oidcPatches(1)] sets [OF in_oidcPatches(2)] sets [OF in_oidcPatches(3)])+
  have meta: "uo_gvk u = uo_gvk r" "uo_meta u = uo_meta r"
    by (rule patchAuthPolicyWithOIDC_meta [OF r(5)], simp)+
  note deep = nested_lookup_append [OF look(1) [unfolded oidcIdentities_def Let_def]]
    nested_lookup_append [OF look(2) [unfolded oidcClientBound_def]]
  from setManagedFalse_first [OF r(1,3,4)] have "optedOut u" by (simp add: optedOut_def meta)
  moreover have pol: "isMaaSAPIAuthPolicy u" using r(4) by (simp add: isMaaSAPIAuthPolicy_def uo_name_def meta)
  moreover have "u \<in> set out"
  proof (rule configHash_keeps [OF ps(2)])
    show "u \<in> set (configureIstioTelemetryResources t (configureTelemetryPolicyResources t patched))"
      using telemetry_appends r(2) by fastforce
    show "\<not> isMaaSAPIDeployment u" using pol by (simp add: isMaaSAPIAuthPolicy_def isMaaSAPIDeployment_def GVKAuthPolicy_def GVKDeployment_def)
  qed
  ultimately show ?thesis
    using deep(1) [of "[''jwt'', ''issuerUrl'']"] deep(1) [of "[''when'']"] deep(1) [of "[''priority'']"]
      deep(2) [of "[''when'']"] deep(2) [of "[''patternMatching'', ''patterns'']"] look(3)
    by (intro bexI [of _ u]) simp_all
qed

text \<open>A converter that reads the data of a ConfigMap and the fields of a Deployment.\<close>

definition intAt :: "gomap \<Rightarrow> string list \<Rightarrow> int option" where
  "intAt m path = (case nested_lookup m path of Some (GInt n) \<Rightarrow> Some n | _ \<Rightarrow> None)"

definition statusInt :: "gomap \<Rightarrow> string \<Rightarrow> int" where
  "statusInt m f = (case intAt m [''status'', f] of Some n \<Rightarrow> n | None \<Rightarrow> 0)"

definition strings :: "gomap \<Rightarrow> (string \<times> string) list" where
  "strings m = List.map_filter (\<lambda>(k, v). map_option (Pair k) (as_string v)) m"

definition std_uns :: uns_api where
  "std_uns =
     \<lparr>un_setNestedField = (\<lambda>m v p. setNested v m p), un_nestedString = std_get [] as_string, un_nestedBool = std_get False as_bool,
      un_stringData = (\<lambda>u. Inr (case nested_lookup (uo_body u) [''data''] of Some (GMap m) \<Rightarrow> strings m | _ \<Rightarrow> [])),
      un_toDeployment = (\<lambda>u. Inr \<lparr>dp_meta = uo_meta u, dp_replicas = intAt (uo_body u) [''spec'', ''replicas''],
        dp_templateAnnotations = (case nested_lookup (uo_body u) [''spec'', ''template'', ''metadata'', ''annotations''] of
          Some (GMap m) \<Rightarrow> strings m | _ \<Rightarrow> []),
        dp_observedGeneration = statusInt (uo_body u) ''observedGeneration'', dp_updatedReplicas = statusInt (uo_body u) ''updatedReplicas'',
        dp_availableReplicas = statusInt (uo_body u) ''availableReplicas'', dp_other = uo_body u\<rparr>),
      un_fromDeployment = (\<lambda>d. andThen [] (setNested (GMap (map (\<lambda>(k, v). (k, GStr v)) (dp_templateAnnotations d))) (dp_other d)
          [''spec'', ''template'', ''metadata'', ''annotations''])
        (\<lambda>b. Inr (newObject GVKDeployment (dp_meta d) b)))\<rparr>"

lemma std_uns_documented: "nested_set_documented std_uns"
  using setNested_correct by (auto simp: nested_set_documented_def std_uns_def)

definition sampleOIDC :: TenantExternalOIDCConfig where
  "sampleOIDC = \<lparr>oi_issuerURL = ''https://idp'', oi_clientID = ''maas'', oi_ttl = 0\<rparr>"

definition sampleTenant :: Tenant where
  "sampleTenant =
     \<lparr>tn_meta = newMeta TenantInstanceName ''models-as-a-service'' [] [], tn_uid = ''u1'',
      tn_spec = \<lparr>tsp_gatewayRef = \<lparr>gr_namespace = ''openshift-ingress'', gr_name = ''gw''\<rparr>, tsp_apiKeys = Some (Some 30),
        tsp_externalOIDC = Some sampleOIDC, tsp_telemetry = Some \<lparr>tl_enabled = Some True, tl_metrics = None\<rparr>\<rparr>,
      tn_status = \<lparr>tst_phase = [], tst_conditions = []\<rparr>\<rparr>"

definition sampleRender :: "Unstructured list" where
  "sampleRender =
     [newObject GVKAuthPolicy (newMeta MaaSAPIAuthPolicyName ''opendatahub'' [] []) [(''spec'', GMap [])],
      newObject GVKDeployment (newMeta MaaSAPIDeploymentName ''opendatahub'' [] []) [(''spec'', GMap [])]]"

theorem external_oidc_enforced_witness:
  "\<exists>out. PostRender std_uns sampleTenant sampleRender = Inr out \<and>
     (\<exists>u \<in> set out. isMaaSAPIAuthPolicy u \<and>
        nested_lookup (uo_body u) [''spec'', ''rules'', ''authentication'', ''oidc-identities'', ''jwt'', ''issuerUrl''] = Some (GStr ''https://idp''))"
proof -
  have "case PostRender std_uns sampleTenant sampleRender of Inl _ \<Rightarrow> False | Inr out \<Rightarrow> True" by code_simp
  then obtain out where out: "PostRender std_uns sampleTenant sampleRender = Inr out" by (auto split: sum.splits)
  have "tsp_externalOIDC (tn_spec sampleTenant) = Some sampleOIDC" by (simp add: sampleTenant_def)
  from external_oidc_enforced [OF std_uns_documented this out] out show ?thesis
    by (auto simp: Let_def sampleOIDC_def)
qed

end
