(* ===== verification/Tenant_Params.thy ===== *)
theory Tenant_Params
  imports Tenant_Render
begin

text \<open>
  \<open>maas-controller/pkg/platform/tenantreconcile\<close>: the parameters of the overlay, \<open>params.env\<close>
  (\<open>parseParams\<close>, \<open>writeParamsToTmp\<close>, \<open>updateMap\<close> and \<open>ApplyParams\<close> of \<open>apply.go\<close>, \<open>CustomizeParams\<close> of
  \<open>postrender.go\<close>), and the kustomize build with the transformation of its result (\<open>kustomize.go\<close>).
  Files and environment variables are reached through the record \<open>files_api\<close>, with the laws of the locale
  \<open>param_files\<close>; the order in which Go runs through a map is part of it. The kustomize library is the
  record \<open>kustomize_api\<close>.
\<close>

section \<open>Lines and parameters\<close>

text \<open>\<open>bufio.Scanner\<close> with the default split: lines end at a newline, one carriage return before it is
  dropped, and a line that fills the buffer of 65536 bytes is an error.\<close>

fun rawLines :: "string \<Rightarrow> string \<Rightarrow> string list" where
  "rawLines cur [] = (if cur = [] then [] else [rev cur])"
| "rawLines cur (ch # cs) = (if ch = CHR 0x0A then rev cur # rawLines [] cs else rawLines (ch # cur) cs)"

definition dropCR :: "string \<Rightarrow> string" where
  "dropCR s = (if s \<noteq> [] \<and> last s = CHR 0x0D then butlast s else s)"

definition scanLines :: "string \<Rightarrow> cerror + string list" where
  "scanLines content =
     (if list_ex (\<lambda>l. 65536 \<le> length l) (rawLines [] content) then Inl (ErrText ''bufio.Scanner: token too long'')
      else Inr (map dropCR (rawLines [] content)))"

text \<open>The bound as an \<open>int\<close>, for evaluation.\<close>

lemma scanLines_code [code]:
  "scanLines content =
     (if list_ex (\<lambda>l. 65536 \<le> int (length l)) (rawLines [] content) then Inl (ErrText ''bufio.Scanner: token too long'')
      else Inr (map dropCR (rawLines [] content)))"
  by (simp add: scanLines_def list_ex_iff)

text \<open>\<open>strings.Cut(line, "=")\<close>.\<close>

definition cutEq :: "string \<Rightarrow> (string \<times> string) option" where
  "cutEq s =
     (case dropWhile (\<lambda>ch. ch \<noteq> CHR ''='') s of
        [] \<Rightarrow> None
      | _ # value \<Rightarrow> Some (takeWhile (\<lambda>ch. ch \<noteq> CHR ''='') s, value))"

definition readParams :: "string list \<Rightarrow> (string \<times> string) list" where
  "readParams ls = foldl (\<lambda>m l. case cutEq l of None \<Rightarrow> m | Some (k, v) \<Rightarrow> AList.update k v m) [] ls"

section \<open>Files\<close>

text \<open>\<open>fs_open\<close> returns \<open>None\<close> for an error with \<open>os.IsNotExist\<close>. Text written to a file goes through a
  buffer, which \<open>fs_flush\<close> writes out.\<close>

record 'c files_api =
  fs_abs :: "string \<Rightarrow> cerror + string"
  fs_exists :: "string \<Rightarrow> 'c \<Rightarrow> bool"
  fs_open :: "string \<Rightarrow> ('c, string option) call"
  fs_createTemp :: "string \<Rightarrow> string \<Rightarrow> ('c, string) call"
  fs_fprintf :: "string \<Rightarrow> string \<Rightarrow> ('c, unit) call"
  fs_flush :: "string \<Rightarrow> ('c, unit) call"
  fs_rename :: "string \<Rightarrow> string \<Rightarrow> ('c, unit) call"
  fs_remove :: "string \<Rightarrow> ('c, unit) call"
  fs_getenv :: "string \<Rightarrow> string"
  fs_range :: "(string \<times> string) list \<Rightarrow> (string \<times> string) list"

definition parseParams :: "'c files_api \<Rightarrow> string \<Rightarrow> ('c, (string \<times> string) list option) call" where
  "parseParams fs fileName =
     bnd (fs_open fs fileName)
       (\<lambda>f. case f of
          None \<Rightarrow> ret None
        | Some content \<Rightarrow> (case scanLines content of Inl err \<Rightarrow> fail err | Inr ls \<Rightarrow> ret (Some (readParams ls))))"

definition writeParamsToTmp :: "'c files_api \<Rightarrow> (string \<times> string) list \<Rightarrow> string \<Rightarrow> ('c, string) call" where
  "writeParamsToTmp fs params tmpDir =
     bnd (fs_createTemp fs tmpDir ''params.env-'')
       (\<lambda>tmp. bnd (forE (\<lambda>kv. fs_fprintf fs tmp (paramLine kv)) (fs_range fs params))
         (\<lambda>_. bnd (wrapErr ''failed to write to file: '' (fs_flush fs tmp)) (\<lambda>_. ret tmp)))"

definition updateMap :: "(string \<times> string) list \<Rightarrow> string \<Rightarrow> string \<Rightarrow> (string \<times> string) list \<times> bool" where
  "updateMap m key val = (if strMapIndex m key = val then (m, False) else (AList.update key val m, True))"

definition updateAll :: "(string \<times> string) list \<Rightarrow> (string \<times> string) list \<times> bool \<Rightarrow> (string \<times> string) list \<times> bool" where
  "updateAll kvs = fold (\<lambda>(k, v) (m, updated). case updateMap m k v of (m', u) \<Rightarrow> (m', updated \<or> u)) kvs"

text \<open>The images: a key of the file whose image variable is set takes its value.\<close>

definition imageValues :: "'c files_api \<Rightarrow> (string \<times> string) list \<Rightarrow> (string \<times> string) list \<Rightarrow> (string \<times> string) list" where
  "imageValues fs imageParamsMap m =
     filter (\<lambda>(k, v). v \<noteq> [])
       (map (\<lambda>(i, _). (i, let env = strMapIndex imageParamsMap i in if env = [] then [] else fs_getenv fs env)) (fs_range fs m))"

text \<open>\<open>filepath.Join\<close> of a clean directory and a file name.\<close>

definition joinPath :: "string \<Rightarrow> string \<Rightarrow> string" where
  "joinPath dir file = (if dir = ''/'' then dir @ file else dir @ ''/'' @ file)"

definition ApplyParams ::
  "'c files_api \<Rightarrow> string \<Rightarrow> string \<Rightarrow> (string \<times> string) list \<Rightarrow> (string \<times> string) list \<Rightarrow> ('c, unit) call" where
  "ApplyParams fs componentPath file imageParamsMap extraParams =
     (let paramsFile = joinPath componentPath file
      in bnd (parseParams fs paramsFile)
           (\<lambda>parsed. case parsed of
              None \<Rightarrow> ret ()
            | Some paramsEnvMap \<Rightarrow>
                (case updateAll (fs_range fs extraParams)
                        (updateAll (imageValues fs imageParamsMap paramsEnvMap) (paramsEnvMap, False)) of
                   (m, updated) \<Rightarrow>
                     if \<not> updated then ret ()
                     else
                       bnd (writeParamsToTmp fs m componentPath)
                         (\<lambda>tmp. attempt (fs_rename fs tmp paramsFile)
                           (\<lambda>r. case r of
                              Inr _ \<Rightarrow> ret ()
                            | Inl err \<Rightarrow>
                                attempt (fs_remove fs tmp)
                                  (\<lambda>_. fail (Wrap (''failed rename '' @ tmp @ '' to '' @ paramsFile @ '': '') err [])))))))"

definition customParams :: "Tenant \<Rightarrow> string \<Rightarrow> string \<Rightarrow> (string \<times> string) list" where
  "customParams tenant appNamespace clusterAudience =
     [(''gateway-namespace'', gr_namespace (tn_gateway tenant)),
      (''gateway-name'', gr_name (tn_gateway tenant)),
      (''app-namespace'', appNamespace)] @
     (case tsp_apiKeys (tn_spec tenant) of
        Some (Some days) \<Rightarrow> [(''api-key-max-expiration-days'', showInt days)]
      | _ \<Rightarrow> []) @
     (if clusterAudience \<noteq> [] then [(''cluster-audience'', clusterAudience)] else [])"

definition CustomizeParams :: "'c files_api \<Rightarrow> string \<Rightarrow> Tenant \<Rightarrow> string \<Rightarrow> string \<Rightarrow> ('c, unit) call" where
  "CustomizeParams fs manifestDir tenant appNamespace clusterAudience =
     ApplyParams fs manifestDir ''params.env'' ImageParamKeys (customParams tenant appNamespace clusterAudience)"

section \<open>kustomize.go\<close>

text \<open>Values as the YAML decoder of kustomize returns them: an integer is an \<open>int\<close>.\<close>

datatype yany =
    YNil
  | YBool bool
  | YInt int
  | YInt64 int
  | YFloat rat
  | YStr string
  | YSlice "yany list"
  | YMap "(string \<times> yany) list"

fun normalizeValue :: "yany \<Rightarrow> yany" where
  "normalizeValue (YInt i) = YInt64 (int64 i)"
| "normalizeValue (YMap m) = YMap (map (\<lambda>(k, v). (k, normalizeValue v)) m)"
| "normalizeValue (YSlice xs) = YSlice (map normalizeValue xs)"
| "normalizeValue v = v"

definition normalizeJSONTypes :: "(string \<times> yany) list \<Rightarrow> (string \<times> yany) list" where
  "normalizeJSONTypes obj = map (\<lambda>(k, v). (k, normalizeValue v)) obj"

text \<open>No value of Go type \<open>int\<close> is left.\<close>

fun jsonTyped :: "yany \<Rightarrow> bool" where
  "jsonTyped (YInt i) = False"
| "jsonTyped (YMap m) = list_all (\<lambda>(k, v). jsonTyped v) m"
| "jsonTyped (YSlice xs) = list_all jsonTyped xs"
| "jsonTyped v = True"

text \<open>The kustomize library, over its resources \<open>'r\<close> and YAML documents \<open>'b\<close>.\<close>

record ('c, 'r, 'b) kustomize_api =
  kz_run :: "string \<Rightarrow> ('c, 'r list) call"
  kz_getKind :: "'r \<Rightarrow> string"
  kz_getName :: "'r \<Rightarrow> string"
  kz_getNamespace :: "'r \<Rightarrow> string"
  kz_setNamespace :: "'r \<Rightarrow> string \<Rightarrow> cerror + 'r"
  kz_getLabels :: "'r \<Rightarrow> (string \<times> string) list"
  kz_setLabels :: "'r \<Rightarrow> (string \<times> string) list \<Rightarrow> cerror + 'r"
  kz_map :: "'r \<Rightarrow> cerror + (string \<times> yany) list"
  kz_marshal :: "(string \<times> yany) list \<Rightarrow> cerror + 'b"
  kz_reparse :: "'r \<Rightarrow> 'b \<Rightarrow> cerror + 'r"
  kz_unstructured :: "(string \<times> yany) list \<Rightarrow> Unstructured"

definition overlayDefaultNamespace :: string where "overlayDefaultNamespace = ''opendatahub''"

definition remapSubject :: "string \<Rightarrow> yany \<Rightarrow> yany \<times> bool" where
  "remapSubject appNamespace s =
     (case s of
        YMap subj \<Rightarrow>
          if map_of subj ''namespace'' = Some (YStr overlayDefaultNamespace)
          then (YMap (AList.update ''namespace'' (YStr appNamespace) subj), True) else (s, False)
      | _ \<Rightarrow> (s, False))"

definition remapSubjectNamespaces :: "('c, 'r, 'b) kustomize_api \<Rightarrow> 'r \<Rightarrow> string \<Rightarrow> cerror + 'r" where
  "remapSubjectNamespaces kz res appNamespace =
     (let kind = kz_getKind kz res
      in if kind \<noteq> ''ClusterRoleBinding'' \<and> kind \<noteq> ''RoleBinding'' then Inr res
         else
           andThen ''map: '' (kz_map kz res)
             (\<lambda>m. case map_of m ''subjects'' of
                Some (YSlice subjects) \<Rightarrow>
                  let rs = map (remapSubject appNamespace) subjects
                  in if \<not> list_ex snd rs then Inr res
                     else
                       andThen ''marshal: '' (kz_marshal kz (AList.update ''subjects'' (YSlice (map fst rs)) m))
                         (\<lambda>b. andThen ''parse: '' (kz_reparse kz res b) Inr)
              | _ \<Rightarrow> Inr res))"

definition componentLabels :: "(string \<times> string) list" where
  "componentLabels = [(LabelODHAppPrefix @ ''/'' @ ComponentName, ''true''), (LabelK8sPartOf, ''models-as-a-service'')]"

definition describe :: "('c, 'r, 'b) kustomize_api \<Rightarrow> 'r \<Rightarrow> string" where
  "describe kz res = kz_getKind kz res @ '' '' @ kz_getName kz res @ '': ''"

definition transformResource :: "('c, 'r, 'b) kustomize_api \<Rightarrow> string \<Rightarrow> 'r \<Rightarrow> cerror + 'r" where
  "transformResource kz appNamespace res =
     andThen []
       (if appNamespace \<noteq> [] then
          andThen (''set namespace on '' @ describe kz res)
            (if kz_getNamespace kz res = overlayDefaultNamespace then kz_setNamespace kz res appNamespace else Inr res)
            (\<lambda>r. andThen (''remap subjects on '' @ describe kz r) (remapSubjectNamespaces kz r appNamespace) Inr)
        else Inr res)
       (\<lambda>r. let labels = foldl (\<lambda>m (k, v). AList.update k v m) (kz_getLabels kz r) componentLabels
            in andThen (''set labels on '' @ describe kz r) (kz_setLabels kz r labels) Inr)"

fun mapSum :: "string \<Rightarrow> ('a \<Rightarrow> cerror + 'b) \<Rightarrow> 'a list \<Rightarrow> cerror + 'b list" where
  "mapSum p f [] = Inr []"
| "mapSum p f (x # xs) = andThen p (f x) (\<lambda>y. andThen [] (mapSum p f xs) (\<lambda>ys. Inr (y # ys)))"

definition postBuildTransform :: "('c, 'r, 'b) kustomize_api \<Rightarrow> string \<Rightarrow> 'r list \<Rightarrow> cerror + 'r list" where
  "postBuildTransform kz appNamespace resMap = mapSum [] (transformResource kz appNamespace) resMap"

definition lift :: "cerror + 'a \<Rightarrow> ('c, 'a) call" where
  "lift r = (case r of Inl e \<Rightarrow> fail e | Inr x \<Rightarrow> ret x)"

definition RenderKustomize ::
  "'c files_api \<Rightarrow> ('c, 'r, 'b) kustomize_api \<Rightarrow> string \<Rightarrow> string \<Rightarrow> ('c, Unstructured list) call" where
  "RenderKustomize fs kz manifestDir appNamespace c =
     (let kustomizationPath =
            (if fs_exists fs (joinPath manifestDir ''kustomization.yaml'') c then manifestDir
             else joinPath manifestDir ''default'')
      in bnd (wrapErr (''kustomize build '' @ goQuote kustomizationPath @ '': '') (kz_run kz kustomizationPath))
           (\<lambda>resMap. bnd (wrapErr ''post-build transform: '' (lift (postBuildTransform kz appNamespace resMap)))
             (\<lambda>rendered. lift (mapSum ''resource map: ''
                (\<lambda>r. andThen [] (kz_map kz r) (\<lambda>m. Inr (kz_unstructured kz (normalizeJSONTypes m)))) rendered))) c)"

definition DefaultManifestPath :: "'c files_api \<Rightarrow> string" where
  "DefaultManifestPath fs =
     (let v = fs_getenv fs ''MAAS_PLATFORM_MANIFESTS'' in if v \<noteq> [] then v else ''../maas-api/deploy/overlays/odh'')"

definition EnsureTenantGatewayDefaults :: "Tenant \<Rightarrow> Tenant" where
  "EnsureTenantGatewayDefaults t =
     (if gr_namespace (tn_gateway t) = [] \<and> gr_name (tn_gateway t) = []
      then t\<lparr>tn_spec := (tn_spec t)\<lparr>tsp_gatewayRef := \<lparr>gr_namespace = DefaultGatewayNamespace, gr_name = DefaultGatewayName\<rparr>\<rparr>\<rparr>
      else t)"

section \<open>Printing and parsing parameters\<close>

text \<open>Text without line breaks, and parameters that survive being printed.\<close>

definition oneLine :: "string \<Rightarrow> bool" where
  "oneLine s \<longleftrightarrow> CHR 0x0A \<notin> set s \<and> CHR 0x0D \<notin> set s"

definition printable :: "string \<times> string \<Rightarrow> bool" where
  "printable kv \<longleftrightarrow> CHR ''='' \<notin> set (fst kv) \<and> CHR 0x0A \<notin> set (fst kv) \<and> CHR 0x0A \<notin> set (snd kv)"

abbreviation printParams :: "(string \<times> string) list \<Rightarrow> string" where
  "printParams kvs \<equiv> concat (map paramLine kvs)"

lemma rawLines_line: "CHR 0x0A \<notin> set l \<Longrightarrow> rawLines cur (l @ CHR 0x0A # rest) = (rev cur @ l) # rawLines [] rest"
  by (induction l arbitrary: cur) auto

lemma rawLines_print: "list_all printable kvs \<Longrightarrow> rawLines [] (printParams kvs) = map (\<lambda>kv. fst kv @ ''='' @ snd kv) kvs"
proof (induction kvs)
  case (Cons kv kvs)
  then have "CHR 0x0A \<notin> set (fst kv @ ''='' @ snd kv)" by (auto simp: printable_def)
  from rawLines_line [OF this, of "[]" "printParams kvs"]
  have "rawLines [] (printParams (kv # kvs)) = (fst kv @ ''='' @ snd kv) # rawLines [] (printParams kvs)"
    by (simp add: paramLine_def)
  with Cons show ?case by simp
qed simp

lemma cutEq_pair: "CHR ''='' \<notin> set k \<Longrightarrow> cutEq (k @ CHR ''='' # v) = Some (k, v)"
  by (induction k) (auto simp: cutEq_def split: list.splits)

lemma cut_print: "list_all printable kvs \<Longrightarrow> map cutEq (rawLines [] (printParams kvs)) = map Some kvs"
  by (simp add: rawLines_print) (induction kvs; simp add: printable_def cutEq_pair)

lemma foldl_update:
  "map_of (foldl (\<lambda>m l. case cutEq l of None \<Rightarrow> m | Some (k, v) \<Rightarrow> AList.update k v m) m0 ls) =
     map_of m0 ++ map_of (rev (List.map_filter cutEq ls))"
  by (induction ls arbitrary: m0) (auto simp: map_filter_simps update_conv' fun_eq_iff map_add_def split: option.splits)

lemma distinct_foldl_put:
  "distinct (map fst m0) \<Longrightarrow>
     distinct (map fst (foldl (\<lambda>m l. case cutEq l of None \<Rightarrow> m | Some (k, v) \<Rightarrow> AList.update k v m) m0 ls))"
  by (induction ls arbitrary: m0) (auto simp: distinct_update split: option.splits)

lemma map_of_readParams: "map_of (readParams ls) = map_of (rev (List.map_filter cutEq ls))"
  by (simp add: readParams_def foldl_update)

lemma distinct_readParams: "distinct (map fst (readParams ls))"
  unfolding readParams_def by (rule distinct_foldl_put) simp

lemma map_of_perm: "distinct (map fst xs) \<Longrightarrow> mset ys = mset xs \<Longrightarrow> map_of ys = map_of xs"
  by (metis map_of_inject_set mset_eq_setD mset_eq_imp_distinct_iff mset_map)

lemma map_filter_cut: "map cutEq ls = map Some kvs \<Longrightarrow> List.map_filter cutEq ls = kvs"
  by (induction ls arbitrary: kvs) (auto simp: map_filter_simps)

text \<open>Reading what was printed.\<close>

lemma dropCR_oneLine: "oneLine s \<Longrightarrow> dropCR s = s"
  by (auto simp: dropCR_def oneLine_def dest: last_in_set)

lemma parse_print:
  assumes "distinct (map fst kvs)" "list_all (\<lambda>kv. printable kv \<and> oneLine (snd kv) \<and> length (fst kv) + length (snd kv) < 65535) kvs"
  shows "\<exists>ls. scanLines (printParams kvs) = Inr ls \<and> map_of (readParams ls) = map_of kvs"
proof -
  have p: "list_all printable kvs" using assms(2) by (simp add: list_all_iff)
  have raw: "rawLines [] (printParams kvs) = map (\<lambda>kv. fst kv @ ''='' @ snd kv) kvs" by (rule rawLines_print [OF p])
  have "map dropCR (rawLines [] (printParams kvs)) = rawLines [] (printParams kvs)"
  proof -
    have "dropCR (k @ ''='' @ v) = k @ ''='' @ v" if "oneLine v" for k v
      using that by (cases v rule: rev_cases) (auto simp: dropCR_def oneLine_def)
    with assms(2) show ?thesis unfolding raw by (auto simp: list_all_iff)
  qed
  moreover have "\<not> list_ex (\<lambda>l. 65536 \<le> length l) (rawLines [] (printParams kvs))"
    unfolding raw using assms(2) by (fastforce simp: list_ex_iff list_all_iff)
  ultimately have "scanLines (printParams kvs) = Inr (rawLines [] (printParams kvs))" by (simp add: scanLines_def)
  moreover have "map_of (readParams (rawLines [] (printParams kvs))) = map_of kvs"
    unfolding map_of_readParams map_filter_cut [OF cut_print [OF p]] by (rule map_of_perm [OF assms(1)]) simp
  ultimately show ?thesis by blast
qed

section \<open>The hash of the parameters\<close>

definition sortedPairs :: "(string \<times> string) list \<Rightarrow> (string \<times> string) list" where
  "sortedPairs data = map (\<lambda>k. (k, strMapIndex data k)) (sort (map fst data))"

lemma hashInput_print: "hashInput data = printParams (sortedPairs data)"
  by (simp add: hashInput_def sortedPairs_def comp_def)

lemma map_of_sortedPairs: "map_of (sortedPairs data) = map_of data"
proof
  fix k
  have "map_of (map (\<lambda>k. (k, f k)) ks) k = (if k \<in> set ks then Some (f k) else None)" for f :: "string \<Rightarrow> string" and ks
    by (induction ks) auto
  moreover have "k \<in> fst ` set data \<longleftrightarrow> map_of data k \<noteq> None" by (metis map_of_eq_None_iff)
  ultimately show "map_of (sortedPairs data) k = map_of data k"
    by (cases "map_of data k") (simp_all add: sortedPairs_def strMapIndex_def)
qed

lemma printable_sortedPairs: "distinct (map fst data) \<Longrightarrow> list_all printable data \<Longrightarrow> list_all printable (sortedPairs data)"
  by (auto simp: sortedPairs_def list_all_iff strMapIndex_def)

text \<open>C21: the hash that makes the deployment roll out follows the configuration exactly: it does not
  depend on the order in which the map is run through, and (for keys without \<open>=\<close> and line breaks and values
  without line breaks, the only ones \<open>params.env\<close> can hold) different configurations are hashed from
  different texts.\<close>

theorem config_hash_exact:
  assumes "distinct (map fst a)" "distinct (map fst b)"
  shows "(map_of a = map_of b \<longrightarrow> hashConfigMapData a = hashConfigMapData b) \<and>
    (list_all printable a \<and> list_all printable b \<and> hashInput a = hashInput b \<longrightarrow> map_of a = map_of b)"
proof (intro conjI impI)
  assume m: "map_of a = map_of b"
  then have "set a = set b" by (simp add: map_of_inject_set [OF assms])
  then have "sort (map fst a) = sort (map fst b)" by (intro sorted_distinct_set_unique) (simp_all add: assms)
  with m show "hashConfigMapData a = hashConfigMapData b"
    by (simp add: hashConfigMapData_def hashInput_def strMapIndex_def)
next
  assume p: "list_all printable a \<and> list_all printable b \<and> hashInput a = hashInput b"
  have cut: "map cutEq (rawLines [] (hashInput d)) = map Some (sortedPairs d)" if "distinct (map fst d)" "list_all printable d" for d
    unfolding hashInput_print by (rule cut_print [OF printable_sortedPairs [OF that]])
  from p have "map Some (sortedPairs a) = map Some (sortedPairs b)" using cut [OF assms(1)] cut [OF assms(2)] by metis
  then have "sortedPairs a = sortedPairs b" by (simp add: inj_map_eq_map)
  then show "map_of a = map_of b" using map_of_sortedPairs [of a] map_of_sortedPairs [of b] by simp
qed

theorem config_hash_exact_witness:
  "hashConfigMapData [(''gateway-name'', ''gw''), (''app-namespace'', ''ns'')] = hashConfigMapData [(''app-namespace'', ''ns''), (''gateway-name'', ''gw'')] \<and>
   hashInput [(''app-namespace'', ''ns'')] \<noteq> hashInput [(''app-namespace'', ''other'')]"
proof -
  have "map_of [(''gateway-name'', ''gw''), (''app-namespace'', ''ns'')] = map_of [(''app-namespace'', ''ns''), (''gateway-name'', ''gw'')]"
    by (auto simp: fun_eq_iff)
  moreover have "map_of [(''app-namespace'', ''ns'')] \<noteq> map_of [(''app-namespace'', ''other'')]" by (auto simp: fun_eq_iff)
  moreover have "list_all printable [(''app-namespace'', ''ns'')]" "list_all printable [(''app-namespace'', ''other'')]" by code_simp+
  ultimately show ?thesis
    using config_hash_exact [of "[(''gateway-name'', ''gw''), (''app-namespace'', ''ns'')]" "[(''app-namespace'', ''ns''), (''gateway-name'', ''gw'')]"]
      config_hash_exact [of "[(''app-namespace'', ''ns'')]" "[(''app-namespace'', ''other'')]"]
    by simp
qed

section \<open>Updating the parameters\<close>

lemma set_update: "set (AList.update k v m) \<subseteq> insert (k, v) (set m)"
  by (induction m) auto

lemma updateMap_facts:
  "strMapIndex (fst (updateMap m k v)) j = (if j = k then v else strMapIndex m j)"
  "\<not> snd (updateMap m k v) \<Longrightarrow> fst (updateMap m k v) = m"
  "distinct (map fst m) \<Longrightarrow> distinct (map fst (fst (updateMap m k v)))"
  "set (fst (updateMap m k v)) \<subseteq> insert (k, v) (set m)"
  using set_update [of k v m] by (auto simp: updateMap_def strMapIndex_def update_conv' distinct_update)

lemma updateAll_Cons:
  "updateAll (kv # kvs) (m, u) =
     updateAll kvs (fst (updateMap m (fst kv) (snd kv)), u \<or> snd (updateMap m (fst kv) (snd kv)))"
  by (simp add: updateAll_def split: prod.split)

lemma updateAll_index:
  "distinct (map fst kvs) \<Longrightarrow>
   strMapIndex (fst (updateAll kvs (m, u))) j = (case map_of kvs j of None \<Rightarrow> strMapIndex m j | Some v \<Rightarrow> v)"
proof (induction kvs arbitrary: m u)
  case (Cons kv kvs)
  then have "map_of kvs (fst kv) = None" by (simp add: map_of_eq_None_iff)
  with Cons show ?case by (simp add: updateAll_Cons updateMap_facts split: option.splits)
qed (simp add: updateAll_def)

lemma updateAll_unchanged: "\<not> snd (updateAll kvs (m, u)) \<Longrightarrow> fst (updateAll kvs (m, u)) = m \<and> \<not> u"
proof (induction kvs arbitrary: m u)
  case (Cons kv kvs)
  let ?r = "updateMap m (fst kv) (snd kv)"
  from Cons.IH [of "fst ?r" "u \<or> snd ?r"] Cons.prems updateMap_facts(2) [of m "fst kv" "snd kv"] show ?case
    unfolding updateAll_Cons by metis
qed (simp add: updateAll_def)

lemma updateAll_distinct: "distinct (map fst m) \<Longrightarrow> distinct (map fst (fst (updateAll kvs (m, u))))"
  by (induction kvs arbitrary: m u) (simp_all add: updateAll_Cons updateMap_facts, simp add: updateAll_def)

lemma updateAll_set: "set (fst (updateAll kvs (m, u))) \<subseteq> set m \<union> set kvs"
proof (induction kvs arbitrary: m u)
  case (Cons kv kvs)
  let ?r = "updateMap m (fst kv) (snd kv)"
  from Cons [of "fst ?r" "u \<or> snd ?r"] updateMap_facts(4) [of m "fst kv" "snd kv"] show ?case
    unfolding updateAll_Cons by auto
qed (simp add: updateAll_def)

text \<open>The value a parameter is meant to have: the settings of the tenant, else the image from the
  environment for a parameter of the file, else what the file says.\<close>

definition intendedParam :: "(string \<Rightarrow> string) \<Rightarrow> Tenant \<Rightarrow> string \<Rightarrow> string \<Rightarrow> (string \<times> string) list \<Rightarrow> string \<Rightarrow> string" where
  "intendedParam getenv t appNs audience old k =
     (if k = ''gateway-namespace'' then gr_namespace (tn_gateway t)
      else if k = ''gateway-name'' then gr_name (tn_gateway t)
      else if k = ''app-namespace'' then appNs
      else if k = ''cluster-audience'' \<and> audience \<noteq> [] then audience
      else if k = ''api-key-max-expiration-days'' \<and> Option.bind (tsp_apiKeys (tn_spec t)) id \<noteq> None
        then showInt (the (Option.bind (tsp_apiKeys (tn_spec t)) id))
      else
        let image = strMapIndex ImageParamKeys k
        in if k \<in> fst ` set old \<and> image \<noteq> [] \<and> getenv image \<noteq> [] then getenv image else strMapIndex old k)"

locale param_files =
  fixes fs :: "'c files_api" and files :: "'c \<Rightarrow> string \<Rightarrow> string option"
    and buffered :: "'c \<Rightarrow> string \<Rightarrow> string" and calm :: "'c \<Rightarrow> bool"
  assumes opens: "calm c \<Longrightarrow> \<exists>c'. fs_open fs p c = (c', Inr (files c p)) \<and> calm c' \<and> files c' = files c"
    and createTemp: "calm c \<Longrightarrow> \<exists>c' tmp. fs_createTemp fs d pat c = (c', Inr tmp) \<and> calm c' \<and> files c tmp = None \<and>
      files c' = (files c)(tmp \<mapsto> []) \<and> buffered c' tmp = []"
    and fprintf: "calm c \<Longrightarrow> files c tmp \<noteq> None \<Longrightarrow> \<exists>c'. fs_fprintf fs tmp s c = (c', Inr ()) \<and> calm c' \<and> files c' tmp \<noteq> None \<and>
      buffered c' tmp = buffered c tmp @ s \<and> (\<forall>p. p \<noteq> tmp \<longrightarrow> files c' p = files c p)"
    and flush: "calm c \<Longrightarrow> files c tmp \<noteq> None \<Longrightarrow> \<exists>c'. fs_flush fs tmp c = (c', Inr ()) \<and> calm c' \<and>
      files c' = (files c)(tmp \<mapsto> buffered c tmp)"
    and rename: "calm c \<Longrightarrow> files c a = Some x \<Longrightarrow> a \<noteq> b \<Longrightarrow> \<exists>c'. fs_rename fs a b c = (c', Inr ()) \<and> calm c' \<and>
      files c' = (files c)(a := None, b \<mapsto> x)"
    and range: "mset (fs_range fs m) = mset m"
begin

lemma print_lines:
  "calm c \<Longrightarrow> files c tmp \<noteq> None \<Longrightarrow>
   \<exists>c'. forE (\<lambda>kv. fs_fprintf fs tmp (paramLine kv)) kvs c = (c', Inr ()) \<and> calm c' \<and> files c' tmp \<noteq> None \<and>
     buffered c' tmp = buffered c tmp @ printParams kvs \<and> (\<forall>p. p \<noteq> tmp \<longrightarrow> files c' p = files c p)"
proof (induction kvs arbitrary: c)
  case (Cons kv kvs)
  from fprintf [OF Cons.prems, of "paramLine kv"] obtain c1 where c1: "fs_fprintf fs tmp (paramLine kv) c = (c1, Inr ())"
    "calm c1" "files c1 tmp \<noteq> None" "buffered c1 tmp = buffered c tmp @ paramLine kv" "\<forall>p. p \<noteq> tmp \<longrightarrow> files c1 p = files c p" by blast
  from Cons.IH [OF c1(2,3)] obtain c2 where "forE (\<lambda>kv. fs_fprintf fs tmp (paramLine kv)) kvs c1 = (c2, Inr ())" "calm c2"
    "files c2 tmp \<noteq> None" "buffered c2 tmp = buffered c1 tmp @ printParams kvs" "\<forall>p. p \<noteq> tmp \<longrightarrow> files c2 p = files c1 p" by blast
  with c1 show ?case by (intro exI [of _ c2]) (simp add: run_bnd)
qed simp

lemma write_tmp:
  assumes "calm c"
  shows "\<exists>c' tmp. writeParamsToTmp fs params d c = (c', Inr tmp) \<and> calm c' \<and> files c tmp = None \<and>
    files c' = (files c)(tmp \<mapsto> printParams (fs_range fs params))"
proof -
  from createTemp [OF assms] obtain c1 tmp where c1: "fs_createTemp fs d ''params.env-'' c = (c1, Inr tmp)" "calm c1"
    "files c tmp = None" "files c1 = (files c)(tmp \<mapsto> [])" "buffered c1 tmp = []" by blast
  then have "files c1 tmp \<noteq> None" by simp
  from print_lines [OF c1(2) this] obtain c2 where c2: "forE (\<lambda>kv. fs_fprintf fs tmp (paramLine kv)) (fs_range fs params) c1 = (c2, Inr ())"
    "calm c2" "files c2 tmp \<noteq> None" "buffered c2 tmp = buffered c1 tmp @ printParams (fs_range fs params)"
    "\<forall>p. p \<noteq> tmp \<longrightarrow> files c2 p = files c1 p" by blast
  from flush [OF c2(2,3)] obtain c3 where c3: "fs_flush fs tmp c2 = (c3, Inr ())" "calm c3" "files c3 = (files c2)(tmp \<mapsto> buffered c2 tmp)" by blast
  have "files c3 = (files c)(tmp \<mapsto> printParams (fs_range fs params))"
    by (rule ext) (simp add: c3(3) c2(4) c1(5) c2(5) c1(4))
  with c1 c2 c3 show ?thesis
    by (intro exI [of _ c3] exI [of _ tmp]) (simp add: writeParamsToTmp_def run_bnd run_wrapErr)
qed

lemma ranged: "distinct (map fst m) \<Longrightarrow> map_of (fs_range fs m) = map_of m"
    "distinct (map fst (fs_range fs m)) = distinct (map fst m)" "set (fs_range fs m) = set m"
proof -
  show "distinct (map fst (fs_range fs m)) = distinct (map fst m)"
    by (rule mset_eq_imp_distinct_iff) (simp add: range)
  show "set (fs_range fs m) = set m" by (rule mset_eq_setD [OF range])
  show "map_of (fs_range fs m) = map_of m" if "distinct (map fst m)" by (rule map_of_perm [OF that range])
qed

lemma map_of_imageValues:
  assumes "distinct (map fst m)"
  shows "distinct (map fst (imageValues fs im m))"
    "map_of (imageValues fs im m) k =
      (let image = strMapIndex im k in if k \<in> fst ` set m \<and> image \<noteq> [] \<and> fs_getenv fs image \<noteq> [] then Some (fs_getenv fs image) else None)"
proof -
  let ?val = "\<lambda>i. let env = strMapIndex im i in if env = [] then [] else fs_getenv fs env"
  have iv: "imageValues fs im m = map (\<lambda>i. (i, ?val i)) (filter (\<lambda>i. ?val i \<noteq> []) (map fst (fs_range fs m)))"
    by (simp add: imageValues_def filter_map comp_def case_prod_beta)
  have "map_of (map (\<lambda>i. (i, ?val i)) is) k = (if k \<in> set is then Some (?val k) else None)" for "is"
    by (induction "is") auto
  then show "map_of (imageValues fs im m) k =
      (let image = strMapIndex im k in if k \<in> fst ` set m \<and> image \<noteq> [] \<and> fs_getenv fs image \<noteq> [] then Some (fs_getenv fs image) else None)"
    unfolding iv using ranged(3) [of m] by (simp add: Let_def)
  show "distinct (map fst (imageValues fs im m))" unfolding iv using ranged(2) [of m] assms by (simp add: comp_def)
qed

end

text \<open>What a file that could be read contains.\<close>

lemma cutEq_Some: "cutEq l = Some (k, v) \<Longrightarrow> l = k @ CHR ''='' # v \<and> CHR ''='' \<notin> set k"
proof -
  assume "cutEq l = Some (k, v)"
  then obtain x where x: "dropWhile (\<lambda>ch. ch \<noteq> CHR ''='') l = x # v" "k = takeWhile (\<lambda>ch. ch \<noteq> CHR ''='') l"
    by (auto simp: cutEq_def split: list.splits)
  then have "x = CHR ''=''" using hd_dropWhile [of "\<lambda>ch. ch \<noteq> CHR ''=''" l] by auto
  with x takeWhile_dropWhile_id [of "\<lambda>ch. ch \<noteq> CHR ''=''" l] show ?thesis by (auto dest: set_takeWhileD)
qed

lemma set_rawLines: "l \<in> set (rawLines cur cs) \<Longrightarrow> CHR 0x0A \<notin> set cur \<Longrightarrow> CHR 0x0A \<notin> set l \<and> set l \<subseteq> set cur \<union> set cs"
  by (induction cur cs rule: rawLines.induct) (auto split: if_splits)

lemma dropCR_le: "set (dropCR l) \<subseteq> set l" "length (dropCR l) \<le> length l"
  by (auto simp: dropCR_def dest: in_set_butlastD)

lemma readParams_clean:
  assumes "scanLines content = Inr ls" "CHR 0x0D \<notin> set content" "kv \<in> set (readParams ls)"
  shows "printable kv \<and> oneLine (snd kv) \<and> length (fst kv) + length (snd kv) < 65535"
proof -
  obtain k v where kv: "kv = (k, v)" by (cases kv)
  have "map_of (readParams ls) k = Some v" using assms(3) distinct_readParams by (simp add: kv)
  then have "(k, v) \<in> set (List.map_filter cutEq ls)" by (auto simp: map_of_readParams dest: map_of_SomeD)
  then obtain l where l: "l \<in> set ls" "cutEq l = Some (k, v)" using set_map_filterD by fast
  have "ls = map dropCR (rawLines [] content)" "\<forall>r \<in> set (rawLines [] content). length r < 65536"
    using assms(1) by (auto simp: scanLines_def list_ex_iff not_le split: if_splits)
  with l(1) obtain r where r: "r \<in> set (rawLines [] content)" "l = dropCR r" "length r < 65536" by auto
  from cutEq_Some [OF l(2)] have eq: "l = k @ CHR ''='' # v" "CHR ''='' \<notin> set k" by simp_all
  have "set l \<subseteq> set r" "length l \<le> length r" using dropCR_le r(2) by auto
  with set_rawLines [OF r(1)] eq r(3) assms(2) show ?thesis by (auto simp: kv printable_def oneLine_def)
qed

definition plainValue :: "string \<Rightarrow> bool" where
  "plainValue v \<longleftrightarrow> oneLine v \<and> length v < 65000"

lemma customParams_keys:
  assumes "kv \<in> set (customParams t appNs aud)"
  shows "fst kv \<in> {''gateway-namespace'', ''gateway-name'', ''app-namespace'', ''api-key-max-expiration-days'', ''cluster-audience''}"
  using assms by (auto simp: customParams_def split: option.splits if_splits)

lemma customParams_distinct: "distinct (map fst (customParams t appNs aud))"
  by (auto simp: customParams_def split: option.splits)

lemma customParams_printable:
  assumes "kv \<in> set (customParams t appNs aud)" "plainValue (snd kv)"
  shows "printable kv \<and> oneLine (snd kv) \<and> length (fst kv) + length (snd kv) < 65535"
  using customParams_keys [OF assms(1)] assms(2) by (elim insertE emptyE) (simp_all add: printable_def plainValue_def oneLine_def)

lemma intendedParam_eq:
  "(case map_of (customParams t appNs aud) k of
      Some v \<Rightarrow> v
    | None \<Rightarrow> (let image = strMapIndex ImageParamKeys k
        in if k \<in> fst ` set old \<and> image \<noteq> [] \<and> getenv image \<noteq> [] then getenv image else strMapIndex old k)) =
   intendedParam getenv t appNs aud old k"
  by (auto simp: intendedParam_def customParams_def Let_def split: option.splits)

context param_files
begin

lemma imageValues_printable:
  assumes "kv \<in> set (imageValues fs ImageParamKeys m)" "\<forall>i \<in> snd ` set ImageParamKeys. plainValue (fs_getenv fs i)"
  shows "printable kv \<and> oneLine (snd kv) \<and> length (fst kv) + length (snd kv) < 65535"
proof -
  from assms(1) have env: "strMapIndex ImageParamKeys (fst kv) \<noteq> []" "snd kv = fs_getenv fs (strMapIndex ImageParamKeys (fst kv))"
    by (auto simp: imageValues_def Let_def split: if_splits)
  then have key: "fst kv \<in> fst ` set ImageParamKeys" and "strMapIndex ImageParamKeys (fst kv) \<in> snd ` set ImageParamKeys"
    by (auto simp: strMapIndex_def rev_image_eqI split: option.splits dest: map_of_SomeD)
  with assms(2) env(2) have "plainValue (snd kv)" by metis
  moreover from key have "printable (fst kv, []) \<and> length (fst kv) < 100"
    by (auto simp: ImageParamKeys_def printable_def)
  ultimately show ?thesis by (auto simp: printable_def plainValue_def oneLine_def)
qed

lemma CustomizeParams_calm:
  assumes "calm c" "files c path = Some content" "path = joinPath dir ''params.env''" "scanLines content = Inr ls" "CHR 0x0D \<notin> set content"
    and "\<forall>kv \<in> set (customParams t appNs aud). plainValue (snd kv)" "\<forall>i \<in> snd ` set ImageParamKeys. plainValue (fs_getenv fs i)"
  shows "\<exists>c' content' ls'. CustomizeParams fs dir t appNs aud c = (c', Inr ()) \<and> files c' = (files c)(path \<mapsto> content') \<and>
    scanLines content' = Inr ls' \<and> (\<forall>k. strMapIndex (readParams ls') k = intendedParam (fs_getenv fs) t appNs aud (readParams ls) k)"
proof -
  let ?old = "readParams ls" and ?extra = "fs_range fs (customParams t appNs aud)"
  let ?iv = "imageValues fs ImageParamKeys ?old"
  define m1 u1 where mu: "m1 = fst (updateAll ?iv (?old, False))" "u1 = snd (updateAll ?iv (?old, False))"
  define m u where mu': "m = fst (updateAll ?extra (m1, u1))" "u = snd (updateAll ?extra (m1, u1))"
  have upd: "updateAll ?extra (updateAll ?iv (?old, False)) = (m, u)" by (simp add: mu mu')
  note iv = map_of_imageValues [OF distinct_readParams [of ls], of ImageParamKeys]
  have m_index: "strMapIndex m k = intendedParam (fs_getenv fs) t appNs aud ?old k" for k
  proof -
    have "strMapIndex m k = (case map_of (customParams t appNs aud) k of None \<Rightarrow> strMapIndex m1 k | Some v \<Rightarrow> v)"
      using updateAll_index [of ?extra m1 u1 k] ranged(1,2) [of "customParams t appNs aud"] customParams_distinct [of t appNs aud]
      by (simp add: mu')
    moreover have "strMapIndex m1 k = (case map_of ?iv k of None \<Rightarrow> strMapIndex ?old k | Some v \<Rightarrow> v)"
      unfolding mu by (rule updateAll_index [OF iv(1)])
    ultimately show ?thesis unfolding intendedParam_eq [symmetric] iv(2) Let_def by (simp split: option.split)
  qed
  from opens [OF assms(1), of path] obtain c1 where c1: "fs_open fs path c = (c1, Inr (Some content))" "calm c1" "files c1 = files c"
    unfolding assms(2) by blast
  have parsed: "parseParams fs path c = (c1, Inr (Some ?old))" using c1(1) assms(4) by (simp add: parseParams_def run_bnd)
  show ?thesis
  proof (cases u)
    case False
    then have "m = m1" "\<not> u1" using updateAll_unchanged [of ?extra m1 u1] unfolding mu' by blast+
    then have "m = ?old" using updateAll_unchanged [of ?iv ?old False] unfolding mu by blast
    with m_index have "strMapIndex ?old k = intendedParam (fs_getenv fs) t appNs aud ?old k" for k by simp
    moreover have "CustomizeParams fs dir t appNs aud c = (c1, Inr ())"
      using parsed False by (simp add: CustomizeParams_def ApplyParams_def run_bnd upd flip: assms(3))
    moreover have "files c1 = (files c)(path \<mapsto> content)" using c1(3) assms(2) by (simp add: fun_upd_idem)
    ultimately show ?thesis using assms(4) by blast
  next
    case True
    from write_tmp [OF c1(2), of m dir] obtain c2 tmp where c2: "writeParamsToTmp fs m dir c1 = (c2, Inr tmp)" "calm c2"
      "files c1 tmp = None" "files c2 = (files c1)(tmp \<mapsto> printParams (fs_range fs m))" by blast
    have ne: "tmp \<noteq> path" using c2(3) c1(3) assms(2) by auto
    from c2(4) have "files c2 tmp = Some (printParams (fs_range fs m))" by simp
    from rename [OF c2(2) this ne] obtain c3 where c3: "fs_rename fs tmp path c2 = (c3, Inr ())" "calm c3"
      "files c3 = (files c2)(tmp := None, path \<mapsto> printParams (fs_range fs m))" by blast
    have files: "files c3 = (files c)(path \<mapsto> printParams (fs_range fs m))"
      using c2(3) ne by (auto simp: c3(3) c2(4) c1(3) fun_eq_iff)
    have run: "CustomizeParams fs dir t appNs aud c = (c3, Inr ())"
      using parsed True c2(1) c3(1) by (simp add: CustomizeParams_def ApplyParams_def run_bnd run_attempt upd flip: assms(3))
    have dm: "distinct (map fst m)" unfolding mu' mu by (intro updateAll_distinct distinct_readParams)
    have "set m \<subseteq> set ?old \<union> set ?iv \<union> set (customParams t appNs aud)"
      using updateAll_set [of ?extra m1 u1] updateAll_set [of ?iv ?old False] ranged(3) by (auto simp: mu mu')
    then have "list_all (\<lambda>kv. printable kv \<and> oneLine (snd kv) \<and> length (fst kv) + length (snd kv) < 65535) (fs_range fs m)"
      using readParams_clean [OF assms(4,5)] imageValues_printable [OF _ assms(7)] customParams_printable assms(6)
      unfolding list_all_iff ranged(3) by blast
    from parse_print [OF _ this] ranged(1,2) [of m] dm obtain ls' where
      ls': "scanLines (printParams (fs_range fs m)) = Inr ls'" "map_of (readParams ls') = map_of m" by auto
    then have "strMapIndex (readParams ls') k = strMapIndex m k" for k by (simp add: strMapIndex_def)
    with run files ls'(1) m_index show ?thesis by auto
  qed
qed

end

section \<open>The kustomize build\<close>

text \<open>No value of Go type \<open>int\<close> survives, so that the deep copies of apimachinery accept the objects.\<close>

lemma normalize_jsonTyped: "jsonTyped (normalizeValue v)"
  by (induction v) (auto simp: list_all_iff)

definition sameObject :: "('c, 'r, 'b) kustomize_api \<Rightarrow> 'r \<Rightarrow> 'r \<Rightarrow> bool" where
  "sameObject kz r r' \<longleftrightarrow> kz_getKind kz r' = kz_getKind kz r \<and> kz_getName kz r' = kz_getName kz r"

locale kustomize =
  fixes kz :: "('c, 'r, 'b) kustomize_api"
  assumes setNamespace: "kz_setNamespace kz r ns = Inr r' \<Longrightarrow>
      kz_getNamespace kz r' = ns \<and> kz_getLabels kz r' = kz_getLabels kz r \<and> sameObject kz r r'"
    and setLabels: "kz_setLabels kz r ls = Inr r' \<Longrightarrow>
      map_of (kz_getLabels kz r') = map_of ls \<and> kz_getNamespace kz r' = kz_getNamespace kz r \<and> sameObject kz r r'"
    and reparse: "kz_map kz r = Inr m \<Longrightarrow> map_of m' ''metadata'' = map_of m ''metadata'' \<Longrightarrow> map_of m' ''kind'' = map_of m ''kind'' \<Longrightarrow>
      kz_marshal kz m' = Inr b \<Longrightarrow> kz_reparse kz r b = Inr r' \<Longrightarrow>
      kz_map kz r' = Inr m' \<and> kz_getNamespace kz r' = kz_getNamespace kz r \<and> kz_getLabels kz r' = kz_getLabels kz r \<and> sameObject kz r r'"
begin

lemma remap_meta:
  assumes "remapSubjectNamespaces kz r appNs = Inr r'"
  shows "kz_getNamespace kz r' = kz_getNamespace kz r \<and> kz_getLabels kz r' = kz_getLabels kz r \<and> sameObject kz r r'"
proof (cases "r' = r")
  case False
  from assms False obtain m xs b where "kz_map kz r = Inr m"
    "kz_marshal kz (AList.update ''subjects'' (YSlice xs) m) = Inr b" "kz_reparse kz r b = Inr r'"
    by (auto simp: remapSubjectNamespaces_def Let_def split: if_splits option.splits yany.splits elim!: andThen_InrE)
  from reparse [OF this(1) _ _ this(2,3)] show ?thesis by (simp add: update_conv')
qed (simp add: sameObject_def)

lemma transform_meta:
  assumes "transformResource kz appNs r = Inr r'"
  shows "kz_getNamespace kz r' =
      (if appNs \<noteq> [] \<and> kz_getNamespace kz r = overlayDefaultNamespace then appNs else kz_getNamespace kz r) \<and>
    map_of (kz_getLabels kz r') = map_of (kz_getLabels kz r) ++ map_of componentLabels \<and> sameObject kz r r'"
proof -
  from assms obtain r1 where r1: "kz_getNamespace kz r1 =
      (if appNs \<noteq> [] \<and> kz_getNamespace kz r = overlayDefaultNamespace then appNs else kz_getNamespace kz r)"
      "kz_getLabels kz r1 = kz_getLabels kz r" "sameObject kz r r1"
      "kz_setLabels kz r1 (foldl (\<lambda>m (k, v). AList.update k v m) (kz_getLabels kz r1) componentLabels) = Inr r'"
    unfolding transformResource_def Let_def
    by (auto simp: sameObject_def split: if_splits dest!: setNamespace remap_meta elim!: andThen_InrE)
  have "map_of (foldl (\<lambda>m (k, v). AList.update k v m) (kz_getLabels kz r1) componentLabels) = map_of (kz_getLabels kz r) ++ map_of componentLabels"
    by (auto simp: componentLabels_def r1(2) update_conv' fun_eq_iff LabelODHAppPrefix_def LabelK8sPartOf_def ComponentName_def)
  with setLabels [OF r1(4)] r1(1,3) show ?thesis by (simp add: sameObject_def)
qed

end

lemma mapSum_rel: "mapSum p f xs = Inr ys \<Longrightarrow> list_all2 (\<lambda>x y. f x = Inr y) xs ys"
  by (induction xs arbitrary: ys) (auto elim!: andThen_InrE)

text \<open>Resources as their maps.\<close>

definition yStr :: "(string \<times> yany) list \<Rightarrow> string \<Rightarrow> string" where
  "yStr m k = (case map_of m k of Some (YStr s) \<Rightarrow> s | _ \<Rightarrow> [])"

definition yMap :: "(string \<times> yany) list \<Rightarrow> string \<Rightarrow> (string \<times> yany) list" where
  "yMap m k = (case map_of m k of Some (YMap s) \<Rightarrow> s | _ \<Rightarrow> [])"

definition setYMeta :: "string \<Rightarrow> yany \<Rightarrow> (string \<times> yany) list \<Rightarrow> (string \<times> yany) list" where
  "setYMeta k v r = AList.update ''metadata'' (YMap (AList.update k v (yMap r ''metadata''))) r"

definition yStrings :: "(string \<times> yany) list \<Rightarrow> (string \<times> string) list" where
  "yStrings m = List.map_filter (\<lambda>(k, v). case v of YStr s \<Rightarrow> Some (k, s) | _ \<Rightarrow> None) m"

fun toAny :: "yany \<Rightarrow> goany" where
  "toAny YNil = GNil"
| "toAny (YBool b) = GBool b"
| "toAny (YInt i) = GInt i"
| "toAny (YInt64 i) = GInt i"
| "toAny (YFloat f) = GFloat f"
| "toAny (YStr s) = GStr s"
| "toAny (YSlice xs) = GSlice (map toAny xs)"
| "toAny (YMap m) = GMap (map (\<lambda>(k, v). (k, toAny v)) m)"

text \<open>The group and version of an \<open>apiVersion\<close>.\<close>

definition splitVersion :: "string \<Rightarrow> string \<times> string" where
  "splitVersion s = (case splitN (CHR ''/'') 2 s of [g, v] \<Rightarrow> (g, v) | _ \<Rightarrow> ([], s))"

definition std_kz ::
  "(string \<Rightarrow> ('c, (string \<times> yany) list list) call) \<Rightarrow> ('c, (string \<times> yany) list, (string \<times> yany) list) kustomize_api" where
  "std_kz run =
     \<lparr>kz_run = run, kz_getKind = (\<lambda>r. yStr r ''kind''), kz_getName = (\<lambda>r. yStr (yMap r ''metadata'') ''name''),
      kz_getNamespace = (\<lambda>r. yStr (yMap r ''metadata'') ''namespace''),
      kz_setNamespace = (\<lambda>r ns. Inr (setYMeta ''namespace'' (YStr ns) r)),
      kz_getLabels = (\<lambda>r. yStrings (yMap (yMap r ''metadata'') ''labels'')),
      kz_setLabels = (\<lambda>r ls. Inr (setYMeta ''labels'' (YMap (map (\<lambda>(k, v). (k, YStr v)) ls)) r)),
      kz_map = Inr, kz_marshal = Inr, kz_reparse = (\<lambda>r b. Inr b),
      kz_unstructured = (\<lambda>r. let gv = splitVersion (yStr r ''apiVersion''); md = yMap r ''metadata'' in
        newObject (fst gv, snd gv, yStr r ''kind'')
          (newMeta (yStr md ''name'') (yStr md ''namespace'') (yStrings (yMap md ''labels'')) (yStrings (yMap md ''annotations'')))
          (map (\<lambda>(k, v). (k, toAny v)) (filter (\<lambda>(k, v). k \<notin> {''apiVersion'', ''kind'', ''metadata''}) r)))\<rparr>"

lemma yStrings_map: "yStrings (map (\<lambda>(k, v). (k, YStr v)) ls) = ls"
  by (induction ls) (auto simp: yStrings_def map_filter_simps)

interpretation skz: kustomize "std_kz run"
  by unfold_locales
    (auto simp: std_kz_def sameObject_def setYMeta_def yStr_def yMap_def update_conv' yStrings_map cong: option.case_cong)

text \<open>Every resource of the build is placed where the tenant's platform lives. What the overlay put
  into its default namespace moves to the application namespace, cluster-scoped resources and resources of
  another namespace stay where they are, all of them carry the labels of the component in addition to
  their own, and none is lost, added or renamed.\<close>

theorem build_placed:
  assumes "kustomize kz" "postBuildTransform kz appNs rs = Inr rs'"
  shows "list_all2 (\<lambda>r r'. kz_getKind kz r' = kz_getKind kz r \<and> kz_getName kz r' = kz_getName kz r \<and>
    kz_getNamespace kz r' = (if appNs \<noteq> [] \<and> kz_getNamespace kz r = ''opendatahub'' then appNs else kz_getNamespace kz r) \<and>
    map_of (kz_getLabels kz r') = (map_of (kz_getLabels kz r))
      (''app.opendatahub.io/modelsasservice'' \<mapsto> ''true'', ''app.kubernetes.io/part-of'' \<mapsto> ''models-as-a-service'')) rs rs'"
proof -
  have labels: "m ++ map_of componentLabels = m(''app.opendatahub.io/modelsasservice'' \<mapsto> ''true'', ''app.kubernetes.io/part-of'' \<mapsto> ''models-as-a-service'')" for m
    by (auto simp: componentLabels_def fun_eq_iff LabelODHAppPrefix_def LabelK8sPartOf_def ComponentName_def map_add_def)
  show ?thesis
    using mapSum_rel [OF assms(2) [unfolded postBuildTransform_def]]
    by (rule list_all2_mono) (drule kustomize.transform_meta [OF assms(1)], simp only: labels sameObject_def overlayDefaultNamespace_def simp_thms)
qed

definition sampleKz :: "(unit, (string \<times> yany) list, (string \<times> yany) list) kustomize_api" where
  "sampleKz = std_kz (\<lambda>_. ret [])"

definition sampleService :: "(string \<times> yany) list" where
  "sampleService = [(''kind'', YStr ''Service''), (''metadata'', YMap [(''namespace'', YStr ''opendatahub'')])]"

theorem build_placed_witness:
  "\<exists>rs'. postBuildTransform sampleKz ''maas'' [sampleService] = Inr rs' \<and> map (kz_getNamespace sampleKz) rs' = [''maas'']"
proof -
  have "case postBuildTransform sampleKz ''maas'' [sampleService] of Inl _ \<Rightarrow> False | Inr _ \<Rightarrow> True" by code_simp
  then obtain rs' where run: "postBuildTransform sampleKz ''maas'' [sampleService] = Inr rs'" by (auto split: sum.splits)
  have ns: "kz_getNamespace sampleKz sampleService = ''opendatahub''" by code_simp
  have kz: "kustomize sampleKz" unfolding sampleKz_def by (rule skz.kustomize_axioms)
  note placed = build_placed [OF kz run]
  from list_all2_lengthD [OF placed] obtain z where z: "rs' = [z]" by (cases rs'; cases "tl rs'") simp_all
  have "kz_getNamespace sampleKz z =
      (if ''maas'' \<noteq> [] \<and> kz_getNamespace sampleKz sampleService = ''opendatahub'' then ''maas'' else kz_getNamespace sampleKz sampleService)"
    using placed unfolding z list_all2_Cons by (elim conjE)
  then have "map (kz_getNamespace sampleKz) rs' = [''maas'']" unfolding ns z by simp
  with run show ?thesis by (intro exI [of _ rs'] conjI)
qed

section \<open>A file system\<close>

type_synonym std_fs = "(string \<times> string) list \<times> (string \<times> string) list"

definition freshName :: "(string \<times> string) list \<Rightarrow> string" where
  "freshName f = replicate (Suc (foldr max (map (\<lambda>e. length (fst e)) f) 0)) (CHR ''x'')"

definition std_files :: "(string \<Rightarrow> string) \<Rightarrow> std_fs files_api" where
  "std_files getenv =
     \<lparr>fs_abs = Inr, fs_exists = (\<lambda>p s. map_of (fst s) p \<noteq> None),
      fs_open = (\<lambda>p s. (s, Inr (map_of (fst s) p))),
      fs_createTemp = (\<lambda>d pat s. let tmp = joinPath d (pat @ freshName (fst s)) in (((tmp, []) # fst s, (tmp, []) # snd s), Inr tmp)),
      fs_fprintf = (\<lambda>tmp t s. ((fst s, (tmp, strMapIndex (snd s) tmp @ t) # snd s), Inr ())),
      fs_flush = (\<lambda>tmp s. (((tmp, strMapIndex (snd s) tmp) # fst s, snd s), Inr ())),
      fs_rename = (\<lambda>a b s. case map_of (fst s) a of
         None \<Rightarrow> (s, Inl (ErrText ''no such file''))
       | Some x \<Rightarrow> (((b, x) # filter (\<lambda>e. fst e \<noteq> a) (fst s), snd s), Inr ())),
      fs_remove = (\<lambda>p s. ((filter (\<lambda>e. fst e \<noteq> p) (fst s), snd s), Inr ())),
      fs_getenv = getenv, fs_range = rev\<rparr>"

lemma freshName_fresh: "map_of f (joinPath d (pat @ freshName f)) = None"
proof -
  have "length (fst e) \<le> foldr max (map (\<lambda>e. length (fst e)) f) 0" if "e \<in> set f" for e
    using that by (induction f) auto
  moreover have "foldr max (map (\<lambda>e. length (fst e)) f) 0 < length (joinPath d (pat @ freshName f))"
    by (simp add: joinPath_def freshName_def)
  ultimately show ?thesis unfolding map_of_eq_None_iff by (metis imageE leD)
qed

interpretation pf: param_files "std_files getenv" "\<lambda>s. map_of (fst s)" "\<lambda>s. strMapIndex (snd s)" "\<lambda>_. True"
  by unfold_locales
    (auto simp: std_files_def Let_def freshName_fresh strMapIndex_def map_of_without fun_eq_iff)

section \<open>The customised parameters\<close>

text \<open>C19: the overlay is built with the settings of the tenant. When the file system answers,
  \<open>CustomizeParams\<close> succeeds and replaces only \<open>params.env\<close>; the new file can be parsed, and every
  parameter reads as intended: gateway, application namespace, audience and key lifetime from the tenant,
  the images from the environment, everything else as it was. (The values are single lines of less than
  65000 bytes, the old file has no carriage returns.)\<close>

theorem params_customized:
  assumes "param_files fs files buffered calm" "calm c" "files c (joinPath dir ''params.env'') = Some content"
    and "scanLines content = Inr ls" "CHR 0x0D \<notin> set content"
    and "\<forall>kv \<in> set (customParams t appNs aud). plainValue (snd kv)" "\<forall>i \<in> snd ` set ImageParamKeys. plainValue (fs_getenv fs i)"
  shows "\<exists>c' content' ls'. CustomizeParams fs dir t appNs aud c = (c', Inr ()) \<and>
    files c' = (files c)(joinPath dir ''params.env'' \<mapsto> content') \<and> scanLines content' = Inr ls' \<and>
    (\<forall>k. strMapIndex (readParams ls') k = intendedParam (fs_getenv fs) t appNs aud (readParams ls) k)"
  by (rule param_files.CustomizeParams_calm [OF assms(1,2,3) refl assms(4-7)])

definition sampleFs :: std_fs where
  "sampleFs = ([(''/m/params.env'', ''app-namespace=opendatahub'' @ [CHR 0x0A] @ ''maas-api-image=old'' @ [CHR 0x0A])], [])"

definition sampleEnv :: "string \<Rightarrow> string" where
  "sampleEnv v = (if v = ''RELATED_IMAGE_ODH_MAAS_API_IMAGE'' then ''quay.io/maas-api'' else [])"

theorem params_customized_witness:
  "\<exists>s' content' ls'. CustomizeParams (std_files sampleEnv) ''/m'' sampleTenant ''maas'' [] sampleFs = (s', Inr ()) \<and>
     scanLines content' = Inr ls' \<and> map_of (fst s') ''/m/params.env'' = Some content' \<and>
     strMapIndex (readParams ls') ''app-namespace'' = ''maas'' \<and> strMapIndex (readParams ls') ''maas-api-image'' = ''quay.io/maas-api''"
proof -
  let ?content = "''app-namespace=opendatahub'' @ [CHR 0x0A] @ ''maas-api-image=old'' @ [CHR 0x0A]"
  let ?ls = "[''app-namespace=opendatahub'', ''maas-api-image=old'']"
  have "rawLines [] ?content = ?ls" "map dropCR ?ls = ?ls" "CHR 0x0D \<notin> set ?content" by code_simp+
  then have params: "map_of (fst sampleFs) (joinPath ''/m'' ''params.env'') = Some ?content" "scanLines ?content = Inr ?ls"
    "CHR 0x0D \<notin> set ?content" by (simp_all add: sampleFs_def joinPath_def scanLines_def)
  have one: "oneLine ''openshift-ingress''" "oneLine ''gw''" "oneLine ''maas''" "oneLine ''30''" "oneLine ''quay.io/maas-api''" "oneLine []"
    by code_simp+
  have cp: "customParams sampleTenant ''maas'' [] = [(''gateway-namespace'', ''openshift-ingress''), (''gateway-name'', ''gw''),
      (''app-namespace'', ''maas''), (''api-key-max-expiration-days'', ''30'')]" by code_simp
  have plain: "\<forall>kv \<in> set (customParams sampleTenant ''maas'' []). plainValue (snd kv)"
    unfolding cp by (simp add: plainValue_def one)
  have env: "\<forall>i \<in> snd ` set ImageParamKeys. plainValue (fs_getenv (std_files sampleEnv) i)"
    by (simp add: plainValue_def std_files_def sampleEnv_def one)
  have vals: "intendedParam (fs_getenv (std_files sampleEnv)) sampleTenant ''maas'' [] (readParams ?ls) ''app-namespace'' = ''maas''"
    "intendedParam (fs_getenv (std_files sampleEnv)) sampleTenant ''maas'' [] (readParams ?ls) ''maas-api-image'' = ''quay.io/maas-api''"
    by code_simp+
  have path: "joinPath ''/m'' ''params.env'' = ''/m/params.env''" by code_simp
  from params_customized [OF pf.param_files_axioms, of sampleFs "''/m''", OF TrueI params plain env] obtain s' content' ls' where
    r: "CustomizeParams (std_files sampleEnv) ''/m'' sampleTenant ''maas'' [] sampleFs = (s', Inr ())" "scanLines content' = Inr ls'"
      "map_of (fst s') = (map_of (fst sampleFs))(''/m/params.env'' \<mapsto> content')"
      "\<forall>k. strMapIndex (readParams ls') k = intendedParam (fs_getenv (std_files sampleEnv)) sampleTenant ''maas'' [] (readParams ?ls) k"
    unfolding path by blast
  from r(3) have "map_of (fst s') ''/m/params.env'' = Some content'" by (simp only: fun_upd_same)
  moreover have "strMapIndex (readParams ls') ''app-namespace'' = ''maas''"
    "strMapIndex (readParams ls') ''maas-api-image'' = ''quay.io/maas-api''" by (simp_all only: r(4) vals)
  ultimately show ?thesis using r(1,2) by blast
qed

end
