(* ===== verification/Tenant_Finalize.thy ===== *)
theory Tenant_Finalize
  imports Tenant_Params
begin

text \<open>
  \<open>maas-controller/pkg/controller/maas/tenant_finalize.go\<close>: the teardown of a Tenant, and the objects it
  owns. The client's operations are the record \<open>tenant_client\<close>; an object of any kind is an
  \<open>Unstructured\<close>, which for the typed lists and reads stands for the typed object. The locale
  \<open>tenant_server\<close> states the laws of the API server over a world of tenants, objects and registered
  kinds; \<open>tenant_std\<close> is an instance of it.
\<close>

section \<open>The client\<close>

record 'c tenant_client =
  tc_getTenant :: "nsn \<Rightarrow> ('c, Tenant) call"
  tc_patchTenant :: "Tenant \<Rightarrow> Tenant \<Rightarrow> ('c, unit) call"
  tc_statusTenant :: "Tenant \<Rightarrow> ('c, unit) call"
  tc_get :: "gvk \<Rightarrow> nsn \<Rightarrow> ('c, Unstructured) call"
  tc_list :: "gvk \<Rightarrow> string option \<Rightarrow> ('c, Unstructured list) call"
  tc_delete :: "Unstructured \<Rightarrow> ('c, unit) call"
  tc_apply :: "Unstructured \<Rightarrow> ('c, unit) call"
  tc_restMapping :: "gvk \<Rightarrow> ('c, unit) call"
  tl_setControllerReference :: "Tenant \<Rightarrow> owner_ref list \<Rightarrow> cerror + owner_ref list"
  tl_setStatusCondition :: "Condition list \<Rightarrow> Condition \<Rightarrow> Condition list"
  tl_isStatusConditionTrue :: "Condition list \<Rightarrow> string \<Rightarrow> bool"
  tl_yamlWorkload :: "string \<Rightarrow> cerror + bool"
  tl_dns1123 :: "string \<Rightarrow> string list"
  tl_api :: uns_api

record TenantReconciler =
  tr_OperatorNamespace :: string
  tr_ManifestPath :: string
  tr_AppNamespace :: string
  tr_TenantNamespace :: string

section \<open>tenant\_finalize.go\<close>

definition optionalPlatformGVKs :: "gvk list" where
  "optionalPlatformGVKs =
     [(''kuadrant.io'', ''v1'', ''AuthPolicy''),
      (''kuadrant.io'', ''v1'', ''RateLimitPolicy''),
      (''extensions.kuadrant.io'', ''v1alpha1'', ''TelemetryPolicy''),
      (''networking.istio.io'', ''v1'', ''DestinationRule''),
      (''networking.istio.io'', ''v1alpha3'', ''EnvoyFilter''),
      (''telemetry.istio.io'', ''v1'', ''Telemetry'')]"

definition operatorNamespace :: "(string \<Rightarrow> string) \<Rightarrow> TenantReconciler \<Rightarrow> string" where
  "operatorNamespace getenv r =
     (if tr_OperatorNamespace r \<noteq> [] then tr_OperatorNamespace r
      else let ns = getenv ''POD_NAMESPACE'' in if ns \<noteq> [] then ns else getenv ''WATCH_NAMESPACE'')"

definition ownedByTenantRef :: "Unstructured \<Rightarrow> Tenant \<Rightarrow> bool" where
  "ownedByTenantRef obj tenant =
     list_ex (\<lambda>ref. or_uid ref = tn_uid tenant \<and> or_kind ref = TenantKind \<and> or_apiVersion ref = GroupVersionString) (uo_owners obj)"

definition ownedByTenantLabel :: "Unstructured \<Rightarrow> Tenant \<Rightarrow> bool" where
  "ownedByTenantLabel obj tenant =
     (let labels = om_labels (uo_meta obj)
      in labels \<noteq> [] \<and> strMapIndex labels LabelTenantName = om_name (tn_meta tenant) \<and>
         strMapIndex labels LabelTenantNamespace = om_namespace (tn_meta tenant))"

definition isOwnedByTenant :: "Unstructured \<Rightarrow> Tenant \<Rightarrow> bool" where
  "isOwnedByTenant obj tenant = (ownedByTenantRef obj tenant \<or> ownedByTenantLabel obj tenant)"

definition tenantWorkNamespaces :: "Tenant \<Rightarrow> string \<Rightarrow> string \<Rightarrow> string list" where
  "tenantWorkNamespaces tenant operatorNS appNS =
     sort (remdups (filter (\<lambda>ns. ns \<noteq> [])
       [om_namespace (tn_meta tenant), appNS, operatorNS, gr_namespace (tn_gateway tenant)]))"

text \<open>The loop over the listed items of one kind: an owned item keeps the deletion pending, and is deleted
  unless it is being deleted already.\<close>

fun deleteItems :: "'c tenant_client \<Rightarrow> (Unstructured \<Rightarrow> string) \<Rightarrow> Tenant \<Rightarrow> Unstructured list \<Rightarrow> bool \<Rightarrow> ('c, bool) call" where
  "deleteItems k msg tenant [] pending = ret pending"
| "deleteItems k msg tenant (item # items) pending =
     (if \<not> isOwnedByTenant item tenant then deleteItems k msg tenant items pending
      else if om_deleting (uo_meta item) then deleteItems k msg tenant items True
      else
        attempt (tc_delete k item)
          (\<lambda>r. case r of
             Inl err \<Rightarrow> if isNotFound err then deleteItems k msg tenant items True else fail (Wrap (msg item) err [])
           | Inr _ \<Rightarrow> deleteItems k msg tenant items True))"

text \<open>The six typed kinds of a namespace and the two of the cluster, in the order of the code, with the
  plural in the messages.\<close>

definition namespacedKinds :: "(gvk \<times> string) list" where
  "namespacedKinds =
     [(GVKConfigMap, ''ConfigMaps''),
      (([], ''v1'', ''Service''), ''Services''),
      (([], ''v1'', ''ServiceAccount''), ''ServiceAccounts''),
      (GVKDeployment, ''Deployments''),
      ((''networking.k8s.io'', ''v1'', ''NetworkPolicy''), ''NetworkPolicies''),
      ((''gateway.networking.k8s.io'', ''v1'', ''HTTPRoute''), ''HTTPRoutes'')]"

definition clusterKinds :: "(gvk \<times> string) list" where
  "clusterKinds =
     [((''rbac.authorization.k8s.io'', ''v1'', ''ClusterRole''), ''ClusterRoles''),
      ((''rbac.authorization.k8s.io'', ''v1'', ''ClusterRoleBinding''), ''ClusterRoleBindings'')]"

definition deleteTyped :: "'c tenant_client \<Rightarrow> Tenant \<Rightarrow> string option \<Rightarrow> gvk \<times> string \<Rightarrow> ('c, bool) call" where
  "deleteTyped k tenant ns gp =
     (let inNs = (case ns of None \<Rightarrow> [] | Some n \<Rightarrow> '' in '' @ goQuote n);
          pre = (case ns of None \<Rightarrow> [] | Some n \<Rightarrow> n @ ''/'')
      in bnd (wrapErr (''list '' @ snd gp @ inNs @ '': '') (tc_list k (fst gp) ns))
           (\<lambda>items. deleteItems k (\<lambda>item. ''delete '' @ kindOf (fst gp) @ '' '' @ pre @ uo_name item @ '': '') tenant items False))"

definition gvkString :: "gvk \<Rightarrow> string" where
  "gvkString g = fst g @ ''/'' @ fst (snd g) @ '', Kind='' @ kindOf g"

definition deleteOwnedUnstructured :: "'c tenant_client \<Rightarrow> Tenant \<Rightarrow> string \<Rightarrow> gvk \<Rightarrow> ('c, bool) call" where
  "deleteOwnedUnstructured k tenant ns g =
     attempt (tc_list k g (Some ns))
       (\<lambda>r. case r of
          Inl err \<Rightarrow>
            if isNoMatchError err then ret False
            else fail (Wrap (''list '' @ gvkString (fst g, fst (snd g), kindOf g @ ''List'') @ '' in namespace '' @ goQuote ns @ '': '') err [])
        | Inr items \<Rightarrow> deleteItems k (\<lambda>obj. ''delete '' @ kindOf (uo_gvk obj) @ '' '' @ ns @ ''/'' @ uo_name obj @ '': '') tenant items False)"

text \<open>Running steps in order, whether any of them is pending.\<close>

fun anyPending :: "('a \<Rightarrow> ('c, bool) call) \<Rightarrow> 'a list \<Rightarrow> ('c, bool) call" where
  "anyPending f [] = ret False"
| "anyPending f (x # xs) = bnd (f x) (\<lambda>p. bnd (anyPending f xs) (\<lambda>q. ret (p \<or> q)))"

definition deleteOwnedInNamespace :: "'c tenant_client \<Rightarrow> Tenant \<Rightarrow> string \<Rightarrow> ('c, bool) call" where
  "deleteOwnedInNamespace k tenant ns =
     bnd (anyPending (deleteTyped k tenant (Some ns)) namespacedKinds)
       (\<lambda>p. bnd (anyPending (deleteOwnedUnstructured k tenant ns) optionalPlatformGVKs) (\<lambda>q. ret (p \<or> q)))"

definition deleteOwnedClusterScoped :: "'c tenant_client \<Rightarrow> Tenant \<Rightarrow> ('c, bool) call" where
  "deleteOwnedClusterScoped k tenant = anyPending (deleteTyped k tenant None) clusterKinds"

definition finalizeTenantDeletion :: "'c tenant_client \<Rightarrow> (string \<Rightarrow> string) \<Rightarrow> TenantReconciler \<Rightarrow> Tenant \<Rightarrow> ('c, bool) call" where
  "finalizeTenantDeletion k getenv r tenant =
     (let namespaces = tenantWorkNamespaces tenant (operatorNamespace getenv r) (tr_AppNamespace r)
      in if namespaces = []
         then fail (ErrText (''cannot finalize Tenant '' @ om_namespace (tn_meta tenant) @ ''/'' @ om_name (tn_meta tenant) @
           '': no work namespaces resolved (operator namespace and GatewayRef.Namespace are both empty); namespaced children may be orphaned''))
         else
           bnd (anyPending (deleteOwnedInNamespace k tenant) namespaces)
             (\<lambda>p. bnd (deleteOwnedClusterScoped k tenant) (\<lambda>q. ret (p \<or> q))))"

section \<open>The API server\<close>

record tenant_world =
  vw_tenants :: "nsn \<Rightarrow> Tenant option"
  vw_objects :: "gvk \<Rightarrow> nsn \<Rightarrow> Unstructured option"
  vw_registered :: "gvk \<Rightarrow> bool"

definition objKey :: "Unstructured \<Rightarrow> nsn" where
  "objKey u = nsnOf (uo_meta u)"

definition tenant_wf :: "tenant_world \<Rightarrow> bool" where
  "tenant_wf w \<longleftrightarrow>
     (\<forall>key t. vw_tenants w key = Some t \<longrightarrow> nsnOf (tn_meta t) = key) \<and>
     (\<forall>g key u. vw_objects w g key = Some u \<longrightarrow> uo_gvk u = g \<and> objKey u = key \<and> vw_registered w g)"

text \<open>Reads and lists of a kind, which fail with a no-match error when the kind is not registered.\<close>

definition kindRead ::
  "('c \<Rightarrow> tenant_world) \<Rightarrow> ('c \<Rightarrow> bool) \<Rightarrow> gvk \<Rightarrow> ('c, 'a) call \<Rightarrow> (tenant_world \<Rightarrow> cerror + 'a \<Rightarrow> bool) \<Rightarrow> bool" where
  "kindRead view healthy g m answer \<longleftrightarrow>
     (\<forall>c. view (fst (m c)) = view c \<and>
        (\<forall>x. snd (m c) = Inr x \<longrightarrow> answer (view c) (Inr x) \<and> vw_registered (view c) g) \<and>
        (snd (m c) = Inl ApiNotFound \<longrightarrow> answer (view c) (Inl ApiNotFound)) \<and>
        (snd (m c) = Inl ApiNoMatch \<longrightarrow> \<not> vw_registered (view c) g) \<and>
        (healthy c \<longrightarrow> healthy (fst (m c)) \<and>
          (if vw_registered (view c) g then answer (view c) (snd (m c)) else snd (m c) = Inl ApiNoMatch)))"

definition stores :: "gvk \<Rightarrow> nsn \<Rightarrow> tenant_world \<Rightarrow> cerror + Unstructured \<Rightarrow> bool" where
  "stores g key w r \<longleftrightarrow> r = (case vw_objects w g key of None \<Rightarrow> Inl ApiNotFound | Some u \<Rightarrow> Inr u)"

definition inScope :: "string option \<Rightarrow> Unstructured \<Rightarrow> bool" where
  "inScope ns u \<longleftrightarrow> (case ns of None \<Rightarrow> True | Some n \<Rightarrow> uo_namespace u = n)"

definition lists_kind :: "gvk \<Rightarrow> string option \<Rightarrow> tenant_world \<Rightarrow> cerror + Unstructured list \<Rightarrow> bool" where
  "lists_kind g ns w r \<longleftrightarrow>
     (\<exists>xs. r = Inr xs \<and> distinct xs \<and> set xs = {u \<in> ran (vw_objects w g). inScope ns u})"

text \<open>The effects of the writes.\<close>

definition putObject :: "Unstructured \<Rightarrow> tenant_world \<Rightarrow> tenant_world" where
  "putObject u w = w\<lparr>vw_objects := (vw_objects w)(uo_gvk u := (vw_objects w (uo_gvk u))(objKey u \<mapsto> u))\<rparr>"

definition afterDeletion :: "Unstructured \<Rightarrow> Unstructured option" where
  "afterDeletion u =
     (if om_finalizers (uo_meta u) = [] then None else Some (u\<lparr>uo_meta := (uo_meta u)\<lparr>om_deleting := True\<rparr>\<rparr>))"

definition dropObject :: "Unstructured \<Rightarrow> tenant_world \<Rightarrow> tenant_world" where
  "dropObject u w = w\<lparr>vw_objects := (vw_objects w)(uo_gvk u := (vw_objects w (uo_gvk u))
     (objKey u := Option.bind (vw_objects w (uo_gvk u) (objKey u)) afterDeletion))\<rparr>"

text \<open>What server-side apply stores: what was sent, merged into what is there. Owners and labels that
  were sent are present afterwards; identity and deletion state are kept.\<close>

definition appliedAs :: "Unstructured \<Rightarrow> Unstructured option \<Rightarrow> Unstructured \<Rightarrow> bool" where
  "appliedAs u old u' \<longleftrightarrow> uo_gvk u' = uo_gvk u \<and> objKey u' = objKey u \<and>
     set (uo_owners u) \<subseteq> set (uo_owners u') \<and> map_of (om_labels (uo_meta u)) \<subseteq>\<^sub>m map_of (om_labels (uo_meta u')) \<and>
     om_deleting (uo_meta u') = (case old of None \<Rightarrow> False | Some o' \<Rightarrow> om_deleting (uo_meta o'))"

definition putTenant :: "Tenant \<Rightarrow> tenant_world \<Rightarrow> tenant_world" where
  "putTenant t w = w\<lparr>vw_tenants := (vw_tenants w)(nsnOf (tn_meta t) :=
     (if om_deleting (tn_meta t) \<and> om_finalizers (tn_meta t) = [] then None else Some t))\<rparr>"

text \<open>The merge patches the code sends change the finalizers or the gateway reference.\<close>

definition withSpec :: "string list \<Rightarrow> TenantGatewayRef \<Rightarrow> Tenant \<Rightarrow> Tenant" where
  "withSpec fins gw t =
     t\<lparr>tn_meta := (tn_meta t)\<lparr>om_finalizers := fins\<rparr>, tn_spec := (tn_spec t)\<lparr>tsp_gatewayRef := gw\<rparr>\<rparr>"

definition mergeTenant :: "Tenant \<Rightarrow> string list \<Rightarrow> TenantGatewayRef \<Rightarrow> Tenant \<Rightarrow> Tenant" where
  "mergeTenant base fins gw t =
     withSpec (if fins = om_finalizers (tn_meta base) then om_finalizers (tn_meta t) else fins)
       (if gw = tn_gateway base then tn_gateway t else gw) t"

definition patchedTenant :: "Tenant \<Rightarrow> string list \<Rightarrow> TenantGatewayRef \<Rightarrow> tenant_world \<Rightarrow> tenant_world" where
  "patchedTenant base fins gw w =
     (case vw_tenants w (nsnOf (tn_meta base)) of None \<Rightarrow> w | Some t \<Rightarrow> putTenant (mergeTenant base fins gw t) w)"

definition statusTenant :: "Tenant \<Rightarrow> tenant_world \<Rightarrow> tenant_world" where
  "statusTenant t w =
     (case vw_tenants w (nsnOf (tn_meta t)) of
        None \<Rightarrow> w
      | Some x \<Rightarrow> w\<lparr>vw_tenants := (vw_tenants w)(nsnOf (tn_meta t) \<mapsto> x\<lparr>tn_status := tn_status t\<rparr>)\<rparr>)"

locale tenant_server =
  fixes k :: "'c tenant_client" and view :: "'c \<Rightarrow> tenant_world" and healthy :: "'c \<Rightarrow> bool"
  assumes wf: "tenant_wf (view c)"
    and getTenant: "reads view healthy (tc_getTenant k key) (\<lambda>w. vw_tenants w key)"
    and getObject: "kindRead view healthy g (tc_get k g key) (stores g key)"
    and listObjects: "kindRead view healthy g (tc_list k g ns) (lists_kind g ns)"
    and restMapping: "kindRead view healthy g (tc_restMapping k g) (\<lambda>w r. r = Inr ())"
    and deleteObject: "writes view healthy (tc_delete k u) (\<lambda>w. vw_objects w (uo_gvk u) (objKey u) \<noteq> None) (dropObject u)"
    and applyObject: "(\<exists>u'. appliedAs u (vw_objects (view c) (uo_gvk u) (objKey u)) u' \<and>
        vw_registered (view c) (uo_gvk u) \<and> view (fst (tc_apply k u c)) = putObject u' (view c)) \<or>
      view (fst (tc_apply k u c)) = view c \<and> (\<exists>e. snd (tc_apply k u c) = Inl e)"
    and applyNoMatch: "snd (tc_apply k u c) = Inl ApiNoMatch \<Longrightarrow> \<not> vw_registered (view c) (uo_gvk u)"
    and patchTenant: "writes view healthy (tc_patchTenant k t (withSpec fins gw t)) (\<lambda>w. vw_tenants w (nsnOf (tn_meta t)) \<noteq> None)
      (patchedTenant t fins gw)"
    and updateStatus: "writes view healthy (tc_statusTenant k t) (\<lambda>w. vw_tenants w (nsnOf (tn_meta t)) \<noteq> None) (statusTenant t)"
    and setControllerReference: "tl_setControllerReference k t os = Inr os' \<Longrightarrow>
      \<exists>ref \<in> set os'. or_uid ref = tn_uid t \<and> or_kind ref = TenantKind \<and> or_apiVersion ref = GroupVersionString"
    and setStatusCondition: "tl_isStatusConditionTrue k (tl_setStatusCondition k cs cd) ty =
      (if ty = cd_type cd then cd_status cd = ''True'' else tl_isStatusConditionTrue k cs ty)"

end
