(* ===== verification/Tenant_Controller.thy ===== *)
theory Tenant_Controller
  imports Tenant_Finalize
begin

text \<open>
  The Tenant reconciler: \<open>tenant_controller.go\<close>, \<open>tenant_reconcile.go\<close> and \<open>tenant_conditions.go\<close> of
  \<open>maas-controller/pkg/controller/maas\<close>, and of \<open>maas-controller/pkg/platform/tenantreconcile\<close> the checks
  of \<open>prerequisites.go\<close>, the pipeline of \<open>pipeline.go\<close> and \<open>ApplyRendered\<close> of \<open>apply.go\<close>. The reconciler works
  on its own copy of the Tenant, which the steps return changed; a typed object that is read is decoded
  from its \<open>Unstructured\<close> by the converters of \<open>uns_api\<close>.
\<close>

section \<open>tenant\_controller.go: what triggers a reconciliation\<close>

definition enqueueDefaultTenant :: "TenantReconciler \<Rightarrow> nsn list" where
  "enqueueDefaultTenant r = [(tr_TenantNamespace r, TenantInstanceName)]"

definition crdLabeledForMaaSComponent :: "ObjectMeta \<Rightarrow> bool" where
  "crdLabeledForMaaSComponent m \<longleftrightarrow> strMapIndex (om_labels m) (LabelODHAppPrefix @ ''/'' @ ComponentName) = ''true''"

definition crdInOptionalAPIGroup :: "ObjectMeta \<Rightarrow> bool" where
  "crdInOptionalAPIGroup m = list_ex (\<lambda>g. hasSuffix (om_name m) (''.'' @ g)) OptionalAPIGroups"

definition secretNamedMaaSDB :: "ObjectMeta \<Rightarrow> bool" where
  "secretNamedMaaSDB m \<longleftrightarrow> om_name m = MaaSDBSecretName"

definition inTenantWorkNamespaces :: "(string \<Rightarrow> string) \<Rightarrow> TenantReconciler \<Rightarrow> ObjectMeta \<Rightarrow> bool" where
  "inTenantWorkNamespaces getenv r m \<longleftrightarrow> om_namespace m = tr_AppNamespace r \<or> om_namespace m = operatorNamespace getenv r"

definition authenticationClusterSingleton :: "ObjectMeta \<Rightarrow> bool" where
  "authenticationClusterSingleton m \<longleftrightarrow> om_name m = ''cluster''"

datatype watch_event = CreateEvent | UpdateEvent | DeleteEvent | GenericEvent

definition deletedConfigMapOnly :: "watch_event \<Rightarrow> bool" where
  "deletedConfigMapOnly e = (case e of DeleteEvent \<Rightarrow> True | _ \<Rightarrow> False)"

section \<open>tenant\_conditions.go\<close>

definition setTenantCondition :: "'c tenant_client \<Rightarrow> string \<Rightarrow> string \<Rightarrow> string \<Rightarrow> string \<Rightarrow> Tenant \<Rightarrow> Tenant" where
  "setTenantCondition k typ status reason message tenant =
     tenant\<lparr>tn_status := (tn_status tenant)\<lparr>tst_conditions := tl_setStatusCondition k (tst_conditions (tn_status tenant))
       \<lparr>cd_type = typ, cd_status = status, cd_reason = reason, cd_message = message,
        cd_observedGeneration = om_generation (tn_meta tenant)\<rparr>\<rparr>\<rparr>"

definition setDependenciesCondition :: "'c tenant_client \<Rightarrow> bool \<Rightarrow> string \<Rightarrow> Tenant \<Rightarrow> Tenant" where
  "setDependenciesCondition k ok detail tenant =
     (if ok then setTenantCondition k ConditionDependenciesAvailable ''True'' ''DependenciesMet''
        ''AuthConfig CRD (Kuadrant) is available on the cluster'' tenant
      else setTenantCondition k ConditionDependenciesAvailable ''False'' ''DependencyMissing'' detail tenant)"

record PrerequisiteReport =
  pr_blocking :: "string list"
  pr_warnings :: "string list"

definition setPrerequisiteConditionsFromReport :: "'c tenant_client \<Rightarrow> PrerequisiteReport \<Rightarrow> Tenant \<Rightarrow> Tenant" where
  "setPrerequisiteConditionsFromReport k rep tenant =
     (if pr_blocking rep \<noteq> [] then
        let agg = joinStrings ''; '' (pr_blocking rep @ pr_warnings rep)
        in setTenantCondition k ConditionTypeDegraded ''True'' ''PrerequisitesMissing'' agg
             (setTenantCondition k ConditionMaaSPrerequisitesAvailable ''False'' ''PrerequisitesMissing'' agg tenant)
      else if pr_warnings rep \<noteq> [] then
        setTenantCondition k ConditionTypeDegraded ''True'' ''PrerequisitesWarning'' (joinStrings ''; '' (pr_warnings rep))
          (setTenantCondition k ConditionMaaSPrerequisitesAvailable ''True'' ''PrerequisitesMet''
             ''Prerequisites satisfied; see Degraded for warnings'' tenant)
      else
        setTenantCondition k ConditionTypeDegraded ''False'' ''PrerequisitesMet'' ''All prerequisites are satisfied''
          (setTenantCondition k ConditionMaaSPrerequisitesAvailable ''True'' ''PrerequisitesMet'' ''All prerequisites are satisfied'' tenant))"

definition setDeploymentsAvailableCondition :: "'c tenant_client \<Rightarrow> bool \<Rightarrow> string \<Rightarrow> string \<Rightarrow> Tenant \<Rightarrow> Tenant" where
  "setDeploymentsAvailableCondition k ok reason message tenant =
     setTenantCondition k ConditionDeploymentsAvailable (if ok then ''True'' else ''False'') reason message tenant"

definition prerequisitesUnevaluatedCondition :: "'c tenant_client \<Rightarrow> string \<Rightarrow> Tenant \<Rightarrow> Tenant" where
  "prerequisitesUnevaluatedCondition k detail tenant =
     setTenantCondition k ConditionTypeDegraded ''False'' ''DependenciesNotMet'' detail
       (setTenantCondition k ConditionMaaSPrerequisitesAvailable ''Unknown'' ''DependenciesNotMet'' detail tenant)"

section \<open>prerequisites.go\<close>

definition IsGVKAvailable :: "'c tenant_client \<Rightarrow> gvk \<Rightarrow> ('c, bool) call" where
  "IsGVKAvailable k g =
     attempt (tc_restMapping k g)
       (\<lambda>r. case r of Inl err \<Rightarrow> if isNoMatchError err then ret False else fail err | Inr _ \<Rightarrow> ret True)"

definition GetClusterServiceAccountIssuer :: "'c tenant_client \<Rightarrow> ('c, string) call" where
  "GetClusterServiceAccountIssuer k =
     attempt (tc_get k (''config.openshift.io'', ''v1'', ''Authentication'') ([], ''cluster''))
       (\<lambda>r. case r of
          Inl err \<Rightarrow> if isNoMatchError err \<or> isNotFound err then ret [] else fail err
        | Inr u \<Rightarrow>
            (case un_nestedString (tl_api k) (uo_body u) [''spec'', ''serviceAccountIssuer''] of
               (issuer, found, err) \<Rightarrow>
                 (case err of
                    Some e \<Rightarrow> fail (ErrText (''reading spec.serviceAccountIssuer: '' @ e))
                  | None \<Rightarrow> if \<not> found then ret [] else ret issuer)))"

definition authorinoTLS :: "uns_api \<Rightarrow> Unstructured \<Rightarrow> bool" where
  "authorinoTLS api item =
     (case un_nestedBool api (uo_body item) [''spec'', ''listener'', ''tls'', ''enabled''] of
        (enabled, _, err) \<Rightarrow>
          if err \<noteq> None then False
          else (case un_nestedString api (uo_body item) [''spec'', ''listener'', ''tls'', ''certSecretRef'', ''name''] of
                  (certName, _, err2) \<Rightarrow> err2 = None \<and> enabled \<and> certName \<noteq> []))"

definition checkAuthorinoTLS :: "'c tenant_client \<Rightarrow> ('c, string) call" where
  "checkAuthorinoTLS k =
     attempt (IsGVKAvailable k GVKAuthorino)
       (\<lambda>r. case r of
          Inl _ \<Rightarrow> ret ''failed to check Authorino CRD availability due to a cluster API error''
        | Inr has \<Rightarrow>
            if \<not> has then ret []
            else
              attempt (tc_list k GVKAuthorino None)
                (\<lambda>l. case l of
                   Inl _ \<Rightarrow> ret ''failed to list Authorino instances due to a cluster API error''
                 | Inr items \<Rightarrow>
                     if items = []
                     then ret (''no Authorino instances found. '' @ ''Authorino must be deployed and configured with TLS for MaaS authentication'')
                     else if list_ex (authorinoTLS (tl_api k)) items then ret []
                     else ret (''Authorino TLS is not configured: no Authorino instance has listener.tls.enabled=true with a certSecretRef. '' @
                       ''Patch Authorino with spec.listener.tls.enabled=true and spec.listener.tls.certSecretRef to enable TLS. '' @
                       ''See https://docs.kuadrant.io/1.0.x/authorino/docs/user-guides/mtls-authentication/'')))"

definition GVKSecret :: gvk where "GVKSecret = ([], ''v1'', ''Secret'')"

text \<open>A typed read: the stored object, decoded.\<close>

definition getStringData :: "'c tenant_client \<Rightarrow> gvk \<Rightarrow> nsn \<Rightarrow> ('c, (string \<times> string) list) call" where
  "getStringData k g key = bnd (tc_get k g key) (\<lambda>u. lift (un_stringData (tl_api k) u))"

definition missingDBKey :: "string \<Rightarrow> string" where
  "missingDBKey appNamespace =
     ''database Secret '' @ sq MaaSDBSecretName @ '' in namespace '' @ sq appNamespace @ '' is missing required key '' @ sq MaaSDBSecretKey @ ''. '' @
     ''The Secret must contain a valid PostgreSQL connection URL''"

definition checkDatabaseSecret :: "'c tenant_client \<Rightarrow> string \<Rightarrow> ('c, string) call" where
  "checkDatabaseSecret k appNamespace =
     attempt (getStringData k GVKSecret (appNamespace, MaaSDBSecretName))
       (\<lambda>r. case r of
          Inl err \<Rightarrow>
            if isNotFound err
            then ret (''database Secret '' @ sq MaaSDBSecretName @ '' not found in namespace '' @ sq appNamespace @ ''. '' @
              ''Create the Secret with key '' @ sq MaaSDBSecretKey @ '' containing the PostgreSQL connection URL. '' @
              ''MaaS API cannot start without a database connection'')
            else ret (''failed to check database Secret '' @ sq MaaSDBSecretName @ '' in namespace '' @ sq appNamespace @
              '' due to a cluster API error'')
        | Inr data \<Rightarrow>
            (case map_of data MaaSDBSecretKey of
               Some value \<Rightarrow> if trimSpace value = [] then ret (missingDBKey appNamespace) else ret []
             | None \<Rightarrow> ret (missingDBKey appNamespace)))"

definition workloadMonitoringOff :: string where
  "workloadMonitoringOff =
     ''User Workload Monitoring is not enabled. '' @
     ''Set enableUserWorkload: true in '' @ sq ''cluster-monitoring-config'' @ '' ConfigMap in '' @ sq ''openshift-monitoring'' @ '' namespace. '' @
     ''Showback/FinOps usage views will not work without it''"

definition checkUserWorkloadMonitoring :: "'c tenant_client \<Rightarrow> ('c, string) call" where
  "checkUserWorkloadMonitoring k =
     attempt (getStringData k GVKConfigMap (MonitoringNamespace, ClusterMonitoringConfigName))
       (\<lambda>r. case r of
          Inl err \<Rightarrow>
            if isNotFound err
            then ret (''User Workload Monitoring not configured: ConfigMap '' @ sq ''cluster-monitoring-config'' @ '' not found in '' @
              sq ''openshift-monitoring'' @ ''. '' @ ''Showback/FinOps usage views will not work without User Workload Monitoring enabled'')
            else ret (''unable to verify User Workload Monitoring status due to a cluster API error. '' @
              ''Ensure User Workload Monitoring is enabled for showback functionality'')
        | Inr data \<Rightarrow>
            (case map_of data ''config.yaml'' of
               None \<Rightarrow> ret workloadMonitoringOff
             | Some configData \<Rightarrow>
                 (case tl_yamlWorkload k configData of
                    Inl _ \<Rightarrow> ret (''User Workload Monitoring config is invalid in '' @ sq ''cluster-monitoring-config'' @ ''. '' @
                      ''Ensure config.yaml is valid YAML and sets enableUserWorkload: true'')
                  | Inr enabled \<Rightarrow> if \<not> enabled then ret workloadMonitoringOff else ret [])))"

definition nonEmpty :: "string \<Rightarrow> string list" where
  "nonEmpty msg = (if msg \<noteq> [] then [msg] else [])"

definition CollectPrerequisiteReport :: "'c tenant_client \<Rightarrow> string \<Rightarrow> ('c, PrerequisiteReport) call" where
  "CollectPrerequisiteReport k appNamespace =
     bnd (checkAuthorinoTLS k)
       (\<lambda>tls. bnd (checkDatabaseSecret k appNamespace)
         (\<lambda>db. bnd (checkUserWorkloadMonitoring k)
           (\<lambda>mon. ret \<lparr>pr_blocking = nonEmpty db, pr_warnings = nonEmpty tls @ nonEmpty mon\<rparr>)))"

definition ValidatePrerequisites :: "'c tenant_client \<Rightarrow> string \<Rightarrow> ('c, unit) call" where
  "ValidatePrerequisites k appNamespace =
     bnd (CollectPrerequisiteReport k appNamespace)
       (\<lambda>rep. if pr_blocking rep \<noteq> []
          then fail (ErrText (''blocking prerequisites missing: '' @ joinStrings ''; '' (pr_blocking rep @ pr_warnings rep))) else ret ())"

section \<open>apply.go\<close>

definition setTenantTrackingLabels :: "Unstructured \<Rightarrow> Tenant \<Rightarrow> Unstructured" where
  "setTenantTrackingLabels obj tenant =
     setLabels (AList.update LabelTenantNamespace (om_namespace (tn_meta tenant))
       (AList.update LabelTenantName (om_name (tn_meta tenant)) (om_labels (uo_meta obj)))) obj"

text \<open>The object as it is sent: with its owner or its tracking labels, without server-side fields.\<close>

definition prepareObject :: "'c tenant_client \<Rightarrow> Tenant \<Rightarrow> Unstructured \<Rightarrow> cerror + Unstructured" where
  "prepareObject k tenant u =
     (let childNs = uo_namespace u;
          strip = (\<lambda>x. x\<lparr>uo_managedFields := [], uo_resourceVersion := [], uo_body := filter (\<lambda>(f, _). f \<noteq> ''status'') (uo_body x)\<rparr>)
      in if childNs \<noteq> [] \<and> childNs = om_namespace (tn_meta tenant)
         then andThen (''set controller reference on '' @ kindOf (uo_gvk u) @ '' '' @ uo_namespace u @ ''/'' @ uo_name u @ '': '')
                (tl_setControllerReference k tenant (uo_owners u)) (\<lambda>os. Inr (strip (u\<lparr>uo_owners := os\<rparr>)))
         else Inr (strip (setTenantTrackingLabels u tenant)))"

definition applyOne :: "'c tenant_client \<Rightarrow> Tenant \<Rightarrow> Unstructured \<Rightarrow> ('c, unit) call" where
  "applyOne k tenant obj =
     bnd (lift (prepareObject k tenant obj))
       (\<lambda>u. attempt (tc_apply k u)
          (\<lambda>r. case r of
             Inr _ \<Rightarrow> ret ()
           | Inl err \<Rightarrow>
               if isNoMatchError err \<and> isOptionalAPIGroup (fst (uo_gvk u)) then ret ()
               else fail (Wrap (''apply '' @ kindOf (uo_gvk u) @ '' '' @ uo_namespace u @ ''/'' @ uo_name u @ '': '') err [])))"

definition ApplyRendered :: "'c tenant_client \<Rightarrow> Tenant \<Rightarrow> Unstructured list \<Rightarrow> ('c, unit) call" where
  "ApplyRendered k tenant objs = forE (applyOne k tenant) objs"

section \<open>pipeline.go\<close>

record RunResult =
  rr_deploymentPending :: bool
  rr_detail :: string

definition CheckDependencies :: "'c tenant_client \<Rightarrow> ('c, unit) call" where
  "CheckDependencies k =
     bnd (wrapErr ''dependencies: '' (IsGVKAvailable k GVKAuthConfig))
       (\<lambda>ok. if \<not> ok then fail (ErrText ''dependency missing: AuthConfig CRD (authorino.kuadrant.io/v1beta3) not available on cluster'')
             else ret ())"

definition GVKGateway :: gvk where "GVKGateway = (''gateway.networking.k8s.io'', ''v1'', ''Gateway'')"

definition deploymentReadiness :: "Deployment \<Rightarrow> bool \<times> string" where
  "deploymentReadiness dep =
     (let desired = (case dp_replicas dep of None \<Rightarrow> 1 | Some n \<Rightarrow> n)
      in if dp_observedGeneration dep < om_generation (dp_meta dep) then (False, ''waiting for deployment spec to be observed'')
         else if dp_updatedReplicas dep < desired
         then (False, ''updated replicas '' @ showInt (dp_updatedReplicas dep) @ ''/'' @ showInt desired)
         else if dp_availableReplicas dep < desired
         then (False, ''available replicas '' @ showInt (dp_availableReplicas dep) @ ''/'' @ showInt desired)
         else (True, []))"

definition MaasAPIDeploymentReady :: "'c tenant_client \<Rightarrow> string \<Rightarrow> ('c, bool \<times> string) call" where
  "MaasAPIDeploymentReady k appNamespace =
     attempt (bnd (tc_get k GVKDeployment (appNamespace, MaaSAPIDeploymentName)) (\<lambda>u. lift (un_toDeployment (tl_api k) u)))
       (\<lambda>r. case r of
          Inl err \<Rightarrow>
            if isNotFound err
            then ret (False, ''deployment '' @ appNamespace @ ''/'' @ MaaSAPIDeploymentName @ '' not found'') else fail err
        | Inr dep \<Rightarrow> ret (deploymentReadiness dep))"

definition RunPlatform ::
  "'c tenant_client \<Rightarrow> 'c files_api \<Rightarrow> ('c, 'r, 'b) kustomize_api \<Rightarrow> Tenant \<Rightarrow> string \<Rightarrow> string \<Rightarrow> ('c, RunResult) call" where
  "RunPlatform k fs kz tenant manifestPath0 appNs =
     bnd (wrapErr ''manifest path: '' (lift (fs_abs fs manifestPath0)))
       (\<lambda>manifestPath.
          if tl_dns1123 k appNs \<noteq> []
          then fail (ErrText (''invalid application namespace '' @ goQuote appNs @ '': ['' @ joinStrings '' '' (tl_dns1123 k appNs) @ '']''))
          else if gr_namespace (tn_gateway tenant) = [] \<or> gr_name (tn_gateway tenant) = []
          then fail (ErrText ''gateway ref must be set (reconciler should default gateway before calling RunPlatform)'')
          else
            attempt (tc_get k GVKGateway (gr_namespace (tn_gateway tenant), gr_name (tn_gateway tenant)))
              (\<lambda>gw. case gw of
                 Inl err \<Rightarrow>
                   if isNotFound err
                   then fail (ErrText (''gateway '' @ gr_namespace (tn_gateway tenant) @ ''/'' @ gr_name (tn_gateway tenant) @ '' not found''))
                   else fail (Wrap ''gateway lookup: '' err [])
               | Inr _ \<Rightarrow>
                   bnd (wrapErr ''cluster audience: '' (GetClusterServiceAccountIssuer k))
                     (\<lambda>audience. bnd (wrapErr ''customize params: '' (CustomizeParams fs manifestPath tenant appNs audience))
                       (\<lambda>_. bnd (wrapErr ''kustomize: '' (RenderKustomize fs kz manifestPath appNs))
                         (\<lambda>rendered. bnd (wrapErr ''post-render: '' (lift (PostRender (tl_api k) tenant rendered)))
                           (\<lambda>resources. bnd (wrapErr ''apply: '' (ApplyRendered k tenant resources))
                             (\<lambda>_. bnd (wrapErr ''deployment status: '' (MaasAPIDeploymentReady k appNs))
                               (\<lambda>(ready, detail).
                                  if \<not> ready then ret \<lparr>rr_deploymentPending = True, rr_detail = detail\<rparr>
                                  else ret \<lparr>rr_deploymentPending = False, rr_detail = []\<rparr>))))))))"

definition Run ::
  "'c tenant_client \<Rightarrow> 'c files_api \<Rightarrow> ('c, 'r, 'b) kustomize_api \<Rightarrow> Tenant \<Rightarrow> string \<Rightarrow> ('c, RunResult) call" where
  "Run k fs kz tenant manifestPath0 =
     bnd (wrapErr ''manifest path: '' (lift (fs_abs fs manifestPath0)))
       (\<lambda>manifestPath. bnd (CheckDependencies k)
         (\<lambda>_. let appNs = om_namespace (tn_meta tenant)
              in if tl_dns1123 k appNs \<noteq> []
                 then fail (ErrText (''invalid application namespace '' @ goQuote appNs @ '': ['' @ joinStrings '' '' (tl_dns1123 k appNs) @ '']''))
                 else bnd (wrapErr ''prerequisites: '' (ValidatePrerequisites k appNs))
                        (\<lambda>_. RunPlatform k fs kz tenant manifestPath appNs)))"

section \<open>tenant\_reconcile.go\<close>

datatype tenant_result = Done | Requeue | RequeueAfter int

definition managementStateAnnotation :: string where
  "managementStateAnnotation = ''component.opendatahub.io/management-state''"

definition tenantFinalizer :: string where
  "tenantFinalizer = ''maas.opendatahub.io/tenant-finalizer''"

definition managementState :: "(string \<times> string) list \<Rightarrow> string" where
  "managementState ann = strMapIndex ann managementStateAnnotation"

definition withPhase :: "string \<Rightarrow> Tenant \<Rightarrow> Tenant" where
  "withPhase phase tenant = tenant\<lparr>tn_status := (tn_status tenant)\<lparr>tst_phase := phase\<rparr>\<rparr>"

definition patchStatus :: "'c tenant_client \<Rightarrow> Tenant \<Rightarrow> string \<Rightarrow> string \<Rightarrow> string \<Rightarrow> string \<Rightarrow> ('c, Tenant) call" where
  "patchStatus k tenant phase status reason message =
     (let t = setTenantCondition k ReadyConditionType status reason message (withPhase phase tenant)
      in bnd (tc_statusTenant k t) (\<lambda>_. ret t))"

definition hasTenantFinalizer :: "Tenant \<Rightarrow> bool" where
  "hasTenantFinalizer t = List.member (om_finalizers (tn_meta t)) tenantFinalizer"

definition finalizersWithout :: "Tenant \<Rightarrow> string list" where
  "finalizersWithout t = filter (\<lambda>f. f \<noteq> tenantFinalizer) (om_finalizers (tn_meta t))"

definition removeTenantFinalizer :: "'c tenant_client \<Rightarrow> Tenant \<Rightarrow> ('c, unit) call" where
  "removeTenantFinalizer k tenant = tc_patchTenant k tenant (withSpec (finalizersWithout tenant) (tn_gateway tenant) tenant)"

definition handleIdleManagementState ::
  "'c tenant_client \<Rightarrow> (string \<Rightarrow> string) \<Rightarrow> TenantReconciler \<Rightarrow> Tenant \<Rightarrow> string \<Rightarrow> ('c, tenant_result) call" where
  "handleIdleManagementState k getenv r tenant0 ms =
     bnd (patchStatus k tenant0 [] ''False'' ''ManagementStateIdle''
            (''management state is '' @ goQuote ms @ ''; platform workloads are not driven by this reconciler in this state''))
       (\<lambda>tenant.
          if hasTenantFinalizer tenant then
            bnd (if ms = ''Removed'' then finalizeTenantDeletion k getenv r tenant else ret False)
              (\<lambda>pending. if pending then ret (RequeueAfter (5 * Second))
                 else bnd (removeTenantFinalizer k tenant) (\<lambda>_. ret Done))
          else ret Done)"

definition applyGatewayDefaults :: "Tenant \<Rightarrow> cerror + Tenant" where
  "applyGatewayDefaults tenant =
     (let ref = tn_gateway tenant
      in if gr_namespace ref = [] \<and> gr_name ref = []
         then Inr (withSpec (om_finalizers (tn_meta tenant)) \<lparr>gr_namespace = DefaultGatewayNamespace, gr_name = DefaultGatewayName\<rparr> tenant)
         else if gr_namespace ref = [] \<or> gr_name ref = []
         then Inl (ErrText ''invalid gateway specification: when specifying a custom gateway, both namespace and name must be provided'')
         else Inr tenant)"

definition validateGatewayExists :: "'c tenant_client \<Rightarrow> string \<Rightarrow> string \<Rightarrow> ('c, unit) call" where
  "validateGatewayExists k ns name =
     attempt (tc_get k GVKGateway (ns, name))
       (\<lambda>r. case r of
          Inr _ \<Rightarrow> ret ()
        | Inl err \<Rightarrow>
            if isNotFound err
            then fail (ErrText (''gateway '' @ ns @ ''/'' @ name @
              '' not found: the specified Gateway must exist before enabling MaaS platform reconcile''))
            else fail (Wrap (''failed to look up gateway '' @ ns @ ''/'' @ name @ '': '') err []))"

text \<open>The end of \<open>reconcile\<close>: dependencies, prerequisites, platform and the resulting status.\<close>

definition finishReady :: "'c tenant_client \<Rightarrow> Tenant \<Rightarrow> ('c, tenant_result) call" where
  "finishReady k tenant =
     (let phase = (if tl_isStatusConditionTrue k (tst_conditions (tn_status tenant)) ConditionTypeDegraded then ''Degraded'' else ''Active'');
          t = setTenantCondition k ReadyConditionType ''True'' ''Reconciled''
                ''MaaS platform manifests applied and maas-api deployment is available''
                (setDeploymentsAvailableCondition k True ''DeploymentsReady'' ''maas-api deployment is available'' (withPhase phase tenant))
      in bnd (tc_statusTenant k t) (\<lambda>_. ret (RequeueAfter (5 * Minute))))"

definition reconcilePlatform ::
  "'c tenant_client \<Rightarrow> 'c files_api \<Rightarrow> ('c, 'r, 'b) kustomize_api \<Rightarrow> TenantReconciler \<Rightarrow> Tenant \<Rightarrow> ('c, tenant_result) call" where
  "reconcilePlatform k fs kz r tenant =
     attempt (RunPlatform k fs kz tenant (tr_ManifestPath r) (tr_AppNamespace r))
       (\<lambda>res. case res of
          Inl err \<Rightarrow>
            bnd (patchStatus k (setDeploymentsAvailableCondition k False ''PlatformReconcileFailed'' (errText err) tenant)
                   ''Failed'' ''False'' ''PlatformReconcileFailed'' (errText err)) (\<lambda>_. ret (RequeueAfter (45 * Second)))
        | Inr runRes \<Rightarrow>
            if rr_deploymentPending runRes then
              bnd (patchStatus k (setDeploymentsAvailableCondition k False ''DeploymentsNotReady'' (rr_detail runRes) tenant)
                     ''Pending'' ''False'' ''DeploymentsNotReady'' (rr_detail runRes)) (\<lambda>_. ret (RequeueAfter (20 * Second)))
            else finishReady k tenant)"

definition reconcileChecked ::
  "'c tenant_client \<Rightarrow> 'c files_api \<Rightarrow> ('c, 'r, 'b) kustomize_api \<Rightarrow> TenantReconciler \<Rightarrow> Tenant \<Rightarrow> ('c, tenant_result) call" where
  "reconcileChecked k fs kz r tenant =
     attempt (CheckDependencies k)
       (\<lambda>dep. case dep of
          Inl err \<Rightarrow>
            bnd (patchStatus k
                   (prerequisitesUnevaluatedCondition k ''Prerequisites were not evaluated because required dependencies are not met''
                     (setDeploymentsAvailableCondition k False ''DependenciesNotMet'' (errText err)
                       (setDependenciesCondition k False (errText err) tenant)))
                   ''Pending'' ''False'' ''DependenciesNotAvailable'' (errText err)) (\<lambda>_. ret (RequeueAfter (45 * Second)))
        | Inr _ \<Rightarrow>
            bnd (CollectPrerequisiteReport k (tr_AppNamespace r))
              (\<lambda>rep.
                 let t = setPrerequisiteConditionsFromReport k rep (setDependenciesCondition k True [] tenant)
                 in if pr_blocking rep \<noteq> [] then
                      let agg = joinStrings ''; '' (pr_blocking rep @ pr_warnings rep)
                      in bnd (patchStatus k (setDeploymentsAvailableCondition k False ''PrerequisitesMissing'' agg t)
                                ''Failed'' ''False'' ''PrerequisitesNotMet'' agg) (\<lambda>_. ret (RequeueAfter (45 * Second)))
                    else reconcilePlatform k fs kz r t))"

definition reconcileGateway ::
  "'c tenant_client \<Rightarrow> 'c files_api \<Rightarrow> ('c, 'r, 'b) kustomize_api \<Rightarrow> TenantReconciler \<Rightarrow> Tenant \<Rightarrow> ('c, tenant_result) call" where
  "reconcileGateway k fs kz r tenant =
     attempt (validateGatewayExists k (gr_namespace (tn_gateway tenant)) (gr_name (tn_gateway tenant)))
       (\<lambda>gw. case gw of
          Inl err \<Rightarrow> bnd (patchStatus k tenant ''Pending'' ''False'' ''GatewayNotReady'' (errText err)) (\<lambda>_. ret (RequeueAfter (30 * Second)))
        | Inr _ \<Rightarrow>
            if tr_ManifestPath r = []
            then bnd (patchStatus k tenant ''Failed'' ''False'' ''ManifestPathUnset''
                   ''MAAS_PLATFORM_MANIFESTS is not set and no default kustomize path resolved; cannot apply platform manifests'')
                   (\<lambda>_. ret (RequeueAfter (2 * Minute)))
            else reconcileChecked k fs kz r tenant)"

definition reconcileManaged ::
  "'c tenant_client \<Rightarrow> 'c files_api \<Rightarrow> ('c, 'r, 'b) kustomize_api \<Rightarrow> TenantReconciler \<Rightarrow> nsn \<Rightarrow> Tenant \<Rightarrow> ('c, tenant_result) call" where
  "reconcileManaged k fs kz r req orig =
     (case applyGatewayDefaults orig of
        Inl err \<Rightarrow> bnd (patchStatus k orig ''Failed'' ''False'' ''InvalidGateway'' (errText err)) (\<lambda>_. ret (RequeueAfter (30 * Second)))
      | Inr tenant \<Rightarrow>
          if tn_gateway orig \<noteq> tn_gateway tenant
          then bnd (tc_patchTenant k orig tenant) (\<lambda>_. bnd (tc_getTenant k req) (reconcileGateway k fs kz r))
          else reconcileGateway k fs kz r tenant)"

definition reconcileTenant ::
  "'c tenant_client \<Rightarrow> 'c files_api \<Rightarrow> ('c, 'r, 'b) kustomize_api \<Rightarrow> TenantReconciler \<Rightarrow> nsn \<Rightarrow> Tenant \<Rightarrow> ('c, tenant_result) call" where
  "reconcileTenant k fs kz r req tenant =
     (if om_name (tn_meta tenant) \<noteq> TenantInstanceName then ret Done
      else if om_deleting (tn_meta tenant) then
        if \<not> hasTenantFinalizer tenant then ret Done
        else
          bnd (finalizeTenantDeletion k (fs_getenv fs) r tenant)
            (\<lambda>pending. if pending then ret (RequeueAfter (5 * Second))
               else bnd (removeTenantFinalizer k tenant) (\<lambda>_. ret Done))
      else
        let ms = managementState (om_annotations (tn_meta tenant))
        in if ms = ''Removed'' \<or> ms = ''Unmanaged'' then handleIdleManagementState k (fs_getenv fs) r tenant ms
           else if \<not> hasTenantFinalizer tenant
           then bnd (tc_patchTenant k tenant (withSpec (om_finalizers (tn_meta tenant) @ [tenantFinalizer]) (tn_gateway tenant) tenant))
                  (\<lambda>_. ret Requeue)
           else if ms \<noteq> [] \<and> ms \<noteq> ''Managed''
           then bnd (patchStatus k tenant ''Failed'' ''False'' ''UnexpectedManagementState''
                  (''unsupported '' @ managementStateAnnotation @ ''='' @ goQuote ms)) (\<lambda>_. ret (RequeueAfter (30 * Second)))
           else reconcileManaged k fs kz r req tenant)"

definition TenantReconcile ::
  "'c tenant_client \<Rightarrow> 'c files_api \<Rightarrow> ('c, 'r, 'b) kustomize_api \<Rightarrow> TenantReconciler \<Rightarrow> nsn \<Rightarrow> ('c, tenant_result) call" where
  "TenantReconcile k fs kz r req =
     attempt (tc_getTenant k req)
       (\<lambda>res. case res of
          Inl err \<Rightarrow> if isNotFound err then ret Done else fail err
        | Inr tenant \<Rightarrow> reconcileTenant k fs kz r req tenant)"

end
