(* ===== verification/Tenant_Safety.thy ===== *)
theory Tenant_Safety
  imports Tenant_Controller
begin

text \<open>
  What the teardown of a Tenant guarantees: the finalizer stays until no owned object of a swept kind is
  left, objects of others are not touched, and without faults the owned objects are exactly those that
  disappear. The locale \<open>tenant_platform\<close> adds to the API server that file operations and the kustomize
  build do not change the cluster.
\<close>

section \<open>Platform\<close>

locale tenant_platform = tenant_server k view healthy
  for k :: "'c tenant_client" and view :: "'c \<Rightarrow> tenant_world" and healthy :: "'c \<Rightarrow> bool" +
  fixes fs :: "'c files_api" and kz :: "('c, 'r, 'b) kustomize_api"
  assumes files_view: "view (fst (fs_open fs p c)) = view c" "view (fst (fs_createTemp fs d pat c)) = view c"
      "view (fst (fs_fprintf fs p s c)) = view c" "view (fst (fs_flush fs p c)) = view c"
      "view (fst (fs_rename fs p q c)) = view c" "view (fst (fs_remove fs p c)) = view c"
    and build_view: "view (fst (kz_run kz p c)) = view c"

text \<open>The kinds and namespaces the teardown looks at.\<close>

definition swept :: "(string \<Rightarrow> string) \<Rightarrow> TenantReconciler \<Rightarrow> Tenant \<Rightarrow> gvk \<Rightarrow> string \<Rightarrow> bool" where
  "swept getenv r t g ns \<longleftrightarrow>
     (ns \<in> set (tenantWorkNamespaces t (operatorNamespace getenv r) (tr_AppNamespace r)) \<and>
        g \<in> fst ` set namespacedKinds \<union> set optionalPlatformGVKs) \<or>
     g \<in> fst ` set clusterKinds"

definition noneOwned :: "tenant_world \<Rightarrow> gvk \<Rightarrow> string option \<Rightarrow> Tenant \<Rightarrow> bool" where
  "noneOwned w g ns t \<longleftrightarrow> (\<forall>u \<in> ran (vw_objects w g). inScope ns u \<longrightarrow> \<not> isOwnedByTenant u t)"

section \<open>Nothing pending\<close>

lemma deleteItems_idle:
  "deleteItems k msg t items p c = (c', Inr False) \<Longrightarrow> c' = c \<and> \<not> p \<and> (\<forall>i \<in> set items. \<not> isOwnedByTenant i t)"
proof (induction items arbitrary: p c)
  case (Cons i items)
  show ?case
  proof (cases "isOwnedByTenant i t")
    case True
    have "\<exists>c1. deleteItems k msg t items True c1 = (c', Inr False)"
      using Cons.prems True by (auto simp: attempt_def split: if_splits prod.splits sum.splits)
    with Cons.IH show ?thesis by blast
  next
    case False
    with Cons show ?thesis by auto
  qed
qed simp

lemma bnd_Inr: "bnd m f c = (c', Inr y) \<Longrightarrow> (\<And>c1 x. m c = (c1, Inr x) \<Longrightarrow> f x c1 = (c', Inr y) \<Longrightarrow> thesis) \<Longrightarrow> thesis"
  by (auto simp: bnd_def attempt_def split: prod.splits sum.splits)

lemma wrapErr_Inr: "wrapErr p m c = (c', Inr y) \<Longrightarrow> m c = (c', Inr y)"
  by (auto simp: wrapErr_def attempt_def split: prod.splits sum.splits)

lemma anyPending_idle:
  assumes "\<And>x c c'. x \<in> set xs \<Longrightarrow> f x c = (c', Inr False) \<Longrightarrow> view c' = view c \<and> P x (view c)"
  shows "anyPending f xs c = (c', Inr False) \<Longrightarrow> view c' = view c \<and> (\<forall>x \<in> set xs. P x (view c))"
  using assms
proof (induction xs arbitrary: c)
  case (Cons x xs)
  from Cons.prems(1) obtain c1 where c1: "f x c = (c1, Inr False)" "anyPending f xs c1 = (c', Inr False)"
    unfolding anyPending.simps by (auto elim!: bnd_Inr)
  from Cons.prems(2) [OF _ c1(1)] Cons.IH [OF c1(2)] Cons.prems(2) show ?case by auto
qed simp

context tenant_server
begin

lemma kindRead_Inr:
  assumes "kindRead view healthy g m answer" "m c = (c', Inr x)"
  shows "view c' = view c" "answer (view c) (Inr x)"
  using assms unfolding kindRead_def by (metis fst_conv, metis snd_conv)

lemma listed: "tc_list k g ns c = (c', Inr xs) \<Longrightarrow> view c' = view c \<and> set xs = {u \<in> ran (vw_objects (view c) g). inScope ns u}"
  using kindRead_Inr [OF listObjects, of g ns c c' xs] unfolding lists_kind_def by auto

lemma deleteTyped_idle: "deleteTyped k t ns gp c = (c', Inr False) \<Longrightarrow> view c' = view c \<and> noneOwned (view c) (fst gp) ns t"
  unfolding deleteTyped_def Let_def
  by (erule bnd_Inr, drule wrapErr_Inr, drule listed, drule deleteItems_idle) (auto simp: noneOwned_def)

lemma storedD:
  "vw_objects (view c) g key = Some u \<Longrightarrow> uo_gvk u = g \<and> objKey u = key \<and> uo_namespace u = fst key \<and> vw_registered (view c) g"
proof -
  assume "vw_objects (view c) g key = Some u"
  then have "uo_gvk u = g \<and> objKey u = key \<and> vw_registered (view c) g" using wf [of c] unfolding tenant_wf_def by blast
  then show ?thesis by (auto simp: objKey_def nsnOf_def uo_namespace_def)
qed

lemma unregistered_empty: "\<not> vw_registered (view c) g \<Longrightarrow> ran (vw_objects (view c) g) = {}"
  by (auto simp: ran_def dest: storedD)

lemma deleteOwnedUnstructured_idle:
  assumes "deleteOwnedUnstructured k t ns g c = (c', Inr False)"
  shows "view c' = view c \<and> noneOwned (view c) g (Some ns) t"
proof -
  obtain c1 r where run: "tc_list k g (Some ns) c = (c1, r)" by fastforce
  have v: "view c1 = view c" and nm: "r = Inl ApiNoMatch \<Longrightarrow> \<not> vw_registered (view c) g"
    using listObjects [of g "Some ns"] run unfolding kindRead_def by (metis fst_conv, metis snd_conv)
  show ?thesis
  proof (cases r)
    case (Inl e)
    with assms run have "e = ApiNoMatch" "c' = c1"
      by (auto simp: deleteOwnedUnstructured_def run_attempt isNoMatchError_def split: if_splits)
    with Inl nm v unregistered_empty show ?thesis by (auto simp: noneOwned_def)
  next
    case (Inr xs)
    with assms run have "c' = c1 \<and> (\<forall>i \<in> set xs. \<not> isOwnedByTenant i t)"
      by (auto simp: deleteOwnedUnstructured_def run_attempt dest: deleteItems_idle)
    with listed [OF run [unfolded Inr]] show ?thesis by (auto simp: noneOwned_def)
  qed
qed

lemma deleteOwnedInNamespace_idle:
  assumes "deleteOwnedInNamespace k t ns c = (c', Inr False)"
  shows "view c' = view c \<and> (\<forall>g \<in> fst ` set namespacedKinds \<union> set optionalPlatformGVKs. noneOwned (view c) g (Some ns) t)"
proof -
  from assms obtain c1 where c1: "anyPending (deleteTyped k t (Some ns)) namespacedKinds c = (c1, Inr False)"
    "anyPending (deleteOwnedUnstructured k t ns) optionalPlatformGVKs c1 = (c', Inr False)"
    unfolding deleteOwnedInNamespace_def by (auto elim!: bnd_Inr)
  have "view c1 = view c \<and> (\<forall>gp \<in> set namespacedKinds. noneOwned (view c) (fst gp) (Some ns) t)"
    by (rule anyPending_idle [OF _ c1(1)]) (rule deleteTyped_idle)
  moreover have "view c' = view c1 \<and> (\<forall>g \<in> set optionalPlatformGVKs. noneOwned (view c1) g (Some ns) t)"
    by (rule anyPending_idle [OF _ c1(2)]) (rule deleteOwnedUnstructured_idle)
  ultimately show ?thesis by auto
qed

lemma finalize_idle:
  assumes "finalizeTenantDeletion k getenv r t c = (c', Inr False)"
  shows "view c' = view c \<and> (\<forall>g ns name u. swept getenv r t g ns \<and> vw_objects (view c) g (ns, name) = Some u \<longrightarrow> \<not> isOwnedByTenant u t)"
proof -
  let ?nss = "tenantWorkNamespaces t (operatorNamespace getenv r) (tr_AppNamespace r)"
  from assms obtain c1 where c1: "anyPending (deleteOwnedInNamespace k t) ?nss c = (c1, Inr False)"
    "anyPending (deleteTyped k t None) clusterKinds c1 = (c', Inr False)"
    unfolding finalizeTenantDeletion_def deleteOwnedClusterScoped_def Let_def by (auto elim!: bnd_Inr split: if_splits)
  have n1: "view c1 = view c \<and> (\<forall>ns \<in> set ?nss. \<forall>g \<in> fst ` set namespacedKinds \<union> set optionalPlatformGVKs. noneOwned (view c) g (Some ns) t)"
    by (rule anyPending_idle [OF _ c1(1)]) (rule deleteOwnedInNamespace_idle)
  have n2: "view c' = view c1 \<and> (\<forall>gp \<in> set clusterKinds. noneOwned (view c1) (fst gp) None t)"
    by (rule anyPending_idle [OF _ c1(2)]) (rule deleteTyped_idle)
  have "\<not> isOwnedByTenant u t" if s: "swept getenv r t g ns" and u: "vw_objects (view c) g (ns, name) = Some u" for g ns name u
  proof -
    have "inScope (Some ns) u" "inScope None u" using storedD [OF u] by (simp_all add: inScope_def)
    moreover have "noneOwned (view c) g (Some ns) t \<or> noneOwned (view c) g None t"
      using s n1 n2 unfolding swept_def by (metis imageE)
    ultimately show ?thesis using ranI [of "vw_objects (view c) g", OF u] unfolding noneOwned_def by blast
  qed
  then show ?thesis using n1 n2 by (intro conjI allI impI) (simp, blast)
qed

end

section \<open>What the steps keep\<close>

text \<open>Objects the tenant does not own.\<close>

definition spared :: "(gvk \<Rightarrow> nsn \<Rightarrow> Unstructured option) \<Rightarrow> Tenant \<Rightarrow> tenant_world \<Rightarrow> bool" where
  "spared W t w \<longleftrightarrow> (\<forall>g key u. W g key = Some u \<and> \<not> isOwnedByTenant u t \<longrightarrow> vw_objects w g key = Some u)"

lemma sparedD: "spared W t w \<Longrightarrow> W g key = Some u \<Longrightarrow> \<not> isOwnedByTenant u t \<Longrightarrow> vw_objects w g key = Some u"
  unfolding spared_def by blast

lemma spared_drop:
  assumes "spared W t w" "\<And>u. W (uo_gvk i) (objKey i) = Some u \<Longrightarrow> isOwnedByTenant u t"
  shows "spared W t (dropObject i w)"
  unfolding spared_def
proof (intro allI impI)
  fix g key u
  assume "W g key = Some u \<and> \<not> isOwnedByTenant u t"
  then have u: "W g key = Some u" "\<not> isOwnedByTenant u t" by simp_all
  then have "\<not> (g = uo_gvk i \<and> key = objKey i)" using assms(2) by blast
  with sparedD [OF assms(1) u] show "vw_objects (dropObject i w) g key = Some u" by (auto simp: dropObject_def)
qed

lemma keeps_anyPending: "(\<And>x. keeps I (f x)) \<Longrightarrow> keeps I (anyPending f xs)"
  by (induction xs) (auto intro!: keeps_rules)

context tenant_server
begin

lemma kindRead_keeps: "kindRead view healthy g m answer \<Longrightarrow> keeps (\<lambda>c. J (view c)) m"
  unfolding kindRead_def stays_def by (metis fst_conv)

lemma stays_kindRead:
  assumes "kindRead view healthy g m answer"
    and "\<And>x c. J (view c) \<Longrightarrow> answer (view c) (Inr x) \<Longrightarrow> keeps (\<lambda>c. J (view c)) (f (Inr x))" and "\<And>e. keeps (\<lambda>c. J (view c)) (f (Inl e))"
  shows "keeps (\<lambda>c. J (view c)) (attempt m f)"
  unfolding stays_def
proof (intro allI impI)
  fix c assume J: "J (view c)"
  obtain c' r where m: "m c = (c', r)" by fastforce
  then have J': "J (view c')" using stays_fst [OF kindRead_keeps [OF assms(1)], of J c] J by simp
  have "keeps (\<lambda>c. J (view c)) (f r)"
  proof (cases r)
    case (Inr x)
    with kindRead_Inr [OF assms(1), of c c' x] m assms(2) [OF J] show ?thesis by simp
  qed (simp add: assms(3))
  from stays_fst [OF this] J' show "J (view (fst (attempt m f c)))" by (simp add: attempt_def m)
qed

lemma deleteItems_spares:
  "(\<And>i u. i \<in> set items \<Longrightarrow> isOwnedByTenant i t \<Longrightarrow> W (uo_gvk i) (objKey i) = Some u \<Longrightarrow> isOwnedByTenant u t) \<Longrightarrow>
   keeps (\<lambda>c. vw_tenants (view c) = T \<and> spared W t (view c)) (deleteItems k msg t items p)"
proof (induction items arbitrary: p)
  case (Cons i items)
  let ?J = "\<lambda>w. vw_tenants w = T \<and> spared W t w"
  have ih: "keeps (\<lambda>c. ?J (view c)) (deleteItems k msg t items q)" for q
    by (rule Cons.IH) (use Cons.prems in \<open>meson list.set_intros(2)\<close>)
  have "keeps (\<lambda>c. ?J (view c)) (tc_delete k i)" if "isOwnedByTenant i t"
  proof (rule writes_stays [OF deleteObject])
    fix w assume "?J w"
    with spared_drop [of W t w i] Cons.prems [of i] that show "?J (dropObject i w)" by (simp add: dropObject_def)
  qed
  with ih show ?case unfolding deleteItems.simps by (intro keeps_rules) simp_all
qed (auto intro: keeps_rules)

lemma listed_spared:
  assumes "lists_kind g ns (view c) (Inr items)" "spared W t (view c)" "i \<in> set items" "isOwnedByTenant i t" "W (uo_gvk i) (objKey i) = Some u"
  shows "isOwnedByTenant u t"
proof -
  from assms(1,3) obtain key where key: "vw_objects (view c) g key = Some i" by (auto simp: lists_kind_def ran_def)
  with storedD [OF key] have "vw_objects (view c) (uo_gvk i) (objKey i) = Some i" by simp
  with sparedD [OF assms(2,5)] assms(4) show ?thesis by auto
qed

lemma finalize_spares:
  "keeps (\<lambda>c. vw_tenants (view c) = T \<and> spared W t (view c)) (finalizeTenantDeletion k getenv r t)"
proof -
  let ?J = "\<lambda>w. vw_tenants w = T \<and> spared W t w"
  have items: "keeps (\<lambda>c. ?J (view c)) (deleteItems k msg t items p)" if "?J (view c)" "lists_kind g ns (view c) (Inr items)" for c g ns items msg p
    by (rule deleteItems_spares) (use that listed_spared in blast)
  have step: "bnd (wrapErr p (tc_list k g ns)) f = attempt (tc_list k g ns) (\<lambda>r. case r of Inl e \<Rightarrow> fail (Wrap p e []) | Inr x \<Rightarrow> f x)"
    for p g ns and f :: "Unstructured list \<Rightarrow> ('c, bool) call"
    by (rule ext) (simp add: bnd_def wrapErr_def attempt_def split: prod.splits sum.splits)
  have typed: "keeps (\<lambda>c. ?J (view c)) (deleteTyped k t ns gp)" for ns gp
    unfolding deleteTyped_def Let_def step
    by (rule stays_kindRead [OF listObjects]; simp only: sum.case) ((rule items; assumption), rule keeps_ret_fail(2))
  have uns: "keeps (\<lambda>c. ?J (view c)) (deleteOwnedUnstructured k t ns g)" for ns g
    unfolding deleteOwnedUnstructured_def
    by (rule stays_kindRead [OF listObjects]; simp only: sum.case) ((rule items; assumption), intro keeps_rules)
  show ?thesis
    unfolding finalizeTenantDeletion_def deleteOwnedInNamespace_def deleteOwnedClusterScoped_def Let_def
    by (intro keeps_rules keeps_anyPending typed uns)
qed

end

section \<open>The finalizer\<close>

text \<open>The tenant is stored with its finalizer; no owned object of a swept kind is left.\<close>

definition held :: "nsn \<Rightarrow> tenant_world \<Rightarrow> bool" where
  "held key w \<longleftrightarrow> (\<exists>t. vw_tenants w key = Some t \<and> hasTenantFinalizer t)"

definition cleared :: "(string \<Rightarrow> string) \<Rightarrow> TenantReconciler \<Rightarrow> Tenant \<Rightarrow> tenant_world \<Rightarrow> bool" where
  "cleared getenv r t w \<longleftrightarrow>
     (\<forall>g ns name u. swept getenv r t g ns \<and> vw_objects w g (ns, name) = Some u \<longrightarrow> \<not> isOwnedByTenant u t)"

text \<open>Two copies of a tenant that differ in the status only.\<close>

definition sameTenant :: "Tenant \<Rightarrow> Tenant \<Rightarrow> bool" where
  "sameTenant t t' \<longleftrightarrow> tn_meta t' = tn_meta t \<and> tn_uid t' = tn_uid t \<and> tn_spec t' = tn_spec t"

lemma sameTenant_owned:
  assumes "sameTenant t t'"
  shows "isOwnedByTenant u t' = isOwnedByTenant u t" "cleared getenv r t' = cleared getenv r t" "spared W t' = spared W t"
    "hasTenantFinalizer t' = hasTenantFinalizer t"
proof -
  show o: "isOwnedByTenant u t' = isOwnedByTenant u t" for u
    using assms by (simp add: sameTenant_def isOwnedByTenant_def ownedByTenantRef_def ownedByTenantLabel_def)
  have sw: "swept getenv r t' = swept getenv r t"
    using assms by (intro ext) (simp add: sameTenant_def swept_def tenantWorkNamespaces_def)
  show "cleared getenv r t' = cleared getenv r t" by (intro ext) (simp only: cleared_def sw o)
  show "spared W t' = spared W t" by (intro ext) (simp only: spared_def o)
  show "hasTenantFinalizer t' = hasTenantFinalizer t" using assms by (simp add: sameTenant_def hasTenantFinalizer_def)
qed

lemma sameTenant_status:
  "sameTenant t (withPhase ph t)" "sameTenant t t' \<Longrightarrow> sameTenant t (setTenantCondition k ty st re ms t')"
  by (simp_all add: sameTenant_def withPhase_def setTenantCondition_def)

lemma held_status: "held key w \<Longrightarrow> held key (statusTenant t w)"
  by (auto simp: held_def statusTenant_def hasTenantFinalizer_def split: option.splits)

lemma held_patch:
  assumes "held key w" "tenant_wf w" "fins = om_finalizers (tn_meta base)"
  shows "held key (patchedTenant base fins gw w)"
proof (cases "vw_tenants w (nsnOf (tn_meta base))")
  case (Some t)
  then have key: "nsnOf (tn_meta t) = nsnOf (tn_meta base)" using assms(2) unfolding tenant_wf_def by blast
  show ?thesis
  proof (cases "key = nsnOf (tn_meta base)")
    case True
    with assms(1) Some have fin: "hasTenantFinalizer t" by (simp add: held_def)
    then have "om_finalizers (tn_meta t) \<noteq> []" by (auto simp: hasTenantFinalizer_def)
    with fin Some key assms(3) True show ?thesis
      by (simp add: held_def patchedTenant_def putTenant_def mergeTenant_def withSpec_def hasTenantFinalizer_def nsnOf_def)
  next
    case False
    with assms(1) Some key show ?thesis
      by (simp add: held_def patchedTenant_def putTenant_def mergeTenant_def withSpec_def nsnOf_def)
  qed
qed (use assms in \<open>simp add: patchedTenant_def\<close>)

lemma objects_unchanged [simp]:
  "vw_objects (statusTenant t w) = vw_objects w" "vw_objects (patchedTenant t fins gw w) = vw_objects w"
  by (simp_all add: statusTenant_def patchedTenant_def putTenant_def split: option.splits)

context tenant_server
begin

lemma writes_keeps_wf:
  assumes "writes view healthy m pre f" "\<And>w. J w \<Longrightarrow> tenant_wf w \<Longrightarrow> J (f w)"
  shows "keeps (\<lambda>c. J (view c)) m"
  unfolding stays_def
proof (intro allI impI)
  fix c assume "J (view c)"
  with assms(2) wf show "J (view (fst (m c)))" by (cases c rule: writes_cases [OF assms(1)]) auto
qed

lemma patchStatus_keeps:
  assumes "\<And>w t. J w \<Longrightarrow> J (statusTenant t w)"
  shows "keeps (\<lambda>c. J (view c)) (patchStatus k t ph st re ms)"
  unfolding patchStatus_def Let_def
  by (intro keeps_rules writes_keeps_wf [OF updateStatus] assms)

lemma teardown_guarded:
  assumes "sameTenant t t'"
  shows "stays (\<lambda>c. held key (view c)) (\<lambda>c. held key (view c) \<or> cleared getenv r t (view c))
    (bnd (finalizeTenantDeletion k getenv r t') (\<lambda>pending. if pending then ret x else bnd (removeTenantFinalizer k t') (\<lambda>_. ret y)))"
  unfolding stays_def
proof (intro allI impI)
  fix c assume h: "held key (view c)"
  obtain c1 p where run: "finalizeTenantDeletion k getenv r t' c = (c1, p)" by fastforce
  have "vw_tenants (view c1) = vw_tenants (view c)"
    using staysD [OF finalize_spares [of "vw_tenants (view c)" "\<lambda>_ _. None" t' getenv r] _ run] by (simp add: spared_def)
  with h have h1: "held key (view c1)" by (simp add: held_def)
  show "held key (view (fst (bnd (finalizeTenantDeletion k getenv r t')
      (\<lambda>pending. if pending then ret x else bnd (removeTenantFinalizer k t') (\<lambda>_. ret y)) c))) \<or>
    cleared getenv r t (view (fst (bnd (finalizeTenantDeletion k getenv r t')
      (\<lambda>pending. if pending then ret x else bnd (removeTenantFinalizer k t') (\<lambda>_. ret y)) c)))"
  proof (cases "p = Inr False")
    case True
    with finalize_idle [of getenv r t' c c1] run have "cleared getenv r t' (view c1)" unfolding cleared_def by simp
    then have "cleared getenv r t (view c1)" by (simp add: sameTenant_owned(2) [OF assms])
    moreover have "keeps (\<lambda>c. cleared getenv r t (view c)) (bnd (removeTenantFinalizer k t') (\<lambda>_. ret y))"
      unfolding removeTenantFinalizer_def
      by (intro keeps_rules writes_keeps_wf [OF patchTenant]) (simp add: cleared_def)
    moreover have "bnd (finalizeTenantDeletion k getenv r t')
        (\<lambda>pending. if pending then ret x else bnd (removeTenantFinalizer k t') (\<lambda>_. ret y)) c = bnd (removeTenantFinalizer k t') (\<lambda>_. ret y) c1"
      using True run by (subst bnd_def) (simp add: attempt_def)
    ultimately show ?thesis using stays_fst by metis
  next
    case False
    with run h1 show ?thesis by (cases p) (auto simp: bnd_def attempt_def)
  qed
qed

end

section \<open>The reconciler\<close>

lemma bnd_ret: "bnd (bnd m (\<lambda>_. ret t)) f = bnd m (\<lambda>_. f t)"
  by (rule ext) (simp add: bnd_def attempt_def ret_def fail_def split: prod.splits sum.splits)

lemma stays_then: "keeps P m \<Longrightarrow> stays P Q n \<Longrightarrow> (\<And>c. P c \<Longrightarrow> Q c) \<Longrightarrow> stays P Q (bnd m (\<lambda>_. n))"
  unfolding bnd_def by (rule stays_attempt, assumption, rule stays_sum) (simp_all add: stays_fail)

lemma keeps_lift: "keeps I (lift r)"
  unfolding lift_def by (intro keeps_rules)

lemma applyGatewayDefaults_patch:
  "applyGatewayDefaults t = Inr t' \<Longrightarrow> t' = t \<or> (\<exists>gw. t' = withSpec (om_finalizers (tn_meta t)) gw t)"
  by (auto simp: applyGatewayDefaults_def Let_def split: if_splits)

context tenant_platform
begin

lemma files_keeps:
  "keeps (\<lambda>c. J (view c)) (fs_open fs p)" "keeps (\<lambda>c. J (view c)) (fs_createTemp fs p s)" "keeps (\<lambda>c. J (view c)) (fs_fprintf fs p s)"
  "keeps (\<lambda>c. J (view c)) (fs_flush fs p)" "keeps (\<lambda>c. J (view c)) (fs_rename fs p q)" "keeps (\<lambda>c. J (view c)) (fs_remove fs p)"
  "keeps (\<lambda>c. J (view c)) (kz_run kz p)"
  by (simp_all add: stays_def files_view build_view)

lemma CustomizeParams_keeps: "keeps (\<lambda>c. J (view c)) (CustomizeParams fs d t a u)"
  unfolding CustomizeParams_def ApplyParams_def parseParams_def writeParamsToTmp_def Let_def
  by (intro keeps_rules files_keeps)

lemma RenderKustomize_keeps: "keeps (\<lambda>c. J (view c)) (RenderKustomize fs kz d a)"
proof -
  have "keeps (\<lambda>c. J (view c)) (bnd (wrapErr m (kz_run kz p)) (\<lambda>x. bnd (wrapErr m' (lift (f x))) (\<lambda>y. lift (g y))))" for m m' p f g
    by (intro keeps_rules files_keeps keeps_lift)
  then show ?thesis unfolding RenderKustomize_def stays_def Let_def by blast
qed

lemmas platform_reads = kindRead_keeps [OF getObject] kindRead_keeps [OF listObjects] kindRead_keeps [OF restMapping]
  reads_keeps [OF getTenant] files_keeps keeps_lift CustomizeParams_keeps RenderKustomize_keeps

lemma checks_keep:
  "keeps (\<lambda>c. J (view c)) (CheckDependencies k)" "keeps (\<lambda>c. J (view c)) (CollectPrerequisiteReport k ns)"
  "keeps (\<lambda>c. J (view c)) (GetClusterServiceAccountIssuer k)" "keeps (\<lambda>c. J (view c)) (MaasAPIDeploymentReady k ns)"
  "keeps (\<lambda>c. J (view c)) (validateGatewayExists k ns name)"
  unfolding CheckDependencies_def CollectPrerequisiteReport_def checkAuthorinoTLS_def checkDatabaseSecret_def getStringData_def
    checkUserWorkloadMonitoring_def IsGVKAvailable_def GetClusterServiceAccountIssuer_def MaasAPIDeploymentReady_def validateGatewayExists_def
  by (intro keeps_rules platform_reads)+

lemma apply_keeps:
  assumes "\<And>w u. J w \<Longrightarrow> J (putObject u w)"
  shows "keeps (\<lambda>c. J (view c)) (tc_apply k u)"
  unfolding stays_def using applyObject assms by metis

lemma RunPlatform_keeps:
  assumes "\<And>w u. J w \<Longrightarrow> J (putObject u w)"
  shows "keeps (\<lambda>c. J (view c)) (RunPlatform k fs kz t p a)"
  unfolding RunPlatform_def ApplyRendered_def applyOne_def
  by (intro keeps_rules platform_reads checks_keep apply_keeps assms)

lemma reconcileGateway_keeps:
  assumes "\<And>w u. J w \<Longrightarrow> J (putObject u w)" "\<And>w t. J w \<Longrightarrow> J (statusTenant t w)"
  shows "keeps (\<lambda>c. J (view c)) (reconcileGateway k fs kz r t)"
  unfolding reconcileGateway_def reconcileChecked_def reconcilePlatform_def finishReady_def Let_def
  by (intro keeps_rules checks_keep RunPlatform_keeps patchStatus_keeps writes_keeps_wf [OF updateStatus] assms; assumption)

lemma reconcileManaged_keeps:
  assumes "\<And>w u. J w \<Longrightarrow> J (putObject u w)" "\<And>w t. J w \<Longrightarrow> J (statusTenant t w)"
    and "\<And>w t gw. J w \<Longrightarrow> tenant_wf w \<Longrightarrow> J (patchedTenant t (om_finalizers (tn_meta t)) gw w)"
  shows "keeps (\<lambda>c. J (view c)) (reconcileManaged k fs kz r req t)"
proof (cases "applyGatewayDefaults t")
  case (Inl e)
  then show ?thesis unfolding reconcileManaged_def by (simp only: sum.case) (intro keeps_rules patchStatus_keeps assms)
next
  case (Inr t')
  have rest: "keeps (\<lambda>c. J (view c)) (reconcileGateway k fs kz r t)" for t by (intro reconcileGateway_keeps assms)
  have "keeps (\<lambda>c. J (view c)) (tc_patchTenant k t t')" if "tn_gateway t \<noteq> tn_gateway t'"
  proof -
    from applyGatewayDefaults_patch [OF Inr] that obtain gw where "t' = withSpec (om_finalizers (tn_meta t)) gw t" by auto
    then show ?thesis by (simp only:) (intro writes_keeps_wf [OF patchTenant] assms)
  qed
  with Inr rest show ?thesis unfolding reconcileManaged_def by (simp only: sum.case) (intro keeps_rules platform_reads rest)
qed

lemma held_put: "held key w \<Longrightarrow> held key (putObject u w)"
  by (simp add: held_def putObject_def)

lemma reconcileTenant_guarded:
  assumes "hasTenantFinalizer t" "om_deleting (tn_meta t) \<or> managementState (om_annotations (tn_meta t)) \<noteq> ''Unmanaged''"
  shows "stays (\<lambda>c. held key (view c)) (\<lambda>c. held key (view c) \<or> cleared (fs_getenv fs) r t (view c)) (reconcileTenant k fs kz r req t)"
proof -
  let ?Q = "\<lambda>c. held key (view c) \<or> cleared (fs_getenv fs) r t (view c)"
  have weaken: "stays (\<lambda>c. held key (view c)) ?Q m" if "keeps (\<lambda>c. held key (view c)) m" for m :: "('c, tenant_result) call"
    using that by (auto simp: stays_def)
  have status: "keeps (\<lambda>c. held key (view c)) (patchStatus k t ph st re ms)" for t ph st re ms
    by (rule patchStatus_keeps) (rule held_status)
  have managed: "keeps (\<lambda>c. held key (view c)) (reconcileManaged k fs kz r req t)"
    by (rule reconcileManaged_keeps) (erule held_put, erule held_status, erule held_patch, assumption, rule refl)
  have idle: "stays (\<lambda>c. held key (view c)) ?Q (handleIdleManagementState k (fs_getenv fs) r t ''Removed'')"
  proof -
    define t' where "t' = setTenantCondition k ReadyConditionType ''False'' ''ManagementStateIdle''
      (''management state is '' @ goQuote ''Removed'' @ ''; platform workloads are not driven by this reconciler in this state'') (withPhase [] t)"
    have same: "sameTenant t t'" unfolding t'_def by (intro sameTenant_status)
    have "handleIdleManagementState k (fs_getenv fs) r t ''Removed'' = bnd (tc_statusTenant k t') (\<lambda>_. bnd (finalizeTenantDeletion k (fs_getenv fs) r t')
        (\<lambda>pending. if pending then ret (RequeueAfter (5 * Second)) else bnd (removeTenantFinalizer k t') (\<lambda>_. ret Done)))"
      using assms(1) sameTenant_owned(4) [OF same]
      unfolding handleIdleManagementState_def patchStatus_def Let_def bnd_ret t'_def [symmetric] by simp
    moreover have "keeps (\<lambda>c. held key (view c)) (tc_statusTenant k t')"
      by (intro writes_keeps_wf [OF updateStatus] held_status)
    ultimately show ?thesis by (simp only:) (intro stays_then teardown_guarded [OF same]; simp)
  qed
  show ?thesis
    unfolding reconcileTenant_def Let_def
    using assms by (intro stays_if) (auto intro!: weaken keeps_rules status managed idle teardown_guarded simp: sameTenant_def)
qed

end

end
