(* ===== verification/Tenant_Std.thy ===== *)
theory Tenant_Std
  imports Tenant_Safety
begin

text \<open>
  An API server with a file system that satisfies the laws of \<open>tenant_platform\<close>, for concrete runs: lists
  of tenants, objects and registered kinds, and a switch that makes every call fail.
\<close>

section \<open>The store\<close>

record tenant_db =
  td_tenants :: "Tenant list"
  td_objects :: "Unstructured list"
  td_kinds :: "gvk list"
  td_down :: bool

type_synonym tenant_state = "tenant_db \<times> std_fs"

definition isAt :: "gvk \<Rightarrow> nsn \<Rightarrow> Unstructured \<Rightarrow> bool" where
  "isAt g key u \<longleftrightarrow> uo_gvk u = g \<and> objKey u = key"

definition objectAt :: "tenant_db \<Rightarrow> gvk \<Rightarrow> nsn \<Rightarrow> Unstructured option" where
  "objectAt d g key = (if List.member (td_kinds d) g then find (isAt g key) (td_objects d) else None)"

definition tenantAt :: "tenant_db \<Rightarrow> nsn \<Rightarrow> Tenant option" where
  "tenantAt d key = find (\<lambda>t. nsnOf (tn_meta t) = key) (td_tenants d)"

definition tview :: "tenant_state \<Rightarrow> tenant_world" where
  "tview s = \<lparr>vw_tenants = tenantAt (fst s), vw_objects = objectAt (fst s), vw_registered = List.member (td_kinds (fst s))\<rparr>"

definition setObject :: "gvk \<Rightarrow> nsn \<Rightarrow> Unstructured option \<Rightarrow> tenant_db \<Rightarrow> tenant_db" where
  "setObject g key v d =
     d\<lparr>td_objects := (case v of None \<Rightarrow> [] | Some u \<Rightarrow> [u]) @ filter (\<lambda>u. \<not> isAt g key u) (td_objects d)\<rparr>"

definition setTenant :: "nsn \<Rightarrow> Tenant option \<Rightarrow> tenant_db \<Rightarrow> tenant_db" where
  "setTenant key v d =
     d\<lparr>td_tenants := (case v of None \<Rightarrow> [] | Some t \<Rightarrow> [t]) @ filter (\<lambda>t. nsnOf (tn_meta t) \<noteq> key) (td_tenants d)\<rparr>"

lemma find_filter_other: "(\<And>x. P x \<Longrightarrow> Q x) \<Longrightarrow> find P (filter Q xs) = find P xs"
  by (induction xs) auto

lemma find_filter_none: "(\<And>x. P x \<Longrightarrow> \<not> Q x) \<Longrightarrow> find P (filter Q xs) = None"
  by (induction xs) auto

lemma objectAt_set:
  assumes "pred_option (isAt g key) v" "List.member (td_kinds d) g \<or> v = None"
  shows "objectAt (setObject g key v d) = (objectAt d)(g := (objectAt d g)(key := v))"
proof (intro ext)
  fix g' key'
  show "objectAt (setObject g key v d) g' key' = ((objectAt d)(g := (objectAt d g)(key := v))) g' key'"
  proof (cases "g' = g \<and> key' = key")
    case True
    with assms show ?thesis
      by (cases v) (auto simp: objectAt_def setObject_def intro!: find_filter_none)
  next
    case False
    then have "find (isAt g' key') (filter (\<lambda>u. \<not> isAt g key u) (td_objects d)) = find (isAt g' key') (td_objects d)"
      by (intro find_filter_other) (auto simp: isAt_def)
    moreover have "\<not> isAt g' key' u" if "v = Some u" for u using assms(1) that False by (auto simp: isAt_def)
    ultimately show ?thesis using False by (cases v) (auto simp: objectAt_def setObject_def)
  qed
qed

lemma tenantAt_set:
  assumes "pred_option (\<lambda>t. nsnOf (tn_meta t) = key) v"
  shows "tenantAt (setTenant key v d) = (tenantAt d)(key := v)"
proof (rule ext)
  fix key'
  show "tenantAt (setTenant key v d) key' = ((tenantAt d)(key := v)) key'"
  proof (cases "key' = key")
    case True
    with assms show ?thesis by (cases v) (auto simp: tenantAt_def setTenant_def intro!: find_filter_none)
  next
    case False
    then have "find (\<lambda>t. nsnOf (tn_meta t) = key') (filter (\<lambda>t. nsnOf (tn_meta t) \<noteq> key) (td_tenants d)) =
        find (\<lambda>t. nsnOf (tn_meta t) = key') (td_tenants d)"
      by (intro find_filter_other) auto
    with assms False show ?thesis by (cases v) (auto simp: tenantAt_def setTenant_def)
  qed
qed

lemma set_unaffected [simp]:
  "tenantAt (setObject g key v d) = tenantAt d" "td_kinds (setObject g key v d) = td_kinds d" "td_down (setObject g key v d) = td_down d"
  "objectAt (setTenant k t d) = objectAt d" "td_kinds (setTenant k t d) = td_kinds d" "td_down (setTenant k t d) = td_down d"
  by (simp_all add: fun_eq_iff tenantAt_def objectAt_def setObject_def setTenant_def)

lemma objectAtD: "objectAt d g key = Some u \<Longrightarrow> uo_gvk u = g \<and> objKey u = key \<and> List.member (td_kinds d) g \<and> u \<in> set (td_objects d)"
  by (auto simp: objectAt_def isAt_def find_Some_iff split: if_splits)

lemma tenantAtD: "tenantAt d key = Some t \<Longrightarrow> nsnOf (tn_meta t) = key"
  by (auto simp: tenantAt_def find_Some_iff)

section \<open>The operations\<close>

definition down_or :: "(tenant_db \<Rightarrow> tenant_db \<times> (cerror + 'a)) \<Rightarrow> (tenant_state, 'a) call" where
  "down_or m s = (if td_down (fst s) then (s, Inl (ApiError ''down'')) else case m (fst s) of (d, r) \<Rightarrow> ((d, snd s), r))"

definition kind_or :: "gvk \<Rightarrow> (tenant_db \<Rightarrow> tenant_db \<times> (cerror + 'a)) \<Rightarrow> (tenant_state, 'a) call" where
  "kind_or g m = down_or (\<lambda>d. if List.member (td_kinds d) g then m d else (d, Inl ApiNoMatch))"

definition mergeObject :: "Unstructured \<Rightarrow> Unstructured option \<Rightarrow> Unstructured" where
  "mergeObject u old =
     (case old of
        None \<Rightarrow> u\<lparr>uo_meta := (uo_meta u)\<lparr>om_deleting := False\<rparr>\<rparr>
      | Some x \<Rightarrow> x\<lparr>uo_meta := (uo_meta x)\<lparr>om_labels := om_labels (uo_meta u) @ om_labels (uo_meta x)\<rparr>,
          uo_owners := uo_owners u @ uo_owners x, uo_body := uo_body u\<rparr>)"

definition std_conditionTrue :: "Condition list \<Rightarrow> string \<Rightarrow> bool" where
  "std_conditionTrue cs ty = (case find (\<lambda>x. cd_type x = ty) cs of None \<Rightarrow> False | Some cd \<Rightarrow> cd_status cd = ''True'')"

definition tenant_std :: "tenant_state tenant_client" where
  "tenant_std =
     \<lparr>tc_getTenant = (\<lambda>key. down_or (\<lambda>d. (d, case tenantAt d key of None \<Rightarrow> Inl ApiNotFound | Some t \<Rightarrow> Inr t))),
      tc_patchTenant = (\<lambda>base new. down_or (\<lambda>d. let key = nsnOf (tn_meta base) in
        case tenantAt d key of
          None \<Rightarrow> (d, Inl ApiNotFound)
        | Some t \<Rightarrow> let t' = mergeTenant base (om_finalizers (tn_meta new)) (tn_gateway new) t in
            (setTenant key (if om_deleting (tn_meta t') \<and> om_finalizers (tn_meta t') = [] then None else Some t') d, Inr ()))),
      tc_statusTenant = (\<lambda>t. down_or (\<lambda>d. let key = nsnOf (tn_meta t) in
        case tenantAt d key of
          None \<Rightarrow> (d, Inl ApiNotFound) | Some x \<Rightarrow> (setTenant key (Some (x\<lparr>tn_status := tn_status t\<rparr>)) d, Inr ()))),
      tc_get = (\<lambda>g key. kind_or g (\<lambda>d. (d, case objectAt d g key of None \<Rightarrow> Inl ApiNotFound | Some u \<Rightarrow> Inr u))),
      tc_list = (\<lambda>g ns. kind_or g (\<lambda>d. (d, Inr (filter (inScope ns) (remdups (filter (\<lambda>u. objectAt d g (objKey u) = Some u) (td_objects d))))))),
      tc_delete = (\<lambda>u. down_or (\<lambda>d. case objectAt d (uo_gvk u) (objKey u) of
          None \<Rightarrow> (d, Inl ApiNotFound) | Some x \<Rightarrow> (setObject (uo_gvk u) (objKey u) (afterDeletion x) d, Inr ()))),
      tc_apply = (\<lambda>u. kind_or (uo_gvk u) (\<lambda>d.
        (setObject (uo_gvk u) (objKey u) (Some (mergeObject u (objectAt d (uo_gvk u) (objKey u)))) d, Inr ()))),
      tc_restMapping = (\<lambda>g. kind_or g (\<lambda>d. (d, Inr ()))),
      tl_setControllerReference = (\<lambda>t os. Inr (\<lparr>or_apiVersion = GroupVersionString, or_kind = TenantKind, or_name = om_name (tn_meta t),
        or_uid = tn_uid t, or_controller = True, or_blockOwnerDeletion = True\<rparr> # os)),
      tl_setStatusCondition = std_setCondition, tl_isStatusConditionTrue = std_conditionTrue,
      tl_yamlWorkload = (\<lambda>s. Inr (s = ''enableUserWorkload: true'')), tl_dns1123 = (\<lambda>s. if s = [] then [''empty''] else []),
      tl_api = std_uns\<rparr>"

text \<open>File operations on the second component.\<close>

definition onFiles :: "(std_fs, 'a) call \<Rightarrow> (tenant_state, 'a) call" where
  "onFiles m s = (case m (snd s) of (f, r) \<Rightarrow> ((fst s, f), r))"

definition tenant_files :: "(string \<Rightarrow> string) \<Rightarrow> tenant_state files_api" where
  "tenant_files getenv =
     (let fs = std_files getenv
      in \<lparr>fs_abs = fs_abs fs, fs_exists = (\<lambda>p s. fs_exists fs p (snd s)), fs_open = (\<lambda>p. onFiles (fs_open fs p)),
          fs_createTemp = (\<lambda>d p. onFiles (fs_createTemp fs d p)), fs_fprintf = (\<lambda>p t. onFiles (fs_fprintf fs p t)),
          fs_flush = (\<lambda>p. onFiles (fs_flush fs p)), fs_rename = (\<lambda>p q. onFiles (fs_rename fs p q)),
          fs_remove = (\<lambda>p. onFiles (fs_remove fs p)), fs_getenv = getenv, fs_range = fs_range fs\<rparr>)"

section \<open>The laws hold\<close>

lemma down_or_reads:
  "(\<And>d. m d = (d, case f d of None \<Rightarrow> Inl ApiNotFound | Some x \<Rightarrow> Inr x)) \<Longrightarrow> (\<And>s. h (tview s) = f (fst s)) \<Longrightarrow>
   reads tview (\<lambda>s. \<not> td_down (fst s)) (down_or m) h"
  by (auto simp: reads_def down_or_def split: option.splits)

lemma kind_or_reads:
  "(\<And>d. m d = (d, a d)) \<Longrightarrow> (\<And>d. a d \<noteq> Inl ApiNoMatch) \<Longrightarrow> (\<And>s. answer (tview s) (a (fst s))) \<Longrightarrow>
   kindRead tview (\<lambda>s. \<not> td_down (fst s)) g (kind_or g m) answer"
  by (auto simp: kindRead_def kind_or_def down_or_def tview_def) metis+

lemma down_or_writes:
  "(\<And>s. \<not> td_down (fst s) \<Longrightarrow> \<not> pre (tview s) \<Longrightarrow> fst (m (fst s)) = fst s \<and> (\<exists>e. snd (m (fst s)) = Inl e)) \<Longrightarrow>
   (\<And>s. \<not> td_down (fst s) \<Longrightarrow> pre (tview s) \<Longrightarrow> tview (fst (m (fst s)), snd s) = f (tview s) \<and> snd (m (fst s)) = Inr ()) \<Longrightarrow>
   (\<And>d. td_down (fst (m d)) = td_down d) \<Longrightarrow>
   writes tview (\<lambda>s. \<not> td_down (fst s)) (down_or m) pre f"
  by (auto simp: writes_def down_or_def split: prod.splits) (metis fst_conv snd_conv surj_pair)+

lemma tview_set:
  "pred_option (\<lambda>t. nsnOf (tn_meta t) = key) v \<Longrightarrow> tview (setTenant key v d, f) = (tview (d, f))\<lparr>vw_tenants := (tenantAt d)(key := v)\<rparr>"
  "pred_option (isAt g key') u \<Longrightarrow> List.member (td_kinds d) g \<or> u = None \<Longrightarrow>
   tview (setObject g key' u d, f) = (tview (d, f))\<lparr>vw_objects := (objectAt d)(g := (objectAt d g)(key' := u))\<rparr>"
  by (simp_all add: tview_def tenantAt_set objectAt_set)

lemma std_patch:
  "writes tview (\<lambda>s. \<not> td_down (fst s)) (tc_patchTenant tenant_std t (withSpec fins gw t))
     (\<lambda>w. vw_tenants w (nsnOf (tn_meta t)) \<noteq> None) (patchedTenant t fins gw)"
proof -
  have new: "om_finalizers (tn_meta (withSpec fins gw t)) = fins" "tn_gateway (withSpec fins gw t) = gw" by (simp_all add: withSpec_def)
  have key: "nsnOf (tn_meta (mergeTenant t fins gw x)) = nsnOf (tn_meta x)" for x by (simp add: mergeTenant_def withSpec_def nsnOf_def)
  show ?thesis
    unfolding tenant_std_def tenant_client.simps new
  proof (rule down_or_writes)
    fix s :: tenant_state
    assume "vw_tenants (tview s) (nsnOf (tn_meta t)) \<noteq> None"
    then obtain x where x: "tenantAt (fst s) (nsnOf (tn_meta t)) = Some x" by (auto simp: tview_def)
    from tenantAtD [OF x] key have k: "nsnOf (tn_meta (mergeTenant t fins gw x)) = nsnOf (tn_meta t)" by simp
    let ?m = "mergeTenant t fins gw x" and ?key = "nsnOf (tn_meta t)"
    let ?v = "if om_deleting (tn_meta ?m) \<and> om_finalizers (tn_meta ?m) = [] then None else Some ?m"
    have "tview (setTenant ?key ?v (fst s), snd s) = patchedTenant t fins gw (tview s)"
      using tview_set(1) [of ?key ?v "fst s" "snd s"] k x by (simp add: patchedTenant_def putTenant_def tview_def)
    with x show "tview (fst (let key = ?key in case tenantAt (fst s) key of
          None \<Rightarrow> (fst s, Inl ApiNotFound)
        | Some x \<Rightarrow> let t' = mergeTenant t fins gw x in
            (setTenant key (if om_deleting (tn_meta t') \<and> om_finalizers (tn_meta t') = [] then None else Some t') (fst s), Inr ())), snd s) =
        patchedTenant t fins gw (tview s) \<and>
      snd (let key = ?key in case tenantAt (fst s) key of
          None \<Rightarrow> (fst s, Inl ApiNotFound)
        | Some x \<Rightarrow> let t' = mergeTenant t fins gw x in
            (setTenant key (if om_deleting (tn_meta t') \<and> om_finalizers (tn_meta t') = [] then None else Some t') (fst s), Inr ())) = Inr ()"
      by (simp add: Let_def)
  qed (auto simp: tview_def Let_def split: option.splits)
qed

lemma std_status:
  "writes tview (\<lambda>s. \<not> td_down (fst s)) (tc_statusTenant tenant_std t) (\<lambda>w. vw_tenants w (nsnOf (tn_meta t)) \<noteq> None) (statusTenant t)"
  unfolding tenant_std_def tenant_client.simps
proof (rule down_or_writes)
  fix s :: tenant_state
  assume "vw_tenants (tview s) (nsnOf (tn_meta t)) \<noteq> None"
  then obtain x where x: "tenantAt (fst s) (nsnOf (tn_meta t)) = Some x" by (auto simp: tview_def)
  with tenantAtD [OF x] tview_set(1) [of "nsnOf (tn_meta t)" "Some (x\<lparr>tn_status := tn_status t\<rparr>)" "fst s" "snd s"]
  show "tview (fst (let key = nsnOf (tn_meta t) in case tenantAt (fst s) key of
        None \<Rightarrow> (fst s, Inl ApiNotFound) | Some x \<Rightarrow> (setTenant key (Some (x\<lparr>tn_status := tn_status t\<rparr>)) (fst s), Inr ())), snd s) =
      statusTenant t (tview s) \<and>
    snd (let key = nsnOf (tn_meta t) in case tenantAt (fst s) key of
        None \<Rightarrow> (fst s, Inl ApiNotFound) | Some x \<Rightarrow> (setTenant key (Some (x\<lparr>tn_status := tn_status t\<rparr>)) (fst s), Inr ())) = Inr ()"
    by (simp add: Let_def statusTenant_def tview_def)
qed (auto simp: tview_def Let_def split: option.splits)

lemma std_delete:
  "writes tview (\<lambda>s. \<not> td_down (fst s)) (tc_delete tenant_std u) (\<lambda>w. vw_objects w (uo_gvk u) (objKey u) \<noteq> None) (dropObject u)"
  unfolding tenant_std_def tenant_client.simps
proof (rule down_or_writes)
  fix s :: tenant_state
  assume "vw_objects (tview s) (uo_gvk u) (objKey u) \<noteq> None"
  then obtain x where x: "objectAt (fst s) (uo_gvk u) (objKey u) = Some x" by (auto simp: tview_def)
  note o = objectAtD [OF x]
  from o have "pred_option (isAt (uo_gvk u) (objKey u)) (afterDeletion x)"
    by (auto simp: afterDeletion_def isAt_def objKey_def nsnOf_def)
  from tview_set(2) [OF this, of "fst s" "snd s"] o x
  show "tview (fst (case objectAt (fst s) (uo_gvk u) (objKey u) of
        None \<Rightarrow> (fst s, Inl ApiNotFound) | Some x \<Rightarrow> (setObject (uo_gvk u) (objKey u) (afterDeletion x) (fst s), Inr ())), snd s) =
      dropObject u (tview s) \<and>
    snd (case objectAt (fst s) (uo_gvk u) (objKey u) of
        None \<Rightarrow> (fst s, Inl ApiNotFound) | Some x \<Rightarrow> (setObject (uo_gvk u) (objKey u) (afterDeletion x) (fst s), Inr ())) = Inr ()"
    by (simp add: dropObject_def tview_def)
qed (auto simp: tview_def split: option.splits)

lemma merge_applied: "pred_option (isAt (uo_gvk u) (objKey u)) old \<Longrightarrow> appliedAs u old (mergeObject u old)"
  by (cases old) (auto simp: appliedAs_def mergeObject_def isAt_def objKey_def nsnOf_def map_le_def)

lemma std_apply:
  "(\<exists>u'. appliedAs u (vw_objects (tview c) (uo_gvk u) (objKey u)) u' \<and> vw_registered (tview c) (uo_gvk u) \<and>
     tview (fst (tc_apply tenant_std u c)) = putObject u' (tview c)) \<or>
   tview (fst (tc_apply tenant_std u c)) = tview c \<and> (\<exists>e. snd (tc_apply tenant_std u c) = Inl e)"
proof (cases "td_down (fst c) \<or> \<not> List.member (td_kinds (fst c)) (uo_gvk u)")
  case True
  then show ?thesis by (auto simp: tenant_std_def kind_or_def down_or_def)
next
  case False
  let ?old = "objectAt (fst c) (uo_gvk u) (objKey u)"
  have at: "pred_option (isAt (uo_gvk u) (objKey u)) ?old" by (cases ?old) (auto simp: isAt_def dest: objectAtD)
  note ap = merge_applied [OF at]
  from ap have "pred_option (isAt (uo_gvk u) (objKey u)) (Some (mergeObject u ?old))" by (simp add: appliedAs_def isAt_def)
  from tview_set(2) [OF this, of "fst c" "snd c"] False
  have "tview (fst (tc_apply tenant_std u c)) = putObject (mergeObject u ?old) (tview c)"
    using ap by (simp add: tenant_std_def kind_or_def down_or_def putObject_def tview_def appliedAs_def)
  with ap False show ?thesis by (intro disjI1 exI [of _ "mergeObject u ?old"]) (simp add: tview_def)
qed

lemma std_list: "kindRead tview (\<lambda>s. \<not> td_down (fst s)) g (tc_list tenant_std g ns) (lists_kind g ns)"
  unfolding tenant_std_def tenant_client.simps
proof (rule kind_or_reads [OF refl])
  fix s :: tenant_state
  have "{u \<in> set (td_objects (fst s)). objectAt (fst s) g (objKey u) = Some u} = ran (objectAt (fst s) g)"
  proof (intro set_eqI iffI)
    fix u assume "u \<in> ran (objectAt (fst s) g)"
    then obtain key where "objectAt (fst s) g key = Some u" by (auto simp: ran_def)
    with objectAtD [OF this] show "u \<in> {u \<in> set (td_objects (fst s)). objectAt (fst s) g (objKey u) = Some u}" by simp
  qed (auto intro: ranI)
  then show "lists_kind g ns (tview s) (Inr (filter (inScope ns) (remdups (filter (\<lambda>u. objectAt (fst s) g (objKey u) = Some u) (td_objects (fst s))))))"
    by (auto simp: lists_kind_def tview_def)
qed simp

interpretation ts: tenant_platform tenant_std tview "\<lambda>s. \<not> td_down (fst s)" "tenant_files getenv" "std_kz (\<lambda>_. ret rs)"
proof (unfold_locales, goal_cases)
  case (1 c)
  show ?case unfolding tenant_wf_def tview_def tenant_world.simps using tenantAtD objectAtD by blast
next
  case (2 key)
  show ?case unfolding tenant_std_def tenant_client.simps by (rule down_or_reads [OF refl]) (simp add: tview_def)
next
  case (3 g key)
  show ?case unfolding tenant_std_def tenant_client.simps
    by (rule kind_or_reads [OF refl]) (auto simp: stores_def tview_def split: option.splits)
next
  case (4 g ns) show ?case by (rule std_list)
next
  case (5 g)
  show ?case unfolding tenant_std_def tenant_client.simps by (rule kind_or_reads [OF refl]) simp_all
next
  case (6 u) show ?case by (rule std_delete)
next
  case (7 u c) show ?case by (rule std_apply)
next
  case (8 u c) then show ?case by (auto simp: tenant_std_def kind_or_def down_or_def tview_def split: if_splits)
next
  case (9 t fins gw) show ?case by (rule std_patch)
next
  case (10 t) show ?case by (rule std_status)
next
  case (11 t os os') then show ?case by (auto simp: tenant_std_def)
next
  case (12 cs cd ty) show ?case by (simp add: tenant_std_def std_conditionTrue_def find_setCondition)
qed (simp_all add: tenant_files_def onFiles_def tview_def Let_def std_kz_def split: prod.splits)

end
