(* ===== verification/Tenant_Lifecycle.thy ===== *)
theory Tenant_Lifecycle
  imports Tenant_Std
begin

text \<open>
  The theorems about a Tenant's life: when its finalizer goes, what the teardown deletes and what it
  spares, that it completes, that every object of the platform is tracked as the tenant's, and when the
  Tenant is reported Ready.
\<close>

section \<open>The finalizer guards the children\<close>

context tenant_platform
begin

lemma reconcile_read:
  assumes "vw_tenants (view c) req = Some t" "TenantReconcile k fs kz r req c = (c', res)"
  obtains "view c' = view c" | c1 where "view c1 = view c" "reconcileTenant k fs kz r req t c1 = (c', res)"
proof -
  obtain c1 x where run: "tc_getTenant k req c = (c1, x)" by fastforce
  have v: "view c1 = view c" using reads_view [OF getTenant, of req c] run by simp
  show ?thesis
  proof (cases x)
    case (Inl e)
    with run assms(2) have "c' = c1" by (auto simp: TenantReconcile_def attempt_def split: if_splits)
    with v that(1) show ?thesis by simp
  next
    case (Inr t')
    with getTenant [of req] run assms(1) have "t' = t" unfolding reads_def by (metis fst_conv snd_conv option.inject)
    with Inr run assms(2) that(2) v show ?thesis by (simp add: TenantReconcile_def attempt_def)
  qed
qed

lemma teardown_spares:
  assumes "om_deleting (tn_meta t) \<or> managementState (om_annotations (tn_meta t)) = ''Removed''" "om_name (tn_meta t) = TenantInstanceName"
  shows "keeps (\<lambda>c. spared W t (view c)) (reconcileTenant k fs kz r req t)"
proof -
  have fin: "keeps (\<lambda>c. spared W t (view c)) (finalizeTenantDeletion k getenv r t')" if "sameTenant t t'" for t' getenv
    using finalize_spares [of _ W t' getenv r] unfolding sameTenant_owned(3) [OF that] by (auto simp: stays_def)
  have rem: "keeps (\<lambda>c. spared W t (view c)) (removeTenantFinalizer k t')" for t'
    unfolding removeTenantFinalizer_def by (intro writes_keeps_wf [OF patchTenant]) (simp add: spared_def)
  have idle: "keeps (\<lambda>c. spared W t (view c)) (handleIdleManagementState k getenv r t ms)" for getenv ms
    unfolding handleIdleManagementState_def patchStatus_def Let_def bnd_ret
    by (intro keeps_rules fin rem sameTenant_status writes_keeps_wf [OF updateStatus]) (simp_all add: spared_def)
  have same: "sameTenant t t" by (simp add: sameTenant_def)
  show ?thesis
  proof (cases "om_deleting (tn_meta t)")
    case True
    then show ?thesis unfolding reconcileTenant_def using assms(2)
      by (simp only: if_True if_False simp_thms) (intro keeps_rules fin [OF same] rem)
  next
    case False
    with assms show ?thesis unfolding reconcileTenant_def Let_def by (simp add: idle)
  qed
qed

end

text \<open>C9: a Tenant that is deleted or set to Removed keeps its finalizer as long as something of it is
  left: whatever faults occur, when a reconciliation ends with the finalizer gone, no object of a swept kind
  in the work namespaces (and no swept cluster-wide object) is owned by the Tenant. Every other path of the
  reconciler, failed ones included, keeps the finalizer; only the state Unmanaged gives it up by intent.\<close>

theorem finalizer_guards_children:
  assumes "tenant_platform k view healthy fs kz" "vw_tenants (view c) req = Some t" "hasTenantFinalizer t"
    and "om_deleting (tn_meta t) \<or> managementState (om_annotations (tn_meta t)) \<noteq> ''Unmanaged''"
    and "TenantReconcile k fs kz r req c = (c', res)"
    and "\<And>t'. vw_tenants (view c') req = Some t' \<Longrightarrow> \<not> hasTenantFinalizer t'"
    and "swept (fs_getenv fs) r t g ns" "vw_objects (view c') g (ns, name) = Some u"
  shows "\<not> isOwnedByTenant u t"
proof -
  note guarded = tenant_platform.reconcileTenant_guarded [OF assms(1,3,4), of req r req]
  have h: "held req (view c)" using assms(2,3) by (auto simp: held_def)
  have "held req (view c') \<or> cleared (fs_getenv fs) r t (view c')"
  proof (rule tenant_platform.reconcile_read [OF assms(1,2,5)])
    assume "view c' = view c"
    with h show ?thesis by simp
  next
    fix c1 assume "view c1 = view c" "reconcileTenant k fs kz r req t c1 = (c', res)"
    with staysD [OF guarded, of c1 c' res] h show ?thesis by simp
  qed
  with assms(6-8) show ?thesis unfolding held_def cleared_def by blast
qed

text \<open>C18: the teardown of a Tenant touches nothing of others: whatever faults occur, every object that the
  Tenant does not own is afterwards stored exactly as before.\<close>

theorem teardown_spares_foreign:
  assumes "tenant_platform k view healthy fs kz" "vw_tenants (view c) req = Some t" "om_name (tn_meta t) = TenantInstanceName"
    and "om_deleting (tn_meta t) \<or> managementState (om_annotations (tn_meta t)) = ''Removed''"
    and "TenantReconcile k fs kz r req c = (c', res)"
    and "vw_objects (view c) g key = Some u" "\<not> isOwnedByTenant u t"
  shows "vw_objects (view c') g key = Some u"
proof (rule tenant_platform.reconcile_read [OF assms(1,2,5)])
  assume "view c' = view c"
  with assms(6) show ?thesis by simp
next
  fix c1 assume c1: "view c1 = view c" "reconcileTenant k fs kz r req t c1 = (c', res)"
  have "spared (vw_objects (view c)) t (view c1)" by (simp add: spared_def c1(1))
  from staysD [OF tenant_platform.teardown_spares [OF assms(1,4,3)] this c1(2)] sparedD assms(6,7) show ?thesis by blast
qed

section \<open>The teardown completes\<close>

text \<open>What a deletion request makes of an object: one in deletion stays so, one with finalizers is marked,
  any other is gone. \<open>purge\<close> does this to all objects of a set.\<close>

definition deletedObject :: "Unstructured \<Rightarrow> Unstructured option" where
  "deletedObject u = (if om_deleting (uo_meta u) then Some u else afterDeletion u)"

definition purge :: "(Unstructured \<Rightarrow> bool) \<Rightarrow> tenant_world \<Rightarrow> tenant_world" where
  "purge P w = w\<lparr>vw_objects := (\<lambda>g key. Option.bind (vw_objects w g key) (\<lambda>u. if P u then deletedObject u else Some u))\<rparr>"

definition hit :: "(Unstructured \<Rightarrow> bool) \<Rightarrow> tenant_world \<Rightarrow> bool" where
  "hit P w \<longleftrightarrow> (\<exists>g key u. vw_objects w g key = Some u \<and> P u)"

text \<open>A cluster that has the kinds the teardown lists.\<close>

definition served :: "tenant_world \<Rightarrow> bool" where
  "served w \<longleftrightarrow> (\<forall>g \<in> fst ` set namespacedKinds \<union> fst ` set clusterKinds. vw_registered w g)"

text \<open>Children that nothing else holds back, on such a cluster.\<close>

definition freeChildren :: "Tenant \<Rightarrow> tenant_world \<Rightarrow> bool" where
  "freeChildren t w \<longleftrightarrow>
     (\<forall>g key u. vw_objects w g key = Some u \<and> isOwnedByTenant u t \<longrightarrow> om_finalizers (uo_meta u) = [] \<and> \<not> om_deleting (uo_meta u)) \<and>
     (\<forall>g \<in> fst ` set namespacedKinds \<union> fst ` set clusterKinds. vw_registered w g)"

text \<open>A step that without faults deletes exactly the objects in a set, and is pending if there were any.\<close>

definition exactly :: "('c \<Rightarrow> tenant_world) \<Rightarrow> ('c \<Rightarrow> bool) \<Rightarrow> ('c, bool) call \<Rightarrow> (Unstructured \<Rightarrow> bool) \<Rightarrow> bool" where
  "exactly view healthy m S \<longleftrightarrow> (\<forall>c. healthy c \<and> served (view c) \<longrightarrow>
     (\<exists>c'. m c = (c', Inr (hit S (view c))) \<and> healthy c' \<and> view c' = purge S (view c)))"

lemma free_served: "freeChildren t w \<Longrightarrow> served w"
  unfolding freeChildren_def served_def by blast

lemma deletedObject_Some:
  "deletedObject u = Some u' \<Longrightarrow> om_deleting (uo_meta u') \<and> deletedObject u' = Some u' \<and> uo_gvk u' = uo_gvk u \<and>
     uo_namespace u' = uo_namespace u \<and> isOwnedByTenant u' t = isOwnedByTenant u t"
  by (auto simp: deletedObject_def afterDeletion_def uo_namespace_def isOwnedByTenant_def ownedByTenantRef_def
      ownedByTenantLabel_def split: if_splits)

lemma purge_fields [simp]:
  "vw_tenants (purge P w) = vw_tenants w" "vw_registered (purge P w) = vw_registered w" "served (purge P w) = served w"
  by (simp_all add: purge_def served_def)

lemma purge_objects:
  "vw_objects (purge P w) g key = Some u' \<longleftrightarrow>
     (\<exists>u. vw_objects w g key = Some u \<and> (if P u then deletedObject u = Some u' else u' = u))"
  by (cases "vw_objects w g key") (auto simp: purge_def)

lemma purge_purge: "purge P (purge Q w) = purge (\<lambda>u. Q u \<or> P u) w"
proof -
  have "Option.bind (if Q u then deletedObject u else Some u) (\<lambda>u. if P u then deletedObject u else Some u) =
      (if Q u \<or> P u then deletedObject u else Some u)" for u
    by (cases "deletedObject u") (auto dest: deletedObject_Some)
  then show ?thesis by (simp add: purge_def)
qed

lemma purge_cong:
  assumes "\<And>g key u. vw_objects w g key = Some u \<Longrightarrow> P u = Q u \<or> om_deleting (uo_meta u)"
  shows "purge P w = purge Q w"
proof -
  have "Option.bind (vw_objects w g key) (\<lambda>u. if P u then deletedObject u else Some u) =
      Option.bind (vw_objects w g key) (\<lambda>u. if Q u then deletedObject u else Some u)" for g key
    using assms [of g key] by (cases "vw_objects w g key") (auto simp: deletedObject_def)
  then show ?thesis by (simp add: purge_def)
qed

lemma purge_False: "purge (\<lambda>u. False) w = w"
  by (simp add: purge_def)

lemma purge_none: "(\<And>g key u. vw_objects w g key = Some u \<Longrightarrow> \<not> P u) \<Longrightarrow> purge P w = w"
  by (subst purge_cong [of w P "\<lambda>u. False"]) (auto simp: purge_False)

lemma purge_miss: "\<not> hit P w \<Longrightarrow> purge P w = w"
  unfolding hit_def by (rule purge_none) blast

lemma hit_purge: "hit P w \<or> hit Q (purge P w) \<longleftrightarrow> hit (\<lambda>u. P u \<or> Q u) w"
  unfolding hit_def purge_objects by metis

lemma drop_purge:
  assumes "tenant_wf w" "vw_objects w (uo_gvk i) (objKey i) = Some i" "\<not> om_deleting (uo_meta i)"
  shows "dropObject i w = purge (\<lambda>u. u = i) w"
proof -
  have upd: "((vw_objects w)(uo_gvk i := (vw_objects w (uo_gvk i))(objKey i := x))) g key =
      (if g = uo_gvk i \<and> key = objKey i then x else vw_objects w g key)" for g key x by simp
  have "(vw_objects w)(uo_gvk i := (vw_objects w (uo_gvk i))(objKey i := deletedObject i)) =
      (\<lambda>g key. Option.bind (vw_objects w g key) (\<lambda>u. if u = i then deletedObject u else Some u))"
  proof (intro ext, subst upd)
    fix g key
    show "(if g = uo_gvk i \<and> key = objKey i then deletedObject i else vw_objects w g key) =
        Option.bind (vw_objects w g key) (\<lambda>u. if u = i then deletedObject u else Some u)"
    proof (cases "vw_objects w g key")
      case (Some u)
      then have "uo_gvk u = g" "objKey u = key" using assms(1) unfolding tenant_wf_def by blast+
      with Some assms(2) have "g = uo_gvk i \<and> key = objKey i \<longleftrightarrow> u = i" by (metis option.inject)
      with Some show ?thesis by simp
    qed (use assms(2) in auto)
  qed
  then show ?thesis using assms(2,3) by (simp add: dropObject_def purge_def deletedObject_def)
qed

context tenant_server
begin

lemma deleteItems_exact:
  "healthy c \<Longrightarrow> distinct items \<Longrightarrow> (\<And>i. i \<in> set items \<Longrightarrow> vw_objects (view c) (uo_gvk i) (objKey i) = Some i) \<Longrightarrow>
   \<exists>c'. deleteItems k msg t items p c = (c', Inr (p \<or> (\<exists>i \<in> set items. isOwnedByTenant i t))) \<and> healthy c' \<and>
     view c' = purge (\<lambda>u. u \<in> set items \<and> isOwnedByTenant u t) (view c)"
proof (induction items arbitrary: c p)
  case Nil
  then show ?case by (simp add: purge_False)
next
  case (Cons i items)
  let ?rest = "\<lambda>u. u \<in> set items \<and> isOwnedByTenant u t" and ?all = "\<lambda>u. u \<in> set (i # items) \<and> isOwnedByTenant u t"
  show ?case
  proof (cases "isOwnedByTenant i t \<and> \<not> om_deleting (uo_meta i)")
    case False
    define q where "q = (p \<or> isOwnedByTenant i t)"
    with False have step: "deleteItems k msg t (i # items) p = deleteItems k msg t items q" by auto
    from Cons.IH [of c q] Cons.prems obtain c' where c': "deleteItems k msg t items q c = (c', Inr (q \<or> (\<exists>i \<in> set items. isOwnedByTenant i t)))"
      "healthy c'" "view c' = purge ?rest (view c)" by auto
    have "purge ?rest (view c) = purge ?all (view c)" using False by (intro purge_cong) auto
    with c' show ?thesis unfolding step q_def by (intro exI [of _ c']) auto
  next
    case True
    have st: "vw_objects (view c) (uo_gvk i) (objKey i) = Some i" using Cons.prems(3) by simp
    then have "vw_objects (view c) (uo_gvk i) (objKey i) \<noteq> None" by simp
    from writes_healthy [OF deleteObject Cons.prems(1) this] obtain c1 where
      c1: "healthy c1" "view c1 = dropObject i (view c)" "tc_delete k i c = (c1, Inr ())" by blast
    have v1: "view c1 = purge (\<lambda>u. u = i) (view c)" using drop_purge [OF wf st] True c1(2) by simp
    have "vw_objects (view c1) (uo_gvk j) (objKey j) = Some j" if "j \<in> set items" for j
      using that Cons.prems(2,3) unfolding v1 purge_objects by (intro exI [of _ j]) auto
    with Cons.IH [of c1 True] Cons.prems(2) c1(1) obtain c' where
      c': "deleteItems k msg t items True c1 = (c', Inr True)" "healthy c'" "view c' = purge ?rest (view c1)" by auto
    have "view c' = purge ?all (view c)"
      unfolding c'(3) v1 purge_purge using True by (intro purge_cong) auto
    with c' c1 True show ?thesis by (intro exI [of _ c']) (simp add: attempt_def)
  qed
qed

text \<open>Listing a kind and deleting what is owned, from a healthy state.\<close>

lemma listed_exact:
  assumes "healthy c" "vw_registered (view c) g"
  shows "\<exists>c1 items. tc_list k g ns c = (c1, Inr items) \<and>
    (\<exists>c'. deleteItems k msg t items False c1 = (c', Inr (hit (\<lambda>u. uo_gvk u = g \<and> inScope ns u \<and> isOwnedByTenant u t) (view c))) \<and> healthy c' \<and>
       view c' = purge (\<lambda>u. uo_gvk u = g \<and> inScope ns u \<and> isOwnedByTenant u t) (view c))"
proof -
  let ?S = "\<lambda>u. uo_gvk u = g \<and> inScope ns u \<and> isOwnedByTenant u t"
  obtain c1 x where run: "tc_list k g ns c = (c1, x)" by fastforce
  with listObjects [of g ns] assms(1,2) have c1: "view c1 = view c" "healthy c1" "lists_kind g ns (view c) x"
    unfolding kindRead_def by (metis fst_conv, metis fst_conv, metis snd_conv)
  then obtain items where items: "x = Inr items" "distinct items" "set items = {u \<in> ran (vw_objects (view c) g). inScope ns u}"
    by (auto simp: lists_kind_def)
  have at: "vw_objects (view c) (uo_gvk i) (objKey i) = Some i \<and> uo_gvk i = g \<and> inScope ns i" if "i \<in> set items" for i
  proof -
    from that items(3) obtain key where key: "vw_objects (view c) g key = Some i" and sc: "inScope ns i" by (auto simp: ran_def)
    from storedD [OF key] key sc show ?thesis by simp
  qed
  have mem: "u \<in> set items \<longleftrightarrow> uo_gvk u = g \<and> inScope ns u" if "vw_objects (view c) g' key = Some u" for g' key u
  proof
    assume "uo_gvk u = g \<and> inScope ns u"
    with storedD [OF that] that show "u \<in> set items" unfolding items(3) by (auto intro: ranI)
  qed (use at in blast)
  from deleteItems_exact [OF c1(2) items(2), of msg t False] at c1(1) obtain c' where
    c': "deleteItems k msg t items False c1 = (c', Inr (\<exists>i \<in> set items. isOwnedByTenant i t))" "healthy c'"
      "view c' = purge (\<lambda>u. u \<in> set items \<and> isOwnedByTenant u t) (view c)" by auto
  have "(\<exists>i \<in> set items. isOwnedByTenant i t) = hit ?S (view c)" unfolding hit_def using at mem by blast
  moreover have "view c' = purge ?S (view c)" unfolding c'(3) by (rule purge_cong) (simp add: mem)
  ultimately show ?thesis using run items(1) c'(1,2) by auto
qed

lemma deleteTyped_exact:
  assumes "gp \<in> set namespacedKinds \<union> set clusterKinds"
  shows "exactly view healthy (deleteTyped k t ns gp) (\<lambda>u. uo_gvk u = fst gp \<and> inScope ns u \<and> isOwnedByTenant u t)"
  unfolding exactly_def
proof (intro allI impI)
  fix c assume c: "healthy c \<and> served (view c)"
  then have "vw_registered (view c) (fst gp)" using assms unfolding served_def by blast
  from listed_exact [OF _ this, of ns "\<lambda>item. ''delete '' @ kindOf (fst gp) @ '' '' @ (case ns of None \<Rightarrow> [] | Some n \<Rightarrow> n @ ''/'') @ uo_name item @ '': ''" t] c
  show "\<exists>c'. deleteTyped k t ns gp c = (c', Inr (hit (\<lambda>u. uo_gvk u = fst gp \<and> inScope ns u \<and> isOwnedByTenant u t) (view c))) \<and>
      healthy c' \<and> view c' = purge (\<lambda>u. uo_gvk u = fst gp \<and> inScope ns u \<and> isOwnedByTenant u t) (view c)"
    unfolding deleteTyped_def Let_def by (auto simp: bnd_def wrapErr_def attempt_def)
qed

lemma deleteUnstructured_exact:
  "exactly view healthy (deleteOwnedUnstructured k t ns g) (\<lambda>u. uo_gvk u = g \<and> inScope (Some ns) u \<and> isOwnedByTenant u t)"
  unfolding exactly_def
proof (intro allI impI)
  let ?S = "\<lambda>u. uo_gvk u = g \<and> inScope (Some ns) u \<and> isOwnedByTenant u t"
  fix c assume c: "healthy c \<and> served (view c)"
  show "\<exists>c'. deleteOwnedUnstructured k t ns g c = (c', Inr (hit ?S (view c))) \<and> healthy c' \<and> view c' = purge ?S (view c)"
  proof (cases "vw_registered (view c) g")
    case True
    from listed_exact [OF _ True, of "Some ns" "\<lambda>obj. ''delete '' @ kindOf (uo_gvk obj) @ '' '' @ ns @ ''/'' @ uo_name obj @ '': ''" t] c
    show ?thesis unfolding deleteOwnedUnstructured_def by (auto simp: attempt_def)
  next
    case False
    obtain c1 x where run: "tc_list k g (Some ns) c = (c1, x)" by fastforce
    with listObjects [of g "Some ns"] c False have c1: "view c1 = view c" "healthy c1" "x = Inl ApiNoMatch"
      unfolding kindRead_def by (metis fst_conv, metis fst_conv, metis snd_conv)
    have none: "\<not> ?S u" if "vw_objects (view c) g' key = Some u" for g' key u using storedD [OF that] False by auto
    then have "\<not> hit ?S (view c)" unfolding hit_def by blast
    with c1 run purge_none [OF none, of "view c"] show ?thesis
      unfolding deleteOwnedUnstructured_def by (auto simp: attempt_def isNoMatchError_def)
  qed
qed

lemma exactly_then:
  assumes "exactly view healthy m S" "exactly view healthy n S'"
  shows "exactly view healthy (bnd m (\<lambda>p. bnd n (\<lambda>q. ret (p \<or> q)))) (\<lambda>u. S u \<or> S' u)"
  unfolding exactly_def
proof (intro allI impI)
  fix c assume c: "healthy c \<and> served (view c)"
  with assms(1) obtain c1 where c1: "m c = (c1, Inr (hit S (view c)))" "healthy c1" "view c1 = purge S (view c)"
    unfolding exactly_def by blast
  then have "healthy c1 \<and> served (view c1)" using c by simp
  with assms(2) obtain c2 where c2: "n c1 = (c2, Inr (hit S' (view c1)))" "healthy c2" "view c2 = purge S' (view c1)"
    unfolding exactly_def by blast
  have "bnd m (\<lambda>p. bnd n (\<lambda>q. ret (p \<or> q))) c = (c2, Inr (hit S (view c) \<or> hit S' (purge S (view c))))"
    using c1 c2(1) by (simp add: bnd_def attempt_def)
  then show "\<exists>c'. bnd m (\<lambda>p. bnd n (\<lambda>q. ret (p \<or> q))) c = (c', Inr (hit (\<lambda>u. S u \<or> S' u) (view c))) \<and> healthy c' \<and>
      view c' = purge (\<lambda>u. S u \<or> S' u) (view c)"
    using c2(2,3) by (intro exI [of _ c2]) (simp add: hit_purge c1(3) purge_purge)
qed

lemma exactly_nothing: "exactly view healthy (ret False) (\<lambda>u. False)"
  by (simp add: exactly_def hit_def purge_none)

lemma anyPending_exact:
  assumes "\<And>x. x \<in> set xs \<Longrightarrow> exactly view healthy (f x) (S x)"
  shows "exactly view healthy (anyPending f xs) (\<lambda>u. \<exists>x \<in> set xs. S x u)"
  using assms
proof (induction xs)
  case (Cons x xs)
  from exactly_then [OF Cons.prems [of x] Cons.IH] Cons.prems show ?case by simp
qed (simp add: exactly_nothing)

lemma exactly_cong: "(\<And>u. S u = S' u) \<Longrightarrow> exactly view healthy m S \<Longrightarrow> exactly view healthy m S'"
proof -
  assume "\<And>u. S u = S' u" "exactly view healthy m S"
  moreover then have "S = S'" by (intro ext) simp
  ultimately show ?thesis by simp
qed

lemma finalize_exact:
  assumes "om_namespace (tn_meta t) \<noteq> []"
  shows "exactly view healthy (finalizeTenantDeletion k getenv r t) (\<lambda>u. isOwnedByTenant u t \<and> swept getenv r t (uo_gvk u) (uo_namespace u))"
proof -
  let ?nss = "tenantWorkNamespaces t (operatorNamespace getenv r) (tr_AppNamespace r)"
  let ?In = "\<lambda>g ns u. uo_gvk u = g \<and> inScope ns u \<and> isOwnedByTenant u t"
  have "om_namespace (tn_meta t) \<in> set ?nss" using assms by (simp add: tenantWorkNamespaces_def)
  then have fin: "finalizeTenantDeletion k getenv r t = bnd (anyPending (deleteOwnedInNamespace k t) ?nss)
      (\<lambda>p. bnd (deleteOwnedClusterScoped k t) (\<lambda>q. ret (p \<or> q)))"
    unfolding finalizeTenantDeletion_def Let_def by auto
  have "exactly view healthy (deleteOwnedInNamespace k t ns)
      (\<lambda>u. (\<exists>gp \<in> set namespacedKinds. ?In (fst gp) (Some ns) u) \<or> (\<exists>g \<in> set optionalPlatformGVKs. ?In g (Some ns) u))" for ns
    unfolding deleteOwnedInNamespace_def by (intro exactly_then anyPending_exact deleteTyped_exact deleteUnstructured_exact) simp
  moreover have "exactly view healthy (deleteOwnedClusterScoped k t) (\<lambda>u. \<exists>gp \<in> set clusterKinds. ?In (fst gp) None u)"
    unfolding deleteOwnedClusterScoped_def by (intro anyPending_exact deleteTyped_exact) simp
  ultimately have "exactly view healthy (finalizeTenantDeletion k getenv r t)
      (\<lambda>u. (\<exists>ns \<in> set ?nss. (\<exists>gp \<in> set namespacedKinds. ?In (fst gp) (Some ns) u) \<or> (\<exists>g \<in> set optionalPlatformGVKs. ?In g (Some ns) u)) \<or>
        (\<exists>gp \<in> set clusterKinds. ?In (fst gp) None u))"
    unfolding fin by (intro exactly_then anyPending_exact)
  then show ?thesis by (rule exactly_cong [rotated]) (auto simp: swept_def inScope_def)
qed

end

definition childrenOf :: "(string \<Rightarrow> string) \<Rightarrow> TenantReconciler \<Rightarrow> Tenant \<Rightarrow> Unstructured \<Rightarrow> bool" where
  "childrenOf getenv r t u \<longleftrightarrow> isOwnedByTenant u t \<and> swept getenv r t (uo_gvk u) (uo_namespace u)"

definition dropTenant :: "nsn \<Rightarrow> tenant_world \<Rightarrow> tenant_world" where
  "dropTenant req w = w\<lparr>vw_tenants := (vw_tenants w)(req := None)\<rparr>"

text \<open>A tenant in deletion that only its own finalizer holds back.\<close>

definition ending :: "Tenant \<Rightarrow> bool" where
  "ending t \<longleftrightarrow> om_name (tn_meta t) = TenantInstanceName \<and> om_namespace (tn_meta t) \<noteq> [] \<and> om_deleting (tn_meta t) \<and>
     om_finalizers (tn_meta t) = [tenantFinalizer]"

context tenant_platform
begin

lemma reconcile_healthy:
  assumes "healthy c"
  obtains c1 where "view c1 = view c" "healthy c1"
    "TenantReconcile k fs kz r req c =
      (case vw_tenants (view c) req of None \<Rightarrow> (c1, Inr Done) | Some t \<Rightarrow> reconcileTenant k fs kz r req t c1)"
proof -
  from reads_healthy [OF getTenant assms, of req] obtain c1 where "healthy c1" "view c1 = view c"
    "tc_getTenant k req c = (c1, case vw_tenants (view c) req of None \<Rightarrow> Inl ApiNotFound | Some t \<Rightarrow> Inr t)" by blast
  then show ?thesis
    by (intro that [of c1]) (auto simp: TenantReconcile_def attempt_def isNotFound_def split: option.splits)
qed

lemma remove_ending:
  assumes "healthy c" "vw_tenants (view c) req = Some t" "ending t"
  shows "\<exists>c'. removeTenantFinalizer k t c = (c', Inr ()) \<and> healthy c' \<and> view c' = dropTenant req (view c)"
proof -
  have key: "nsnOf (tn_meta t) = req" using wf [of c] assms(2) unfolding tenant_wf_def by blast
  have "vw_tenants (view c) (nsnOf (tn_meta t)) \<noteq> None" using assms(2) key by simp
  from writes_healthy [OF patchTenant assms(1) this, of "finalizersWithout t" "tn_gateway t"] obtain c' where
    c': "healthy c'" "view c' = patchedTenant t (finalizersWithout t) (tn_gateway t) (view c)"
      "tc_patchTenant k t (withSpec (finalizersWithout t) (tn_gateway t) t) c = (c', Inr ())" by blast
  have "finalizersWithout t = []" using assms(3) by (simp add: ending_def finalizersWithout_def)
  then have "patchedTenant t (finalizersWithout t) (tn_gateway t) (view c) = dropTenant req (view c)"
    using assms(2,3) key by (simp add: patchedTenant_def putTenant_def mergeTenant_def withSpec_def ending_def dropTenant_def nsnOf_def)
  with c' show ?thesis by (simp add: removeTenantFinalizer_def)
qed

lemma one_pass:
  assumes "healthy c" "vw_tenants (view c) req = Some t" "ending t" "served (view c)"
    and S: "S = childrenOf (fs_getenv fs) r t"
  shows "\<exists>c'. healthy c' \<and>
    (if hit S (view c) then TenantReconcile k fs kz r req c = (c', Inr (RequeueAfter (5 * Second))) \<and> view c' = purge S (view c)
     else TenantReconcile k fs kz r req c = (c', Inr Done) \<and> view c' = dropTenant req (view c))"
proof -
  obtain c1 where c1: "view c1 = view c" "healthy c1" "TenantReconcile k fs kz r req c = reconcileTenant k fs kz r req t c1"
    using reconcile_healthy [OF assms(1), of r req] assms(2) by auto
  have "exactly view healthy (finalizeTenantDeletion k (fs_getenv fs) r t) S"
    unfolding S childrenOf_def using finalize_exact [of t "fs_getenv fs" r] assms(3) by (simp add: ending_def)
  with c1(1,2) assms(4) obtain c2 where c2: "finalizeTenantDeletion k (fs_getenv fs) r t c1 = (c2, Inr (hit S (view c)))"
    "healthy c2" "view c2 = purge S (view c)" unfolding exactly_def by metis
  have "hasTenantFinalizer t" using assms(3) by (simp add: ending_def hasTenantFinalizer_def)
  then have run: "TenantReconcile k fs kz r req c = (if hit S (view c) then (c2, Inr (RequeueAfter (5 * Second)))
      else bnd (removeTenantFinalizer k t) (\<lambda>_. ret Done) c2)"
    using c1(3) c2(1) assms(3) by (simp add: reconcileTenant_def ending_def bnd_def [of "finalizeTenantDeletion k (fs_getenv fs) r t"] attempt_def)
  show ?thesis
  proof (cases "hit S (view c)")
    case True
    with run c2 show ?thesis by auto
  next
    case False
    then have "view c2 = view c" using c2(3) by (simp add: purge_miss)
    with remove_ending [OF c2(2), of req t] assms(2,3) obtain c3 where "removeTenantFinalizer k t c2 = (c3, Inr ())" "healthy c3"
      "view c3 = dropTenant req (view c)" by auto
    with False run show ?thesis by (auto simp: bnd_def attempt_def)
  qed
qed

lemma two_passes:
  assumes "healthy c" "vw_tenants (view c) req = Some t" "ending t" "freeChildren t (view c)"
  shows "\<exists>c1 c2 r1. TenantReconcile k fs kz r req c = (c1, Inr r1) \<and> TenantReconcile k fs kz r req c1 = (c2, Inr Done) \<and>
    view c2 = dropTenant req (purge (childrenOf (fs_getenv fs) r t) (view c))"
proof -
  let ?S = "childrenOf (fs_getenv fs) r t"
  from one_pass [OF assms(1-3) free_served [OF assms(4)] refl, of r] obtain c1 where c1: "healthy c1"
    "if hit ?S (view c) then TenantReconcile k fs kz r req c = (c1, Inr (RequeueAfter (5 * Second))) \<and> view c1 = purge ?S (view c)
     else TenantReconcile k fs kz r req c = (c1, Inr Done) \<and> view c1 = dropTenant req (view c)" by blast
  show ?thesis
  proof (cases "hit ?S (view c)")
    case True
    with c1 have v: "view c1 = purge ?S (view c)" and r1: "TenantReconcile k fs kz r req c = (c1, Inr (RequeueAfter (5 * Second)))" by auto
    have "deletedObject u = None" if "vw_objects (view c) g key = Some u" "?S u" for g key u
      using that assms(4) unfolding freeChildren_def childrenOf_def deletedObject_def afterDeletion_def by metis
    then have "\<not> hit ?S (view c1)" unfolding v hit_def purge_objects by (metis option.distinct(1))
    moreover have "vw_tenants (view c1) req = Some t" "served (view c1)"
      unfolding v using assms(2) free_served [OF assms(4)] by simp_all
    ultimately obtain c2 where "TenantReconcile k fs kz r req c1 = (c2, Inr Done)"
      "view c2 = dropTenant req (view c1)" using one_pass [OF c1(1) _ assms(3) _ refl, of req r] by auto
    with r1 v show ?thesis by auto
  next
    case False
    then have "purge ?S (view c) = view c" by (rule purge_miss)
    moreover from False c1 have v: "view c1 = dropTenant req (view c)" and r1: "TenantReconcile k fs kz r req c = (c1, Inr Done)" by auto
    moreover obtain c2 where "view c2 = view c1" "TenantReconcile k fs kz r req c1 = (c2, Inr Done)"
      using reconcile_healthy [OF c1(1), of r req] v by (auto simp: dropTenant_def)
    ultimately show ?thesis by auto
  qed
qed

end

text \<open>What the others may do between two reconciliations: the Tenant and the installed kinds stay, and no
  object becomes a child; children may change otherwise and disappear, but do not come back from deletion.\<close>

definition othersLetGo :: "nsn \<Rightarrow> (Unstructured \<Rightarrow> bool) \<Rightarrow> tenant_world \<Rightarrow> tenant_world \<Rightarrow> bool" where
  "othersLetGo req S w w' \<longleftrightarrow> vw_tenants w' req = vw_tenants w req \<and> (served w \<longrightarrow> served w') \<and>
     (\<forall>g key u'. vw_objects w' g key = Some u' \<and> S u' \<longrightarrow>
        (\<exists>u. vw_objects w g key = Some u \<and> S u \<and> (om_deleting (uo_meta u) \<longrightarrow> om_deleting (uo_meta u'))))"

definition allDeleting :: "(Unstructured \<Rightarrow> bool) \<Rightarrow> tenant_world \<Rightarrow> bool" where
  "allDeleting S w \<longleftrightarrow> (\<forall>g key u. vw_objects w g key = Some u \<and> S u \<longrightarrow> om_deleting (uo_meta u))"

lemma allDeleting_purge: "allDeleting S (purge S w)"
  unfolding allDeleting_def purge_objects using deletedObject_Some by metis

lemma allDeleting_letGo: "allDeleting S w \<Longrightarrow> othersLetGo req S w w' \<Longrightarrow> allDeleting S w'"
  unfolding allDeleting_def othersLetGo_def by metis

context tenant_platform
begin

text \<open>As long as there are children, every pass of a sequence finds the Tenant and asks to be run again.\<close>

lemma passes_requeue:
  assumes "vw_tenants (view (cs 0)) req = Some t" "ending t" "served (view (cs 0))" "\<forall>j \<le> n. healthy (cs j)"
    and S: "S = childrenOf (fs_getenv fs) r t"
    and "\<forall>j < n. othersLetGo req S (view (fst (TenantReconcile k fs kz r req (cs j)))) (view (cs (Suc j)))"
    and "\<forall>j < n. hit S (view (cs j))"
  shows "vw_tenants (view (cs n)) req = Some t \<and> served (view (cs n)) \<and> (0 < n \<longrightarrow> allDeleting S (view (cs n))) \<and>
    (\<forall>j < n. snd (TenantReconcile k fs kz r req (cs j)) = Inr (RequeueAfter (5 * Second)) \<and>
       view (fst (TenantReconcile k fs kz r req (cs j))) = purge S (view (cs j)))"
  using assms(4,6,7)
proof (induction n)
  case 0
  with assms show ?case by simp
next
  case (Suc n)
  then have ih: "vw_tenants (view (cs n)) req = Some t" "served (view (cs n))"
    "\<forall>j < n. snd (TenantReconcile k fs kz r req (cs j)) = Inr (RequeueAfter (5 * Second)) \<and>
       view (fst (TenantReconcile k fs kz r req (cs j))) = purge S (view (cs j))" by simp_all
  from one_pass [OF _ ih(1) assms(2) ih(2) S] Suc.prems(1,3) obtain c' where
    c': "TenantReconcile k fs kz r req (cs n) = (c', Inr (RequeueAfter (5 * Second)))" "view c' = purge S (view (cs n))" by auto
  have go: "othersLetGo req S (purge S (view (cs n))) (view (cs (Suc n)))" using Suc.prems(2) c' by (metis fst_conv lessI)
  with ih(1,2) have "vw_tenants (view (cs (Suc n))) req = Some t" "served (view (cs (Suc n)))"
    by (simp_all add: othersLetGo_def)
  with allDeleting_letGo [OF allDeleting_purge go] ih(3) c' show ?case by (simp add: less_Suc_eq all_conj_distrib)
qed

lemma passes_end:
  assumes "vw_tenants (view (cs 0)) req = Some t" "ending t" "served (view (cs 0))" "\<forall>j \<le> n. healthy (cs j)" "0 < n"
    and S: "S = childrenOf (fs_getenv fs) r t"
    and go: "\<forall>j < n. othersLetGo req S (view (fst (TenantReconcile k fs kz r req (cs j)))) (view (cs (Suc j)))"
    and gone: "\<forall>g key u. vw_objects (view (cs n)) g key = Some u \<and> S u \<longrightarrow> \<not> om_deleting (uo_meta u)"
  shows "\<exists>m \<le> n. (\<forall>j < m. snd (TenantReconcile k fs kz r req (cs j)) = Inr (RequeueAfter (5 * Second)) \<and>
       view (fst (TenantReconcile k fs kz r req (cs j))) = purge S (view (cs j))) \<and>
    snd (TenantReconcile k fs kz r req (cs m)) = Inr Done \<and>
    view (fst (TenantReconcile k fs kz r req (cs m))) = dropTenant req (view (cs m))"
proof -
  have run: "vw_tenants (view (cs m)) req = Some t \<and> served (view (cs m)) \<and> (0 < m \<longrightarrow> allDeleting S (view (cs m))) \<and>
      (\<forall>j < m. snd (TenantReconcile k fs kz r req (cs j)) = Inr (RequeueAfter (5 * Second)) \<and>
         view (fst (TenantReconcile k fs kz r req (cs j))) = purge S (view (cs j)))"
    if "m \<le> n" "\<forall>j < m. hit S (view (cs j))" for m
    by (rule passes_requeue [where cs = cs, OF assms(1-3) _ S]) (use that assms(4) go in auto)
  have ex: "\<exists>m. m \<le> n \<and> \<not> hit S (view (cs m))"
  proof (rule ccontr)
    assume none: "\<nexists>m. m \<le> n \<and> \<not> hit S (view (cs m))"
    with run [of n] assms(5) have "allDeleting S (view (cs n))" by simp
    with gone have "\<not> hit S (view (cs n))" unfolding allDeleting_def hit_def by blast
    with none show False by blast
  qed
  define m where "m = (LEAST m. m \<le> n \<and> \<not> hit S (view (cs m)))"
  have m: "m \<le> n" "\<not> hit S (view (cs m))" using LeastI_ex [OF ex] by (simp_all add: m_def)
  have "\<forall>j < m. hit S (view (cs j))" using not_less_Least m(1) unfolding m_def by fastforce
  note r = run [OF m(1) this]
  from one_pass [of "cs m" req t S r] r m assms(2,4) S obtain c' where
    "TenantReconcile k fs kz r req (cs m) = (c', Inr Done)" "view c' = dropTenant req (view (cs m))" by auto
  with r m(1) show ?thesis by (intro exI [of _ m]) simp
qed

end

text \<open>C16: the deletion of a Tenant comes to an end, however long its children are held back. Let \<open>cs 0\<close>,
  \<open>cs 1\<close>, \<dots> be the cluster before successive reconciliations, without faults, of a Tenant in deletion whose
  only finalizer is the controller's own. In between, others let no new child appear and do not bring one
  back from deletion; and before some reconciliation \<open>N > 0\<close> no child in deletion is left, whatever
  finalizers held it. Then at the latest reconciliation \<open>N\<close> ends the deletion: up to some \<open>n \<le> N\<close> every
  pass asks to be run again after five seconds, having requested the deletion of all children in the swept
  kinds and namespaces and touched nothing else (those with finalizers stay, marked); pass \<open>n\<close> removes
  the finalizer, the Tenant is gone, and everything else is as before.\<close>

theorem teardown_completes:
  assumes "tenant_platform k view healthy fs kz" "0 < N" "\<forall>j \<le> N. healthy (cs j)"
    and "vw_tenants (view (cs 0)) req = Some t" "ending t" "served (view (cs 0))"
    and "\<forall>j < N. othersLetGo req (childrenOf (fs_getenv fs) r t) (view (fst (TenantReconcile k fs kz r req (cs j)))) (view (cs (Suc j)))"
    and "\<forall>g key u. vw_objects (view (cs N)) g key = Some u \<and> childrenOf (fs_getenv fs) r t u \<longrightarrow> \<not> om_deleting (uo_meta u)"
  shows "\<exists>n \<le> N. (\<forall>j < n. snd (TenantReconcile k fs kz r req (cs j)) = Inr (RequeueAfter (5 * Second)) \<and>
       view (fst (TenantReconcile k fs kz r req (cs j))) = purge (childrenOf (fs_getenv fs) r t) (view (cs j))) \<and>
    snd (TenantReconcile k fs kz r req (cs n)) = Inr Done \<and>
    view (fst (TenantReconcile k fs kz r req (cs n))) = dropTenant req (view (cs n))"
  by (rule tenant_platform.passes_end [where cs = cs, OF assms(1,4,5,6,3,2) refl assms(7,8)])

lemma rate_limits_not_swept: "\<not> swept getenv r t GVKTokenRateLimitPolicy ns"
  by (simp add: swept_def namespacedKinds_def clusterKinds_def optionalPlatformGVKs_def GVKTokenRateLimitPolicy_def GVKConfigMap_def GVKDeployment_def)

text \<open>C38: the default-deny TokenRateLimitPolicy of the gateway is among the rendered and tracked objects, but its kind is
  not among those the teardown lists: when the deletion of a Tenant without other obstacles has run to its
  end, the Tenant is gone and every such policy, its own included, is still there.\<close>

theorem deny_policy_orphaned:
  assumes "tenant_platform k view healthy fs kz" "healthy c" "vw_tenants (view c) req = Some t" "ending t" "freeChildren t (view c)"
    and "vw_objects (view c) GVKTokenRateLimitPolicy key = Some u"
  shows "\<exists>c1 c2 r1. TenantReconcile k fs kz r req c = (c1, Inr r1) \<and> TenantReconcile k fs kz r req c1 = (c2, Inr Done) \<and>
    vw_tenants (view c2) req = None \<and> vw_objects (view c2) GVKTokenRateLimitPolicy key = Some u"
proof -
  have "uo_gvk u = GVKTokenRateLimitPolicy"
    using tenant_server.storedD [OF tenant_platform.axioms(1) [OF assms(1)] assms(6)] by simp
  then have "\<not> childrenOf (fs_getenv fs) r t u" by (simp add: childrenOf_def rate_limits_not_swept)
  with assms(6) have "vw_tenants w req = None \<and> vw_objects w GVKTokenRateLimitPolicy key = Some u"
    if "w = dropTenant req (purge (childrenOf (fs_getenv fs) r t) (view c))" for w
    by (simp add: that dropTenant_def purge_def)
  with tenant_platform.two_passes [OF assms(1-5), of r] show ?thesis by blast
qed

section \<open>Everything applied is tracked\<close>

lemma prepared_key: "prepareObject k t x = Inr u \<Longrightarrow> uo_gvk u = uo_gvk x \<and> objKey u = objKey x"
  by (auto simp: prepareObject_def Let_def setTenantTrackingLabels_def setLabels_def objKey_def nsnOf_def split: if_splits elim!: andThen_InrE)

context tenant_server
begin

lemma prepared_owned:
  assumes "prepareObject k t x = Inr u" "appliedAs u old u'"
  shows "isOwnedByTenant u' t"
proof (cases "uo_namespace x \<noteq> [] \<and> uo_namespace x = om_namespace (tn_meta t)")
  case True
  with assms(1) obtain os where os: "tl_setControllerReference k t (uo_owners x) = Inr os" "uo_owners u = os"
    by (auto simp: prepareObject_def Let_def elim!: andThen_InrE)
  from setControllerReference [OF os(1)] os(2) assms(2) have "ownedByTenantRef u' t"
    by (auto simp: ownedByTenantRef_def list_ex_iff appliedAs_def)
  then show ?thesis by (simp add: isOwnedByTenant_def)
next
  case False
  then have "map_of (om_labels (uo_meta u)) = (map_of (om_labels (uo_meta x)))(LabelTenantName \<mapsto> om_name (tn_meta t), LabelTenantNamespace \<mapsto> om_namespace (tn_meta t))"
    using assms(1) by (auto simp: prepareObject_def Let_def setTenantTrackingLabels_def setLabels_def update_conv')
  with assms(2) have "map_of (om_labels (uo_meta u')) LabelTenantName = Some (om_name (tn_meta t))"
    "map_of (om_labels (uo_meta u')) LabelTenantNamespace = Some (om_namespace (tn_meta t))"
    by (auto simp: appliedAs_def map_le_def LabelTenantName_def LabelTenantNamespace_def dom_def)
  then have "ownedByTenantLabel u' t" by (auto simp: ownedByTenantLabel_def strMapIndex_def Let_def)
  then show ?thesis by (simp add: isOwnedByTenant_def)
qed

end

text \<open>The object is stored and owned, or its optional kind is not installed.\<close>

definition tracked :: "Tenant \<Rightarrow> Unstructured \<Rightarrow> tenant_world \<Rightarrow> bool" where
  "tracked t x w \<longleftrightarrow> (\<exists>u. vw_objects w (uo_gvk x) (objKey x) = Some u \<and> isOwnedByTenant u t) \<or>
     isOptionalAPIGroup (fst (uo_gvk x)) \<and> \<not> vw_registered w (uo_gvk x)"

lemma tracked_put:
  assumes "tracked t x w" "isOwnedByTenant u t" "vw_registered w (uo_gvk u)"
  shows "tracked t x (putObject u w)"
  using assms by (auto simp: tracked_def putObject_def)

context tenant_server
begin

lemma applyOne_keeps: "keeps (\<lambda>c. tracked t x (view c)) (applyOne k t y)"
proof (cases "prepareObject k t y")
  case (Inl e)
  then show ?thesis by (simp add: applyOne_def lift_def stays_def bnd_def attempt_def)
next
  case (Inr u)
  have "keeps (\<lambda>c. tracked t x (view c)) (tc_apply k u)"
    unfolding stays_def
  proof (intro allI impI)
    fix c assume tr: "tracked t x (view c)"
    show "tracked t x (view (fst (tc_apply k u c)))"
    proof (rule disjE [OF applyObject [of u c]])
      assume "\<exists>u'. appliedAs u (vw_objects (view c) (uo_gvk u) (objKey u)) u' \<and> vw_registered (view c) (uo_gvk u) \<and>
        view (fst (tc_apply k u c)) = putObject u' (view c)"
      then obtain u' where u': "appliedAs u (vw_objects (view c) (uo_gvk u) (objKey u)) u'" "vw_registered (view c) (uo_gvk u)"
        "view (fst (tc_apply k u c)) = putObject u' (view c)" by blast
      then have "vw_registered (view c) (uo_gvk u')" by (simp add: appliedAs_def)
      from tracked_put [OF tr prepared_owned [OF Inr u'(1)] this] u'(3) show ?thesis by simp
    qed (use tr in simp)
  qed
  moreover have "bnd (ret u) f = f u" for f :: "Unstructured \<Rightarrow> ('c, unit) call" by (rule ext) (simp add: bnd_def attempt_def)
  ultimately show ?thesis unfolding applyOne_def lift_def Inr sum.case by (simp only:) (intro keeps_rules)
qed

lemma applyOne_tracks:
  assumes "applyOne k t x c = (c', Inr ())"
  shows "tracked t x (view c')"
proof -
  from assms obtain u where u: "prepareObject k t x = Inr u"
    by (cases "prepareObject k t x") (auto simp: applyOne_def lift_def bnd_def attempt_def)
  note key = prepared_key [OF u]
  obtain c1 res where run: "tc_apply k u c = (c1, res)" by fastforce
  have c': "c' = c1" and opt: "res = Inr () \<or> res = Inl ApiNoMatch \<and> isOptionalAPIGroup (fst (uo_gvk u))"
    using assms u run by (auto simp: applyOne_def lift_def bnd_def attempt_def isNoMatchError_def split: sum.splits if_splits)
  show ?thesis
  proof (rule disjE [OF applyObject [of u c]])
    assume "\<exists>u'. appliedAs u (vw_objects (view c) (uo_gvk u) (objKey u)) u' \<and> vw_registered (view c) (uo_gvk u) \<and>
      view (fst (tc_apply k u c)) = putObject u' (view c)"
    then obtain u' where u': "appliedAs u (vw_objects (view c) (uo_gvk u) (objKey u)) u'" "view c1 = putObject u' (view c)"
      using run by auto
    then have "vw_objects (view c1) (uo_gvk x) (objKey x) = Some u'" using key by (simp add: putObject_def appliedAs_def)
    with prepared_owned [OF u u'(1)] c' show ?thesis by (auto simp: tracked_def)
  next
    assume "view (fst (tc_apply k u c)) = view c \<and> (\<exists>e. snd (tc_apply k u c) = Inl e)"
    with run have v: "view c1 = view c" "\<exists>e. res = Inl e" by simp_all
    with opt run applyNoMatch [of u c] have "isOptionalAPIGroup (fst (uo_gvk u)) \<and> \<not> vw_registered (view c) (uo_gvk u)" by auto
    with v(1) c' key show ?thesis by (simp add: tracked_def)
  qed
qed

lemma ApplyRendered_tracks:
  "ApplyRendered k t objs c = (c', Inr ()) \<Longrightarrow> x \<in> set objs \<Longrightarrow> tracked t x (view c')"
  unfolding ApplyRendered_def
proof (induction objs arbitrary: c)
  case (Cons y objs)
  from Cons.prems(1) obtain c1 where c1: "applyOne k t y c = (c1, Inr ())" "forE (applyOne k t) objs c1 = (c', Inr ())"
    by (auto elim!: bnd_Inr)
  show ?case
  proof (cases "x \<in> set objs")
    case False
    with Cons.prems(2) have "tracked t x (view c1)" using applyOne_tracks [OF c1(1)] by simp
    moreover have "keeps (\<lambda>c. tracked t x (view c)) (forE (applyOne k t) objs)" by (intro keeps_forE applyOne_keeps)
    ultimately show ?thesis using staysD c1(2) by metis
  qed (use Cons.IH [OF c1(2)] in simp)
qed simp

end

text \<open>C17: nothing the platform consists of gets lost from sight. After a successful application, every
  rendered object is stored and recognised as owned by the Tenant (by its controller reference in the
  Tenant's namespace, by its tracking labels anywhere else); the only objects that may be missing are those
  of an optional API group whose kind is not installed.\<close>

theorem applied_objects_tracked:
  assumes "tenant_server k view healthy" "ApplyRendered k t objs c = (c', Inr ())" "x \<in> set objs"
  shows "(\<exists>u. vw_objects (view c') (uo_gvk x) (objKey x) = Some u \<and> isOwnedByTenant u t) \<or>
    isOptionalAPIGroup (fst (uo_gvk x)) \<and> \<not> vw_registered (view c') (uo_gvk x)"
  using tenant_server.ApplyRendered_tracks [OF assms] unfolding tracked_def .

end
