(* ===== verification/Tenant_Ready.thy ===== *)
theory Tenant_Ready
  imports Tenant_Lifecycle
begin

text \<open>
  When a Tenant is reported Ready: the condition only turns true in a run that has found the gateway, the
  AuthConfig kind and a usable database secret, and whose platform ended with the maas-api deployment rolled
  out.
\<close>

section \<open>Readiness\<close>

definition isReady :: "'c tenant_client \<Rightarrow> Tenant \<Rightarrow> bool" where
  "isReady k t = tl_isStatusConditionTrue k (tst_conditions (tn_status t)) ReadyConditionType"

definition notReady :: "'c tenant_client \<Rightarrow> nsn \<Rightarrow> tenant_world \<Rightarrow> bool" where
  "notReady k key w \<longleftrightarrow> (\<forall>t. vw_tenants w key = Some t \<longrightarrow> \<not> isReady k t)"

definition databaseUsable :: "'c tenant_client \<Rightarrow> string \<Rightarrow> tenant_world \<Rightarrow> bool" where
  "databaseUsable k ns w \<longleftrightarrow> (\<exists>u data url. vw_objects w ([], ''v1'', ''Secret'') (ns, ''maas-db-config'') = Some u \<and>
     un_stringData (tl_api k) u = Inr data \<and> map_of data ''DB_CONNECTION_URL'' = Some url \<and> trimSpace url \<noteq> [])"

definition rolledOut :: "'c tenant_client \<Rightarrow> string \<Rightarrow> tenant_world \<Rightarrow> bool" where
  "rolledOut k ns w \<longleftrightarrow> (\<exists>u d. vw_objects w (''apps'', ''v1'', ''Deployment'') (ns, ''maas-api'') = Some u \<and>
     un_toDeployment (tl_api k) u = Inr d \<and> om_generation (dp_meta d) \<le> dp_observedGeneration d \<and>
     (let desired = (case dp_replicas d of None \<Rightarrow> 1 | Some n \<Rightarrow> n)
      in desired \<le> dp_updatedReplicas d \<and> desired \<le> dp_availableReplicas d))"

definition gatewayExists :: "TenantGatewayRef \<Rightarrow> tenant_world \<Rightarrow> bool" where
  "gatewayExists gw w \<longleftrightarrow> vw_objects w (''gateway.networking.k8s.io'', ''v1'', ''Gateway'') (gr_namespace gw, gr_name gw) \<noteq> None"

lemma deploymentReadiness_True:
  "fst (deploymentReadiness d) \<longleftrightarrow> om_generation (dp_meta d) \<le> dp_observedGeneration d \<and>
     (let desired = (case dp_replicas d of None \<Rightarrow> 1 | Some n \<Rightarrow> n) in desired \<le> dp_updatedReplicas d \<and> desired \<le> dp_availableReplicas d)"
  by (auto simp: deploymentReadiness_def Let_def)

text \<open>The end of a run that started at \<open>w\<close>: the Tenant is not Ready, or everything was found.\<close>

definition soundEnd :: "'c tenant_client \<Rightarrow> nsn \<Rightarrow> string \<Rightarrow> TenantGatewayRef \<Rightarrow> tenant_world \<Rightarrow> tenant_world \<Rightarrow> bool" where
  "soundEnd k key ns gw w w' \<longleftrightarrow> notReady k key w' \<or>
     gatewayExists gw w \<and> vw_registered w GVKAuthConfig \<and> databaseUsable k ns w \<and> rolledOut k ns w'"

text \<open>The gateway reference that is stored.\<close>

definition refersTo :: "nsn \<Rightarrow> TenantGatewayRef \<Rightarrow> tenant_world \<Rightarrow> bool" where
  "refersTo key gw w \<longleftrightarrow> (\<forall>t. vw_tenants w key = Some t \<longrightarrow> tn_gateway t = gw)"

text \<open>A read whose answer is known, in a cluster that is known.\<close>

lemma stays_known:
  assumes "\<And>c. view c = w \<Longrightarrow> view (fst (m c)) = w \<and> R (snd (m c))" "\<And>r. R r \<Longrightarrow> stays (\<lambda>c. view c = w) I (f r)"
  shows "stays (\<lambda>c. view c = w) I (attempt m f)"
  unfolding stays_def
proof (intro allI impI)
  fix c assume "view c = w"
  with assms(1) [of c] stays_fst [OF assms(2) [of "snd (m c)"], of "fst (m c)"] show "I (fst (attempt m f c))"
    by (simp add: attempt_def case_prod_beta)
qed

context tenant_platform
begin

lemma isReady_set: "isReady k (setTenantCondition k ty st re ms t) = (if ty = ReadyConditionType then st = ''True'' else isReady k t)"
  by (simp add: isReady_def setTenantCondition_def setStatusCondition eq_commute)

lemma notReady_writes:
  "notReady k key w \<Longrightarrow> \<not> isReady k t \<Longrightarrow> notReady k key (statusTenant t w)"
  "notReady k key w \<Longrightarrow> tenant_wf w \<Longrightarrow> notReady k key (patchedTenant t fins gw w)"
  "notReady k key w \<Longrightarrow> notReady k key (putObject u w)"
proof -
  show "notReady k key (putObject u w)" if "notReady k key w" using that by (simp add: notReady_def putObject_def)
  show "notReady k key (statusTenant t w)" if "notReady k key w" "\<not> isReady k t"
    using that by (auto simp: notReady_def statusTenant_def isReady_def split: option.splits)
  show "notReady k key (patchedTenant t fins gw w)" if "notReady k key w" "tenant_wf w"
  proof (cases "vw_tenants w (nsnOf (tn_meta t))")
    case (Some x)
    then have "nsnOf (tn_meta x) = nsnOf (tn_meta t)" using that(2) unfolding tenant_wf_def by blast
    with Some that(1) show ?thesis
      by (auto simp: notReady_def patchedTenant_def putTenant_def mergeTenant_def withSpec_def isReady_def nsnOf_def)
  qed (use that in \<open>simp add: patchedTenant_def\<close>)
qed

lemma patchStatus_notReady: "keeps (\<lambda>c. notReady k key (view c)) (patchStatus k t ph ''False'' re ms)"
  unfolding patchStatus_def Let_def
  by (intro keeps_rules writes_keeps_wf [OF updateStatus] notReady_writes(1)) (simp_all add: isReady_set)

lemma stays_weaken: "keeps (\<lambda>c. P (view c)) m \<Longrightarrow> P w \<Longrightarrow> (\<And>w. P w \<Longrightarrow> Q w) \<Longrightarrow> stays (\<lambda>c. view c = w) (\<lambda>c. Q (view c)) m"
  by (auto simp: stays_def)

text \<open>What the checks have found when they succeed.\<close>

lemma reads_known: "keeps (\<lambda>c. view c = w) m \<Longrightarrow> view c = w \<Longrightarrow> view (fst (m c)) = w"
  by (simp add: stays_def)

lemma gateway_known:
  assumes "view c = w"
  shows "view (fst (validateGatewayExists k ns n c)) = w \<and> (snd (validateGatewayExists k ns n c) = Inr () \<longrightarrow> gatewayExists \<lparr>gr_namespace = ns, gr_name = n\<rparr> w)"
proof -
  obtain c1 x where run: "tc_get k GVKGateway (ns, n) c = (c1, x)" by fastforce
  have "snd (validateGatewayExists k ns n c) = Inr () \<Longrightarrow> gatewayExists \<lparr>gr_namespace = ns, gr_name = n\<rparr> w"
    using kindRead_Inr(2) [OF getObject, of GVKGateway "(ns, n)" c c1] run assms
    by (cases x) (auto simp: validateGatewayExists_def attempt_def stores_def gatewayExists_def GVKGateway_def split: if_splits option.splits)
  with reads_known [OF checks_keep(5) assms] show ?thesis by blast
qed

lemma dependencies_known:
  assumes "view c = w"
  shows "view (fst (CheckDependencies k c)) = w \<and> (snd (CheckDependencies k c) = Inr () \<longrightarrow> vw_registered w GVKAuthConfig)"
proof -
  obtain c1 x where run: "tc_restMapping k GVKAuthConfig c = (c1, x)" by fastforce
  have reg: "x = Inr y \<Longrightarrow> vw_registered w GVKAuthConfig" for y
    using restMapping [of GVKAuthConfig] run assms unfolding kindRead_def by (metis snd_conv)
  have "snd (CheckDependencies k c) = Inr () \<Longrightarrow> vw_registered w GVKAuthConfig"
    using run reg by (cases x) (auto simp: CheckDependencies_def IsGVKAvailable_def bnd_def wrapErr_def attempt_def split: if_splits)
  with reads_known [OF checks_keep(1) assms] show ?thesis by blast
qed

lemma secret_known:
  assumes "view c = w" "checkDatabaseSecret k ns c = (c', Inr [])"
  shows "databaseUsable k ns w"
proof -
  obtain c1 x where run: "tc_get k GVKSecret (ns, MaaSDBSecretName) c = (c1, x)" by fastforce
  from assms(2) run obtain u data url where u: "x = Inr u" "un_stringData (tl_api k) u = Inr data" "map_of data MaaSDBSecretKey = Some url" "trimSpace url \<noteq> []"
    by (auto simp: checkDatabaseSecret_def getStringData_def bnd_def attempt_def lift_def missingDBKey_def
        split: sum.splits option.splits if_splits)
  from kindRead_Inr(2) [OF getObject run [unfolded u(1)]] assms(1) have "vw_objects w GVKSecret (ns, MaaSDBSecretName) = Some u"
    by (auto simp: stores_def split: option.splits)
  with u show ?thesis by (auto simp: databaseUsable_def GVKSecret_def MaaSDBSecretName_def MaaSDBSecretKey_def)
qed

lemma report_known:
  assumes "view c = w"
  shows "view (fst (CollectPrerequisiteReport k ns c)) = w \<and>
    (\<forall>rep. snd (CollectPrerequisiteReport k ns c) = Inr rep \<and> pr_blocking rep = [] \<longrightarrow> databaseUsable k ns w)"
proof -
  have "databaseUsable k ns w" if rep: "snd (CollectPrerequisiteReport k ns c) = Inr rep" "pr_blocking rep = []" for rep
  proof -
    obtain c' where "CollectPrerequisiteReport k ns c = (c', Inr rep)" using rep(1) by (metis prod.collapse)
    then obtain c1 tls c2 db where c1: "checkAuthorinoTLS k c = (c1, Inr tls)" "checkDatabaseSecret k ns c1 = (c2, Inr db)" "pr_blocking rep = nonEmpty db"
      unfolding CollectPrerequisiteReport_def by (auto elim!: bnd_Inr)
    have "keeps (\<lambda>c. view c = w) (checkAuthorinoTLS k)"
      unfolding checkAuthorinoTLS_def IsGVKAvailable_def by (intro keeps_rules platform_reads)
    from staysD [OF this assms c1(1)] have "view c1 = w" .
    moreover have "db = []" using c1(3) rep(2) by (simp add: nonEmpty_def split: if_splits)
    ultimately show ?thesis using secret_known c1(2) by simp
  qed
  with reads_known [OF checks_keep(2) assms] show ?thesis by blast
qed

lemma RunPlatform_rolledOut:
  assumes "RunPlatform k fs kz t p ns c = (c', Inr res)" "\<not> rr_deploymentPending res"
  shows "rolledOut k ns (view c')"
proof -
  from assms obtain c1 rd where run: "MaasAPIDeploymentReady k ns c1 = (c', Inr rd)" "fst rd"
    unfolding RunPlatform_def
    by (auto simp: attempt_def elim!: bnd_Inr dest!: wrapErr_Inr split: prod.splits sum.splits if_splits)
  obtain c2 x where get: "tc_get k GVKDeployment (ns, MaaSAPIDeploymentName) c1 = (c2, x)" by fastforce
  from run get obtain u d where u: "x = Inr u" "un_toDeployment (tl_api k) u = Inr d" "rd = deploymentReadiness d" "c' = c2"
    by (auto simp: MaasAPIDeploymentReady_def bnd_def attempt_def lift_def split: sum.splits if_splits)
  note r = kindRead_Inr [OF getObject get [unfolded u(1)]]
  have "vw_objects (view c') GVKDeployment (ns, MaaSAPIDeploymentName) = Some u"
    using r u(4) by (auto simp: stores_def split: option.splits)
  with u(2,3) run(2) show ?thesis
    by (auto simp: rolledOut_def deploymentReadiness_True GVKDeployment_def MaaSAPIDeploymentName_def)
qed

lemma patchStatus_end:
  "notReady k key w \<Longrightarrow> stays (\<lambda>c. view c = w) (\<lambda>c. soundEnd k key ns gw w (view c)) (bnd (patchStatus k t ph ''False'' re ms) (\<lambda>_. ret x))"
  by (rule stays_weaken [where P = "notReady k key"]) (intro keeps_rules patchStatus_notReady, auto simp: soundEnd_def)

lemma finishReady_end:
  assumes "rolledOut k ns (view c)"
  shows "rolledOut k ns (view (fst (finishReady k t c)))"
proof -
  have "keeps (\<lambda>c. rolledOut k ns (view c)) (finishReady k t)"
    unfolding finishReady_def Let_def by (intro keeps_rules writes_keeps_wf [OF updateStatus]) (simp add: rolledOut_def)
  with assms show ?thesis by (simp add: stays_def)
qed

lemma reconcilePlatform_end:
  assumes "notReady k key w" "gatewayExists gw w" "vw_registered w GVKAuthConfig" "databaseUsable k (tr_AppNamespace r) w"
  shows "stays (\<lambda>c. view c = w) (\<lambda>c. soundEnd k key (tr_AppNamespace r) gw w (view c)) (reconcilePlatform k fs kz r t)"
  unfolding stays_def
proof (intro allI impI)
  fix c assume w: "view c = w"
  obtain c1 x where run: "RunPlatform k fs kz t (tr_ManifestPath r) (tr_AppNamespace r) c = (c1, x)" by fastforce
  have n1: "notReady k key (view c1)"
    using staysD [OF RunPlatform_keeps [where J = "notReady k key"] _ run] notReady_writes(3) assms(1) w by simp
  have failed: "notReady k key (view (fst (bnd (patchStatus k t' ph ''False'' re ms) (\<lambda>_. ret y) c1)))" for t' ph re ms and y :: tenant_result
    by (rule stays_fst [where P = "\<lambda>c. notReady k key (view c)"]) (intro keeps_rules patchStatus_notReady, rule n1)
  show "soundEnd k key (tr_AppNamespace r) gw w (view (fst (reconcilePlatform k fs kz r t c)))"
  proof (cases x)
    case (Inl e)
    with run failed show ?thesis by (simp add: reconcilePlatform_def attempt_def soundEnd_def)
  next
    case (Inr res)
    show ?thesis
    proof (cases "rr_deploymentPending res")
      case True
      with Inr run failed show ?thesis by (simp add: reconcilePlatform_def attempt_def soundEnd_def)
    next
      case False
      with finishReady_end [OF RunPlatform_rolledOut [OF run [unfolded Inr]]] Inr run assms show ?thesis
        by (simp add: reconcilePlatform_def attempt_def soundEnd_def)
    qed
  qed
qed

lemma reconcileGateway_end:
  assumes n: "notReady k key w"
  shows "stays (\<lambda>c. view c = w) (\<lambda>c. soundEnd k key (tr_AppNamespace r) (tn_gateway t) w (view c)) (reconcileGateway k fs kz r t)"
proof -
  let ?Q = "\<lambda>c. soundEnd k key (tr_AppNamespace r) (tn_gateway t) w (view c)"
  have checked: "stays (\<lambda>c. view c = w) ?Q (reconcileChecked k fs kz r t)" if gw: "gatewayExists (tn_gateway t) w"
    unfolding reconcileChecked_def
  proof (rule stays_known [where R = "\<lambda>x. x = Inr () \<longrightarrow> vw_registered w GVKAuthConfig"], goal_cases)
    case (1 c)
    then show ?case by (rule dependencies_known)
  next
    case (2 x)
    show ?case
    proof (cases x)
      case (Inl e)
      then show ?thesis by (simp only: sum.case) (rule patchStatus_end [OF n])
    next
      case (Inr y)
      with 2 have reg: "vw_registered w GVKAuthConfig" by simp
      show ?thesis
        unfolding Inr sum.case bnd_def [of "CollectPrerequisiteReport k (tr_AppNamespace r)"] Let_def
      proof (rule stays_known [where R = "\<lambda>x. \<forall>rep. x = Inr rep \<and> pr_blocking rep = [] \<longrightarrow> databaseUsable k (tr_AppNamespace r) w"], goal_cases)
        case (1 c)
        then show ?case by (rule report_known)
      next
        case (2 z)
        show ?case
        proof (cases z)
          case (Inl e)
          then show ?thesis by (simp only: sum.case) (rule stays_fail, simp add: soundEnd_def n)
        next
          case (Inr rep)
          have "stays (\<lambda>c. view c = w) ?Q (reconcilePlatform k fs kz r t')" if "\<not> pr_blocking rep \<noteq> []" for t'
            using reconcilePlatform_end [OF n gw reg] 2 Inr that by blast
          then show ?thesis unfolding Inr sum.case by (intro stays_if patchStatus_end [OF n])
        qed
      qed
    qed
  qed
  show ?thesis
    unfolding reconcileGateway_def
  proof (rule stays_known [where R = "\<lambda>x. x = Inr () \<longrightarrow> gatewayExists (tn_gateway t) w"], goal_cases)
    case (1 c)
    then show ?case using gateway_known [of c w "gr_namespace (tn_gateway t)" "gr_name (tn_gateway t)"] by (simp add: gatewayExists_def)
  next
    case (2 x)
    show ?case
    proof (cases x)
      case (Inl e)
      then show ?thesis by (simp only: sum.case) (rule patchStatus_end [OF n])
    next
      case (Inr y)
      with 2 checked show ?thesis by (simp only: sum.case) (intro stays_if patchStatus_end [OF n], simp)
    qed
  qed
qed

lemma reconcileGateway_sound:
  assumes "vw_tenants (view c) key = Some t" "\<not> isReady k t" "tn_gateway t' = tn_gateway t" "reconcileGateway k fs kz r t' c = (c', res)"
    "vw_tenants (view c') key = Some t2" "isReady k t2"
  shows "gatewayExists (tn_gateway t2) (view c) \<and> vw_registered (view c) GVKAuthConfig \<and> databaseUsable k (tr_AppNamespace r) (view c) \<and>
    rolledOut k (tr_AppNamespace r) (view c')"
proof -
  have "notReady k key (view c)" using assms(1,2) by (simp add: notReady_def)
  from staysD [OF reconcileGateway_end [OF this, of r t'] refl assms(4)] assms(5,6)
  have e: "gatewayExists (tn_gateway t) (view c) \<and> vw_registered (view c) GVKAuthConfig \<and> databaseUsable k (tr_AppNamespace r) (view c) \<and>
      rolledOut k (tr_AppNamespace r) (view c')" by (auto simp: soundEnd_def notReady_def assms(3))
  have "keeps (\<lambda>c. refersTo key (tn_gateway t) (view c)) (reconcileGateway k fs kz r t')"
    by (rule reconcileGateway_keeps) (auto simp: refersTo_def putObject_def statusTenant_def split: option.splits if_splits)
  from staysD [OF this _ assms(4)] assms(1,5) have "tn_gateway t2 = tn_gateway t" by (auto simp: refersTo_def)
  with e show ?thesis by simp
qed

lemma facts_unchanged:
  assumes "vw_objects w' = vw_objects w" "vw_registered w' = vw_registered w"
  shows "gatewayExists gw w' = gatewayExists gw w" "databaseUsable k ns w' = databaseUsable k ns w"
  using assms by (simp_all add: gatewayExists_def databaseUsable_def)

lemma reconcileManaged_sound:
  assumes "vw_tenants (view c) key = Some t" "\<not> isReady k t" "reconcileManaged k fs kz r key t c = (c', res)"
    "vw_tenants (view c') key = Some t2" "isReady k t2"
  shows "gatewayExists (tn_gateway t2) (view c) \<and> vw_registered (view c) GVKAuthConfig \<and> databaseUsable k (tr_AppNamespace r) (view c) \<and>
    rolledOut k (tr_AppNamespace r) (view c')"
proof -
  have n: "notReady k key (view c)" using assms(1,2) by (simp add: notReady_def)
  have bad: False if "notReady k key (view c')" using that assms(4,5) by (simp add: notReady_def)
  show ?thesis
  proof (cases "applyGatewayDefaults t")
    case (Inl e)
    have "keeps (\<lambda>c. notReady k key (view c)) (bnd (patchStatus k t ''Failed'' ''False'' ''InvalidGateway'' (errText e)) (\<lambda>_. ret (RequeueAfter (30 * Second))))"
      by (intro keeps_rules patchStatus_notReady)
    from staysD [OF this n] assms(3) Inl bad show ?thesis by (simp add: reconcileManaged_def)
  next
    case (Inr t1)
    show ?thesis
    proof (cases "tn_gateway t = tn_gateway t1")
      case True
      with Inr assms(3) have "reconcileGateway k fs kz r t1 c = (c', res)" by (simp add: reconcileManaged_def)
      from reconcileGateway_sound [OF assms(1,2) _ this assms(4,5)] True show ?thesis by simp
    next
      case False
      with applyGatewayDefaults_patch [OF Inr] obtain gw where t1: "t1 = withSpec (om_finalizers (tn_meta t)) gw t" by auto
      let ?J = "\<lambda>w. notReady k key w \<and> vw_objects w = vw_objects (view c) \<and> vw_registered w = vw_registered (view c)"
      have reg: "vw_registered (patchedTenant t fins gw w) = vw_registered w" for fins gw w
        by (simp add: patchedTenant_def putTenant_def split: option.splits)
      have J: "keeps (\<lambda>c. ?J (view c)) (tc_patchTenant k t t1)" "keeps (\<lambda>c. ?J (view c)) (tc_getTenant k key)"
        unfolding t1 by (rule writes_keeps_wf [OF patchTenant], simp add: notReady_writes reg) (rule reads_keeps [OF getTenant])
      obtain c1 x where c1: "tc_patchTenant k t t1 c = (c1, x)" by fastforce
      have j1: "?J (view c1)" using staysD [OF J(1) _ c1] n by simp
      obtain c2 y where c2: "tc_getTenant k key c1 = (c2, y)" by fastforce
      have j2: "?J (view c2)" using staysD [OF J(2) j1 c2] .
      from assms(3) Inr False c1 c2 consider "c' = c1" | "c' = c2" | t3 where "y = Inr t3" "reconcileGateway k fs kz r t3 c2 = (c', res)"
        by (cases x; cases y) (auto simp: reconcileManaged_def bnd_def attempt_def)
      then show ?thesis
      proof cases
        case 3
        from getTenant [of key] c2 have "vw_tenants (view c2) key = Some t3"
          unfolding reads_def by (metis fst_conv snd_conv 3(1))
        moreover from this j2 have "\<not> isReady k t3" by (simp add: notReady_def)
        ultimately show ?thesis using reconcileGateway_sound [OF _ _ refl 3(2) assms(4,5)] facts_unchanged [of "view c2" "view c"] j2 by simp
      qed (use bad j1 j2 in auto)
    qed
  qed
qed

lemma teardown_notReady:
  "keeps (\<lambda>c. notReady k key (view c)) (finalizeTenantDeletion k getenv r t)" "keeps (\<lambda>c. notReady k key (view c)) (removeTenantFinalizer k t)"
proof -
  show "keeps (\<lambda>c. notReady k key (view c)) (finalizeTenantDeletion k getenv r t)"
    using finalize_spares [of _ "\<lambda>_ _. None" t getenv r] by (auto simp: stays_def spared_def notReady_def)
  show "keeps (\<lambda>c. notReady k key (view c)) (removeTenantFinalizer k t)"
    unfolding removeTenantFinalizer_def by (intro writes_keeps_wf [OF patchTenant] notReady_writes(2))
qed

end

section \<open>Theorem\<close>

text \<open>C10: a Tenant only becomes Ready for good reason. When a reconciliation, with whatever faults, turns the
  Ready condition of the stored Tenant to true, then at its start the gateway the Tenant refers to existed,
  the AuthConfig kind was registered and the database secret held a connection URL, and at its end the
  maas-api deployment has observed its current spec with all replicas updated and available.\<close>

theorem tenant_ready_sound:
  assumes "tenant_platform k view healthy fs kz" "vw_tenants (view c) req = Some t" "\<not> isReady k t"
    and "TenantReconcile k fs kz r req c = (c', res)" "vw_tenants (view c') req = Some t'" "isReady k t'"
  shows "gatewayExists (tn_gateway t') (view c) \<and> vw_registered (view c) GVKAuthConfig \<and>
    databaseUsable k (tr_AppNamespace r) (view c) \<and> rolledOut k (tr_AppNamespace r) (view c')"
proof (rule tenant_platform.reconcile_read [OF assms(1,2,4)])
  assume "view c' = view c"
  with assms show ?thesis by simp
next
  fix c1 assume c1: "view c1 = view c" "reconcileTenant k fs kz r req t c1 = (c', res)"
  have n: "notReady k req (view c1)" using assms(2,3) by (simp add: notReady_def c1(1))
  let ?managed = "om_name (tn_meta t) = TenantInstanceName \<and> \<not> om_deleting (tn_meta t) \<and> hasTenantFinalizer t \<and>
    managementState (om_annotations (tn_meta t)) \<in> {[], ''Managed''}"
  show ?thesis
  proof (cases ?managed)
    case True
    then have "reconcileTenant k fs kz r req t c1 = reconcileManaged k fs kz r req t c1" by (auto simp: reconcileTenant_def Let_def)
    with c1 tenant_platform.reconcileManaged_sound [OF assms(1), of c1 req t r c' res t'] assms show ?thesis by simp
  next
    case False
    note rules = tenant_platform.teardown_notReady [OF assms(1)] tenant_platform.patchStatus_notReady [OF assms(1)]
      tenant_server.writes_keeps_wf [OF tenant_platform.axioms(1) [OF assms(1)] tenant_server.patchTenant [OF tenant_platform.axioms(1) [OF assms(1)]]]
      tenant_platform.notReady_writes(2) [OF assms(1)]
    have "keeps (\<lambda>c. notReady k req (view c)) (reconcileTenant k fs kz r req t)"
      unfolding reconcileTenant_def handleIdleManagementState_def Let_def
      using False by (intro keeps_rules rules) auto
    from staysD [OF this n c1(2)] assms(5,6) show ?thesis by (simp add: notReady_def)
  qed
qed

end
