(* ===== verification/Tenant_Samples.thy ===== *)
theory Tenant_Samples
  imports Tenant_Ready
begin

text \<open>
  Concrete runs of the Tenant reconciler on the server \<open>tenant_std\<close>: a Tenant in deletion with a child of
  its own and one of somebody else in the gateway's namespace, the same after its child is gone, and a
  Tenant on a cluster that has all it needs. The theorems of \<open>Tenant_Lifecycle\<close> and \<open>Tenant_Ready\<close> are
  applied to them.
\<close>

section \<open>The platform\<close>

abbreviation sampleFiles :: "tenant_state files_api" where
  "sampleFiles \<equiv> tenant_files (\<lambda>_. [])"

definition sampleBuild :: "(string \<times> yany) list" where
  "sampleBuild = [(''apiVersion'', YStr ''v1''), (''kind'', YStr ''Service''),
     (''metadata'', YMap [(''name'', YStr ''maas-api''), (''namespace'', YStr ''opendatahub'')])]"

abbreviation sampleKustomize :: "(tenant_state, (string \<times> yany) list, (string \<times> yany) list) kustomize_api" where
  "sampleKustomize \<equiv> std_kz (\<lambda>_. ret [sampleBuild])"

definition sampleReconciler :: TenantReconciler where
  "sampleReconciler = \<lparr>tr_OperatorNamespace = ''ops'', tr_ManifestPath = ''/m'', tr_AppNamespace = ''maas'', tr_TenantNamespace = ''models-as-a-service''\<rparr>"

definition sampleKey :: nsn where
  "sampleKey = (''models-as-a-service'', TenantInstanceName)"

definition sampleKinds :: "gvk list" where
  "sampleKinds = map fst namespacedKinds @ map fst clusterKinds @ [GVKAuthPolicy, GVKTokenRateLimitPolicy, GVKSecret, GVKGateway, GVKAuthConfig]"

lemma samplePlatform: "tenant_platform tenant_std tview (\<lambda>s. \<not> td_down (fst s)) sampleFiles sampleKustomize"
  by (rule ts.tenant_platform_axioms)

section \<open>Deletion\<close>

definition endingTenant :: Tenant where
  "endingTenant = sampleTenant\<lparr>tn_meta := (tn_meta sampleTenant)\<lparr>om_finalizers := [tenantFinalizer], om_deleting := True\<rparr>\<rparr>"

definition ownConfig :: Unstructured where
  "ownConfig = newObject GVKConfigMap (newMeta ''own'' ''openshift-ingress''
     [(LabelTenantName, TenantInstanceName), (LabelTenantNamespace, ''models-as-a-service'')] []) []"

definition otherConfig :: Unstructured where
  "otherConfig = newObject GVKConfigMap (newMeta ''other'' ''openshift-ingress'' [] []) []"

definition endingState :: "Unstructured list \<Rightarrow> tenant_state" where
  "endingState objs = (\<lparr>td_tenants = [endingTenant], td_objects = objs, td_kinds = sampleKinds, td_down = False\<rparr>, [], [])"

abbreviation sampleRun :: "(tenant_state, tenant_result) call" where
  "sampleRun \<equiv> TenantReconcile tenant_std sampleFiles sampleKustomize sampleReconciler sampleKey"

lemma endingTenant_stored: "vw_tenants (tview (endingState objs)) sampleKey = Some endingTenant"
  by (simp add: tview_def endingState_def tenantAt_def endingTenant_def sampleTenant_def newMeta_def nsnOf_def sampleKey_def)

lemma ending_sample: "ending endingTenant" "hasTenantFinalizer endingTenant" "om_name (tn_meta endingTenant) = TenantInstanceName"
  "om_deleting (tn_meta endingTenant)"
  by (simp_all add: ending_def hasTenantFinalizer_def endingTenant_def sampleTenant_def newMeta_def)

lemma ownership: "isOwnedByTenant ownConfig endingTenant" "\<not> isOwnedByTenant otherConfig endingTenant"
  by code_simp+

lemma otherConfig_stored: "vw_objects (tview (endingState [ownConfig, otherConfig])) GVKConfigMap (''openshift-ingress'', ''other'') = Some otherConfig"
  unfolding tview_def tenant_world.simps by code_simp

theorem teardown_spares_foreign_witness:
  "vw_objects (tview (fst (sampleRun (endingState [ownConfig, otherConfig])))) GVKConfigMap (''openshift-ingress'', ''other'') = Some otherConfig"
  by (rule teardown_spares_foreign [OF samplePlatform endingTenant_stored ending_sample(3) disjI1 [OF ending_sample(4)]
        prod.collapse [symmetric] otherConfig_stored ownership(2)])

lemma samples_free:
  assumes "\<And>u. u \<in> set objs \<Longrightarrow> om_finalizers (uo_meta u) = [] \<and> \<not> om_deleting (uo_meta u)"
  shows "freeChildren endingTenant (tview (endingState objs))"
proof -
  have "\<forall>g key u. vw_objects (tview (endingState objs)) g key = Some u \<and> isOwnedByTenant u endingTenant \<longrightarrow>
      om_finalizers (uo_meta u) = [] \<and> \<not> om_deleting (uo_meta u)"
    using assms unfolding tview_def tenant_world.simps endingState_def fst_conv by (metis objectAtD tenant_db.select_convs(2))
  moreover have "\<forall>g \<in> fst ` set namespacedKinds \<union> fst ` set clusterKinds. vw_registered (tview (endingState objs)) g"
    unfolding tview_def tenant_world.simps endingState_def fst_conv tenant_db.select_convs sampleKinds_def by auto
  ultimately show ?thesis by (simp add: freeChildren_def)
qed

text \<open>A child with somebody else's finalizer is only marked by the first pass; when it is gone, the second
  pass ends the deletion.\<close>

definition heldConfig :: Unstructured where
  "heldConfig = ownConfig\<lparr>uo_meta := (uo_meta ownConfig)\<lparr>om_finalizers := [''example.com/hold'']\<rparr>\<rparr>"

definition heldRun :: "nat \<Rightarrow> tenant_state" where
  "heldRun j = (if j = 0 then endingState [heldConfig, otherConfig] else endingState [otherConfig])"

lemma endingState_served: "served (tview (endingState objs))"
  unfolding served_def tview_def tenant_world.simps endingState_def fst_conv tenant_db.select_convs sampleKinds_def by auto

lemma endingState_foreign:
  "vw_objects (tview (endingState [otherConfig])) g key = Some u \<Longrightarrow> \<not> isOwnedByTenant u endingTenant"
  using ownership(2) unfolding tview_def tenant_world.simps endingState_def fst_conv
  by (metis objectAtD tenant_db.select_convs(2) list.set_intros(1) empty_iff empty_set set_ConsD)

theorem teardown_completes_witness:
  "\<exists>n \<le> 1. snd (sampleRun (heldRun n)) = Inr Done \<and>
     vw_tenants (tview (fst (sampleRun (heldRun n)))) sampleKey = None"
proof -
  let ?S = "childrenOf (fs_getenv sampleFiles) sampleReconciler endingTenant"
  have start: "vw_tenants (tview (heldRun 0)) sampleKey = Some endingTenant" "served (tview (heldRun 0))"
    by (simp_all add: heldRun_def endingTenant_stored endingState_served)
  have up: "\<forall>j \<le> 1. \<not> td_down (fst (heldRun j))" by (simp add: heldRun_def endingState_def)
  have none: "\<not> ?S u" if "vw_objects (tview (endingState [otherConfig])) g key = Some u" for g key u
    using endingState_foreign [OF that] by (simp add: childrenOf_def)
  have "vw_tenants (tview (fst (sampleRun (heldRun 0)))) sampleKey = Some endingTenant"
    unfolding tview_def tenant_world.simps by code_simp
  then have "othersLetGo sampleKey ?S (tview (fst (sampleRun (heldRun 0)))) (tview (endingState [otherConfig]))"
    unfolding othersLetGo_def endingTenant_stored using none endingState_served by metis
  then have go: "\<forall>j < 1. othersLetGo sampleKey ?S (tview (fst (sampleRun (heldRun j)))) (tview (heldRun (Suc j)))"
    by (simp add: heldRun_def)
  have gone: "\<forall>g key u. vw_objects (tview (heldRun 1)) g key = Some u \<and> ?S u \<longrightarrow> \<not> om_deleting (uo_meta u)"
    using none by (metis heldRun_def zero_neq_one)
  obtain n where "n \<le> 1" "snd (sampleRun (heldRun n)) = Inr Done"
      "tview (fst (sampleRun (heldRun n))) = dropTenant sampleKey (tview (heldRun n))"
    using teardown_completes [where cs = heldRun, OF samplePlatform zero_less_one up start(1) ending_sample(1) start(2) go gone] by blast
  then show ?thesis by (intro exI [of _ n]) (simp add: dropTenant_def)
qed

theorem finalizer_guards_children_witness:
  "vw_tenants (tview (fst (sampleRun (endingState [otherConfig])))) sampleKey = None \<and> \<not> isOwnedByTenant otherConfig endingTenant"
proof -
  let ?s = "fst (sampleRun (endingState [otherConfig]))"
  have gone: "vw_tenants (tview ?s) sampleKey = None" unfolding tview_def tenant_world.simps by code_simp
  have kept: "vw_objects (tview ?s) GVKConfigMap (''openshift-ingress'', ''other'') = Some otherConfig"
    unfolding tview_def tenant_world.simps by code_simp
  have sw: "swept (fs_getenv sampleFiles) sampleReconciler endingTenant GVKConfigMap ''openshift-ingress''" by code_simp
  have "\<not> isOwnedByTenant otherConfig endingTenant"
    by (rule finalizer_guards_children [OF samplePlatform endingTenant_stored ending_sample(2) disjI1 [OF ending_sample(4)]
          prod.collapse [symmetric] _ sw kept]) (simp add: gone)
  with gone show ?thesis by blast
qed

definition denyPolicy :: Unstructured where
  "denyPolicy = newObject GVKTokenRateLimitPolicy (newMeta GatewayTokenRateLimitDefaultDenyPolicyName ''openshift-ingress''
     [(LabelTenantName, TenantInstanceName), (LabelTenantNamespace, ''models-as-a-service'')] []) []"

theorem deny_policy_orphaned_witness:
  "isOwnedByTenant denyPolicy endingTenant \<and>
   (\<exists>s1 s2 r1. sampleRun (endingState [denyPolicy]) = (s1, Inr r1) \<and> sampleRun s1 = (s2, Inr Done) \<and>
     vw_tenants (tview s2) sampleKey = None \<and> vw_objects (tview s2) GVKTokenRateLimitPolicy (objKey denyPolicy) = Some denyPolicy)"
proof
  show "isOwnedByTenant denyPolicy endingTenant" by code_simp
  have h: "\<not> td_down (fst (endingState [denyPolicy]))" by (simp add: endingState_def)
  have f: "freeChildren endingTenant (tview (endingState [denyPolicy]))"
    by (rule samples_free) (simp add: denyPolicy_def newObject_def newMeta_def)
  have p: "vw_objects (tview (endingState [denyPolicy])) GVKTokenRateLimitPolicy (objKey denyPolicy) = Some denyPolicy"
    unfolding tview_def tenant_world.simps by code_simp
  show "\<exists>s1 s2 r1. sampleRun (endingState [denyPolicy]) = (s1, Inr r1) \<and> sampleRun s1 = (s2, Inr Done) \<and>
     vw_tenants (tview s2) sampleKey = None \<and> vw_objects (tview s2) GVKTokenRateLimitPolicy (objKey denyPolicy) = Some denyPolicy"
    by (rule deny_policy_orphaned [OF samplePlatform h endingTenant_stored ending_sample(1) f p])
qed

section \<open>Application\<close>

theorem applied_objects_tracked_witness:
  "\<exists>s'. ApplyRendered tenant_std endingTenant sampleRender (endingState []) = (s', Inr ()) \<and>
     (\<exists>u. vw_objects (tview s') GVKAuthPolicy (''opendatahub'', MaaSAPIAuthPolicyName) = Some u \<and> isOwnedByTenant u endingTenant)"
proof -
  let ?x = "hd sampleRender"
  have "snd (ApplyRendered tenant_std endingTenant sampleRender (endingState [])) = Inr ()" by code_simp
  then obtain s' where run: "ApplyRendered tenant_std endingTenant sampleRender (endingState []) = (s', Inr ())" by (metis prod.collapse)
  have x: "?x \<in> set sampleRender" "uo_gvk ?x = GVKAuthPolicy" "objKey ?x = (''opendatahub'', MaaSAPIAuthPolicyName)" "\<not> isOptionalAPIGroup (fst (uo_gvk ?x))"
    by (simp add: sampleRender_def) code_simp+
  from applied_objects_tracked [OF tenant_platform.axioms(1) [OF samplePlatform] run x(1)] x run show ?thesis by auto
qed

section \<open>Readiness\<close>

definition managedTenant :: Tenant where
  "managedTenant = sampleTenant\<lparr>tn_meta := (tn_meta sampleTenant)\<lparr>om_finalizers := [tenantFinalizer]\<rparr>,
     tn_spec := (tn_spec sampleTenant)\<lparr>tsp_externalOIDC := None, tsp_telemetry := None\<rparr>\<rparr>"

definition readyState :: tenant_state where
  "readyState =
     (\<lparr>td_tenants = [managedTenant],
       td_objects =
         [newObject GVKGateway (newMeta ''gw'' ''openshift-ingress'' [] []) [],
          newObject GVKSecret (newMeta MaaSDBSecretName ''maas'' [] []) [(''data'', GMap [(MaaSDBSecretKey, GStr ''postgres://db'')])],
          newObject GVKDeployment (newMeta MaaSAPIDeploymentName ''maas'' [] [])
            [(''status'', GMap [(''updatedReplicas'', GInt 1), (''availableReplicas'', GInt 1)])]],
       td_kinds = sampleKinds, td_down = False\<rparr>, [], [])"

theorem tenant_ready_sound_witness:
  "\<exists>t'. vw_tenants (tview (fst (sampleRun readyState))) sampleKey = Some t' \<and> isReady tenant_std t' \<and>
     databaseUsable tenant_std ''maas'' (tview readyState) \<and> rolledOut tenant_std ''maas'' (tview (fst (sampleRun readyState)))"
proof -
  have t: "vw_tenants (tview readyState) sampleKey = Some managedTenant" "\<not> isReady tenant_std managedTenant"
    unfolding tview_def tenant_world.simps by code_simp+
  have "case tenantAt (fst (fst (sampleRun readyState))) sampleKey of None \<Rightarrow> False | Some t' \<Rightarrow> isReady tenant_std t'" by code_simp
  then obtain t' where t': "vw_tenants (tview (fst (sampleRun readyState))) sampleKey = Some t'" "isReady tenant_std t'"
    by (auto simp: tview_def split: option.splits)
  from tenant_ready_sound [OF samplePlatform t prod.collapse [symmetric] t'] t' show ?thesis
    by (simp add: sampleReconciler_def)
qed

end
