(* ===== verification/Manager_Startup.thy ===== *)
theory Manager_Startup
  imports Manager_Namespace Tenant_Samples AuthPolicy_Controller External_Model
begin

text \<open>
  The rest of \<open>maas-controller/cmd/manager/main.go\<close>: how the flags become the settings of the reconcilers,
  and the default Tenant that is created when there is none. The locale \<open>tenant_creation\<close> adds the creation
  of a Tenant to the API server; the theorem follows the platform from an empty cluster to the first
  reconciliation of its Tenant.
\<close>

section \<open>main.go: flags and reconcilers\<close>

record ManagerFlags =
  mf_metricsAddr :: string
  mf_probeAddr :: string
  mf_leaderElect :: bool
  mf_gatewayName :: string
  mf_gatewayNamespace :: string
  mf_maasAPINamespace :: string
  mf_maasSubscriptionNamespace :: string
  mf_clusterAudience :: string
  mf_metadataCacheTTL :: int
  mf_authzCacheTTL :: int
  mf_maintainInterval :: int

definition defaultFlags :: ManagerFlags where
  "defaultFlags =
     \<lparr>mf_metricsAddr = '':8080'', mf_probeAddr = '':8081'', mf_leaderElect = False,
      mf_gatewayName = ''maas-default-gateway'', mf_gatewayNamespace = ''openshift-ingress'',
      mf_maasAPINamespace = ''opendatahub'', mf_maasSubscriptionNamespace = ''models-as-a-service'',
      mf_clusterAudience = ''https://kubernetes.default.svc'', mf_metadataCacheTTL = 60, mf_authzCacheTTL = 60,
      mf_maintainInterval = 30 * Second\<rparr>"

definition getClusterServiceAccountIssuer :: "'c tenant_client \<Rightarrow> ('c, string) call" where
  "getClusterServiceAccountIssuer k =
     bnd (tc_get k (''config.openshift.io'', ''v1'', ''Authentication'') ([], ''cluster''))
       (\<lambda>u. case un_nestedString (tl_api k) (uo_body u) [''spec'', ''serviceAccountIssuer''] of
          (issuer, found, err) \<Rightarrow>
            (case err of
               Some e \<Rightarrow> fail (ErrText e)
             | None \<Rightarrow> if \<not> found \<or> issuer = [] then ret [] else ret issuer))"

definition detectAudience :: "'c tenant_client \<Rightarrow> string \<Rightarrow> ('c, string) call" where
  "detectAudience k audience =
     (if audience = ''https://kubernetes.default.svc'' then
        attempt (getClusterServiceAccountIssuer k)
          (\<lambda>r. case r of
             Inr detected \<Rightarrow> if detected \<noteq> [] then ret detected else ret audience
           | Inl _ \<Rightarrow> ret audience)
      else ret audience)"

definition managerManifestPath :: "'c files_api \<Rightarrow> string" where
  "managerManifestPath fs =
     (let env = fs_getenv fs ''MAAS_PLATFORM_MANIFESTS'';
          path = (if env = [] then DefaultManifestPath fs else env)
      in case fs_abs fs path of Inr p \<Rightarrow> p | Inl _ \<Rightarrow> path)"

text \<open>What the manager is set up with: the reconcilers, the namespace monitor, and the namespaces of the
  default Tenant and of the readiness probe.\<close>

record Manager =
  mg_modelRef :: MaaSModelRefReconciler
  mg_authPolicy :: MaaSAuthPolicyReconciler
  mg_external :: ExternalReconciler
  mg_monitor :: subscriptionNamespaceMonitor
  mg_defaultTenant :: string
  mg_tenant :: TenantReconciler
  mg_readyz :: string

definition buildManager :: "ManagerFlags \<Rightarrow> string \<Rightarrow> string \<Rightarrow> Manager" where
  "buildManager flags audience manifestPath =
     \<lparr>mg_modelRef = \<lparr>mrr_GatewayName = mf_gatewayName flags, mrr_GatewayNamespace = mf_gatewayNamespace flags\<rparr>,
      mg_authPolicy =
        \<lparr>acr_MaaSAPINamespace = mf_maasAPINamespace flags, acr_TenantNamespace = mf_maasSubscriptionNamespace flags,
         acr_GatewayName = mf_gatewayName flags, acr_ClusterAudience = audience,
         acr_MetadataCacheTTL = mf_metadataCacheTTL flags, acr_AuthzCacheTTL = mf_authzCacheTTL flags\<rparr>,
      mg_external = \<lparr>er_GatewayName = mf_gatewayName flags, er_GatewayNamespace = mf_gatewayNamespace flags\<rparr>,
      mg_monitor =
        \<lparr>nm_namespace = mf_maasSubscriptionNamespace flags, nm_interval = mf_maintainInterval flags,
         nm_needLeaderElection = mf_leaderElect flags\<rparr>,
      mg_defaultTenant = mf_maasSubscriptionNamespace flags,
      mg_tenant =
        \<lparr>tr_OperatorNamespace = [], tr_ManifestPath = manifestPath, tr_AppNamespace = mf_maasAPINamespace flags,
         tr_TenantNamespace = mf_maasSubscriptionNamespace flags\<rparr>,
      mg_readyz = mf_maasSubscriptionNamespace flags\<rparr>"

definition managerMain ::
  "'c ns_client \<Rightarrow> 'c wait_api \<Rightarrow> 'c tenant_client \<Rightarrow> 'c files_api \<Rightarrow> ManagerFlags \<Rightarrow> ('c, Manager) call" where
  "managerMain nk w k fs flags =
     bnd (ensureSubscriptionNamespaceWithClient nk w (mf_maasSubscriptionNamespace flags))
       (\<lambda>_. bnd (detectAudience k (mf_clusterAudience flags))
         (\<lambda>audience. ret (buildManager flags audience (managerManifestPath fs))))"

section \<open>main.go: the default Tenant\<close>

definition defaultTenant :: "string \<Rightarrow> Tenant" where
  "defaultTenant tenantNamespace =
     EnsureTenantGatewayDefaults
       \<lparr>tn_meta = newMeta TenantInstanceName tenantNamespace [] [], tn_uid = [],
        tn_spec = \<lparr>tsp_gatewayRef = \<lparr>gr_namespace = [], gr_name = []\<rparr>, tsp_apiKeys = None, tsp_externalOIDC = None, tsp_telemetry = None\<rparr>,
        tn_status = \<lparr>tst_phase = [], tst_conditions = []\<rparr>\<rparr>"

definition ensureDefaultTenant :: "'c tenant_client \<Rightarrow> (Tenant \<Rightarrow> ('c, unit) call) \<Rightarrow> string \<Rightarrow> ('c, unit) call" where
  "ensureDefaultTenant k create tenantNamespace =
     attempt (tc_getTenant k (tenantNamespace, TenantInstanceName))
       (\<lambda>r. case r of
          Inr _ \<Rightarrow> ret ()
        | Inl err \<Rightarrow>
            if \<not> isNotFound err then ret ()
            else attempt (create (defaultTenant tenantNamespace)) (\<lambda>_. ret ()))"

text \<open>One run at the start, one at every tick until the context is done.\<close>

fun defaultTenantTicks ::
  "'c tenant_client \<Rightarrow> (Tenant \<Rightarrow> ('c, unit) call) \<Rightarrow> ('c \<Rightarrow> 'c) \<Rightarrow> string \<Rightarrow> nat \<Rightarrow> ('c, unit) call" where
  "defaultTenantTicks k create tick ns 0 = ensureDefaultTenant k create ns"
| "defaultTenantTicks k create tick ns (Suc n) =
     (\<lambda>c. ensureDefaultTenant k create ns (tick (fst (defaultTenantTicks k create tick ns n c))))"

section \<open>The first steps of a platform\<close>

lemma detectAudience_total: "\<exists>c' a. detectAudience k aud c = (c', Inr a) \<and> (aud \<noteq> [] \<longrightarrow> a \<noteq> [])"
  by (auto simp: detectAudience_def attempt_def ret_def split: prod.splits sum.splits)

text \<open>A created Tenant is stored with an identity given by the server.\<close>

definition createdTenant :: "(tenant_world \<Rightarrow> string) \<Rightarrow> Tenant \<Rightarrow> tenant_world \<Rightarrow> tenant_world" where
  "createdTenant uid t w = w\<lparr>vw_tenants := (vw_tenants w)(nsnOf (tn_meta t) \<mapsto> t\<lparr>tn_uid := uid w\<rparr>)\<rparr>"

locale tenant_creation = tenant_platform k view healthy fs kz
  for k :: "'c tenant_client" and view :: "'c \<Rightarrow> tenant_world" and healthy :: "'c \<Rightarrow> bool" and fs :: "'c files_api" and kz :: "('c, 'r, 'b) kustomize_api" +
  fixes create :: "Tenant \<Rightarrow> ('c, unit) call" and uid :: "tenant_world \<Rightarrow> string"
  assumes createTenant: "writes view healthy (create t) (\<lambda>w. vw_tenants w (nsnOf (tn_meta t)) = None) (createdTenant uid t)"
begin

lemma ensureDefaultTenant_effect:
  "view (fst (ensureDefaultTenant k create ns c)) \<in> {view c, createdTenant uid (defaultTenant ns) (view c)} \<and>
   (view (fst (ensureDefaultTenant k create ns c)) = view c \<or> vw_tenants (view c) (nsnOf (tn_meta (defaultTenant ns))) = None)"
proof -
  obtain c1 r where get: "tc_getTenant k (ns, TenantInstanceName) c = (c1, r)" by fastforce
  have v: "view c1 = view c" using getTenant [of "(ns, TenantInstanceName)"] get unfolding reads_def by (metis fst_conv)
  show ?thesis
  proof (cases "\<exists>err. r = Inl err \<and> isNotFound err")
    case False
    then have "ensureDefaultTenant k create ns c = (c1, Inr ())"
      using get by (auto simp: ensureDefaultTenant_def attempt_def ret_def split: sum.splits)
    with v show ?thesis by simp
  next
    case True
    then have "fst (ensureDefaultTenant k create ns c) = fst (create (defaultTenant ns) c1)"
      using get by (auto simp: ensureDefaultTenant_def attempt_def ret_def split: prod.splits)
    with createTenant [of "defaultTenant ns"] v show ?thesis unfolding writes_def by (metis insertI1 insertI2)
  qed
qed

lemma ensureDefaultTenant_creates:
  assumes "healthy c" "vw_tenants (view c) (ns, TenantInstanceName) = None"
  shows "\<exists>c'. ensureDefaultTenant k create ns c = (c', Inr ()) \<and> healthy c' \<and> view c' = createdTenant uid (defaultTenant ns) (view c)"
proof -
  from reads_healthy [OF getTenant assms(1), of "(ns, TenantInstanceName)"] assms(2) obtain c1 where c1: "healthy c1" "view c1 = view c"
    "tc_getTenant k (ns, TenantInstanceName) c = (c1, Inl ApiNotFound)" by auto
  have "nsnOf (tn_meta (defaultTenant ns)) = (ns, TenantInstanceName)"
    by (simp add: defaultTenant_def EnsureTenantGatewayDefaults_def newMeta_def nsnOf_def)
  with writes_healthy [OF createTenant c1(1), of "defaultTenant ns"] c1(2) assms(2) obtain c' where
    "healthy c'" "view c' = createdTenant uid (defaultTenant ns) (view c)" "create (defaultTenant ns) c1 = (c', Inr ())" by auto
  with c1(3) show ?thesis by (auto simp: ensureDefaultTenant_def attempt_def ret_def isNotFound_def)
qed

end

lemma defaultTenant_fields:
  "nsnOf (tn_meta (defaultTenant ns)) = (ns, TenantInstanceName)" "om_name (tn_meta (defaultTenant ns)) = TenantInstanceName"
  "\<not> om_deleting (tn_meta (defaultTenant ns))" "om_finalizers (tn_meta (defaultTenant ns)) = []" "om_annotations (tn_meta (defaultTenant ns)) = []"
  "tn_gateway (defaultTenant ns) = \<lparr>gr_namespace = ''openshift-ingress'', gr_name = ''maas-default-gateway''\<rparr>"
  by (simp_all add: defaultTenant_def EnsureTenantGatewayDefaults_def newMeta_def nsnOf_def Tenant_Types.DefaultGatewayNamespace_def Tenant_Types.DefaultGatewayName_def)

text \<open>Creating the default Tenant harms nothing: whatever faults occur, however often it runs and whatever
  it finds, no Tenant that is there changes, and no other object of the cluster does.\<close>

theorem default_tenant_harmless:
  assumes "tenant_creation k view healthy fs kz create uid" "vw_tenants (view c) key = Some t"
    and "\<And>c. vw_tenants (view (tick c)) = vw_tenants (view c) \<and> vw_objects (view (tick c)) = vw_objects (view c)"
  shows "vw_tenants (view (fst (defaultTenantTicks k create tick ns n c))) key = Some t \<and>
    vw_objects (view (fst (defaultTenantTicks k create tick ns n c))) = vw_objects (view c)"
proof -
  have once: "vw_tenants (view (fst (ensureDefaultTenant k create ns c))) key = Some t \<and>
      vw_objects (view (fst (ensureDefaultTenant k create ns c))) = vw_objects (view c)" if "vw_tenants (view c) key = Some t" for c
    using tenant_creation.ensureDefaultTenant_effect [OF assms(1), of ns c] that by (auto simp: createdTenant_def)
  show ?thesis
  proof (induction n)
    case 0
    show ?case using once [OF assms(2)] by simp
  next
    case (Suc n)
    let ?c = "tick (fst (defaultTenantTicks k create tick ns n c))"
    have "vw_tenants (view ?c) key = Some t" "vw_objects (view ?c) = vw_objects (view c)" using Suc.IH assms(3) by simp_all
    with once [of ?c] show ?case by simp
  qed
qed

text \<open>C23: A platform starts by itself: on a cluster without faults and without Tenant, the manager built from any
  flags creates the default Tenant under exactly the name for which the Tenant controller is triggered, with
  the default gateway, which the reconciler accepts as it is; the first reconciliation puts the finalizer on
  it and asks to be called again, and no other object has changed.\<close>

theorem platform_bootstraps:
  assumes "tenant_creation k view healthy fs kz create uid" "healthy c"
    and "mg = buildManager flags aud path" "key = (mf_maasSubscriptionNamespace flags, TenantInstanceName)" "vw_tenants (view c) key = None"
  shows "enqueueDefaultTenant (mg_tenant mg) = [key] \<and>
    (\<exists>c1 c2 t. ensureDefaultTenant k create (mg_defaultTenant mg) c = (c1, Inr ()) \<and>
      TenantReconcile k fs kz (mg_tenant mg) key c1 = (c2, Inr Requeue) \<and>
      vw_tenants (view c2) key = Some t \<and> hasTenantFinalizer t \<and> applyGatewayDefaults t = Inr t \<and>
      tn_gateway t = \<lparr>gr_namespace = ''openshift-ingress'', gr_name = ''maas-default-gateway''\<rparr> \<and>
      vw_objects (view c2) = vw_objects (view c))"
proof
  show "enqueueDefaultTenant (mg_tenant mg) = [key]" by (simp add: enqueueDefaultTenant_def assms(3,4) buildManager_def)
  note plat = tenant_creation.axioms(1) [OF assms(1)]
  note serv = tenant_platform.axioms(1) [OF plat]
  let ?ns = "mf_maasSubscriptionNamespace flags"
  have ns: "mg_defaultTenant mg = ?ns" by (simp add: assms(3) buildManager_def)
  from tenant_creation.ensureDefaultTenant_creates [OF assms(1,2), of ?ns] assms(4,5) obtain c1 where
    c1: "ensureDefaultTenant k create ?ns c = (c1, Inr ())" "healthy c1" "view c1 = createdTenant uid (defaultTenant ?ns) (view c)" by auto
  define t1 where "t1 = (defaultTenant ?ns)\<lparr>tn_uid := uid (view c)\<rparr>"
  have st: "vw_tenants (view c1) key = Some t1" "nsnOf (tn_meta t1) = key"
    by (simp_all add: c1(3) createdTenant_def t1_def defaultTenant_fields assms(4))
  obtain c2 where c2: "view c2 = view c1" "healthy c2"
    "TenantReconcile k fs kz (mg_tenant mg) key c1 = reconcileTenant k fs kz (mg_tenant mg) key t1 c2"
    using tenant_platform.reconcile_healthy [OF plat c1(2), of "mg_tenant mg" key] st(1) by auto
  have pre: "vw_tenants (view c2) (nsnOf (tn_meta t1)) \<noteq> None" using st c2(1) by simp
  from writes_healthy [OF tenant_server.patchTenant [OF serv] c2(2) pre, of "[tenantFinalizer]" "tn_gateway t1"] obtain c3 where
    c3: "healthy c3" "view c3 = patchedTenant t1 [tenantFinalizer] (tn_gateway t1) (view c2)"
      "tc_patchTenant k t1 (withSpec [tenantFinalizer] (tn_gateway t1) t1) c2 = (c3, Inr ())" by blast
  have f: "om_name (tn_meta t1) = TenantInstanceName" "\<not> om_deleting (tn_meta t1)" "om_finalizers (tn_meta t1) = []"
    "om_annotations (tn_meta t1) = []" "tn_gateway t1 = \<lparr>gr_namespace = ''openshift-ingress'', gr_name = ''maas-default-gateway''\<rparr>"
    by (simp_all add: t1_def defaultTenant_fields)
  have "reconcileTenant k fs kz (mg_tenant mg) key t1 c2 = (c3, Inr Requeue)"
    using c3(3) f by (simp add: reconcileTenant_def managementState_def strMapIndex_def hasTenantFinalizer_def bnd_def attempt_def ret_def)
  with c2(3) have run: "TenantReconcile k fs kz (mg_tenant mg) key c1 = (c3, Inr Requeue)" by simp
  define t2 where "t2 = withSpec [tenantFinalizer] (tn_gateway t1) t1"
  have "mergeTenant t1 [tenantFinalizer] (tn_gateway t1) t1 = t2" using f(3) by (simp add: mergeTenant_def t2_def)
  then have v: "view c3 = putTenant t2 (view c1)" using c3(2) c2(1) st by (simp add: patchedTenant_def)
  have "nsnOf (tn_meta t2) = key" "\<not> om_deleting (tn_meta t2)" using st(2) f(2) by (simp_all add: t2_def withSpec_def nsnOf_def)
  then have "vw_tenants (view c3) key = Some t2" "vw_objects (view c3) = vw_objects (view c)"
    by (simp_all add: v putTenant_def c1(3) createdTenant_def)
  moreover have "hasTenantFinalizer t2" "tn_gateway t2 = tn_gateway t1" by (simp_all add: t2_def withSpec_def hasTenantFinalizer_def)
  moreover from this f(5) have "applyGatewayDefaults t2 = Inr t2" by (simp add: applyGatewayDefaults_def)
  ultimately show "\<exists>c1 c2 t. ensureDefaultTenant k create (mg_defaultTenant mg) c = (c1, Inr ()) \<and>
      TenantReconcile k fs kz (mg_tenant mg) key c1 = (c2, Inr Requeue) \<and>
      vw_tenants (view c2) key = Some t \<and> hasTenantFinalizer t \<and> applyGatewayDefaults t = Inr t \<and>
      tn_gateway t = \<lparr>gr_namespace = ''openshift-ingress'', gr_name = ''maas-default-gateway''\<rparr> \<and>
      vw_objects (view c2) = vw_objects (view c)"
    using c1(1) run f(5) unfolding ns by metis
qed

section \<open>An instance\<close>

definition std_createTenant :: "Tenant \<Rightarrow> (tenant_state, unit) call" where
  "std_createTenant t =
     down_or (\<lambda>d. if tenantAt d (nsnOf (tn_meta t)) \<noteq> None then (d, Inl ApiAlreadyExists)
       else (setTenant (nsnOf (tn_meta t)) (Some (t\<lparr>tn_uid := ''u1''\<rparr>)) d, Inr ()))"

interpretation tcr: tenant_creation tenant_std tview "\<lambda>s. \<not> td_down (fst s)" "tenant_files getenv" "std_kz (\<lambda>_. ret rs)"
  std_createTenant "\<lambda>_. ''u1''"
proof (unfold_locales, goal_cases)
  case (1 t)
  show ?case
    unfolding std_createTenant_def
  proof (rule down_or_writes)
    fix s :: tenant_state
    assume "vw_tenants (tview s) (nsnOf (tn_meta t)) = None"
    then have n: "tenantAt (fst s) (nsnOf (tn_meta t)) = None" by (simp add: tview_def)
    show "tview (fst (if tenantAt (fst s) (nsnOf (tn_meta t)) \<noteq> None then (fst s, Inl ApiAlreadyExists)
          else (setTenant (nsnOf (tn_meta t)) (Some (t\<lparr>tn_uid := ''u1''\<rparr>)) (fst s), Inr ())), snd s) =
        createdTenant (\<lambda>_. ''u1'') t (tview s) \<and>
      snd (if tenantAt (fst s) (nsnOf (tn_meta t)) \<noteq> None then (fst s, Inl ApiAlreadyExists)
          else (setTenant (nsnOf (tn_meta t)) (Some (t\<lparr>tn_uid := ''u1''\<rparr>)) (fst s), Inr ())) = Inr ()"
      using tview_set(1) [of "nsnOf (tn_meta t)" "Some (t\<lparr>tn_uid := ''u1''\<rparr>)" "fst s" "snd s"] n by (simp add: createdTenant_def tview_def)
  qed (auto simp: tview_def)
qed

definition freshCluster :: tenant_state where
  "freshCluster = (\<lparr>td_tenants = [], td_objects = [otherConfig], td_kinds = sampleKinds, td_down = False\<rparr>, [], [])"

theorem platform_bootstraps_witness:
  "\<exists>s1 s2 t. ensureDefaultTenant tenant_std std_createTenant ''models-as-a-service'' freshCluster = (s1, Inr ()) \<and>
     TenantReconcile tenant_std sampleFiles sampleKustomize (mg_tenant (buildManager defaultFlags [] ''/m'')) sampleKey s1 = (s2, Inr Requeue) \<and>
     vw_tenants (tview s2) sampleKey = Some t \<and> hasTenantFinalizer t"
proof -
  have p: "\<not> td_down (fst freshCluster)" "sampleKey = (mf_maasSubscriptionNamespace defaultFlags, TenantInstanceName)"
    "vw_tenants (tview freshCluster) sampleKey = None" "mg_defaultTenant (buildManager defaultFlags [] ''/m'') = ''models-as-a-service''"
    by (simp_all add: freshCluster_def sampleKey_def defaultFlags_def tview_def tenantAt_def buildManager_def)
  note run = platform_bootstraps [where aud = "[]" and path = "''/m''", OF tcr.tenant_creation_axioms p(1) refl p(2,3), unfolded p(4)]
  from conjunct2 [OF run] show ?thesis by blast
qed

theorem default_tenant_harmless_witness:
  "vw_tenants (tview (fst (defaultTenantTicks tenant_std std_createTenant id ''other'' 3 (endingState [])))) sampleKey = Some endingTenant"
  using default_tenant_harmless [OF tcr.tenant_creation_axioms endingTenant_stored, of id] by simp

end
