(* ===== verification/Spec2Isabelle.thy ===== *)
theory Spec2Isabelle
  imports Api_Key_Gen Api_Key_Handler Config Model_Access Subscription_Limits AuthPolicy_Rules ModelRef_Ready External_Routes Manager_Startup Api_Server
begin

text \<open>
  A verification development for \<^emph>\<open>models-as-a-service\<close>: a service that mints and checks API keys for
  large language models behind a Kubernetes gateway (\<open>src/maas-api\<close>), and a controller that turns the
  custom resources of an administrator into the gateway's authorization and rate-limit policies
  (\<open>src/maas-controller\<close>), both written in Go.

  \<^bold>\<open>How the parts interact.\<close> A user asks the API service for a key; the service resolves the subscription
  the key is bound to with the subscription selector, generates the key and stores only its salted hash
  in a \<open>MetadataStore\<close> (PostgreSQL, or the in-memory store of the tests). On every model request the
  gateway calls the service back to validate the key and to select the subscription, as told by the
  AuthPolicy that the controller generates from the MaaSAuthPolicies of the model, and counts tokens as
  told by the TokenRateLimitPolicy that the controller generates from the MaaSSubscriptions of the
  model. MaaSModelRefs say which model is served by which route and whether it is ready. The Tenant resource
  stands for the whole platform: the controller renders the manifests of the API service with kustomize,
  applies them and tears them down again with the Tenant.

  \<^bold>\<open>The language and its libraries.\<close>
  \<^item> \<open>Go_Prelude\<close>: strings as byte lists, slices as lists, \<open>int64\<close> with its wrap-around written out,
    \<open>map[string]any\<close> as nested association lists, \<open>sort.Slice\<close>, errors; the locale \<open>weak_order\<close> for
    comparators, interpreted at each one the code passes to a sort.
  \<^item> \<open>Go_Crypto\<close>: SHA-256 and hexadecimal encoding, executable. \<open>Go_Json\<close>: encoding and decoding of
    string slices in JSON, with UTF-8; what is encoded is read back.
  \<^item> \<open>K8s_Unstructured\<close>: the accessors of apimachinery's \<open>unstructured\<close> package, a parameter with its
    documented laws and one instance that satisfies them.

  \<^bold>\<open>The API service\<close> (\<open>src/maas-api/internal\<close>).
  \<^item> \<open>Api_Key_Gen\<close> (\<open>api_keys/keygen.go\<close>): key generation, parsing and hashing. The random bytes are
    arguments. Minted keys pass the format check and hash to the stored hash; base 62 reads back; distinct
    draws give distinct keys; sizes.
  \<^item> \<open>Api_Key_Store\<close> (\<open>types.go\<close>, \<open>store_interface.go\<close>): the metadata and the store interface as a record of
    functions; the locales \<open>key_lookup\<close>, \<open>key_lifecycle\<close> and \<open>metadata_store\<close> state its contract over an
    abstract view. \<open>Store_Mock\<close> (\<open>store_mock.go\<close>) and \<open>Store_Postgres\<close> (\<open>store_postgres.go\<close>, as the SQL
    statements it sends) interpret them. Database failures are part of the environment of each call.
  \<^item> \<open>Api_Key_Service\<close> (\<open>service.go\<close>): the service over any store. A step relation interleaves its
    operations, its background updates and failures: a revoked key is never accepted again. Created keys
    validate with the identity they were created with until they expire, whatever is done to other keys;
    validation accepts only stored, active, unexpired keys; the cleanup removes exactly the ephemeral keys
    long expired; lifetimes are bounded, and overflow for huge configured maxima; from the same keys the two
    stores answer alike and keep the same keys.
  \<^item> \<open>Identity\<close> (\<open>token/types.go\<close>, \<open>auth/sar_admin_checker.go\<close>) and \<open>Api_Key_Handler\<close> (\<open>handler.go\<close>): the
    HTTP handlers, complete with their error answers. Keys are shown and revoked only for their owner or an
    administrator, and a foreign key looks like a missing one.
  \<^item> \<open>Subscription_Selector\<close> (\<open>subscription/selector.go\<close>, \<open>types.go\<close>): parsing of the stored objects and
    all selection operations. A selected subscription is the caller's, includes the model and is healthy.
  \<^item> \<open>Token_Handler\<close> (\<open>token/handler.go\<close>) and \<open>Subscription_Handler\<close> (\<open>subscription/handler.go\<close>): the
    middleware reads the identity back from the gateway's headers; the selection endpoint fails closed; the
    listings show only the caller's subscriptions.
  \<^item> \<open>Model_Listing\<close> and \<open>Model_Access\<close> (\<open>handlers/models.go\<close>, \<open>models\<close>): the list of models with its
    concurrent access probes. The locale \<open>access_network\<close> holds what is assumed of the network and of the
    scheduling. A model is listed only where access was granted; merging equals a reference description
    and does not depend on the order in which probes finish.
  \<^item> \<open>Config\<close> (\<open>config/config.go\<close>, \<open>tls.go\<close>, \<open>constant/const.go\<close>): loading and validation. \<open>Api_Server\<close>
    (\<open>cmd/main.go\<close>, \<open>cmd/server.go\<close>, \<open>config/cluster_config.go\<close>, \<open>cert/cert.go\<close>, \<open>api_keys/db_driver.go\<close>): flags,
    clients, database, routes and the HTTP server. A server that listens has a valid configuration, speaks
    TLS as configured and serves no user route without the identity middleware.

  \<^bold>\<open>The controller\<close> (\<open>src/maas-controller\<close>).
  \<^item> \<open>Maas_Types\<close> (\<open>api/maas/v1alpha1\<close>): the custom resources.
  \<^item> \<open>K8s_Client\<close>: controller-runtime's client as a record of operations on an abstract cluster state. The
    locale \<open>api_server\<close> states what is documented of it: reads return stored objects or an error, writes
    store the object or report an error (and may then have taken effect all the same). \<open>healthy\<close> marks the
    states from which on no call fails; theorems about what a reconciliation achieves assume it, theorems
    about what it never does hold under all faults. \<open>std_client\<close> is an executable instance.
  \<^item> \<open>Model_Routes\<close> (\<open>helpers.go\<close>, \<open>annotations.go\<close>, \<open>providers*.go\<close>), \<open>Generated_Policies\<close> (what the
    reconcilers do alike with generated policies, and the policies they must not touch),
    \<open>Sample_Cluster\<close> (objects for witnesses).
  \<^item> \<open>Subscription_Controller\<close> and \<open>Subscription_Limits\<close> (\<open>maassubscription_controller.go\<close>): the stored
    policy limits exactly the live subscriptions with valid limits, reconciling a model's policy settles, policies of
    vanished models are removed, the reported phase is characterised.
  \<^item> \<open>AuthPolicy_Controller\<close> and \<open>AuthPolicy_Rules\<close> (\<open>maasauthpolicy_controller.go\<close>): the whole generated
    rule; the lists in the generated Rego read back to exactly the subjects of the live policies, subjects
    that could break out of an expression are refused, authorization caches are bounded.
  \<^item> \<open>ModelRef_Controller\<close> and \<open>ModelRef_Ready\<close> (\<open>maasmodelref_controller.go\<close>): a model becomes Ready only
    with a ready backend and an attached route; deletion removes its generated policies.
  \<^item> \<open>External_Model\<close> and \<open>External_Routes\<close> (\<open>pkg/reconciler/externalmodel\<close>): the four resources that lead
    to an external provider; the locale \<open>ext_server\<close> is the API server for them. A run without faults
    leaves exactly these resources as built, in the namespace of the model.
  \<^item> \<open>Tenant_Types\<close> (\<open>tenant_types.go\<close>, \<open>constants.go\<close>), \<open>Tenant_Render\<close> (\<open>postrender.go\<close>) and \<open>Tenant_Params\<close>
    (the parameters file of \<open>apply.go\<close>, \<open>kustomize.go\<close>) of \<open>pkg/platform/tenantreconcile\<close>: the file system and
    the kustomize build are parameters, with their laws in the locales \<open>param_files\<close> and \<open>kustomize\<close>. The
    rewritten parameters read back as intended, every built resource is placed and labelled, the external
    OIDC provider is enforced, the configuration hash follows the configuration.
  \<^item> \<open>Tenant_Finalize\<close> (\<open>tenant_finalize.go\<close>, and the locale \<open>tenant_server\<close> for its API server) and
    \<open>Tenant_Controller\<close> (\<open>tenant_controller.go\<close>, \<open>tenant_conditions.go\<close>, \<open>tenant_reconcile.go\<close>, \<open>prerequisites.go\<close>,
    \<open>ApplyRendered\<close>, \<open>pipeline.go\<close>): the whole reconciliation of a Tenant. \<open>Tenant_Safety\<close> with the locale
    \<open>tenant_platform\<close> and \<open>Tenant_Lifecycle\<close>: the finalizer guards the owned objects, the teardown spares all
    others and ends, what is applied is tracked; \<open>Tenant_Ready\<close>: Ready is reported for good reason.
    \<open>Tenant_Std\<close> is an executable server, \<open>Tenant_Samples\<close> holds runs on it.
  \<^item> \<open>Manager_Namespace\<close> and \<open>Manager_Startup\<close> (\<open>cmd/manager/main.go\<close>): the namespace of the subscriptions, which
    is created, kept and brought back from deletion; the settings of the reconcilers and the default Tenant.
    The polling helpers are the locale \<open>wait_lib\<close>, the API server for namespaces \<open>ns_server\<close>, a cluster that
    finishes deletions \<open>ns_cluster\<close>, one that creates Tenants \<open>tenant_creation\<close>. An empty cluster gets its
    Tenant, which the Tenant controller then takes over.
  \<^item> This theory: the three reconcilers interleaved leave foreign and opted-out policies alone.

  \<^bold>\<open>Bounds and termination.\<close> No definition uses fuel: the loops of the sources run over finite slices, and
  the base-62 loop ends because the number decreases. The polling helpers are parameters; \<open>wait_lib\<close> says of
  them only what is documented: immediate polling tries its condition at least once and a number of times
  that is not fixed, the backoff at most as often as it has steps. The endless loops of the manager's two background tasks take the number of ticks before the
  process ends, and their theorems hold for every number. Integers are unbounded where the source cannot overflow
  and wrap at 64 bits where it can (durations, limits).

  \<^bold>\<open>Not modelled.\<close> Logging and metrics; the registration of watches and indexes with controller-runtime
  (\<open>SetupWithManager\<close>; the functions watches call are modelled) and the caches themselves; the texts of the
  migrations; the kustomize build; generated deep copies, as values are immutable here; declarations
  without operations (\<open>types/usage.go\<close>); test fixtures; resource versions and conflicts beyond a write that
  reports an error. Reads are current, and one reconciliation runs without other writers.
\<close>

section \<open>The controllers together\<close>

text \<open>The manager runs the three reconcilers and the scan for duplicate priorities in any order, each on
  any request, while the rest of the cluster may do anything that leaves the generated kinds alone.\<close>

inductive controller_step ::
  "'c client \<Rightarrow> ('c \<Rightarrow> world) \<Rightarrow> MaaSAuthPolicyReconciler \<Rightarrow> MaaSModelRefReconciler \<Rightarrow> 'c \<Rightarrow> 'c \<Rightarrow> bool"
  for k view ar mr where
  subscription: "controller_step k view ar mr c (fst (Reconcile k req c))"
| scan: "controller_step k view ar mr c (fst (scanForDuplicatePriority k c))"
| authpolicy: "controller_step k view ar mr c (fst (AuthPolicy_Reconcile k ar req c))"
| modelref: "controller_step k view ar mr c (fst (ModelRef_Reconcile k mr req c))"
| others: "w_policies (view c') = w_policies (view c) \<Longrightarrow> controller_step k view ar mr c c'"

lemma controller_step_protects:
  assumes "api_server k view healthy" "controller_step k view ar mr c c'"
    and "protectedKept ps0 (w_policies (view c))"
  shows "protectedKept ps0 (w_policies (view c'))"
  using assms(2)
proof cases
  case (subscription req)
  show ?thesis unfolding subscription(1) by (rule stays_fst [OF api_server.Reconcile_sub_keeps [OF assms(1)] assms(3)])
next
  case scan
  show ?thesis unfolding scan by (rule stays_fst [OF api_server.scanForDuplicatePriority_keeps [OF assms(1)] assms(3)])
next
  case (authpolicy req)
  show ?thesis unfolding authpolicy(1) by (rule stays_fst [OF api_server.AuthPolicy_Reconcile_keeps [OF assms(1)] assms(3)])
next
  case (modelref req)
  show ?thesis unfolding modelref(1) by (rule stays_fst [OF api_server.ModelRef_Reconcile_keeps [OF assms(1)] assms(3)])
next
  case others
  with assms(3) show ?thesis by simp
qed

text \<open>C5: Whatever faults the API server produces, and however the three reconcilers and the scan
  interleave with changes to other resources, a Kuadrant policy that opted out of management by its
  annotation, or that is neither labelled as managed by the controller nor named like a generated
  policy, stays in the cluster exactly as it is.\<close>

theorem protected_policies_untouched:
  assumes "api_server k view healthy"
    and "(controller_step k view ar mr)\<^sup>*\<^sup>* c c'"
    and "w_policies (view c) g key = Some p" and "protectedPolicy g p"
  shows "w_policies (view c') g key = Some p"
proof -
  from assms(2) have "protectedKept (w_policies (view c)) (w_policies (view c'))"
  proof (induction rule: rtranclp_induct)
    case base
    show ?case by (rule protectedKept_refl)
  next
    case (step y z)
    from controller_step_protects [OF assms(1) step.hyps(2) step.IH] show ?case .
  qed
  with assms(3,4) show ?thesis unfolding protectedKept_def by blast
qed

text \<open>An administrator's own version of a generated policy survives the deletion of its model.\<close>

definition keptPolicy :: policy where
  "keptPolicy =
     \<lparr>gp_meta = newMeta ''maas-auth-granite'' ''llm''
        [(''maas.opendatahub.io/model'', ''granite''), (''app.kubernetes.io/managed-by'', ''maas-controller'')]
        [(ManagedByODHOperator, ''false'')],
      gp_owner = None, gp_spec = [], gp_status = None\<rparr>"

theorem protected_policies_untouched_witness:
  "let d = withPolicies AuthPolicyKind [keptPolicy] deletingDb;
       d1 = fst (Reconcile std_client (''maas'', ''gold'') d);
       d2 = fst (ModelRef_Reconcile std_client modelReconciler (''llm'', ''granite'') d1)
   in w_policies (db_view d2) AuthPolicyKind (''llm'', ''maas-auth-granite'') = Some keptPolicy"
  unfolding Let_def
proof (rule protected_policies_untouched [OF std.api_server_axioms])
  let ?d = "withPolicies AuthPolicyKind [keptPolicy] deletingDb"
  show "(controller_step std_client db_view authReconciler modelReconciler)\<^sup>*\<^sup>* ?d
      (fst (ModelRef_Reconcile std_client modelReconciler (''llm'', ''granite'')
         (fst (Reconcile std_client (''maas'', ''gold'') ?d))))"
    by (rule rtranclp.rtrancl_into_rtrancl [OF r_into_rtranclp], rule subscription, rule modelref)
  have "tidy gp_meta (policiesOf ?d AuthPolicyKind) (''llm'', ''maas-auth-granite'') = Some keptPolicy" by code_simp
  then show "w_policies (db_view ?d) AuthPolicyKind (''llm'', ''maas-auth-granite'') = Some keptPolicy"
    by (simp only: db_view_fields)
  show "protectedPolicy AuthPolicyKind keptPolicy"
    by (simp add: protectedPolicy_def keptPolicy_def isManaged_def newMeta_def)
qed

end
